(* ===== verification/FS_Prelude.thy ===== *)
theory FS_Prelude
  imports Main "HOL-Library.Word" "HOL-Library.Multiset"
begin

text \<open>
  Shared vocabulary of the development: Go's fixed-width integers as words, byte strings,
  the named collections of rewrite rules the component theories extend, and the generic
  lemmas on words, intervals of block numbers and lists that several components use.
\<close>

section \<open>Machine types\<close>

type_synonym u64 = "64 word"
type_synonym i64 = "64 word"
type_synonym i32 = "32 word"
type_synonym u32 = "32 word"
type_synonym u16 = "16 word"
type_synonym bytes = "8 word list"

text \<open>\<open>math.MaxUint64\<close>.\<close>

abbreviation MaxUint64 :: u64 where
  "MaxUint64 \<equiv> - 1"

named_theorems tag_simps \<open>denotation of tags and requests\<close>
named_theorems wal_simps \<open>unfolding of write-ahead-log operations\<close>
named_theorems wal_inv \<open>preservation of the write-ahead-log invariant\<close>
named_theorems lru_simps \<open>heap-level facts of the LRU cache\<close>

section \<open>Words as block numbers\<close>

lemma word_less_max: "(x :: u64) < y \<Longrightarrow> x \<noteq> MaxUint64"
  using word_order.not_eq_extremum by fastforce

lemma unat_lt: "unat (x :: u64) < 2 ^ 64"
  using unsigned_less [of x] by simp

lemma unat_max: "unat MaxUint64 = 2 ^ 64 - 1"
  by (simp add: unsigned_minus_1_eq_mask mask_eq_exp_minus_1)

lemma unat_inj: "unat x = unat y \<Longrightarrow> x = (y :: u64)"
  by (simp add: word_unat_eq_iff)

lemma unat_plus1: "x \<noteq> MaxUint64 \<Longrightarrow> unat (x + 1 :: u64) = Suc (unat x)"
  using unatSuc [of x] by (metis add.commute add_eq_0_iff)

lemma unat_plus1_less: "(x :: u64) < y \<Longrightarrow> unat (x + 1) = Suc (unat x)"
  by (simp add: unat_plus1 word_less_max)

lemma plus1_le_iff: "x \<noteq> MaxUint64 \<Longrightarrow> (x + 1 \<le> y) = ((x :: u64) < y)"
  by (simp add: word_le_nat_alt word_less_nat_alt unat_plus1 Suc_le_eq)

lemma less_plus1_iff: "x \<noteq> MaxUint64 \<Longrightarrow> (y < x + 1) = (y \<le> (x :: u64))"
  by (simp add: word_le_nat_alt word_less_nat_alt unat_plus1 less_Suc_eq_le)

lemma unat_diff_le: "(s :: u64) \<le> e \<Longrightarrow> unat (e - s) = unat e - unat s"
  by (simp add: unat_sub)

text \<open>The size \<open>e - s + 1\<close> of the closed range \<open>[s, e]\<close>, computed in \<open>uint64\<close>.\<close>

lemma unat_range_size:
  assumes "(s :: u64) \<le> e" and "\<not> (s = 0 \<and> e = MaxUint64)"
  shows "unat (e - s + 1) = Suc (unat e - unat s)"
proof -
  have "e - s \<noteq> MaxUint64"
  proof
    assume "e - s = MaxUint64"
    then have "unat e - unat s = 2 ^ 64 - 1"
      using unat_diff_le [OF assms(1)] unat_max by simp
    moreover have "unat e < 2 ^ 64"
      by (rule unat_lt)
    moreover have "unat s \<le> unat e"
      using assms(1) by (simp add: word_le_nat_alt)
    ultimately have "unat e = 2 ^ 64 - 1" and "unat s = 0"
      by simp_all
    then have "e = MaxUint64" and "s = 0"
      using unat_max unat_inj [of e MaxUint64] unat_inj [of s 0] by simp_all
    with assms(2) show False by simp
  qed
  then show ?thesis
    by (simp add: unat_plus1 unat_diff_le [OF assms(1)])
qed

lemma card_word_range: "card {s .. e :: u64} = (if s \<le> e then Suc (unat e - unat s) else 0)"
proof -
  have inj: "inj_on unat {s .. e}"
    by (rule inj_onI) (rule unat_inj)
  have "unat ` {s .. e} = {unat s .. unat e}"
  proof
    show "unat ` {s .. e} \<subseteq> {unat s .. unat e}"
      by (auto simp: word_le_nat_alt)
    show "{unat s .. unat e} \<subseteq> unat ` {s .. e}"
    proof
      fix n assume n: "n \<in> {unat s .. unat e}"
      then have "n < 2 ^ LENGTH(64)"
        using unat_lt [of e] by simp
      then have "unat (word_of_nat n :: u64) = n"
        by (simp add: unat_of_nat)
      with n have "word_of_nat n \<in> {s .. e}"
        by (auto simp: word_le_nat_alt)
      with \<open>unat (word_of_nat n :: u64) = n\<close> show "n \<in> unat ` {s .. e}"
        by (metis imageI)
    qed
  qed
  with inj have "card {s .. e} = card {unat s .. unat e}"
    by (metis card_image)
  then show ?thesis
    by (auto simp: word_le_nat_alt)
qed

lemma word_range_split:
  assumes "(s :: u64) \<le> m" and "m < e"
  shows "{s .. e} = {s .. m} \<union> {m + 1 .. e}"
proof -
  have "m \<noteq> MaxUint64" using assms(2) by (rule word_less_max)
  then have "{m + 1 .. e} = {m <.. e}"
    by (simp add: set_eq_iff plus1_le_iff)
  with assms show ?thesis
    by (simp add: ivl_disj_un_two(8) less_imp_le)
qed

lemma word_range_snoc:
  assumes "(s :: u64) \<le> e" and "e \<noteq> MaxUint64"
  shows "{s .. e + 1} = insert (e + 1) {s .. e}"
proof -
  have "e < e + 1" using assms(2) by (simp add: less_plus1_iff)
  from word_range_split [OF assms(1) this] show ?thesis by simp
qed

section \<open>Lists\<close>

lemma sorted_wrt_concat_order:
  "sorted_wrt P (xs @ ys) \<longleftrightarrow> sorted_wrt P xs \<and> sorted_wrt P ys \<and> (\<forall>x\<in>set xs. \<forall>y\<in>set ys. P x y)"
  by (simp add: sorted_wrt_append)

lemma mset_concat_sum_list: "mset (concat xss) = sum_list (map mset xss)"
  by (induction xss) auto

lemma set_concat_Union_map: "(\<Union>x\<in>set xs. set (f x)) = set (concat (map f xs))"
  by auto

section \<open>Strings\<close>

definition lower_char :: "char \<Rightarrow> char" where
  "lower_char c = (let n = of_char c :: nat in if 65 \<le> n \<and> n \<le> 90 then char_of (n + 32) else c)"

text \<open>\<open>strings.ToLower\<close> on the ASCII strings used for addresses, \<open>strings.HasPrefix\<close>, \<open>big.Int.String\<close>.\<close>

definition ToLower :: "string \<Rightarrow> string" where
  "ToLower s = map lower_char s"

definition HasPrefix :: "string \<Rightarrow> string \<Rightarrow> bool" where
  "HasPrefix s p \<longleftrightarrow> take (length p) s = p"

fun show_nat :: "nat \<Rightarrow> string" where
  "show_nat n = (if n < 10 then [char_of (48 + n)] else show_nat (n div 10) @ [char_of (48 + n mod 10)])"

declare show_nat.simps [simp del]

definition show_int :: "int \<Rightarrow> string" where
  "show_int i = (if i < 0 then CHR ''-'' # show_nat (nat (- i)) else show_nat (nat i))"

section \<open>Go's int\<close>

text \<open>The value of a 64-bit signed result \<open>x\<close>.\<close>

definition go_int :: "int \<Rightarrow> int" where
  "go_int x = (x + 2 ^ 63) mod 2 ^ 64 - 2 ^ 63"

lemma go_int_id: "- (2 ^ 63) \<le> x \<Longrightarrow> x < 2 ^ 63 \<Longrightarrow> go_int x = x"
  by (simp add: go_int_def)

end
