(* ===== verification/FS_Types.thy ===== *)
theory FS_Types
  imports FS_Prelude
begin

text \<open>
  The data the components exchange: the protobuf messages of \<open>common/proto\<close> and the domain
  structs of \<open>common/types\<close> that the modelled code reads or writes. A message field that the
  code tests against \<open>nil\<close> is an \<open>option\<close>; a repeated field is a list; a protobuf
  map is a partial function. A record field is named \<open>Type_Field\<close> after the Go field.
\<close>

section \<open>Phase constants (common/types/constants/constants.go)\<close>

definition FAILURE :: string where "FAILURE = ''failure''"
definition HEADER_SYNC_REQUEST :: string where
  "HEADER_SYNC_REQUEST = ''state:headersync:headersyncrequest''"
definition HEADER_SYNC_RESPONSE :: string where
  "HEADER_SYNC_RESPONSE = ''state:headersync:headersyncresponse''"
definition DATA_SYNC_REQUEST :: string where
  "DATA_SYNC_REQUEST = ''state:datasync:datasyncrequest''"
definition DATA_SYNC_RESPONSE :: string where
  "DATA_SYNC_RESPONSE = ''state:datasync:datasyncresponse''"
definition SUCCESS :: string where "SUCCESS = ''success''"
definition UNKNOWN :: string where "UNKNOWN = ''unknown''"
definition SYNC_REQUEST_PHASE :: string where "SYNC_REQUEST_PHASE = ''state:priorsync:syncrequest''"
definition SYNC_REQUEST_RESPONSE :: string where
  "SYNC_REQUEST_RESPONSE = ''state:priorsync:syncrequestresponse''"
definition FULL_SYNC_REQUEST :: string where "FULL_SYNC_REQUEST = ''state:priorsync:fullsyncrequest''"
definition MERGE_REQUEST :: string where "MERGE_REQUEST = ''state:merge:mergerequest''"
definition REQUEST_MERKLE_PHASE :: string where "REQUEST_MERKLE_PHASE = ''state:merkle:merklerequest''"
definition RESPONSE_MERKLE :: string where "RESPONSE_MERKLE = ''state:merkle:merkleresponse''"
definition AVAILABILITY_RESPONSE :: string where
  "AVAILABILITY_RESPONSE = ''state:availability:availabilityresponse''"
definition PoTS_REQUEST :: string where
  "PoTS_REQUEST = ''state:pots:potsrequest''"
definition PoTS_RESPONSE :: string where
  "PoTS_RESPONSE = ''state:pots:potsresponse''"
definition MAX_HEADERS_PER_REQUEST :: u64 where "MAX_HEADERS_PER_REQUEST = 1500"
definition MAX_DATA_PER_REQUEST :: u64 where "MAX_DATA_PER_REQUEST = 30"
definition MIN_BLOCKS :: u64 where "MIN_BLOCKS = 500"
definition ATMOST_ACCOUNT_ROUTINES :: nat where "ATMOST_ACCOUNT_ROUTINES = 3"

section \<open>Messages\<close>

record Auth =
  Auth_UUID :: string

record Ack =
  Ack_Ok :: bool
  Ack_Error :: string

record Phase =
  Phase_PresentPhase :: string
  Phase_SuccessivePhase :: string
  Phase_Success :: bool
  Phase_Error :: string
  Phase_Auth :: "Auth option"

record RangeTag =
  RangeTag_Start :: u64
  RangeTag_End :: u64

record Tag =
  Tag_BlockNumber :: "u64 list"
  Tag_Range :: "RangeTag list"

record TaggedAccounts =
  TaggedAccounts_Accounts :: "(string \<rightharpoonup> bool) option"

record HeaderSyncRequest =
  HeaderSyncRequest_Tag :: "Tag option"
  HeaderSyncRequest_Ack :: "Ack option"
  HeaderSyncRequest_Phase :: "Phase option"

record DataSyncRequest =
  DataSyncRequest_Tag :: "Tag option"
  DataSyncRequest_Version :: u32
  DataSyncRequest_Ack :: "Ack option"
  DataSyncRequest_Phase :: "Phase option"

text \<open>\<open>blockpb.Header\<close>, complete; addresses and hashes are byte strings.\<close>

record Header =
  Header_ProofHash :: string
  Header_Status :: string
  Header_TxnsRoot :: string
  Header_Timestamp :: i64
  Header_ExtraData :: string
  Header_StateRoot :: bytes
  Header_CoinbaseAddr :: bytes
  Header_ZkvmAddr :: bytes
  Header_PrevHash :: bytes
  Header_BlockHash :: bytes
  Header_GasLimit :: u64
  Header_GasUsed :: u64
  Header_BlockNumber :: u64
  Header_LogsBloom :: bytes

record HeaderSyncResponse =
  HeaderSyncResponse_Header :: "Header list"
  HeaderSyncResponse_Ack :: "Ack option"
  HeaderSyncResponse_Phase :: "Phase option"

text \<open>
  A Go map that is iterated is the association list of its entries in some order, with distinct keys;
  \<open>map_of\<close> reads it and \<open>AList.update\<close> assigns.
\<close>

type_synonym hash_map = "(u64 \<times> bytes) list"

record PoTSRequest =
  PoTSRequest_Blocks :: hash_map
  PoTSRequest_LatestBlockNumber :: u64
  PoTSRequest_Phase :: "Phase option"

record PoTSResponse =
  PoTSResponse_Tag :: "Tag option"
  PoTSResponse_LatestBlockNumber :: u64
  PoTSResponse_Phase :: "Phase option"

record Range =
  Range_Start :: u64
  Range_End :: u64

record NodeInfo =
  NodeInfo_PeerId :: bytes
  NodeInfo_Multiaddrs :: "bytes list"
  NodeInfo_Capabilities :: "string list"
  NodeInfo_PublicKey :: bytes
  NodeInfo_Version :: u32
  NodeInfo_Protocol :: string

text \<open>\<open>availabilitypb.AvailabilityResponse\<close>; \<open>'n\<close> is the node information it carries.\<close>

record 'n AvailabilityResponse =
  AvailabilityResponse_IsAvailable :: bool
  AvailabilityResponse_Nodeinfo :: 'n
  AvailabilityResponse_BlockMerge :: u32
  AvailabilityResponse_Auth :: "Auth option"
  AvailabilityResponse_Phase :: "Phase option"
  AvailabilityResponse_BlockHeight :: u64

text \<open>
  The Merkle messages. A pointer to a snapshot node is a value of the datatype, \<open>pb_nil\<close> for nil.
\<close>

record SnapshotConfig_pb =
  pbConfig_BlockMerge :: i32
  pbConfig_ExpectedTotal :: u64

datatype SnapshotNode_pb =
    pb_nil
  | pb_node (pb_Left: SnapshotNode_pb) (pb_Right: SnapshotNode_pb) (pb_Root: bytes) (pb_Start: u64)
      (pb_Count: u32) (pb_Data: bytes) (pb_HasData: bool)

record MerkleSnapshot =
  MerkleSnapshot_Version :: i32
  MerkleSnapshot_Config :: "SnapshotConfig_pb option"
  MerkleSnapshot_TotalBlocks :: u64
  MerkleSnapshot_ExpectedNextHeight :: u64
  MerkleSnapshot_EnforceHeights :: bool
  MerkleSnapshot_InChunkElems :: "bytes list"
  MerkleSnapshot_InChunkStart :: u64
  MerkleSnapshot_Peaks :: "SnapshotNode_pb list"

record MerkleRequest =
  MerkleRequest_Start :: u64
  MerkleRequest_End :: u64
  MerkleRequest_Config :: "SnapshotConfig_pb option"

record MerkleMessage =
  MerkleMessage_Snapshot :: "MerkleSnapshot option"
  MerkleMessage_Ack :: "Ack option"
  MerkleMessage_Phase :: "Phase option"

record MerkleRequestMessage =
  MerkleRequestMessage_Request :: "MerkleRequest option"
  MerkleRequestMessage_Ack :: "Ack option"
  MerkleRequestMessage_Phase :: "Phase option"

text \<open>\<open>types.PriorSync\<close> (the local block details) and the messages of the prior sync.\<close>

record PriorSync_details =
  Details_Blocknumber :: u64
  Details_Stateroot :: bytes
  Details_Blockhash :: bytes
  Details_Range :: "Range option"
  Details_Version :: u16

record Metadata =
  Metadata_Checksum :: bytes
  Metadata_Version :: u32
  Metadata_Nodeinfo :: "NodeInfo option"

record PriorSync_pb =
  PriorSync_Blocknumber :: u64
  PriorSync_Stateroot :: bytes
  PriorSync_Blockhash :: bytes
  PriorSync_Metadata :: "Metadata option"
  PriorSync_Merklesnapshot :: "MerkleSnapshot option"
  PriorSync_Range :: "Range option"

record PriorSyncMessage =
  PriorSyncMessage_Priorsync :: "PriorSync_pb option"
  PriorSyncMessage_Ack :: "Ack option"
  PriorSyncMessage_Phase :: "Phase option"
  PriorSyncMessage_Headersync :: "HeaderSyncRequest option"

text \<open>
  \<open>blockpb.NonHeaders\<close>: the sender and receiver of each transaction (nil when its \<open>Tx\<close> is) and the rest,
  \<open>'b\<close>, which no code reads.
\<close>

record pbTransaction =
  pbTransaction_From :: bytes
  pbTransaction_To :: bytes

record 'b NonHeaders =
  NonHeaders_BlockNumber :: u64
  NonHeaders_Transactions :: "pbTransaction option list"
  NonHeaders_Body :: 'b

record 'b DataSyncResponse =
  DataSyncResponse_Data :: "'b NonHeaders list"
  DataSyncResponse_Version :: u32
  DataSyncResponse_Taggedaccounts :: "TaggedAccounts option"
  DataSyncResponse_Ack :: "Ack option"
  DataSyncResponse_Phase :: "Phase option"

section \<open>Blocks and the block store\<close>

text \<open>\<open>types.ZKBlock\<close>: the number, the hash, and the rest of it as \<open>'b\<close>.\<close>

record 'b ZKBlock =
  ZKBlock_BlockNumber :: u64
  ZKBlock_BlockHash :: bytes
  ZKBlock_Content :: 'b

text \<open>
  \<open>types.BlockInfo\<close>, the block store of the node, is the application's code and a parameter of every
  component that reads it. An error is its text. The iterator is the list of what its calls of \<open>Next\<close>
  return before the nil batch; of its blocks only the number and the hash are ever read. The non-header
  content is of type \<open>'b\<close>.
\<close>

record 'b BlockInfo =
  GetBlockNumber :: u64
  GetBlockDetails :: PriorSync_details
  NewBlockIterator :: "u64 \<Rightarrow> u64 \<Rightarrow> nat \<Rightarrow> (string + unit ZKBlock list) list"
  GetBlockHeaders :: "u64 list \<Rightarrow> string + Header list"
  GetBlockHeadersRange :: "u64 \<Rightarrow> u64 \<Rightarrow> string + Header list"
  GetBlockNonHeaders :: "u64 list \<Rightarrow> string + 'b NonHeaders list"
  GetBlockNonHeadersRange :: "u64 \<Rightarrow> u64 \<Rightarrow> string + 'b NonHeaders list"

text \<open>The protobuf zero values the constructors start from.\<close>

definition empty_Tag :: Tag where
  "empty_Tag = \<lparr>Tag_BlockNumber = [], Tag_Range = []\<rparr>"

definition empty_Phase :: Phase where
  "empty_Phase = \<lparr>Phase_PresentPhase = [], Phase_SuccessivePhase = [], Phase_Success = False,
     Phase_Error = [], Phase_Auth = None\<rparr>"

section \<open>The blocks a tag denotes\<close>

text \<open>
  A tag is a compressed set of block numbers: the closed ranges and the single numbers.
  This denotation is the specification every producer and consumer of tags is compared with.
\<close>

definition range_blocks :: "RangeTag \<Rightarrow> u64 set" where
  "range_blocks r = {RangeTag_Start r .. RangeTag_End r}"

definition tag_blocks :: "Tag \<Rightarrow> u64 set" where
  "tag_blocks t = (\<Union>r\<in>set (Tag_Range t). range_blocks r) \<union> set (Tag_BlockNumber t)"

text \<open>How many headers a tag asks for, ranges counted with multiplicity.\<close>

definition range_size :: "RangeTag \<Rightarrow> nat" where
  "range_size r = card (range_blocks r)"

definition tag_size :: "Tag \<Rightarrow> nat" where
  "tag_size t = sum_list (map range_size (Tag_Range t)) + length (Tag_BlockNumber t)"

lemma tag_blocks_empty [tag_simps, simp]: "tag_blocks empty_Tag = {}"
  by (simp add: tag_blocks_def empty_Tag_def)

lemma tag_size_empty [tag_simps, simp]: "tag_size empty_Tag = 0"
  by (simp add: tag_size_def empty_Tag_def)

lemma tag_blocks_snoc_range [tag_simps]:
  "tag_blocks (t\<lparr>Tag_Range := Tag_Range t @ [r]\<rparr>) = tag_blocks t \<union> range_blocks r"
  by (auto simp: tag_blocks_def)

lemma tag_blocks_snoc_number [tag_simps]:
  "tag_blocks (t\<lparr>Tag_BlockNumber := Tag_BlockNumber t @ [b]\<rparr>) = insert b (tag_blocks t)"
  by (auto simp: tag_blocks_def)

lemma tag_size_snoc_range [tag_simps]:
  "tag_size (t\<lparr>Tag_Range := Tag_Range t @ [r]\<rparr>) = tag_size t + range_size r"
  by (simp add: tag_size_def)

lemma tag_size_snoc_number [tag_simps]:
  "tag_size (t\<lparr>Tag_BlockNumber := Tag_BlockNumber t @ [b]\<rparr>) = Suc (tag_size t)"
  by (simp add: tag_size_def)

lemma range_size_eq:
  "range_size r = (if RangeTag_Start r \<le> RangeTag_End r
     then Suc (unat (RangeTag_End r) - unat (RangeTag_Start r)) else 0)"
  by (simp add: range_size_def range_blocks_def card_word_range)

text \<open>A range whose \<open>uint64\<close> size \<open>End - Start + 1\<close> is its real size.\<close>

definition sized_range :: "RangeTag \<Rightarrow> bool" where
  "sized_range r \<longleftrightarrow> RangeTag_Start r \<le> RangeTag_End r \<and>
     \<not> (RangeTag_Start r = 0 \<and> RangeTag_End r = MaxUint64)"

lemma unat_sized_range:
  "sized_range r \<Longrightarrow> unat (RangeTag_End r - RangeTag_Start r + 1) = range_size r"
  by (simp add: sized_range_def unat_range_size range_size_eq)

end
