(* ===== verification/FS_Tagging.thy ===== *)
theory FS_Tagging
  imports FS_Types
begin

text \<open>
  \<open>core/protocol/tagging/tag.go\<close>: the mutable builder of block tags and account tags, and
  \<open>DivideTags\<close> of \<open>core/protocol/router/helper/helper.go\<close>. A method on \<open>*Tagging\<close>
  returns the updated builder; a nil dereference is the value \<open>None\<close>.
\<close>

record Tagging =
  Tagging_Tag :: Tag
  Tagging_AccountTag :: "TaggedAccounts option"

definition NewTagging :: Tagging where
  "NewTagging = \<lparr>Tagging_Tag = empty_Tag,
     Tagging_AccountTag = Some \<lparr>TaggedAccounts_Accounts = None\<rparr>\<rparr>"

definition TagBlock :: "Tagging \<Rightarrow> u64 \<Rightarrow> Tagging" where
  "TagBlock t block = t\<lparr>Tagging_Tag := (Tagging_Tag t)
     \<lparr>Tag_BlockNumber := Tag_BlockNumber (Tagging_Tag t) @ [block]\<rparr>\<rparr>"

definition TagRange :: "Tagging \<Rightarrow> u64 \<Rightarrow> u64 \<Rightarrow> Tagging" where
  "TagRange t start end = t\<lparr>Tagging_Tag := (Tagging_Tag t)
     \<lparr>Tag_Range := Tag_Range (Tagging_Tag t) @ [\<lparr>RangeTag_Start = start, RangeTag_End = end\<rparr>]\<rparr>\<rparr>"

definition TagAccounts :: "Tagging \<Rightarrow> string \<Rightarrow> Tagging" where
  "TagAccounts t account =
     (let at = (case Tagging_AccountTag t of None \<Rightarrow> \<lparr>TaggedAccounts_Accounts = None\<rparr> | Some a \<Rightarrow> a);
          m = (case TaggedAccounts_Accounts at of None \<Rightarrow> Map.empty | Some m \<Rightarrow> m)
      in t\<lparr>Tagging_AccountTag := Some (at\<lparr>TaggedAccounts_Accounts := Some (m(account \<mapsto> True))\<rparr>)\<rparr>)"

definition GetAccountTag :: "Tagging \<Rightarrow> TaggedAccounts option" where
  "GetAccountTag t = Tagging_AccountTag t"

text \<open>A read of a nil map gives the zero value; only a nil \<open>AccountTag\<close> panics.\<close>

definition GetAccount :: "Tagging \<Rightarrow> string \<Rightarrow> bool option" where
  "GetAccount t key = (case Tagging_AccountTag t of None \<Rightarrow> None
     | Some at \<Rightarrow> Some (case TaggedAccounts_Accounts at of None \<Rightarrow> False
         | Some m \<Rightarrow> (case m key of None \<Rightarrow> False | Some b \<Rightarrow> b)))"

text \<open>
  The loop of \<open>DivideTags\<close>: \<open>i += chunkSize\<close> is \<open>uint64\<close> addition, so for an \<open>end\<close> within a
  chunk of \<open>MaxUint64\<close> the counter wraps and the loop need not stop.
\<close>

partial_function (option) DivideTags_loop ::
  "u64 \<Rightarrow> u64 \<Rightarrow> RangeTag list \<Rightarrow> RangeTag list option" where
  "DivideTags_loop i end ranges =
     (if i \<le> end then
        let c = i + MAX_HEADERS_PER_REQUEST - 1;
            chunkEnd = (if c > end then end else c)
        in DivideTags_loop (i + MAX_HEADERS_PER_REQUEST) end
             (ranges @ [\<lparr>RangeTag_Start = i, RangeTag_End = chunkEnd\<rparr>])
      else Some ranges)"

definition DivideTags :: "u64 \<Rightarrow> u64 \<Rightarrow> Tag option" where
  "DivideTags start end =
     map_option (\<lambda>rs. empty_Tag\<lparr>Tag_Range := rs\<rparr>) (DivideTags_loop start end [])"

section \<open>The builder adds exactly what it is told\<close>

definition tagging_blocks :: "Tagging \<Rightarrow> u64 set" where
  "tagging_blocks t = tag_blocks (Tagging_Tag t)"

lemma tagging_blocks_simps [tag_simps, simp]:
  "tagging_blocks NewTagging = {}"
  "tagging_blocks (TagBlock t b) = insert b (tagging_blocks t)"
  "tagging_blocks (TagRange t s e) = tagging_blocks t \<union> {s .. e}"
  "tagging_blocks (TagAccounts t a) = tagging_blocks t"
  by (simp_all add: tagging_blocks_def NewTagging_def TagBlock_def TagRange_def TagAccounts_def
      Let_def tag_simps range_blocks_def)

lemma Tagging_Tag_simps [tag_simps, simp]:
  "Tag_Range (Tagging_Tag (TagRange t s e)) =
     Tag_Range (Tagging_Tag t) @ [\<lparr>RangeTag_Start = s, RangeTag_End = e\<rparr>]"
  "Tag_BlockNumber (Tagging_Tag (TagRange t s e)) = Tag_BlockNumber (Tagging_Tag t)"
  "Tag_Range (Tagging_Tag (TagBlock t b)) = Tag_Range (Tagging_Tag t)"
  "Tag_BlockNumber (Tagging_Tag (TagBlock t b)) = Tag_BlockNumber (Tagging_Tag t) @ [b]"
  "Tag_Range (Tagging_Tag NewTagging) = []"
  "Tag_BlockNumber (Tagging_Tag NewTagging) = []"
  by (simp_all add: TagRange_def TagBlock_def NewTagging_def empty_Tag_def)

lemma GetAccount_TagAccounts:
  "GetAccount (TagAccounts t a) k =
     (if k = a then Some True
      else if Tagging_AccountTag t = None then Some False else GetAccount t k)"
  by (auto simp: GetAccount_def TagAccounts_def Let_def split: option.splits)

lemma GetAccount_None: "Tagging_AccountTag t = None \<Longrightarrow> GetAccount t k = None"
  by (simp add: GetAccount_def)

lemma AccountTag_TagAccounts [simp]: "Tagging_AccountTag (TagAccounts t a) \<noteq> None"
  by (simp add: TagAccounts_def Let_def)

text \<open>The set of accounts a builder has collected.\<close>

definition tagged :: "Tagging \<Rightarrow> string set" where
  "tagged t = {k. GetAccount t k = Some True}"

lemma tagged_NewTagging [simp]: "tagged NewTagging = {}"
  by (simp add: tagged_def GetAccount_def NewTagging_def)

lemma tagged_TagAccounts [simp]: "tagged (TagAccounts t a) = insert a (tagged t)"
  by (auto simp: tagged_def GetAccount_TagAccounts GetAccount_None split: if_splits)

lemma tagged_fold_TagAccounts: "tagged (fold (\<lambda>a t. TagAccounts t a) as t) = set as \<union> tagged t"
  by (induction as arbitrary: t) auto

section \<open>DivideTags\<close>

text \<open>
  The chunks of one call: consecutive, each of at most \<open>MAX_HEADERS_PER_REQUEST\<close> blocks,
  together exactly the requested range. The proof is by induction on the distance to \<open>end\<close>.
\<close>

definition chunk_ok :: "RangeTag \<Rightarrow> bool" where
  "chunk_ok r \<longleftrightarrow> RangeTag_Start r \<le> RangeTag_End r \<and> range_size r \<le> 1500"

lemma chunk_arith:
  assumes "i \<le> e" and "e \<le> MaxUint64 - 1500"
  shows "unat (i + MAX_HEADERS_PER_REQUEST) = unat i + 1500"
    and "unat (i + MAX_HEADERS_PER_REQUEST - 1) = unat i + 1499"
proof -
  have "unat e \<le> 2 ^ 64 - 1501"
  proof -
    have "unat (MaxUint64 - 1500) = 2 ^ 64 - 1501"
      by (simp add: unat_sub unat_max)
    then show ?thesis
      using assms(2) by (simp add: word_le_nat_alt)
  qed
  moreover have "unat i \<le> unat e"
    using assms(1) by (simp add: word_le_nat_alt)
  ultimately have small: "unat i \<le> 2 ^ 64 - 1501" by simp
  then show a: "unat (i + MAX_HEADERS_PER_REQUEST) = unat i + 1500"
    by (simp add: MAX_HEADERS_PER_REQUEST_def unat_word_ariths)
  have "unat (i + 1499) = unat i + 1499"
    using small by (simp add: unat_word_ariths)
  then show "unat (i + MAX_HEADERS_PER_REQUEST - 1) = unat i + 1499"
    by (simp add: MAX_HEADERS_PER_REQUEST_def add_diff_eq [symmetric])
qed

lemma DivideTags_loop_spec:
  assumes "e \<le> MaxUint64 - 1500"
  shows "\<exists>rs. DivideTags_loop i e acc = Some (acc @ rs) \<and>
    (\<Union>r\<in>set rs. range_blocks r) = {i .. e} \<and> list_all chunk_ok rs"
proof (induction "unat e + 1 - unat i" arbitrary: i acc rule: less_induct)
  case less
  show ?case
  proof (cases "i \<le> e")
    case False
    then show ?thesis by (simp add: DivideTags_loop.simps [of i e acc])
  next
    case True
    note ar = chunk_arith [OF True assms]
    let ?n = "i + MAX_HEADERS_PER_REQUEST"
    define c where "c = (if ?n - 1 > e then e else ?n - 1)"
    define r where "r = \<lparr>RangeTag_Start = i, RangeTag_End = c\<rparr>"
    have step: "DivideTags_loop i e acc = DivideTags_loop ?n e (acc @ [r])"
      using True by (simp add: DivideTags_loop.simps [of i e acc] Let_def r_def c_def)
    have "unat i \<le> unat e" using True by (simp add: word_le_nat_alt)
    then have "unat e + 1 - unat ?n < unat e + 1 - unat i"
      using ar(1) by simp
    from less [OF this, of "acc @ [r]"] obtain rs where
      rs: "DivideTags_loop ?n e (acc @ [r]) = Some ((acc @ [r]) @ rs)"
        "(\<Union>r\<in>set rs. range_blocks r) = {?n .. e}" "list_all chunk_ok rs"
      by blast
    have c: "i \<le> c" "unat c \<le> unat i + 1499"
      using True ar by (auto simp: c_def word_le_nat_alt word_less_nat_alt)
    then have ok: "chunk_ok r"
      by (simp add: chunk_ok_def range_size_eq r_def)
    have "{i .. c} \<union> {?n .. e} = {i .. e}"
    proof (cases "?n - 1 < e")
      case True
      then have "c = ?n - 1" by (auto simp: c_def)
      then show ?thesis
        using word_range_split [OF c(1), of e] True by simp
    next
      case False
      then have "c = e"
        by (simp add: c_def)
      moreover have "\<not> ?n \<le> e"
        using False ar by (simp add: word_le_nat_alt word_less_nat_alt)
      ultimately have "c = e" and "\<not> ?n \<le> e" .
      then show ?thesis by simp
    qed
    then have "(\<Union>r\<in>set (r # rs). range_blocks r) = {i .. e}"
      using rs(2) by (simp add: range_blocks_def r_def)
    with step rs ok show ?thesis by (intro exI [of _ "r # rs"]) simp
  qed
qed

text \<open>For \<open>end = math.MaxUint64\<close> the guard \<open>i <= end\<close> never fails.\<close>

lemma DivideTags_loop_max:
  assumes ret: "DivideTags_loop i e acc = Some rs"
  shows "e \<noteq> MaxUint64"
proof (rule DivideTags_loop.raw_induct [where P = "\<lambda>i e acc rs. e \<noteq> MaxUint64", OF _ ret])
  fix f :: "u64 \<Rightarrow> u64 \<Rightarrow> RangeTag list \<Rightarrow> RangeTag list option" and i e acc rs
  assume IH: "\<And>i e acc rs. f i e acc = Some rs \<Longrightarrow> e \<noteq> MaxUint64"
    and eq: "(if i \<le> e then
        let c = i + MAX_HEADERS_PER_REQUEST - 1; chunkEnd = (if c > e then e else c)
        in f (i + MAX_HEADERS_PER_REQUEST) e (acc @ [\<lparr>RangeTag_Start = i, RangeTag_End = chunkEnd\<rparr>])
      else Some acc) = Some rs"
  show "e \<noteq> MaxUint64"
  proof (cases "i \<le> e")
    case True
    with eq show ?thesis by (auto simp: Let_def dest!: IH split: if_splits)
  next
    case False
    then show ?thesis by auto
  qed
qed

section \<open>Properties\<close>

text \<open>C6: For every range that ends at least one chunk below \<open>math.MaxUint64\<close>, \<open>DivideTags\<close>
  returns, and the tag it returns denotes exactly the requested blocks, cut into non-empty
  chunks of at most \<open>MAX_HEADERS_PER_REQUEST\<close> blocks.\<close>

theorem DivideTags_exact:
  assumes "end \<le> MaxUint64 - 1500"
  shows "\<exists>t. DivideTags start end = Some t \<and> tag_blocks t = {start .. end} \<and>
    Tag_BlockNumber t = [] \<and> list_all chunk_ok (Tag_Range t)"
  using DivideTags_loop_spec [OF assms, of start "[]"]
  by (auto simp: DivideTags_def tag_blocks_def empty_Tag_def)

theorem DivideTags_exact_witness:
  "(2000 :: u64) \<le> MaxUint64 - 1500 \<and>
   (\<exists>t. DivideTags 10 2000 = Some t \<and> tag_blocks t = {10 .. 2000} \<and>
    Tag_BlockNumber t = [] \<and> list_all chunk_ok (Tag_Range t))"
proof -
  have h: "(2000 :: u64) \<le> MaxUint64 - 1500" by simp
  show ?thesis using h DivideTags_exact [OF h, of 10] by blast
qed

text \<open>\<open>DivideTags\<close> never returns for \<open>end = math.MaxUint64\<close>: its counter wraps around
  and the guard \<open>i <= end\<close> holds for every \<open>uint64\<close>.\<close>

theorem DivideTags_diverges_at_max: "DivideTags start MaxUint64 = None"
proof (cases "DivideTags_loop start MaxUint64 []")
  case (Some rs)
  then show ?thesis using DivideTags_loop_max by blast
qed (simp add: DivideTags_def)

end
