(* ===== verification/FS_Json.thy ===== *)
theory FS_Json
  imports FS_Prelude
begin

text \<open>
  JSON documents as \<open>encoding/json\<close> builds them for the structs the write-ahead log stores.
  The model stops at the document tree: a \<open>[]byte\<close> field is the leaf \<open>JBytes\<close> (on the wire its
  base64 string), and a \<open>[]byte\<close> field that itself holds a serialised JSON text is the leaf
  \<open>JText\<close> around that document. Decoding follows \<open>json.Unmarshal\<close>: an absent key or a
  \<open>null\<close> leaves the Go field as it was (a \<open>null\<close> empties a slice field), an unknown key is
  skipped, a value of the wrong kind or out of the integer's range is an error (\<open>None\<close>).
  Strings are valid UTF-8, the case in which \<open>json.Marshal\<close> does not alter them.
\<close>

datatype json =
    JNull
  | JNum int
  | JStr string
  | JBytes bytes
  | JText json
  | JArr "json list"
  | JObj "(string \<times> json) list"

definition dec_u64 :: "json \<Rightarrow> u64 option" where
  "dec_u64 j = (case j of JNum n \<Rightarrow> (if 0 \<le> n \<and> n < 2 ^ 64 then Some (word_of_int n) else None)
     | _ \<Rightarrow> None)"

definition dec_i64 :: "json \<Rightarrow> i64 option" where
  "dec_i64 j = (case j of JNum n \<Rightarrow>
       (if - (2 ^ 63) \<le> n \<and> n < 2 ^ 63 then Some (word_of_int n) else None)
     | _ \<Rightarrow> None)"

definition dec_str :: "json \<Rightarrow> string option" where
  "dec_str j = (case j of JStr s \<Rightarrow> Some s | _ \<Rightarrow> None)"

definition dec_bytes :: "json \<Rightarrow> bytes option" where
  "dec_bytes j = (case j of JBytes b \<Rightarrow> Some b | _ \<Rightarrow> None)"

definition dec_text :: "json \<Rightarrow> json option" where
  "dec_text j = (case j of JText d \<Rightarrow> Some d | _ \<Rightarrow> None)"

text \<open>One struct field: its key, the value it keeps when absent, the decoder of its type.\<close>

definition jfield :: "string \<Rightarrow> 'a \<Rightarrow> (json \<Rightarrow> 'a option) \<Rightarrow> (string \<times> json) list \<Rightarrow> 'a option" where
  "jfield k old dec kvs = (case map_of (rev kvs) k of None \<Rightarrow> Some old
     | Some JNull \<Rightarrow> Some old | Some v \<Rightarrow> dec v)"

definition jslice :: "string \<Rightarrow> 'a list \<Rightarrow> (json \<Rightarrow> 'a list option) \<Rightarrow> (string \<times> json) list
    \<Rightarrow> 'a list option" where
  "jslice k old dec kvs = (case map_of (rev kvs) k of None \<Rightarrow> Some old
     | Some JNull \<Rightarrow> Some [] | Some v \<Rightarrow> dec v)"

text \<open>A nil or empty \<open>[]byte\<close>; the code only ever tests its length.\<close>

definition enc_bytes :: "bytes \<Rightarrow> json" where
  "enc_bytes b = (if b = [] then JNull else JBytes b)"

definition enc_u64 :: "u64 \<Rightarrow> json" where
  "enc_u64 n = JNum (uint n)"

definition enc_i64 :: "i64 \<Rightarrow> json" where
  "enc_i64 n = JNum (sint n)"

lemma dec_enc_u64 [simp]: "dec_u64 (enc_u64 n) = Some n"
proof -
  have "uint n < 2 ^ LENGTH(64)" by (rule unsigned_less)
  then show ?thesis by (simp add: dec_u64_def enc_u64_def)
qed

lemma dec_enc_i64 [simp]: "dec_i64 (enc_i64 n) = Some n"
proof -
  have "sint n < 2 ^ (LENGTH(64) - 1)" and "- (2 ^ (LENGTH(64) - 1)) \<le> sint n"
    by (rule sint_lt, rule sint_ge)
  then show ?thesis by (simp add: dec_i64_def enc_i64_def)
qed

lemma enc_i64_not_null [simp]: "enc_i64 n \<noteq> JNull" "JNull \<noteq> enc_i64 n"
  by (simp_all add: enc_i64_def)

lemma enc_u64_not_null [simp]: "enc_u64 n \<noteq> JNull" "JNull \<noteq> enc_u64 n"
  by (simp_all add: enc_u64_def)

lemma jfield_Nil [simp]: "jfield k old dec [] = Some old"
  by (simp add: jfield_def)

lemma jfield_snoc [simp]:
  "jfield k old dec (kvs @ [(k', v)]) =
     (if k' = k then (if v = JNull then Some old else dec v) else jfield k old dec kvs)"
  by (simp add: jfield_def split: json.splits)

text \<open>Encoded structs have distinct keys, so a field is found wherever it stands.\<close>

lemma jfield_Cons [simp]:
  "jfield k old dec ((k', v) # kvs) =
     (if k' = k \<and> k \<notin> fst ` set kvs then (if v = JNull then Some old else dec v)
      else jfield k old dec kvs)"
proof (cases "k \<in> fst ` set kvs")
  case True
  then obtain v' where "map_of (rev kvs) k = Some v'"
    by (metis fst_eq_Domain set_rev Domain_fst map_of_eq_None_iff not_Some_eq)
  with True show ?thesis by (simp add: jfield_def map_add_def)
next
  case False
  then have "map_of (rev kvs) k = None"
    by (simp add: map_of_eq_None_iff)
  with False show ?thesis
    by (auto simp: jfield_def map_add_def split: json.splits option.splits)
qed

lemma jslice_jfield: "jslice k [] dec kvs = jfield k [] dec kvs"
  by (simp add: jslice_def jfield_def split: option.splits json.splits)

end
