(* ===== verification/FS_WAL.thy ===== *)
theory FS_WAL
  imports FS_Json "HOL-Library.List_Lexorder" "HOL-Library.Char_ord"
begin

text \<open>
  \<open>common/WAL/WAL.go\<close> and \<open>common/WAL/operations.go\<close>: the event-sourced write-ahead log.

  The segment log underneath (\<open>github.com/tidwall/wal\<close>) is not part of the repository. It is
  the parameter \<open>L :: 'l log_ops\<close> of every operation; \<open>tidwall_log L v\<close> states the documented
  behaviour the code relies on, for a view \<open>v\<close> of the log's state as its first index and its
  entries. The files the WAL itself writes (the LSN metadata file and the checkpoint markers)
  are fields of the state; whether a file operation succeeds and what the clock says are the
  environment \<open>fs_env\<close> of the call. Operations are atomic because the code holds \<open>w.Mu\<close>.
\<close>

section \<open>Types\<close>

type_synonym WALType = string

definition HeaderSync :: WALType where "HeaderSync = ''wal:headersync''"
definition MerkleSync :: WALType where "MerkleSync = ''wal:merklesync''"
definition PriorSync :: WALType where "PriorSync = ''wal:priorsync''"
definition DataSync :: WALType where "DataSync = ''wal:datasync''"
definition Reconciliation :: WALType where "Reconciliation = ''wal:reconciliation''"
definition PoTS :: WALType where "PoTS = ''wal:pots''"
definition AccountSync :: WALType where "AccountSync = ''wal:accountsync''"
definition DefaultBatchSize :: int where "DefaultBatchSize = 1000"
definition MaxSnapshotLimit :: nat where "MaxSnapshotLimit = 10"

lemmas WALType_defs = HeaderSync_def MerkleSync_def PriorSync_def DataSync_def
  Reconciliation_def PoTS_def AccountSync_def

record WALEntry =
  WALEntry_Type :: WALType
  WALEntry_Data :: json
  WALEntry_LSN :: u64
  WALEntry_Timestamp :: i64

record LSNMetadata =
  LSNMetadata_CurrentLSN :: u64
  LSNMetadata_LastFlushedLSN :: u64
  LSNMetadata_LastUpdated :: i64

text \<open>The calls on \<open>*wal.Log\<close>; a flag or an option tells whether the call returned an error.\<close>

record 'l log_ops =
  op_write :: "'l \<Rightarrow> u64 \<Rightarrow> json \<Rightarrow> 'l \<times> bool"
  op_read :: "'l \<Rightarrow> u64 \<Rightarrow> json option"
  op_first :: "'l \<Rightarrow> u64 option"
  op_last :: "'l \<Rightarrow> u64 option"
  op_truncate_front :: "'l \<Rightarrow> u64 \<Rightarrow> 'l \<times> bool"
  op_close :: "'l \<Rightarrow> 'l \<times> bool"

record fs_env =
  env_now :: i64
  env_save_ok :: bool
  env_marker_ok :: bool
  env_readdir_ok :: bool
  env_remove_ok :: bool

record 'l WAL =
  WAL_Log :: 'l
  WAL_Buffer :: "WALEntry list"
  WAL_BatchSize :: int
  WAL_currentLSN :: u64
  WAL_lastFlushedLSN :: u64
  WAL_metadataFile :: "json option"
  WAL_checkpointDir :: "string list"

datatype wal_error =
    SerializeFailed
  | LogWriteFailed u64
  | SaveLSNFailed
  | IndexFailed
  | ReadFailed u64
  | UnmarshalFailed
  | MetadataCorrupt
  | HandlerFailed u64
  | TruncateFailed
  | MarkerFailed
  | ReadDirFailed
  | RemoveMarkerFailed
  | CloseFailed

section \<open>Struct encodings\<close>

text \<open>\<open>json.Marshal\<close> of the two structs, with their field tags (\<open>timestamp\<close> is omitempty).\<close>

definition marshal_WALEntry :: "WALEntry \<Rightarrow> json" where
  "marshal_WALEntry e = JObj
     ([(''type'', JStr (WALEntry_Type e)), (''data'', JText (WALEntry_Data e)),
       (''lsn'', enc_u64 (WALEntry_LSN e))] @
      (if WALEntry_Timestamp e = 0 then [] else [(''timestamp'', enc_i64 (WALEntry_Timestamp e))]))"

definition unmarshal_WALEntry :: "json \<Rightarrow> WALEntry option" where
  "unmarshal_WALEntry j = (case j of JObj kvs \<Rightarrow>
     (case (jfield ''type'' [] dec_str kvs, jfield ''data'' JNull dec_text kvs,
            jfield ''lsn'' 0 dec_u64 kvs, jfield ''timestamp'' 0 dec_i64 kvs) of
        (Some t, Some d, Some n, Some s) \<Rightarrow>
          Some \<lparr>WALEntry_Type = t, WALEntry_Data = d, WALEntry_LSN = n, WALEntry_Timestamp = s\<rparr>
      | _ \<Rightarrow> None)
   | _ \<Rightarrow> None)"

definition marshal_LSNMetadata :: "LSNMetadata \<Rightarrow> json" where
  "marshal_LSNMetadata m = JObj
     [(''current_lsn'', enc_u64 (LSNMetadata_CurrentLSN m)),
      (''last_flushed_lsn'', enc_u64 (LSNMetadata_LastFlushedLSN m)),
      (''last_updated'', enc_i64 (LSNMetadata_LastUpdated m))]"

definition unmarshal_LSNMetadata :: "json \<Rightarrow> LSNMetadata option" where
  "unmarshal_LSNMetadata j = (case j of JObj kvs \<Rightarrow>
     (case (jfield ''current_lsn'' 0 dec_u64 kvs, jfield ''last_flushed_lsn'' 0 dec_u64 kvs,
            jfield ''last_updated'' 0 dec_i64 kvs) of
        (Some c, Some f, Some t) \<Rightarrow> Some \<lparr>LSNMetadata_CurrentLSN = c,
           LSNMetadata_LastFlushedLSN = f, LSNMetadata_LastUpdated = t\<rparr>
      | _ \<Rightarrow> None)
   | _ \<Rightarrow> None)"

section \<open>Operations\<close>

definition loadLSN :: "'l WAL \<Rightarrow> wal_error + 'l WAL" where
  "loadLSN w = (case WAL_metadataFile w of
     None \<Rightarrow> Inr (w\<lparr>WAL_currentLSN := 0, WAL_lastFlushedLSN := 0\<rparr>)
   | Some data \<Rightarrow> (case unmarshal_LSNMetadata data of
       None \<Rightarrow> Inl MetadataCorrupt
     | Some md \<Rightarrow> Inr (w\<lparr>WAL_currentLSN := LSNMetadata_CurrentLSN md,
                          WAL_lastFlushedLSN := LSNMetadata_LastFlushedLSN md\<rparr>)))"

text \<open>\<open>NewWAL\<close> on a directory: the opened log, the metadata file and the markers found there.\<close>

definition NewWAL :: "'l \<Rightarrow> json option \<Rightarrow> string list \<Rightarrow> int \<Rightarrow> wal_error + 'l WAL" where
  "NewWAL log meta markers batchSize = loadLSN
     \<lparr>WAL_Log = log, WAL_Buffer = [],
      WAL_BatchSize = (if batchSize \<le> 0 then DefaultBatchSize else batchSize),
      WAL_currentLSN = 0, WAL_lastFlushedLSN = 0,
      WAL_metadataFile = meta, WAL_checkpointDir = markers\<rparr>"

definition saveLSN :: "fs_env \<Rightarrow> 'l WAL \<Rightarrow> 'l WAL \<times> (wal_error + unit)" where
  "saveLSN env w =
     (let md = \<lparr>LSNMetadata_CurrentLSN = WAL_currentLSN w,
                LSNMetadata_LastFlushedLSN = WAL_lastFlushedLSN w,
                LSNMetadata_LastUpdated = env_now env\<rparr>
      in if env_save_ok env then (w\<lparr>WAL_metadataFile := Some (marshal_LSNMetadata md)\<rparr>, Inr ())
         else (w, Inl SaveLSNFailed))"

definition nextLSN :: "'l WAL \<Rightarrow> 'l WAL \<times> u64" where
  "nextLSN w = (w\<lparr>WAL_currentLSN := WAL_currentLSN w + 1\<rparr>, WAL_currentLSN w + 1)"

text \<open>The write loop of \<open>flushBuffer\<close>: log, last flushed LSN, and the LSN whose write failed.\<close>

fun flush_loop :: "'l log_ops \<Rightarrow> 'l \<Rightarrow> u64 \<Rightarrow> WALEntry list \<Rightarrow> 'l \<times> u64 \<times> u64 option" where
  "flush_loop L log lf [] = (log, lf, None)"
| "flush_loop L log lf (entry # es) =
     (case op_write L log (WALEntry_LSN entry) (marshal_WALEntry entry) of
        (log', False) \<Rightarrow> (log', lf, Some (WALEntry_LSN entry))
      | (log', True) \<Rightarrow> flush_loop L log'
          (if WALEntry_LSN entry > lf then WALEntry_LSN entry else lf) es)"

definition flushBuffer :: "'l log_ops \<Rightarrow> fs_env \<Rightarrow> 'l WAL \<Rightarrow> 'l WAL \<times> (wal_error + unit)" where
  "flushBuffer L env w =
     (if WAL_Buffer w = [] then (w, Inr ())
      else case flush_loop L (WAL_Log w) (WAL_lastFlushedLSN w) (WAL_Buffer w) of
        (log', lf, Some n) \<Rightarrow> (w\<lparr>WAL_Log := log', WAL_lastFlushedLSN := lf\<rparr>, Inl (LogWriteFailed n))
      | (log', lf, None) \<Rightarrow>
          saveLSN env (w\<lparr>WAL_Log := log', WAL_lastFlushedLSN := lf, WAL_Buffer := []\<rparr>))"

definition Flush :: "'l log_ops \<Rightarrow> fs_env \<Rightarrow> 'l WAL \<Rightarrow> 'l WAL \<times> (wal_error + unit)" where
  "Flush L env w = flushBuffer L env w"

text \<open>
  \<open>WriteEvent(event)\<close>: \<open>ty\<close> is \<open>event.GetType()\<close> and \<open>ser\<close> what \<open>event.Serialize()\<close> returns. The
  LSN is taken before the event is serialised.
\<close>

definition WriteEvent :: "'l log_ops \<Rightarrow> fs_env \<Rightarrow> WALType \<Rightarrow> (wal_error + json) \<Rightarrow> 'l WAL
    \<Rightarrow> 'l WAL \<times> (wal_error + u64)" where
  "WriteEvent L env ty ser w =
     (case nextLSN w of (w1, lsn) \<Rightarrow>
      (case ser of Inl e \<Rightarrow> (w1, Inl SerializeFailed)
       | Inr data \<Rightarrow>
          let entry = \<lparr>WALEntry_Type = ty, WALEntry_Data = data, WALEntry_LSN = lsn,
                       WALEntry_Timestamp = env_now env\<rparr>;
              w2 = w1\<lparr>WAL_Buffer := WAL_Buffer w1 @ [entry]\<rparr>
          in if int (length (WAL_Buffer w2)) \<ge> WAL_BatchSize w2
             then (case flushBuffer L env w2 of
                     (w3, Inl e) \<Rightarrow> (w3, Inl e)
                   | (w3, Inr _) \<Rightarrow> (w3, Inr lsn))
             else (w2, Inr lsn)))"

text \<open>
  \<open>ReplayEvents\<close>: the loop reads the indices from first to last and threads the state \<open>'s\<close> that
  the Go handler closes over; \<open>None\<close> from the handler is its error. The number of reads is
  \<open>last - first + 1\<close>, the iterations of the Go loop when the last index is below \<open>MaxUint64\<close>.
\<close>

fun replay_loop :: "'l log_ops \<Rightarrow> 'l \<Rightarrow> (WALEntry \<Rightarrow> 's \<Rightarrow> 's option) \<Rightarrow> nat \<Rightarrow> u64 \<Rightarrow> 's
    \<Rightarrow> wal_error + 's" where
  "replay_loop L log handler 0 index s = Inr s"
| "replay_loop L log handler (Suc n) index s =
     (case op_read L log index of None \<Rightarrow> Inl (ReadFailed index)
      | Some data \<Rightarrow> (case unmarshal_WALEntry data of None \<Rightarrow> Inl UnmarshalFailed
         | Some entry \<Rightarrow> (case handler entry s of None \<Rightarrow> Inl (HandlerFailed (WALEntry_LSN entry))
            | Some s' \<Rightarrow> replay_loop L log handler n (index + 1) s')))"

definition ReplayEvents :: "'l log_ops \<Rightarrow> 'l WAL \<Rightarrow> (WALEntry \<Rightarrow> 's \<Rightarrow> 's option) \<Rightarrow> 's
    \<Rightarrow> wal_error + 's" where
  "ReplayEvents L w handler s =
     (case op_first L (WAL_Log w) of None \<Rightarrow> Inl IndexFailed
      | Some firstIndex \<Rightarrow> (case op_last L (WAL_Log w) of None \<Rightarrow> Inl IndexFailed
         | Some lastIndex \<Rightarrow>
             replay_loop L (WAL_Log w) handler (Suc (unat lastIndex) - unat firstIndex) firstIndex s))"

definition ReplayEventsByType :: "'l log_ops \<Rightarrow> 'l WAL \<Rightarrow> WALType \<Rightarrow> (WALEntry \<Rightarrow> 's \<Rightarrow> 's option)
    \<Rightarrow> 's \<Rightarrow> wal_error + 's" where
  "ReplayEventsByType L w walType handler s =
     ReplayEvents L w (\<lambda>entry s. if WALEntry_Type entry = walType then handler entry s else Some s) s"

definition GetEvent :: "'l log_ops \<Rightarrow> 'l WAL \<Rightarrow> u64 \<Rightarrow> wal_error + WALEntry" where
  "GetEvent L w lsn =
     (case find (\<lambda>e. WALEntry_LSN e = lsn) (WAL_Buffer w) of Some entry \<Rightarrow> Inr entry
      | None \<Rightarrow> (case op_read L (WAL_Log w) lsn of None \<Rightarrow> Inl (ReadFailed lsn)
         | Some data \<Rightarrow> (case unmarshal_WALEntry data of None \<Rightarrow> Inl UnmarshalFailed
            | Some entry \<Rightarrow> Inr entry)))"

definition GetLastLSN :: "'l WAL \<Rightarrow> u64" where
  "GetLastLSN w = WAL_currentLSN w"

definition GetLastFlushedLSN :: "'l WAL \<Rightarrow> u64" where
  "GetLastFlushedLSN w = WAL_lastFlushedLSN w"

definition truncateBeforeUnlocked :: "'l log_ops \<Rightarrow> u64 \<Rightarrow> 'l WAL \<Rightarrow> 'l WAL \<times> (wal_error + unit)" where
  "truncateBeforeUnlocked L lsn w =
     (if lsn = 0 then (w, Inr ())
      else case op_first L (WAL_Log w) of None \<Rightarrow> (w, Inl IndexFailed)
        | Some firstIndex \<Rightarrow>
            if lsn \<le> firstIndex then (w, Inr ())
            else case op_truncate_front L (WAL_Log w) lsn of
                (log', False) \<Rightarrow> (w\<lparr>WAL_Log := log'\<rparr>, Inl TruncateFailed)
              | (log', True) \<Rightarrow> (w\<lparr>WAL_Log := log'\<rparr>, Inr ()))"

definition TruncateBefore :: "'l log_ops \<Rightarrow> u64 \<Rightarrow> 'l WAL \<Rightarrow> 'l WAL \<times> (wal_error + unit)" where
  "TruncateBefore L lsn w = truncateBeforeUnlocked L lsn w"

section \<open>Checkpoint markers\<close>

text \<open>\<open>fmt.Sprintf("%0wd", n)\<close> for a value of at most \<open>w\<close> digits.\<close>

fun pad_dec :: "nat \<Rightarrow> nat \<Rightarrow> string" where
  "pad_dec 0 n = []"
| "pad_dec (Suc w) n = char_of (48 + n div 10 ^ w) # pad_dec w (n mod 10 ^ w)"

definition marker_prefix :: string where "marker_prefix = ''lsn_''"

definition marker_name :: "u64 \<Rightarrow> string" where
  "marker_name lsn = marker_prefix @ pad_dec 20 (unat lsn)"

text \<open>\<open>fmt.Sscanf(name, "lsn_%d", &x)\<close>: the leading digits, 0 when there are none or too many.\<close>

definition is_digit :: "char \<Rightarrow> bool" where
  "is_digit c \<longleftrightarrow> 48 \<le> (of_char c :: nat) \<and> (of_char c :: nat) \<le> 57"

definition dec_value :: "string \<Rightarrow> nat" where
  "dec_value ds = foldl (\<lambda>n c. 10 * n + (of_char c - 48)) 0 ds"

definition scan_marker :: "string \<Rightarrow> u64" where
  "scan_marker name =
     (let ds = takeWhile is_digit (drop 4 name)
      in if ds = [] \<or> dec_value ds \<ge> 2 ^ 64 then 0 else word_of_nat (dec_value ds))"

definition is_marker :: "string \<Rightarrow> bool" where
  "is_marker name \<longleftrightarrow> length name > 4 \<and> take 4 name = marker_prefix"

text \<open>\<open>os.WriteFile\<close> in a directory listed in name order: a new name, or the same listing.\<close>

definition write_name :: "string \<Rightarrow> string list \<Rightarrow> string list" where
  "write_name n dir = (if n \<in> set dir then dir else insort n dir)"

definition CreateCheckpoint :: "'l log_ops \<Rightarrow> fs_env \<Rightarrow> 'l WAL \<Rightarrow> 'l WAL \<times> (wal_error + u64)" where
  "CreateCheckpoint L env w =
     (case flushBuffer L env w of
        (w1, Inl e) \<Rightarrow> (w1, Inl e)
      | (w1, Inr _) \<Rightarrow>
          let lsn = WAL_lastFlushedLSN w1
          in if \<not> env_marker_ok env then (w1, Inl MarkerFailed)
             else let w2 = w1\<lparr>WAL_checkpointDir := write_name (marker_name lsn) (WAL_checkpointDir w1)\<rparr>
             in if \<not> env_readdir_ok env then (w2, Inl ReadDirFailed)
             else let checkpointFiles = filter is_marker (WAL_checkpointDir w2)
             in if length checkpointFiles > MaxSnapshotLimit then
                  (let oldestFile = hd checkpointFiles
                   in case truncateBeforeUnlocked L (scan_marker oldestFile) w2 of
                        (w3, Inl e) \<Rightarrow> (w3, Inl e)
                      | (w3, Inr _) \<Rightarrow>
                          if \<not> env_remove_ok env then (w3, Inl RemoveMarkerFailed)
                          else (w3\<lparr>WAL_checkpointDir := remove1 oldestFile (WAL_checkpointDir w3)\<rparr>, Inr lsn))
                else (w2, Inr lsn))"

text \<open>\<open>Close\<close> after the asynchronous buffer has been drained.\<close>

definition Close_WAL :: "'l log_ops \<Rightarrow> fs_env \<Rightarrow> 'l WAL \<Rightarrow> 'l WAL \<times> (wal_error + unit)" where
  "Close_WAL L env w =
     (case flushBuffer L env w of
        (w1, Inl e) \<Rightarrow> (w1, Inl e)
      | (w1, Inr _) \<Rightarrow> (case op_close L (WAL_Log w1) of
          (log', False) \<Rightarrow> (w1\<lparr>WAL_Log := log'\<rparr>, Inl CloseFailed)
        | (log', True) \<Rightarrow> (w1\<lparr>WAL_Log := log'\<rparr>, Inr ())))"

end
