(* ===== verification/FS_WAL_Facts.thy ===== *)
theory FS_WAL_Facts
  imports FS_WAL
begin

text \<open>
  What the write-ahead log guarantees. \<open>tidwall_log L v\<close> collects the documented laws of the
  segment log; \<open>wal_ok L v w\<close> is the invariant of the WAL over it. The lemmas show that the
  operations keep the invariant and that the WAL is an append-only sequence of entries, that
  replay reads that sequence back, and in which situations a WAL can no longer persist anything.
\<close>

section \<open>The segment log\<close>

type_synonym log_view = "nat \<times> json list"

definition last_index :: "log_view \<Rightarrow> nat" where
  "last_index lv = fst lv + length (snd lv) - 1"

definition tidwall_log :: "'l log_ops \<Rightarrow> ('l \<Rightarrow> log_view) \<Rightarrow> bool" where
  "tidwall_log L v \<longleftrightarrow>
     (\<forall>l. 1 \<le> fst (v l) \<and> (snd (v l) = [] \<longrightarrow> fst (v l) = 1) \<and> last_index (v l) < 2 ^ 64) \<and>
     (\<forall>l i d l'. op_write L l i d = (l', True) \<longrightarrow>
        unat i = Suc (last_index (v l)) \<and> v l' = (fst (v l), snd (v l) @ [d])) \<and>
     (\<forall>l i d. unat i \<noteq> Suc (last_index (v l)) \<longrightarrow> op_write L l i d = (l, False)) \<and>
     (\<forall>l i. op_read L l i =
        (if fst (v l) \<le> unat i \<and> unat i \<le> last_index (v l) then Some (snd (v l) ! (unat i - fst (v l)))
         else None)) \<and>
     (\<forall>l. op_first L l = Some (if snd (v l) = [] then 0 else word_of_nat (fst (v l)))) \<and>
     (\<forall>l. op_last L l = Some (word_of_nat (last_index (v l)))) \<and>
     (\<forall>l i l'. op_truncate_front L l i = (l', True) \<longrightarrow>
        fst (v l) \<le> unat i \<and> unat i \<le> last_index (v l) \<and>
        v l' = (unat i, drop (unat i - fst (v l)) (snd (v l))))"

text \<open>The stronger assumption that the disk does not fail: a well-placed call succeeds.\<close>

definition reliable_log :: "'l log_ops \<Rightarrow> ('l \<Rightarrow> log_view) \<Rightarrow> bool" where
  "reliable_log L v \<longleftrightarrow>
     (\<forall>l i d. unat i = Suc (last_index (v l)) \<longrightarrow> snd (op_write L l i d)) \<and>
     (\<forall>l i. fst (v l) \<le> unat i \<and> unat i \<le> last_index (v l) \<longrightarrow> snd (op_truncate_front L l i))"

lemma tidwall_logD:
  assumes "tidwall_log L v"
  shows log_first_pos: "1 \<le> fst (v l)"
    and log_empty_first: "snd (v l) = [] \<Longrightarrow> fst (v l) = 1"
    and log_last_bound: "last_index (v l) < 2 ^ 64"
    and log_write_True: "op_write L l i d = (l', True) \<Longrightarrow>
          unat i = Suc (last_index (v l)) \<and> v l' = (fst (v l), snd (v l) @ [d])"
    and log_write_misplaced: "unat i \<noteq> Suc (last_index (v l)) \<Longrightarrow> op_write L l i d = (l, False)"
    and log_read: "op_read L l i = (if fst (v l) \<le> unat i \<and> unat i \<le> last_index (v l)
          then Some (snd (v l) ! (unat i - fst (v l))) else None)"
    and log_first: "op_first L l = Some (if snd (v l) = [] then 0 else word_of_nat (fst (v l)))"
    and log_last: "op_last L l = Some (word_of_nat (last_index (v l)))"
    and log_truncate_True: "op_truncate_front L l i = (l', True) \<Longrightarrow>
          fst (v l) \<le> unat i \<and> unat i \<le> last_index (v l) \<and>
          v l' = (unat i, drop (unat i - fst (v l)) (snd (v l)))"
  using assms unfolding tidwall_log_def by blast+

lemma last_index_snoc: "1 \<le> f \<Longrightarrow> last_index (f, es @ ds) = last_index (f, es) + length ds"
  by (simp add: last_index_def)

section \<open>Encodings round-trip\<close>

lemma unmarshal_marshal_WALEntry [simp]: "unmarshal_WALEntry (marshal_WALEntry e) = Some e"
  by (simp add: unmarshal_WALEntry_def marshal_WALEntry_def dec_str_def dec_text_def)

lemma unmarshal_marshal_LSNMetadata [simp]: "unmarshal_LSNMetadata (marshal_LSNMetadata m) = Some m"
  by (simp add: unmarshal_LSNMetadata_def marshal_LSNMetadata_def)

section \<open>Invariant\<close>

abbreviation lsns :: "WALEntry list \<Rightarrow> nat list" where
  "lsns es \<equiv> map (\<lambda>e. unat (WALEntry_LSN e)) es"

text \<open>
  The log holds consecutively numbered entries up to \<open>lastFlushedLSN\<close>, the buffer the ones from
  there up to \<open>currentLSN\<close>.
\<close>

definition wal_ok :: "('l \<Rightarrow> log_view) \<Rightarrow> 'l WAL \<Rightarrow> bool" where
  "wal_ok v w \<longleftrightarrow>
     last_index (v (WAL_Log w)) = unat (WAL_lastFlushedLSN w) \<and>
     WAL_lastFlushedLSN w \<le> WAL_currentLSN w \<and>
     lsns (WAL_Buffer w) = [Suc (unat (WAL_lastFlushedLSN w)) ..< Suc (unat (WAL_currentLSN w))] \<and>
     (\<exists>es. snd (v (WAL_Log w)) = map marshal_WALEntry es \<and>
           lsns es = [fst (v (WAL_Log w)) ..< Suc (unat (WAL_lastFlushedLSN w))])"

text \<open>The entries on disk, and all entries including the buffered ones.\<close>

definition disk_entries :: "('l \<Rightarrow> log_view) \<Rightarrow> 'l WAL \<Rightarrow> WALEntry list" where
  "disk_entries v w = map (\<lambda>d. the (unmarshal_WALEntry d)) (snd (v (WAL_Log w)))"

definition all_entries :: "('l \<Rightarrow> log_view) \<Rightarrow> 'l WAL \<Rightarrow> WALEntry list" where
  "all_entries v w = disk_entries v w @ WAL_Buffer w"

lemma wal_okD:
  assumes "wal_ok v w"
  shows wal_ok_last: "last_index (v (WAL_Log w)) = unat (WAL_lastFlushedLSN w)"
    and wal_ok_le: "WAL_lastFlushedLSN w \<le> WAL_currentLSN w"
    and wal_ok_buffer: "lsns (WAL_Buffer w) =
          [Suc (unat (WAL_lastFlushedLSN w)) ..< Suc (unat (WAL_currentLSN w))]"
    and wal_ok_disk: "snd (v (WAL_Log w)) = map marshal_WALEntry (disk_entries v w)"
    and wal_ok_disk_lsns: "lsns (disk_entries v w) =
          [fst (v (WAL_Log w)) ..< Suc (unat (WAL_lastFlushedLSN w))]"
  using assms by (auto simp: wal_ok_def disk_entries_def comp_def)

lemma wal_ok_empty_buffer:
  assumes "wal_ok v w" and "WAL_Buffer w = []"
  shows "WAL_lastFlushedLSN w = WAL_currentLSN w"
proof -
  have "unat (WAL_currentLSN w) \<le> unat (WAL_lastFlushedLSN w)"
    using wal_ok_buffer [OF assms(1)] assms(2) by (simp split: if_splits)
  then show ?thesis
    using wal_ok_le [OF assms(1)] by (simp add: word_le_nat_alt word_unat_eq_iff)
qed

section \<open>Opening a log\<close>

lemma NewWAL_fresh: "NewWAL log None ms b = Inr w \<Longrightarrow> v log = (1, []) \<Longrightarrow> wal_ok v w"
  by (auto simp: NewWAL_def loadLSN_def wal_ok_def last_index_def)

lemma NewWAL_BatchSize: "NewWAL log m ms b = Inr w \<Longrightarrow> 0 < WAL_BatchSize w"
  by (auto simp: NewWAL_def loadLSN_def DefaultBatchSize_def split: option.splits if_splits)

section \<open>Flushing\<close>

lemma flush_loop_done:
  assumes "tidwall_log L v" and "flush_loop L log lf es = (log', lf', None)"
  shows "v log' = (fst (v log), snd (v log) @ map marshal_WALEntry es) \<and>
    lsns es = [Suc (last_index (v log)) ..< Suc (last_index (v log) + length es)] \<and>
    (last_index (v log) = unat lf \<longrightarrow> unat lf' = last_index (v log'))"
  using assms(2)
proof (induction es arbitrary: log lf)
  case Nil
  then show ?case by simp
next
  case (Cons e es)
  obtain log1 where w: "op_write L log (WALEntry_LSN e) (marshal_WALEntry e) = (log1, True)"
    and rest: "flush_loop L log1 (if WALEntry_LSN e > lf then WALEntry_LSN e else lf) es = (log', lf', None)"
    using Cons.prems by (auto split: prod.splits bool.splits)
  from log_write_True [OF assms(1) w]
  have lsn: "unat (WALEntry_LSN e) = Suc (last_index (v log))"
    and v1: "v log1 = (fst (v log), snd (v log) @ [marshal_WALEntry e])" by auto
  have li: "last_index (v log1) = Suc (last_index (v log))"
    using log_first_pos [OF assms(1), of log] by (simp add: v1 last_index_def)
  have lf1: "last_index (v log) = unat lf \<Longrightarrow>
      unat (if WALEntry_LSN e > lf then WALEntry_LSN e else lf) = last_index (v log1)"
    using lsn li by (simp add: word_less_nat_alt)
  show ?case
    using Cons.IH [OF rest] lf1 lsn li v1 by (simp add: upt_rec)
qed

text \<open>What a successful flush leaves: the same entries, all on disk.\<close>

definition flushed :: "('l \<Rightarrow> log_view) \<Rightarrow> 'l WAL \<Rightarrow> 'l WAL \<Rightarrow> bool" where
  "flushed v w w' \<longleftrightarrow> wal_ok v w' \<and> WAL_Buffer w' = [] \<and> WAL_currentLSN w' = WAL_currentLSN w \<and>
     all_entries v w' = all_entries v w \<and> fst (v (WAL_Log w')) = fst (v (WAL_Log w)) \<and>
     WAL_checkpointDir w' = WAL_checkpointDir w \<and> WAL_BatchSize w' = WAL_BatchSize w"

lemma flushBuffer_ok:
  assumes L: "tidwall_log L v" and ok: "wal_ok v w" and f: "flushBuffer L env w = (w', Inr ())"
  shows "flushed v w w'"
proof (cases "WAL_Buffer w = []")
  case True
  with f ok show ?thesis by (simp add: flushBuffer_def flushed_def)
next
  case False
  then obtain log' lf where fl: "flush_loop L (WAL_Log w) (WAL_lastFlushedLSN w) (WAL_Buffer w) = (log', lf, None)"
    and w': "WAL_Log w' = log'" "WAL_lastFlushedLSN w' = lf" "WAL_Buffer w' = []"
      "WAL_currentLSN w' = WAL_currentLSN w" "WAL_checkpointDir w' = WAL_checkpointDir w"
      "WAL_BatchSize w' = WAL_BatchSize w"
    using f by (auto simp: flushBuffer_def saveLSN_def Let_def split: prod.splits option.splits if_splits)
  note d = flush_loop_done [OF L fl]
  have n: "length (WAL_Buffer w) = unat (WAL_currentLSN w) - unat (WAL_lastFlushedLSN w)"
    using arg_cong [OF wal_ok_buffer [OF ok], of length] by (simp del: upt_Suc)
  have vl: "v log' = (fst (v (WAL_Log w)), snd (v (WAL_Log w)) @ map marshal_WALEntry (WAL_Buffer w))"
    using d by blast
  have le: "unat (WAL_lastFlushedLSN w) \<le> unat (WAL_currentLSN w)"
    using wal_ok_le [OF ok] by (simp add: word_le_nat_alt)
  have "last_index (v log') = last_index (v (WAL_Log w)) + length (WAL_Buffer w)"
    using log_first_pos [OF L, of "WAL_Log w"] by (simp add: vl last_index_def)
  then have lf: "unat lf = unat (WAL_currentLSN w)" "last_index (v log') = unat lf"
    using d wal_ok_last [OF ok] n le by simp_all
  then have "lf = WAL_currentLSN w" by (simp add: word_unat_eq_iff)
  have ds: "snd (v log') = map marshal_WALEntry (disk_entries v w @ WAL_Buffer w)"
    using vl wal_ok_disk [OF ok] by simp
  have "fst (v (WAL_Log w)) \<le> Suc (unat (WAL_lastFlushedLSN w))"
    using wal_ok_last [OF ok] by (simp add: last_index_def)
  from upt_add_eq_append [OF this, of "unat (WAL_currentLSN w) - unat (WAL_lastFlushedLSN w)"] le
  have "lsns (disk_entries v w @ WAL_Buffer w) = [fst (v log') ..< Suc (unat lf)]"
    using wal_ok_disk_lsns [OF ok] wal_ok_buffer [OF ok] lf(1) vl by (simp del: upt_Suc)
  with ds have "wal_ok v w'"
    using w' lf \<open>lf = WAL_currentLSN w\<close> unfolding wal_ok_def
    by (intro conjI exI [of _ "disk_entries v w @ WAL_Buffer w"]) (simp_all del: map_append)
  moreover have "all_entries v w' = all_entries v w"
    using ds w' by (simp add: all_entries_def disk_entries_def comp_def)
  ultimately show ?thesis
    using w' vl by (simp add: flushed_def)
qed

section \<open>Writing\<close>

text \<open>The entry \<open>WriteEvent\<close> appends, and the state before a possible flush.\<close>

definition new_entry :: "fs_env \<Rightarrow> WALType \<Rightarrow> json \<Rightarrow> 'l WAL \<Rightarrow> WALEntry" where
  "new_entry env ty d w = \<lparr>WALEntry_Type = ty, WALEntry_Data = d,
     WALEntry_LSN = WAL_currentLSN w + 1, WALEntry_Timestamp = env_now env\<rparr>"

definition buffered :: "fs_env \<Rightarrow> WALType \<Rightarrow> json \<Rightarrow> 'l WAL \<Rightarrow> 'l WAL" where
  "buffered env ty d w = w\<lparr>WAL_currentLSN := WAL_currentLSN w + 1,
     WAL_Buffer := WAL_Buffer w @ [new_entry env ty d w]\<rparr>"

lemma WriteEvent_Inr:
  "WriteEvent L env ty (Inr d) w =
     (if int (Suc (length (WAL_Buffer w))) \<ge> WAL_BatchSize w
      then (case flushBuffer L env (buffered env ty d w) of
              (w3, Inl e) \<Rightarrow> (w3, Inl e) | (w3, Inr _) \<Rightarrow> (w3, Inr (WAL_currentLSN w + 1)))
      else (buffered env ty d w, Inr (WAL_currentLSN w + 1)))"
  by (simp add: WriteEvent_def nextLSN_def buffered_def new_entry_def Let_def
      fun_eq_iff split: prod.splits sum.splits)

lemma WriteEvent_Inl [simp]:
  "WriteEvent L env ty (Inl e) w = (w\<lparr>WAL_currentLSN := WAL_currentLSN w + 1\<rparr>, Inl SerializeFailed)"
  by (simp add: WriteEvent_def nextLSN_def)

lemma buffered_sel [simp]:
  "WAL_Log (buffered env ty d w) = WAL_Log w"
  "WAL_lastFlushedLSN (buffered env ty d w) = WAL_lastFlushedLSN w"
  "WAL_currentLSN (buffered env ty d w) = WAL_currentLSN w + 1"
  "WAL_Buffer (buffered env ty d w) = WAL_Buffer w @ [new_entry env ty d w]"
  "WAL_checkpointDir (buffered env ty d w) = WAL_checkpointDir w"
  "WAL_BatchSize (buffered env ty d w) = WAL_BatchSize w"
  "WAL_metadataFile (buffered env ty d w) = WAL_metadataFile w"
  by (simp_all add: buffered_def)

lemma buffered_ok:
  assumes "wal_ok v w" and "WAL_currentLSN w \<noteq> MaxUint64"
  shows "wal_ok v (buffered env ty d w)"
proof -
  have "unat (WAL_lastFlushedLSN w) \<le> unat (WAL_currentLSN w)"
    using wal_ok_le [OF assms(1)] by (simp add: word_le_nat_alt)
  with assms show ?thesis
    by (auto simp: wal_ok_def new_entry_def unat_plus1 word_le_nat_alt)
qed

lemma all_entries_buffered:
  "all_entries v (buffered env ty d w) = all_entries v w @ [new_entry env ty d w]"
  by (simp add: all_entries_def disk_entries_def)

text \<open>
  A successful \<open>WriteEvent\<close> keeps the invariant and appends exactly one entry, with the
  returned LSN.
\<close>

lemma WriteEvent_ok:
  assumes L: "tidwall_log L v" and ok: "wal_ok v w" and room: "WAL_currentLSN w \<noteq> MaxUint64"
    and wr: "WriteEvent L env ty ser w = (w', Inr lsn)"
  shows "\<exists>d. ser = Inr d \<and> wal_ok v w' \<and> lsn = WAL_currentLSN w + 1 \<and> WAL_currentLSN w' = lsn \<and>
    all_entries v w' = all_entries v w @ [new_entry env ty d w] \<and>
    WAL_checkpointDir w' = WAL_checkpointDir w \<and> fst (v (WAL_Log w')) = fst (v (WAL_Log w)) \<and>
    WAL_BatchSize w' = WAL_BatchSize w"
proof -
  from wr obtain d where d: "ser = Inr d" by (cases ser) auto
  note b = buffered_ok [OF ok room, of env ty d]
  show ?thesis
  proof (cases "int (Suc (length (WAL_Buffer w))) \<ge> WAL_BatchSize w")
    case True
    with wr d have fl: "flushBuffer L env (buffered env ty d w) = (w', Inr ())"
      and lsn: "lsn = WAL_currentLSN w + 1"
      by (auto simp: WriteEvent_Inr split: prod.splits sum.splits)
    from flushBuffer_ok [OF L b fl] show ?thesis
      using d lsn by (simp add: flushed_def all_entries_buffered)
  next
    case False
    with wr d have "w' = buffered env ty d w" and "lsn = WAL_currentLSN w + 1"
      by (auto simp: WriteEvent_Inr)
    with b d show ?thesis by (simp add: all_entries_buffered)
  qed
qed

section \<open>Reading back\<close>

lemma find_lsn:
  "e \<in> set es \<Longrightarrow> distinct (map WALEntry_LSN es) \<Longrightarrow> find (\<lambda>x. WALEntry_LSN x = WALEntry_LSN e) es = Some e"
  by (induction es) (auto simp: image_iff)

lemma distinct_lsns: "distinct (lsns es) \<Longrightarrow> distinct (map WALEntry_LSN es)"
  by (induction es) (auto simp: image_iff)

lemma GetEvent_all_entries:
  assumes L: "tidwall_log L v" and ok: "wal_ok v w" and e: "e \<in> set (all_entries v w)"
  shows "GetEvent L w (WALEntry_LSN e) = Inr e"
proof (cases "e \<in> set (WAL_Buffer w)")
  case True
  moreover have "distinct (map WALEntry_LSN (WAL_Buffer w))"
    using wal_ok_buffer [OF ok] by (intro distinct_lsns) (simp del: upt_Suc)
  ultimately show ?thesis by (simp add: GetEvent_def find_lsn)
next
  case False
  with e have "e \<in> set (disk_entries v w)" by (simp add: all_entries_def)
  then obtain i where i: "i < length (disk_entries v w)" "disk_entries v w ! i = e"
    by (auto simp: in_set_conv_nth)
  let ?f = "fst (v (WAL_Log w))"
  have len: "length (disk_entries v w) = Suc (unat (WAL_lastFlushedLSN w)) - ?f"
    using arg_cong [OF wal_ok_disk_lsns [OF ok], of length] by (simp del: upt_Suc)
  have lsn: "unat (WALEntry_LSN e) = ?f + i"
    using arg_cong [OF wal_ok_disk_lsns [OF ok], of "\<lambda>xs. xs ! i"] i len by (simp del: upt_Suc)
  have "WALEntry_LSN e \<notin> WALEntry_LSN ` set (WAL_Buffer w)"
  proof
    assume "WALEntry_LSN e \<in> WALEntry_LSN ` set (WAL_Buffer w)"
    then have "unat (WALEntry_LSN e) \<in> set (lsns (WAL_Buffer w))" by force
    then have "Suc (unat (WAL_lastFlushedLSN w)) \<le> unat (WALEntry_LSN e)"
      unfolding wal_ok_buffer [OF ok] by (simp del: upt_Suc)
    with lsn i(1) len show False by simp
  qed
  then have "find (\<lambda>x. WALEntry_LSN x = WALEntry_LSN e) (WAL_Buffer w) = None"
    unfolding find_None_iff by (metis imageI)
  moreover have "op_read L (WAL_Log w) (WALEntry_LSN e) = Some (marshal_WALEntry e)"
    using i len wal_ok_last [OF ok] by (simp add: log_read [OF L] lsn wal_ok_disk [OF ok])
  ultimately show ?thesis by (simp add: GetEvent_def)
qed

section \<open>Replay\<close>

fun run_handler :: "(WALEntry \<Rightarrow> 's \<Rightarrow> 's option) \<Rightarrow> WALEntry list \<Rightarrow> 's \<Rightarrow> wal_error + 's" where
  "run_handler h [] s = Inr s"
| "run_handler h (e # es) s = (case h e s of None \<Rightarrow> Inl (HandlerFailed (WALEntry_LSN e))
     | Some s' \<Rightarrow> run_handler h es s')"

lemma replay_loop_run:
  assumes L: "tidwall_log L v" and ok: "wal_ok v w"
    and "unat idx = fst (v (WAL_Log w)) + k" and "k + n = length (disk_entries v w)"
  shows "replay_loop L (WAL_Log w) h n idx s = run_handler h (drop k (disk_entries v w)) s"
  using assms(3,4)
proof (induction n arbitrary: idx k s)
  case 0
  then show ?case by simp
next
  case (Suc n)
  let ?f = "fst (v (WAL_Log w))" and ?es = "disk_entries v w"
  have len: "length ?es = Suc (unat (WAL_lastFlushedLSN w)) - ?f"
    using arg_cong [OF wal_ok_disk_lsns [OF ok], of length] by (simp del: upt_Suc)
  have rd: "op_read L (WAL_Log w) idx = Some (marshal_WALEntry (?es ! k))"
    using Suc.prems len wal_ok_last [OF ok] by (simp add: log_read [OF L] wal_ok_disk [OF ok])
  have dr: "drop k ?es = ?es ! k # drop (Suc k) ?es"
    using Suc.prems(2) by (simp add: Cons_nth_drop_Suc)
  show ?case
  proof (cases "n = 0")
    case True
    with rd dr Suc.prems show ?thesis by (simp split: option.splits)
  next
    case False
    have "unat idx < last_index (v (WAL_Log w))"
      using False Suc.prems len wal_ok_last [OF ok] by simp
    then have "idx \<noteq> MaxUint64"
      using log_last_bound [OF L, of "WAL_Log w"] unat_max by auto
    then have "unat (idx + 1) = ?f + Suc k"
      using Suc.prems(1) by (simp add: unat_plus1)
    from Suc.IH [OF this] Suc.prems(2) rd dr show ?thesis
      by (simp split: option.splits)
  qed
qed

lemma ReplayEvents_run:
  assumes L: "tidwall_log L v" and ok: "wal_ok v w" and ne: "disk_entries v w \<noteq> []"
  shows "ReplayEvents L w h s = run_handler h (disk_entries v w) s"
proof -
  let ?lv = "v (WAL_Log w)"
  have nz: "snd ?lv \<noteq> []" using ne by (simp add: disk_entries_def)
  have "fst ?lv \<le> last_index ?lv"
    using nz by (cases "snd ?lv") (simp_all add: last_index_def)
  then have f: "unat (word_of_nat (fst ?lv) :: u64) = fst ?lv"
    and l: "unat (word_of_nat (last_index ?lv) :: u64) = last_index ?lv"
    using log_last_bound [OF L, of "WAL_Log w"] by (simp_all add: unat_of_nat)
  have "length (disk_entries v w) = Suc (last_index ?lv) - fst ?lv"
    using arg_cong [OF wal_ok_disk_lsns [OF ok], of length] wal_ok_last [OF ok] by (simp del: upt_Suc)
  with f l nz show ?thesis
    using replay_loop_run [OF L ok, of "word_of_nat (fst ?lv)" 0]
    by (simp add: ReplayEvents_def log_first [OF L] log_last [OF L])
qed

text \<open>On an empty log both indices are 0 and the loop reads the entry 0, which does not exist.\<close>

lemma ReplayEvents_empty:
  assumes L: "tidwall_log L v" and "snd (v (WAL_Log w)) = []"
  shows "ReplayEvents L w h s = Inl (ReadFailed 0)"
  using assms(2) log_empty_first [OF L assms(2)]
  by (simp add: ReplayEvents_def log_first [OF L] log_last [OF L] log_read [OF L] last_index_def)

section \<open>Recovery after a restart\<close>

text \<open>The metadata file agrees with the counters, as a completed flush leaves it.\<close>

definition meta_saved :: "'l WAL \<Rightarrow> bool" where
  "meta_saved w \<longleftrightarrow> (case WAL_metadataFile w of
       None \<Rightarrow> WAL_currentLSN w = 0 \<and> WAL_lastFlushedLSN w = 0
     | Some j \<Rightarrow> (\<exists>t. j = marshal_LSNMetadata \<lparr>LSNMetadata_CurrentLSN = WAL_currentLSN w,
         LSNMetadata_LastFlushedLSN = WAL_lastFlushedLSN w, LSNMetadata_LastUpdated = t\<rparr>))"

lemma flushBuffer_meta:
  assumes "flushBuffer L env w = (w', Inr ())" and "WAL_Buffer w \<noteq> []"
  shows "meta_saved w'"
  using assms by (auto simp: flushBuffer_def saveLSN_def meta_saved_def Let_def
      split: prod.splits option.splits if_splits)

text \<open>The process stops and \<open>NewWAL\<close> opens what is on disk.\<close>

definition reopen :: "int \<Rightarrow> 'l WAL \<Rightarrow> wal_error + 'l WAL" where
  "reopen b w = NewWAL (WAL_Log w) (WAL_metadataFile w) (WAL_checkpointDir w) b"

lemma reopen_saved:
  assumes "meta_saved w"
  shows "\<exists>w'. reopen b w = Inr w' \<and> WAL_Log w' = WAL_Log w \<and> WAL_Buffer w' = [] \<and>
    WAL_currentLSN w' = WAL_currentLSN w \<and> WAL_lastFlushedLSN w' = WAL_lastFlushedLSN w \<and>
    WAL_metadataFile w' = WAL_metadataFile w"
  using assms by (auto simp: reopen_def NewWAL_def loadLSN_def meta_saved_def split: option.splits)

lemma reopen_ok:
  assumes "wal_ok v w" and "meta_saved w" and "WAL_Buffer w = []"
  shows "\<exists>w'. reopen b w = Inr w' \<and> wal_ok v w' \<and> all_entries v w' = all_entries v w \<and>
    WAL_currentLSN w' = WAL_currentLSN w \<and> disk_entries v w' = disk_entries v w"
proof -
  obtain w' where w': "reopen b w = Inr w'" "WAL_Log w' = WAL_Log w" "WAL_Buffer w' = []"
    "WAL_currentLSN w' = WAL_currentLSN w" "WAL_lastFlushedLSN w' = WAL_lastFlushedLSN w"
    using reopen_saved [OF assms(2)] by blast
  then have "wal_ok v w'" using assms(1,3) by (simp add: wal_ok_def)
  with w' assms(3) show ?thesis by (simp add: all_entries_def disk_entries_def)
qed

section \<open>A WAL that can no longer persist\<close>

text \<open>
  The segment log accepts only the index after its last one. A WAL is stuck when the first
  buffered entry carries another LSN: no flush can then succeed, and since a failed flush keeps
  the buffer, none ever will.
\<close>

definition stuck :: "('l \<Rightarrow> log_view) \<Rightarrow> 'l WAL \<Rightarrow> bool" where
  "stuck v w \<longleftrightarrow> WAL_Buffer w \<noteq> [] \<and>
     unat (WALEntry_LSN (hd (WAL_Buffer w))) \<noteq> Suc (last_index (v (WAL_Log w)))"

datatype wal_call =
    CallWrite WALType "wal_error + json" fs_env
  | CallFlush fs_env
  | CallCheckpoint fs_env

fun do_call :: "'l log_ops \<Rightarrow> wal_call \<Rightarrow> 'l WAL \<Rightarrow> 'l WAL" where
  "do_call L (CallWrite ty ser env) w = fst (WriteEvent L env ty ser w)"
| "do_call L (CallFlush env) w = fst (Flush L env w)"
| "do_call L (CallCheckpoint env) w = fst (CreateCheckpoint L env w)"

lemma stuck_flush:
  assumes L: "tidwall_log L v" and "stuck v w"
  shows "\<exists>n. flushBuffer L env w = (w, Inl (LogWriteFailed n))"
proof -
  obtain e es where b: "WAL_Buffer w = e # es" using assms(2) by (cases "WAL_Buffer w") (auto simp: stuck_def)
  then have "op_write L (WAL_Log w) (WALEntry_LSN e) (marshal_WALEntry e) = (WAL_Log w, False)"
    using assms(2) by (intro log_write_misplaced [OF L]) (simp add: stuck_def)
  with b show ?thesis by (simp add: flushBuffer_def)
qed

lemma stuck_buffered: "stuck v w \<Longrightarrow> stuck v (buffered env ty d w)"
  by (cases "WAL_Buffer w") (auto simp: stuck_def)

lemma stuck_call:
  assumes L: "tidwall_log L v" and s: "stuck v w"
  shows "stuck v (do_call L c w) \<and> WAL_Log (do_call L c w) = WAL_Log w"
proof (cases c)
  case (CallWrite ty ser env)
  show ?thesis
  proof (cases ser)
    case (Inl e)
    with CallWrite s show ?thesis by (simp add: stuck_def)
  next
    case (Inr d)
    from stuck_flush [OF L stuck_buffered [OF s]] obtain n where
      "flushBuffer L env (buffered env ty d w) = (buffered env ty d w, Inl (LogWriteFailed n))" by blast
    with CallWrite Inr stuck_buffered [OF s] show ?thesis by (simp add: WriteEvent_Inr)
  qed
next
  case (CallFlush env)
  from stuck_flush [OF L s] obtain n where "flushBuffer L env w = (w, Inl (LogWriteFailed n))" by blast
  with CallFlush s show ?thesis by (simp add: Flush_def)
next
  case (CallCheckpoint env)
  from stuck_flush [OF L s] obtain n where "flushBuffer L env w = (w, Inl (LogWriteFailed n))" by blast
  with CallCheckpoint s show ?thesis by (simp add: CreateCheckpoint_def)
qed

lemma stuck_forever:
  assumes "tidwall_log L v" and "stuck v w"
  shows "stuck v (fold (do_call L) cs w) \<and> WAL_Log (fold (do_call L) cs w) = WAL_Log w"
  using assms(2)
proof (induction cs arbitrary: w)
  case (Cons c cs)
  with stuck_call [OF assms(1) Cons.prems, of c] show ?case by simp
qed simp

text \<open>A first entry with a misplaced LSN makes an empty-buffered WAL stuck.\<close>

lemma misplaced_write_stuck:
  assumes L: "tidwall_log L v" and "WAL_Buffer w = []"
    and "unat (WAL_currentLSN w + 1) \<noteq> Suc (last_index (v (WAL_Log w)))"
  shows "stuck v (fst (WriteEvent L env ty (Inr d) w)) \<and>
    WAL_Log (fst (WriteEvent L env ty (Inr d) w)) = WAL_Log w"
proof -
  have s: "stuck v (buffered env ty d w)" using assms(2,3) by (simp add: stuck_def new_entry_def)
  from stuck_flush [OF L s] obtain n where
    "flushBuffer L env (buffered env ty d w) = (buffered env ty d w, Inl (LogWriteFailed n))" by blast
  with s show ?thesis by (simp add: WriteEvent_Inr)
qed

section \<open>Checkpoint markers\<close>

lemma of_char_digit: "k < 10 \<Longrightarrow> (of_char (char_of (48 + k :: nat)) :: nat) = 48 + k"
  by simp

lemma pad_dec_div: "n < 10 ^ Suc w \<Longrightarrow> n div 10 ^ w < (10 :: nat)"
  by (simp add: less_mult_imp_div_less mult.commute)

lemma pad_dec_digits: "n < 10 ^ w \<Longrightarrow> \<forall>c\<in>set (pad_dec w n). is_digit c"
proof (induction w arbitrary: n)
  case (Suc w)
  have "n div 10 ^ w < 10" using Suc.prems by (rule pad_dec_div)
  moreover have "\<forall>c\<in>set (pad_dec w (n mod 10 ^ w)). is_digit c" by (rule Suc.IH) simp
  ultimately show ?case by (auto simp: is_digit_def)
qed simp

lemma length_pad_dec [simp]: "length (pad_dec w n) = w"
  by (induction w arbitrary: n) auto

lemma foldl_dec:
  "foldl (\<lambda>n c. 10 * n + (of_char c - 48)) a ds = 10 ^ length ds * a + dec_value (ds :: string)"
  unfolding dec_value_def
proof (induction ds arbitrary: a)
  case (Cons d ds)
  show ?case
    using Cons.IH [of "10 * a + (of_char d - 48)"] Cons.IH [of "of_char d - 48"]
    by (simp add: algebra_simps)
qed simp

lemma dec_value_pad: "n < 10 ^ w \<Longrightarrow> dec_value (pad_dec w n) = n"
proof (induction w arbitrary: n)
  case (Suc w)
  have d: "n div 10 ^ w < 10" using Suc.prems by (rule pad_dec_div)
  have "dec_value (pad_dec w (n mod 10 ^ w)) = n mod 10 ^ w" by (rule Suc.IH) simp
  then have "dec_value (pad_dec (Suc w) n) = 10 ^ w * (n div 10 ^ w) + n mod 10 ^ w"
    using foldl_dec [of "n div 10 ^ w" "pad_dec w (n mod 10 ^ w)"] d by (simp add: dec_value_def)
  then show ?case by simp
qed (simp add: dec_value_def)

lemma less_div_mod:
  assumes "0 < (p :: nat)"
  shows "(a div p < b div p \<or> a div p = b div p \<and> a mod p < b mod p) = (a < b)"
proof (cases "a div p" "b div p" rule: linorder_cases)
  case less
  then show ?thesis using div_le_mono [of b a p] by (auto simp: not_le [symmetric])
next
  case equal
  then show ?thesis
    by (metis div_mult_mod_eq nat_add_left_cancel_less nless_le)
next
  case greater
  then show ?thesis using div_le_mono [of a b p] by auto
qed

lemma pad_dec_less: "a < 10 ^ w \<Longrightarrow> b < 10 ^ w \<Longrightarrow> (pad_dec w a < pad_dec w b) = (a < b)"
proof (induction w arbitrary: a b)
  case (Suc w)
  let ?p = "10 ^ w :: nat"
  have d: "a div ?p < 10" "b div ?p < 10" using Suc.prems by (auto intro: pad_dec_div)
  have IH: "(pad_dec w (a mod ?p) < pad_dec w (b mod ?p)) = (a mod ?p < b mod ?p)"
    by (rule Suc.IH) simp_all
  have "(char_of (48 + a div ?p) < (char_of (48 + b div ?p) :: char)) = (a div ?p < b div ?p)"
    and "(char_of (48 + a div ?p) = (char_of (48 + b div ?p) :: char)) = (a div ?p = b div ?p)"
    using d by (simp_all add: less_char_def)
  then show ?case using IH less_div_mod [of ?p a b] by simp
qed simp

lemma u64_20_digits: "unat (n :: u64) < 10 ^ 20"
  using unat_lt [of n] by simp

lemma marker_name_less: "(marker_name a < marker_name b) = (a < b)"
  using pad_dec_less [OF u64_20_digits u64_20_digits]
  by (simp add: marker_name_def marker_prefix_def word_less_nat_alt)

lemma marker_name_inj: "marker_name a = marker_name b \<Longrightarrow> a = b"
  by (metis marker_name_less less_irrefl linorder_neqE)

lemma scan_marker_name [simp]: "scan_marker (marker_name n) = n"
proof -
  have tw: "takeWhile is_digit (pad_dec 20 (unat n)) = pad_dec 20 (unat n)"
    using pad_dec_digits [OF u64_20_digits, of n] by (simp add: takeWhile_eq_all_conv)
  have ne: "pad_dec 20 (unat n) \<noteq> []"
    by (metis length_pad_dec list.size(3) zero_neq_numeral)
  have v: "dec_value (pad_dec 20 (unat n)) = unat n"
    by (rule dec_value_pad) (rule u64_20_digits)
  have d: "drop 4 (marker_name n) = pad_dec 20 (unat n)"
    by (simp add: marker_name_def marker_prefix_def)
  show ?thesis
    unfolding scan_marker_def Let_def d tw v using ne unat_lt [of n] by simp
qed

lemma is_marker_name [simp]: "is_marker (marker_name n)"
  by (simp add: is_marker_def marker_name_def marker_prefix_def)

text \<open>
  The checkpoint directory holds one marker per checkpointed LSN, in LSN order; the log still
  holds every entry from each marked LSN on.
\<close>

definition markers_ok :: "('l \<Rightarrow> log_view) \<Rightarrow> 'l WAL \<Rightarrow> u64 list \<Rightarrow> bool" where
  "markers_ok v w ns \<longleftrightarrow> WAL_checkpointDir w = map marker_name ns \<and> sorted_wrt (<) ns \<and>
     (\<forall>n\<in>set ns. n \<le> WAL_lastFlushedLSN w \<and> (n = 0 \<or> fst (v (WAL_Log w)) \<le> unat n))"

lemma insort_marker:
  "sorted_wrt (<) ns \<Longrightarrow> \<forall>m\<in>set ns. m \<le> n \<Longrightarrow>
   write_name (marker_name n) (map marker_name ns) = map marker_name (if n \<in> set ns then ns else ns @ [n])"
proof (induction ns)
  case Nil
  then show ?case by (simp add: write_name_def)
next
  case (Cons m ns)
  have m: "m \<le> n" and IH: "write_name (marker_name n) (map marker_name ns) =
      map marker_name (if n \<in> set ns then ns else ns @ [n])"
    using Cons by auto
  have mem: "marker_name n \<in> marker_name ` set xs \<longleftrightarrow> n \<in> set xs" for xs
    by (auto dest: marker_name_inj)
  show ?case
  proof (cases "n \<in> set (m # ns)")
    case True
    then show ?thesis using mem [of "m # ns"] by (simp add: write_name_def)
  next
    case False
    then have "\<not> marker_name n \<le> marker_name m"
      using m by (auto simp: not_le marker_name_less)
    with False IH mem [of "m # ns"] mem [of ns] show ?thesis
      by (auto simp: write_name_def)
  qed
qed

lemma filter_lsns:
  "lsns es = [f ..< f + length es] \<Longrightarrow> filter (\<lambda>e. k \<le> unat (WALEntry_LSN e)) es = drop (k - f) es"
proof (induction es arbitrary: f)
  case (Cons e es)
  have e: "unat (WALEntry_LSN e) = f" and es: "lsns es = [Suc f ..< Suc f + length es]"
    using Cons.prems by (simp_all add: upt_rec)
  have all: "filter (\<lambda>e. k \<le> unat (WALEntry_LSN e)) es = es" if "k \<le> f"
  proof (rule filter_True, rule ballI)
    fix x assume "x \<in> set es"
    then have "unat (WALEntry_LSN x) \<in> set (lsns es)" by simp
    then show "k \<le> unat (WALEntry_LSN x)" unfolding es using that by auto
  qed
  show ?case
  proof (cases "k \<le> f")
    case True
    with e all show ?thesis by simp
  next
    case False
    then have "k - f = Suc (k - Suc f)" by simp
    with e False Cons.IH [OF es] show ?thesis by simp
  qed
qed simp

lemma filter_all_entries:
  assumes ok: "wal_ok v w" and le: "lsn \<le> WAL_lastFlushedLSN w"
  shows "filter (\<lambda>e. lsn \<le> WALEntry_LSN e) (all_entries v w) =
    drop (unat lsn - fst (v (WAL_Log w))) (disk_entries v w) @ WAL_Buffer w"
proof -
  let ?f = "fst (v (WAL_Log w))" and ?es = "disk_entries v w"
  have len: "length ?es = Suc (unat (WAL_lastFlushedLSN w)) - ?f"
    using arg_cong [OF wal_ok_disk_lsns [OF ok], of length] by (simp del: upt_Suc)
  have "?f \<le> Suc (unat (WAL_lastFlushedLSN w))"
    using wal_ok_last [OF ok] by (simp add: last_index_def)
  then have "lsns ?es = [?f ..< ?f + length ?es]"
    using wal_ok_disk_lsns [OF ok] len by (simp del: upt_Suc)
  note d = filter_lsns [OF this, of "unat lsn"]
  have "filter (\<lambda>e. unat lsn \<le> unat (WALEntry_LSN e)) (WAL_Buffer w) = WAL_Buffer w"
  proof (rule filter_True, rule ballI)
    fix x assume "x \<in> set (WAL_Buffer w)"
    then have "unat (WALEntry_LSN x) \<in> set (lsns (WAL_Buffer w))" by simp
    then have "unat (WAL_lastFlushedLSN w) < unat (WALEntry_LSN x)"
      unfolding wal_ok_buffer [OF ok] by (simp del: upt_Suc)
    with le show "unat lsn \<le> unat (WALEntry_LSN x)" by (simp add: word_le_nat_alt)
  qed
  with d show ?thesis by (simp add: all_entries_def word_le_nat_alt)
qed

text \<open>Truncation drops exactly the entries below the given LSN.\<close>

lemma truncate_ok:
  assumes L: "tidwall_log L v" and ok: "wal_ok v w" and le: "lsn \<le> WAL_lastFlushedLSN w"
    and t: "truncateBeforeUnlocked L lsn w = (w', Inr ())"
  shows "wal_ok v w' \<and> w' = w\<lparr>WAL_Log := WAL_Log w'\<rparr> \<and>
    fst (v (WAL_Log w')) = max (fst (v (WAL_Log w))) (unat lsn) \<and>
    all_entries v w' = filter (\<lambda>e. lsn \<le> WALEntry_LSN e) (all_entries v w)"
proof (cases "unat lsn \<le> fst (v (WAL_Log w))")
  case True
  have "w' = w"
  proof (rule ccontr)
    assume ne: "w' \<noteq> w"
    with t have nz: "lsn \<noteq> 0" and tr: "op_truncate_front L (WAL_Log w) lsn = (WAL_Log w', True)"
      and gt: "\<not> lsn \<le> (if snd (v (WAL_Log w)) = [] then 0 else word_of_nat (fst (v (WAL_Log w))))"
      by (auto simp: truncateBeforeUnlocked_def log_first [OF L] split: if_splits prod.splits bool.splits)
    from log_truncate_True [OF L tr] have "unat lsn \<le> last_index (v (WAL_Log w))"
      and "fst (v (WAL_Log w)) \<le> unat lsn" by auto
    with log_first_pos [OF L, of "WAL_Log w"] have "snd (v (WAL_Log w)) \<noteq> []"
      by (auto simp: last_index_def)
    moreover have "fst (v (WAL_Log w)) = unat lsn"
      using True \<open>fst (v (WAL_Log w)) \<le> unat lsn\<close> by simp
    ultimately show False using gt by simp
  qed
  with ok True filter_all_entries [OF ok le] show ?thesis by (simp add: all_entries_def)
next
  case False
  then have "lsn \<noteq> 0" by auto
  have "\<not> lsn \<le> word_of_nat (fst (v (WAL_Log w)))"
  proof -
    have "fst (v (WAL_Log w)) < 2 ^ 64" using False unat_lt [of lsn] by linarith
    then have "unat (word_of_nat (fst (v (WAL_Log w))) :: u64) = fst (v (WAL_Log w))"
      by (simp add: unat_of_nat)
    with False show ?thesis by (simp add: word_le_nat_alt)
  qed
  moreover obtain l' b where op: "op_truncate_front L (WAL_Log w) lsn = (l', b)" by fastforce
  ultimately have b: "b \<and> w' = w\<lparr>WAL_Log := l'\<rparr>"
    using t \<open>lsn \<noteq> 0\<close> by (cases b) (simp_all add: truncateBeforeUnlocked_def log_first [OF L] split: if_splits)
  then have tr: "op_truncate_front L (WAL_Log w) lsn = (l', True)" and w': "w' = w\<lparr>WAL_Log := l'\<rparr>"
    using op by simp_all
  let ?k = "unat lsn - fst (v (WAL_Log w))"
  from log_truncate_True [OF L tr] have rng: "unat lsn \<le> last_index (v (WAL_Log w))"
    and vl: "v l' = (unat lsn, drop ?k (snd (v (WAL_Log w))))" by auto
  have "lsns (drop ?k (disk_entries v w)) = [unat lsn ..< Suc (unat (WAL_lastFlushedLSN w))]"
    using wal_ok_disk_lsns [OF ok] False by (simp add: drop_map [symmetric] del: upt_Suc)
  moreover have "last_index (v l') = last_index (v (WAL_Log w))"
    using rng False by (simp add: vl last_index_def)
  moreover have dd: "drop ?k (snd (v (WAL_Log w))) = map marshal_WALEntry (drop ?k (disk_entries v w))"
    using wal_ok_disk [OF ok] by (simp add: drop_map)
  ultimately have "wal_ok v w'"
    using ok w' vl unfolding wal_ok_def by auto
  moreover have "disk_entries v w' = drop ?k (disk_entries v w)"
    using w' vl dd by (simp add: disk_entries_def comp_def)
  ultimately show ?thesis
    using w' vl False filter_all_entries [OF ok le] by (simp add: all_entries_def)
qed

lemma filter_is_marker [simp]: "filter is_marker (map marker_name ns) = map marker_name ns"
  by (simp add: filter_map comp_def)

text \<open>Adding the marker of the last flushed LSN.\<close>

definition add_marker :: "u64 \<Rightarrow> u64 list \<Rightarrow> u64 list" where
  "add_marker n ns = (if n \<in> set ns then ns else ns @ [n])"

lemma set_add_marker [simp]: "set (add_marker n ns) = insert n (set ns)"
  by (auto simp: add_marker_def)

lemma length_add_marker: "length (add_marker n ns) \<le> Suc (length ns)"
  by (simp add: add_marker_def)

lemma first_le_last:
  assumes L: "tidwall_log L v" and ok: "wal_ok v w"
  shows "WAL_lastFlushedLSN w = 0 \<or> fst (v (WAL_Log w)) \<le> unat (WAL_lastFlushedLSN w)"
  using wal_ok_last [OF ok] log_empty_first [OF L, of "WAL_Log w"]
  by (cases "snd (v (WAL_Log w)) = []") (auto simp: last_index_def neq_Nil_conv unat_eq_0)

lemma mark_ok:
  assumes L: "tidwall_log L v" and ok: "wal_ok v w" and m: "markers_ok v w ns"
    and fl: "flushBuffer L env w = (w1, Inr ())"
  defines "n \<equiv> WAL_lastFlushedLSN w1"
  defines "w2 \<equiv> w1\<lparr>WAL_checkpointDir := write_name (marker_name n) (WAL_checkpointDir w1)\<rparr>"
  shows "wal_ok v w2 \<and> markers_ok v w2 (add_marker n ns) \<and> n = WAL_currentLSN w \<and> WAL_Buffer w2 = [] \<and>
    WAL_currentLSN w2 = n \<and> all_entries v w2 = all_entries v w"
proof -
  from flushBuffer_ok [OF L ok fl] have w1: "wal_ok v w1" "WAL_Buffer w1 = []"
    "WAL_currentLSN w1 = WAL_currentLSN w" "all_entries v w1 = all_entries v w"
    "fst (v (WAL_Log w1)) = fst (v (WAL_Log w))" "WAL_checkpointDir w1 = WAL_checkpointDir w"
    by (auto simp: flushed_def)
  have cur: "n = WAL_currentLSN w" using wal_ok_empty_buffer [OF w1(1,2)] w1(3) by (simp add: n_def)
  have le: "\<forall>k\<in>set ns. k \<le> n"
    using m wal_ok_le [OF ok] cur by (auto simp: markers_ok_def)
  have "sorted_wrt (<) (add_marker n ns)"
    using m le by (auto simp: add_marker_def markers_ok_def sorted_wrt_append order.strict_iff_order)
  moreover have "write_name (marker_name n) (WAL_checkpointDir w1) = map marker_name (add_marker n ns)"
    using insort_marker m le w1(6) by (simp add: add_marker_def markers_ok_def)
  ultimately have "markers_ok v w2 (add_marker n ns)"
    using m le first_le_last [OF L w1(1)] w1(5) by (auto simp: markers_ok_def w2_def n_def)
  then show ?thesis
    using w1 cur by (simp add: w2_def wal_ok_def all_entries_def disk_entries_def)
qed

text \<open>Removing the oldest of several markers after truncating the log to it.\<close>

lemma rotate_ok:
  assumes L: "tidwall_log L v" and ok: "wal_ok v w" and m: "markers_ok v w (k # ns)"
    and tr: "truncateBeforeUnlocked L k w = (w1, Inr ())"
  defines "w2 \<equiv> w1\<lparr>WAL_checkpointDir := remove1 (marker_name k) (WAL_checkpointDir w1)\<rparr>"
  shows "wal_ok v w2 \<and> markers_ok v w2 ns \<and> WAL_Buffer w2 = WAL_Buffer w \<and>
    WAL_currentLSN w2 = WAL_currentLSN w \<and> (\<forall>n\<in>set ns. k \<le> n) \<and>
    all_entries v w2 = filter (\<lambda>e. k \<le> WALEntry_LSN e) (all_entries v w)"
proof -
  have le: "k \<le> WAL_lastFlushedLSN w" and lt: "\<forall>n\<in>set ns. k < n"
    using m by (simp_all add: markers_ok_def)
  from truncate_ok [OF L ok le tr] have w1: "wal_ok v w1" "w1 = w\<lparr>WAL_Log := WAL_Log w1\<rparr>"
    "fst (v (WAL_Log w1)) = max (fst (v (WAL_Log w))) (unat k)"
    "all_entries v w1 = filter (\<lambda>e. k \<le> WALEntry_LSN e) (all_entries v w)" by auto
  have sel: "WAL_checkpointDir w1 = WAL_checkpointDir w" "WAL_lastFlushedLSN w1 = WAL_lastFlushedLSN w"
    "WAL_currentLSN w1 = WAL_currentLSN w" "WAL_Buffer w1 = WAL_Buffer w"
    using arg_cong [OF w1(2), of WAL_checkpointDir] arg_cong [OF w1(2), of WAL_lastFlushedLSN]
      arg_cong [OF w1(2), of WAL_currentLSN] arg_cong [OF w1(2), of WAL_Buffer] by simp_all
  have "markers_ok v w2 ns"
    using m lt sel w1(3) by (auto simp: markers_ok_def w2_def word_le_nat_alt word_less_nat_alt)
  then show ?thesis
    using w1 sel lt by (auto simp: w2_def wal_ok_def all_entries_def disk_entries_def)
qed

text \<open>
  A successful checkpoint flushes the buffer, marks the last LSN, keeps at most
  \<open>MaxSnapshotLimit\<close> markers and drops only entries below every marker it keeps.
\<close>

lemma CreateCheckpoint_ok:
  assumes L: "tidwall_log L v" and ok: "wal_ok v w" and m: "markers_ok v w ns"
    and len: "length ns \<le> MaxSnapshotLimit" and c: "CreateCheckpoint L env w = (w', Inr lsn)"
  shows "wal_ok v w' \<and> WAL_Buffer w' = [] \<and> lsn = WAL_currentLSN w \<and> WAL_currentLSN w' = lsn \<and>
    (\<exists>ns' lo. markers_ok v w' ns' \<and> lsn \<in> set ns' \<and> length ns' \<le> MaxSnapshotLimit \<and>
       set ns' \<subseteq> insert lsn (set ns) \<and> (\<forall>n\<in>set ns'. lo \<le> n) \<and>
       all_entries v w' = filter (\<lambda>e. lo \<le> WALEntry_LSN e) (all_entries v w))"
proof -
  from c obtain w1 where fl: "flushBuffer L env w = (w1, Inr ())"
    by (auto simp: CreateCheckpoint_def split: prod.splits sum.splits)
  let ?n = "WAL_lastFlushedLSN w1"
  let ?ns = "add_marker ?n ns"
  define w2 where "w2 = w1\<lparr>WAL_checkpointDir := write_name (marker_name ?n) (WAL_checkpointDir w1)\<rparr>"
  from mark_ok [OF L ok m fl, folded w2_def] have w2: "wal_ok v w2" "markers_ok v w2 ?ns" "?n = WAL_currentLSN w"
    "WAL_Buffer w2 = []" "WAL_currentLSN w2 = ?n" "all_entries v w2 = all_entries v w"
    by blast+
  have dir: "write_name (marker_name ?n) (WAL_checkpointDir w1) = map marker_name ?ns"
    using w2(2) by (simp add: markers_ok_def w2_def)
  show ?thesis
  proof (cases "length ?ns > MaxSnapshotLimit")
    case False
    then have "w' = w2" "lsn = ?n"
      using c fl dir by (auto simp: CreateCheckpoint_def w2_def Let_def split: if_splits)
    with w2 False show ?thesis
      by (intro conjI exI [of _ ?ns] exI [of _ 0]) auto
  next
    case True
    then obtain k rest where ns: "?ns = k # rest" by (cases ?ns) auto
    obtain w3 where tr: "truncateBeforeUnlocked L k w2 = (w3, Inr ())"
      and w': "w' = w3\<lparr>WAL_checkpointDir := remove1 (marker_name k) (WAL_checkpointDir w3)\<rparr>" "lsn = ?n"
      using c fl dir True ns
      by (auto simp: CreateCheckpoint_def w2_def Let_def split: if_splits prod.splits sum.splits)
    from w2(2) ns have "markers_ok v w2 (k # rest)" by simp
    note r = rotate_ok [OF L w2(1) this tr]
    have "rest \<noteq> []" using True ns by (auto simp: MaxSnapshotLimit_def)
    then obtain a where "a \<in> set rest" by (cases rest) auto
    with w2(2) ns have "k < a" and "a \<le> ?n" by (auto simp: markers_ok_def w2_def)
    then have "?n \<noteq> k" by auto
    then have "?n \<in> set rest" using set_add_marker [of ?n ns] ns by auto
    moreover have "length rest \<le> MaxSnapshotLimit"
      using len length_add_marker [of ?n ns] ns by simp
    moreover have "set rest \<subseteq> insert ?n (set ns)"
      using set_add_marker [of ?n ns] ns by auto
    ultimately show ?thesis
      using r w2 w' by (intro conjI exI [of _ rest] exI [of _ k]) auto
  qed
qed

end
