(* ===== verification/FS_Events.thy ===== *)
theory FS_Events
  imports FS_WAL_Facts
begin

text \<open>
  \<open>common/WAL/adapter.go\<close>: the events the phases write to the log. Five of the structs
  (\<open>HeaderSyncEvent\<close>, \<open>MerkleSyncEvent\<close>, \<open>PriorSyncEvent\<close>, \<open>DataSyncEvent\<close>,
  \<open>AccountSyncEvent\<close>) have the same shape, a \<open>BaseEvent\<close>, a protobuf message that JSON skips
  and the message's bytes; they share the record \<open>'m ProtoEvent\<close>. The protobuf runtime and the
  generated message types are not part of the modelled code: \<open>P :: 'm proto_ops\<close> is a parameter,
  with \<open>proto_Unmarshal P ty\<close> the decoding into a fresh message of the type that events of kind
  \<open>ty\<close> carry. The locale \<open>event_adapter\<close> is the contract of the Go interface \<open>EventAdapter\<close>;
  every event type is an instance of it.
\<close>

section \<open>Event types\<close>

type_synonym EventOperation = string

definition OpUpdate :: EventOperation where "OpUpdate = ''UPDATE''"

record BaseEvent =
  BaseEvent_Type :: WALType
  BaseEvent_LSN :: u64
  BaseEvent_Operation :: EventOperation

record 'm ProtoEvent =
  ProtoEvent_Base :: BaseEvent
  ProtoEvent_Message :: "'m option"
  ProtoEvent_ProtoData :: bytes

record ReconciliationEvent =
  ReconciliationEvent_Base :: BaseEvent
  ReconciliationEvent_AccountAddress :: string
  ReconciliationEvent_OldBalance :: string
  ReconciliationEvent_NewBalance :: string
  ReconciliationEvent_Nonce :: u64
  ReconciliationEvent_Timestamp :: i64

record ReconciliationBatchEntry =
  ReconciliationBatchEntry_AccountAddress :: string
  ReconciliationBatchEntry_NewBalance :: string
  ReconciliationBatchEntry_Nonce :: u64

record ReconciliationBatchEvent =
  ReconciliationBatchEvent_Base :: BaseEvent
  ReconciliationBatchEvent_Accounts :: "ReconciliationBatchEntry list"
  ReconciliationBatchEvent_Timestamp :: i64

record PoTSBlockEvent =
  PoTSBlockEvent_Base :: BaseEvent
  PoTSBlockEvent_BlockNumber :: u64
  PoTSBlockEvent_BlockData :: json
  PoTSBlockEvent_Timestamp :: i64

record 'm proto_ops =
  proto_Marshal :: "'m \<Rightarrow> bytes option"
  proto_Unmarshal :: "WALType \<Rightarrow> bytes \<Rightarrow> 'm option"

text \<open>The zero values \<open>&T{}\<close> that events are decoded into.\<close>

definition empty_BaseEvent :: BaseEvent where
  "empty_BaseEvent = \<lparr>BaseEvent_Type = [], BaseEvent_LSN = 0, BaseEvent_Operation = []\<rparr>"

definition empty_ProtoEvent :: "'m ProtoEvent" where
  "empty_ProtoEvent = \<lparr>ProtoEvent_Base = empty_BaseEvent, ProtoEvent_Message = None, ProtoEvent_ProtoData = []\<rparr>"

definition empty_ReconciliationEvent :: ReconciliationEvent where
  "empty_ReconciliationEvent = \<lparr>ReconciliationEvent_Base = empty_BaseEvent,
     ReconciliationEvent_AccountAddress = [], ReconciliationEvent_OldBalance = [],
     ReconciliationEvent_NewBalance = [], ReconciliationEvent_Nonce = 0, ReconciliationEvent_Timestamp = 0\<rparr>"

definition empty_ReconciliationBatchEvent :: ReconciliationBatchEvent where
  "empty_ReconciliationBatchEvent = \<lparr>ReconciliationBatchEvent_Base = empty_BaseEvent,
     ReconciliationBatchEvent_Accounts = [], ReconciliationBatchEvent_Timestamp = 0\<rparr>"

definition empty_PoTSBlockEvent :: PoTSBlockEvent where
  "empty_PoTSBlockEvent = \<lparr>PoTSBlockEvent_Base = empty_BaseEvent, PoTSBlockEvent_BlockNumber = 0,
     PoTSBlockEvent_BlockData = JNull, PoTSBlockEvent_Timestamp = 0\<rparr>"

section \<open>JSON of the event structs\<close>

text \<open>The embedded \<open>BaseEvent\<close> contributes its fields to the object of the outer struct.\<close>

definition base_fields :: "BaseEvent \<Rightarrow> (string \<times> json) list" where
  "base_fields b = [(''type'', JStr (BaseEvent_Type b)), (''lsn'', enc_u64 (BaseEvent_LSN b)),
     (''operation'', JStr (BaseEvent_Operation b))]"

definition dec_base :: "BaseEvent \<Rightarrow> (string \<times> json) list \<Rightarrow> BaseEvent option" where
  "dec_base b kvs = (case (jfield ''type'' (BaseEvent_Type b) dec_str kvs,
       jfield ''lsn'' (BaseEvent_LSN b) dec_u64 kvs,
       jfield ''operation'' (BaseEvent_Operation b) dec_str kvs) of
     (Some t, Some n, Some p) \<Rightarrow>
       Some \<lparr>BaseEvent_Type = t, BaseEvent_LSN = n, BaseEvent_Operation = p\<rparr>
   | _ \<Rightarrow> None)"

definition marshal_ProtoEvent :: "'m ProtoEvent \<Rightarrow> json" where
  "marshal_ProtoEvent e =
     JObj (base_fields (ProtoEvent_Base e) @ [(''proto_data'', enc_bytes (ProtoEvent_ProtoData e))])"

definition unmarshal_ProtoEvent :: "json \<Rightarrow> 'm ProtoEvent \<Rightarrow> 'm ProtoEvent option" where
  "unmarshal_ProtoEvent j e = (case j of JObj kvs \<Rightarrow>
     (case (dec_base (ProtoEvent_Base e) kvs,
            jslice ''proto_data'' (ProtoEvent_ProtoData e) dec_bytes kvs) of
        (Some b, Some d) \<Rightarrow> Some (e\<lparr>ProtoEvent_Base := b, ProtoEvent_ProtoData := d\<rparr>)
      | _ \<Rightarrow> None)
   | JNull \<Rightarrow> Some e
   | _ \<Rightarrow> None)"

definition marshal_ReconciliationEvent :: "ReconciliationEvent \<Rightarrow> json" where
  "marshal_ReconciliationEvent e = JObj (base_fields (ReconciliationEvent_Base e) @
     [(''account_address'', JStr (ReconciliationEvent_AccountAddress e)),
      (''old_balance'', JStr (ReconciliationEvent_OldBalance e)),
      (''new_balance'', JStr (ReconciliationEvent_NewBalance e)),
      (''nonce'', enc_u64 (ReconciliationEvent_Nonce e)),
      (''timestamp'', enc_i64 (ReconciliationEvent_Timestamp e))])"

definition unmarshal_ReconciliationEvent :: "json \<Rightarrow> ReconciliationEvent \<Rightarrow> ReconciliationEvent option" where
  "unmarshal_ReconciliationEvent j e = (case j of JObj kvs \<Rightarrow>
     (case (dec_base (ReconciliationEvent_Base e) kvs,
            jfield ''account_address'' (ReconciliationEvent_AccountAddress e) dec_str kvs,
            jfield ''old_balance'' (ReconciliationEvent_OldBalance e) dec_str kvs,
            jfield ''new_balance'' (ReconciliationEvent_NewBalance e) dec_str kvs,
            jfield ''nonce'' (ReconciliationEvent_Nonce e) dec_u64 kvs,
            jfield ''timestamp'' (ReconciliationEvent_Timestamp e) dec_i64 kvs) of
        (Some b, Some a, Some old, Some new, Some n, Some t) \<Rightarrow>
          Some \<lparr>ReconciliationEvent_Base = b, ReconciliationEvent_AccountAddress = a,
            ReconciliationEvent_OldBalance = old, ReconciliationEvent_NewBalance = new,
            ReconciliationEvent_Nonce = n, ReconciliationEvent_Timestamp = t\<rparr>
      | _ \<Rightarrow> None)
   | JNull \<Rightarrow> Some e
   | _ \<Rightarrow> None)"

definition marshal_BatchEntry :: "ReconciliationBatchEntry \<Rightarrow> json" where
  "marshal_BatchEntry x = JObj [(''a'', JStr (ReconciliationBatchEntry_AccountAddress x)),
     (''b'', JStr (ReconciliationBatchEntry_NewBalance x)),
     (''n'', enc_u64 (ReconciliationBatchEntry_Nonce x))]"

definition unmarshal_BatchEntry :: "json \<Rightarrow> ReconciliationBatchEntry option" where
  "unmarshal_BatchEntry j = (case j of JObj kvs \<Rightarrow>
     (case (jfield ''a'' [] dec_str kvs, jfield ''b'' [] dec_str kvs, jfield ''n'' 0 dec_u64 kvs) of
        (Some a, Some b, Some n) \<Rightarrow> Some \<lparr>ReconciliationBatchEntry_AccountAddress = a,
           ReconciliationBatchEntry_NewBalance = b, ReconciliationBatchEntry_Nonce = n\<rparr>
      | _ \<Rightarrow> None)
   | JNull \<Rightarrow> Some \<lparr>ReconciliationBatchEntry_AccountAddress = [], ReconciliationBatchEntry_NewBalance = [],
                   ReconciliationBatchEntry_Nonce = 0\<rparr>
   | _ \<Rightarrow> None)"

definition enc_accounts :: "ReconciliationBatchEntry list \<Rightarrow> json" where
  "enc_accounts xs = (if xs = [] then JNull else JArr (map marshal_BatchEntry xs))"

definition dec_accounts :: "json \<Rightarrow> ReconciliationBatchEntry list option" where
  "dec_accounts j = (case j of JArr js \<Rightarrow> those (map unmarshal_BatchEntry js) | _ \<Rightarrow> None)"

definition marshal_ReconciliationBatchEvent :: "ReconciliationBatchEvent \<Rightarrow> json" where
  "marshal_ReconciliationBatchEvent e = JObj (base_fields (ReconciliationBatchEvent_Base e) @
     [(''accounts'', enc_accounts (ReconciliationBatchEvent_Accounts e)),
      (''timestamp'', enc_i64 (ReconciliationBatchEvent_Timestamp e))])"

definition unmarshal_ReconciliationBatchEvent ::
    "json \<Rightarrow> ReconciliationBatchEvent \<Rightarrow> ReconciliationBatchEvent option" where
  "unmarshal_ReconciliationBatchEvent j e = (case j of JObj kvs \<Rightarrow>
     (case (dec_base (ReconciliationBatchEvent_Base e) kvs,
            jslice ''accounts'' (ReconciliationBatchEvent_Accounts e) dec_accounts kvs,
            jfield ''timestamp'' (ReconciliationBatchEvent_Timestamp e) dec_i64 kvs) of
        (Some b, Some a, Some t) \<Rightarrow> Some \<lparr>ReconciliationBatchEvent_Base = b,
           ReconciliationBatchEvent_Accounts = a, ReconciliationBatchEvent_Timestamp = t\<rparr>
      | _ \<Rightarrow> None)
   | JNull \<Rightarrow> Some e
   | _ \<Rightarrow> None)"

definition marshal_PoTSBlockEvent :: "PoTSBlockEvent \<Rightarrow> json" where
  "marshal_PoTSBlockEvent e = JObj (base_fields (PoTSBlockEvent_Base e) @
     [(''block_number'', enc_u64 (PoTSBlockEvent_BlockNumber e)),
      (''block_data'', JText (PoTSBlockEvent_BlockData e)),
      (''timestamp'', enc_i64 (PoTSBlockEvent_Timestamp e))])"

definition unmarshal_PoTSBlockEvent :: "json \<Rightarrow> PoTSBlockEvent \<Rightarrow> PoTSBlockEvent option" where
  "unmarshal_PoTSBlockEvent j e = (case j of JObj kvs \<Rightarrow>
     (case (dec_base (PoTSBlockEvent_Base e) kvs,
            jfield ''block_number'' (PoTSBlockEvent_BlockNumber e) dec_u64 kvs,
            jfield ''block_data'' (PoTSBlockEvent_BlockData e) dec_text kvs,
            jfield ''timestamp'' (PoTSBlockEvent_Timestamp e) dec_i64 kvs) of
        (Some b, Some n, Some d, Some t) \<Rightarrow> Some \<lparr>PoTSBlockEvent_Base = b,
           PoTSBlockEvent_BlockNumber = n, PoTSBlockEvent_BlockData = d, PoTSBlockEvent_Timestamp = t\<rparr>
      | _ \<Rightarrow> None)
   | JNull \<Rightarrow> Some e
   | _ \<Rightarrow> None)"

section \<open>The adapters\<close>

text \<open>
  \<open>Serialize\<close> has a pointer receiver: it stores the type and the message bytes in the event
  before encoding it, so the model returns the updated event with the result.
\<close>

definition set_type :: "WALType \<Rightarrow> BaseEvent \<Rightarrow> BaseEvent" where
  "set_type ty b = b\<lparr>BaseEvent_Type := ty\<rparr>"

definition proto_Serialize :: "'m proto_ops \<Rightarrow> WALType \<Rightarrow> 'm ProtoEvent \<Rightarrow> 'm ProtoEvent \<times> (wal_error + json)" where
  "proto_Serialize P ty e0 =
     (let e = e0\<lparr>ProtoEvent_Base := set_type ty (ProtoEvent_Base e0)\<rparr>
      in case ProtoEvent_Message e of
           None \<Rightarrow> (e, Inr (marshal_ProtoEvent e))
         | Some m \<Rightarrow> (case proto_Marshal P m of
             None \<Rightarrow> (e, Inl SerializeFailed)
           | Some protoBytes \<Rightarrow>
               let e' = e\<lparr>ProtoEvent_ProtoData := protoBytes\<rparr> in (e', Inr (marshal_ProtoEvent e'))))"

definition proto_Deserialize :: "'m proto_ops \<Rightarrow> WALType \<Rightarrow> json \<Rightarrow> 'm ProtoEvent \<Rightarrow> 'm ProtoEvent option" where
  "proto_Deserialize P ty data e0 =
     (case unmarshal_ProtoEvent data e0 of None \<Rightarrow> None
      | Some e \<Rightarrow>
          if 0 < length (ProtoEvent_ProtoData e)
          then (case proto_Unmarshal P ty (ProtoEvent_ProtoData e) of None \<Rightarrow> None
                | Some m \<Rightarrow> Some (e\<lparr>ProtoEvent_Message := Some m\<rparr>))
          else Some e)"

definition HeaderSyncEvent_Serialize where
  "HeaderSyncEvent_Serialize P = proto_Serialize P HeaderSync"
definition HeaderSyncEvent_Deserialize where
  "HeaderSyncEvent_Deserialize P = proto_Deserialize P HeaderSync"
definition MerkleSyncEvent_Serialize where
  "MerkleSyncEvent_Serialize P = proto_Serialize P MerkleSync"
definition MerkleSyncEvent_Deserialize where
  "MerkleSyncEvent_Deserialize P = proto_Deserialize P MerkleSync"
definition PriorSyncEvent_Serialize where
  "PriorSyncEvent_Serialize P = proto_Serialize P PriorSync"
definition PriorSyncEvent_Deserialize where
  "PriorSyncEvent_Deserialize P = proto_Deserialize P PriorSync"
definition DataSyncEvent_Serialize where
  "DataSyncEvent_Serialize P = proto_Serialize P DataSync"
definition DataSyncEvent_Deserialize where
  "DataSyncEvent_Deserialize P = proto_Deserialize P DataSync"
definition AccountSyncEvent_Serialize where
  "AccountSyncEvent_Serialize P = proto_Serialize P AccountSync"
definition AccountSyncEvent_Deserialize where
  "AccountSyncEvent_Deserialize P = proto_Deserialize P AccountSync"

definition ReconciliationEvent_Serialize :: "ReconciliationEvent \<Rightarrow> ReconciliationEvent \<times> (wal_error + json)" where
  "ReconciliationEvent_Serialize e = (e, Inr (marshal_ReconciliationEvent e))"

definition ReconciliationEvent_Deserialize :: "json \<Rightarrow> ReconciliationEvent \<Rightarrow> ReconciliationEvent option" where
  "ReconciliationEvent_Deserialize data e = unmarshal_ReconciliationEvent data e"

definition ReconciliationBatchEvent_Serialize ::
    "ReconciliationBatchEvent \<Rightarrow> ReconciliationBatchEvent \<times> (wal_error + json)" where
  "ReconciliationBatchEvent_Serialize e =
     (let e' = e\<lparr>ReconciliationBatchEvent_Base := set_type Reconciliation (ReconciliationBatchEvent_Base e)\<rparr>
      in (e', Inr (marshal_ReconciliationBatchEvent e')))"

definition ReconciliationBatchEvent_Deserialize ::
    "json \<Rightarrow> ReconciliationBatchEvent \<Rightarrow> ReconciliationBatchEvent option" where
  "ReconciliationBatchEvent_Deserialize data e = unmarshal_ReconciliationBatchEvent data e"

definition PoTSBlockEvent_Serialize :: "PoTSBlockEvent \<Rightarrow> PoTSBlockEvent \<times> (wal_error + json)" where
  "PoTSBlockEvent_Serialize e =
     (let e' = e\<lparr>PoTSBlockEvent_Base := set_type PoTS (PoTSBlockEvent_Base e)\<rparr>
      in (e', Inr (marshal_PoTSBlockEvent e')))"

definition PoTSBlockEvent_Deserialize :: "json \<Rightarrow> PoTSBlockEvent \<Rightarrow> PoTSBlockEvent option" where
  "PoTSBlockEvent_Deserialize data e = unmarshal_PoTSBlockEvent data e"

section \<open>The interface\<close>

text \<open>The implementations of \<open>EventAdapter\<close>, and the interface's methods on them.\<close>

datatype 'm EventAdapter =
    HeaderSyncEvent "'m ProtoEvent"
  | MerkleSyncEvent "'m ProtoEvent"
  | PriorSyncEvent "'m ProtoEvent"
  | DataSyncEvent "'m ProtoEvent"
  | AccountSyncEvent "'m ProtoEvent"
  | ReconciliationBatch ReconciliationBatchEvent
  | ReconciliationSingle ReconciliationEvent
  | PoTSBlock PoTSBlockEvent

fun GetType :: "'m EventAdapter \<Rightarrow> WALType" where
  "GetType (HeaderSyncEvent _) = HeaderSync"
| "GetType (MerkleSyncEvent _) = MerkleSync"
| "GetType (PriorSyncEvent _) = PriorSync"
| "GetType (DataSyncEvent _) = DataSync"
| "GetType (AccountSyncEvent _) = AccountSync"
| "GetType (ReconciliationBatch _) = Reconciliation"
| "GetType (ReconciliationSingle _) = Reconciliation"
| "GetType (PoTSBlock _) = PoTS"

fun GetOperation :: "'m EventAdapter \<Rightarrow> EventOperation" where
  "GetOperation (HeaderSyncEvent e) = BaseEvent_Operation (ProtoEvent_Base e)"
| "GetOperation (MerkleSyncEvent e) = BaseEvent_Operation (ProtoEvent_Base e)"
| "GetOperation (PriorSyncEvent e) = BaseEvent_Operation (ProtoEvent_Base e)"
| "GetOperation (DataSyncEvent e) = BaseEvent_Operation (ProtoEvent_Base e)"
| "GetOperation (AccountSyncEvent e) = BaseEvent_Operation (ProtoEvent_Base e)"
| "GetOperation (ReconciliationBatch _) = OpUpdate"
| "GetOperation (ReconciliationSingle _) = OpUpdate"
| "GetOperation (PoTSBlock e) = BaseEvent_Operation (PoTSBlockEvent_Base e)"

fun Serialize :: "'m proto_ops \<Rightarrow> 'm EventAdapter \<Rightarrow> 'm EventAdapter \<times> (wal_error + json)" where
  "Serialize P (HeaderSyncEvent e) = map_prod HeaderSyncEvent id (HeaderSyncEvent_Serialize P e)"
| "Serialize P (MerkleSyncEvent e) = map_prod MerkleSyncEvent id (MerkleSyncEvent_Serialize P e)"
| "Serialize P (PriorSyncEvent e) = map_prod PriorSyncEvent id (PriorSyncEvent_Serialize P e)"
| "Serialize P (DataSyncEvent e) = map_prod DataSyncEvent id (DataSyncEvent_Serialize P e)"
| "Serialize P (AccountSyncEvent e) = map_prod AccountSyncEvent id (AccountSyncEvent_Serialize P e)"
| "Serialize P (ReconciliationBatch e) = map_prod ReconciliationBatch id (ReconciliationBatchEvent_Serialize e)"
| "Serialize P (ReconciliationSingle e) = map_prod ReconciliationSingle id (ReconciliationEvent_Serialize e)"
| "Serialize P (PoTSBlock e) = map_prod PoTSBlock id (PoTSBlockEvent_Serialize e)"

fun Deserialize :: "'m proto_ops \<Rightarrow> json \<Rightarrow> 'm EventAdapter \<Rightarrow> 'm EventAdapter option" where
  "Deserialize P d (HeaderSyncEvent e) = map_option HeaderSyncEvent (HeaderSyncEvent_Deserialize P d e)"
| "Deserialize P d (MerkleSyncEvent e) = map_option MerkleSyncEvent (MerkleSyncEvent_Deserialize P d e)"
| "Deserialize P d (PriorSyncEvent e) = map_option PriorSyncEvent (PriorSyncEvent_Deserialize P d e)"
| "Deserialize P d (DataSyncEvent e) = map_option DataSyncEvent (DataSyncEvent_Deserialize P d e)"
| "Deserialize P d (AccountSyncEvent e) = map_option AccountSyncEvent (AccountSyncEvent_Deserialize P d e)"
| "Deserialize P d (ReconciliationBatch e) = map_option ReconciliationBatch (ReconciliationBatchEvent_Deserialize d e)"
| "Deserialize P d (ReconciliationSingle e) = map_option ReconciliationSingle (ReconciliationEvent_Deserialize d e)"
| "Deserialize P d (PoTSBlock e) = map_option PoTSBlock (PoTSBlockEvent_Deserialize d e)"

definition EventFactory :: "WALType \<Rightarrow> 'm EventAdapter option" where
  "EventFactory walType =
     (if walType = HeaderSync then Some (HeaderSyncEvent empty_ProtoEvent)
      else if walType = MerkleSync then Some (MerkleSyncEvent empty_ProtoEvent)
      else if walType = PriorSync then Some (PriorSyncEvent empty_ProtoEvent)
      else if walType = DataSync then Some (DataSyncEvent empty_ProtoEvent)
      else if walType = Reconciliation then Some (ReconciliationBatch empty_ReconciliationBatchEvent)
      else if walType = PoTS then Some (PoTSBlock empty_PoTSBlockEvent)
      else if walType = AccountSync then Some (AccountSyncEvent empty_ProtoEvent)
      else None)"

end
