(* ===== verification/FS_Events_Facts.thy ===== *)
theory FS_Events_Facts
  imports FS_Events
begin

text \<open>
  The contract of \<open>EventAdapter\<close> as a locale, its consequences for the log (an event that was
  written can be read back), and the proof that every event type of the code meets it.
\<close>

section \<open>The contract\<close>

text \<open>
  \<open>wf\<close> says which events the adapter can encode; decoding what \<open>Serialize\<close> produced, into a
  zero value, gives the event as \<open>Serialize\<close> left it.
\<close>

locale event_adapter =
  fixes ty :: WALType
    and ser :: "'e \<Rightarrow> 'e \<times> (wal_error + json)"
    and deser :: "json \<Rightarrow> 'e \<Rightarrow> 'e option"
    and zero :: 'e
    and wf :: "'e \<Rightarrow> bool"
  assumes ser_total: "wf e \<Longrightarrow> \<exists>e' d. ser e = (e', Inr d)"
    and ser_stable: "wf e \<Longrightarrow> ser e = (e', Inr d) \<Longrightarrow> wf e' \<and> ser e' = (e', Inr d)"
    and roundtrip: "wf e \<Longrightarrow> ser e = (e', Inr d) \<Longrightarrow> deser d zero = Some e'"
begin

lemma written_event:
  assumes "tidwall_log L v" and "wal_ok v w" and "WAL_currentLSN w \<noteq> MaxUint64"
    and "wf e" and "ser e = (e', r)" and "WriteEvent L env ty r w = (w', Inr lsn)"
  shows "\<exists>x. all_entries v w' = all_entries v w @ [x] \<and> wal_ok v w' \<and> WALEntry_LSN x = lsn \<and>
    WALEntry_Type x = ty \<and> deser (WALEntry_Data x) zero = Some e' \<and> GetEvent L w' lsn = Inr x"
proof -
  obtain d where r: "r = Inr d" using ser_total [OF assms(4)] assms(5) by auto
  let ?x = "new_entry env ty d w"
  from WriteEvent_ok [OF assms(1-3,6)] r have
    w': "wal_ok v w'" "lsn = WAL_currentLSN w + 1" "all_entries v w' = all_entries v w @ [?x]" by auto
  have x: "WALEntry_LSN ?x = lsn" "WALEntry_Type ?x = ty" "WALEntry_Data ?x = d"
    using w'(2) by (simp_all add: new_entry_def)
  moreover have "GetEvent L w' (WALEntry_LSN ?x) = Inr ?x"
    using w'(3) by (intro GetEvent_all_entries [OF assms(1) w'(1)]) simp
  moreover have "deser d zero = Some e'" using roundtrip [OF assms(4)] assms(5) r by simp
  ultimately show ?thesis using w' by auto
qed

text \<open>Write and flush: the event is the last entry on disk.\<close>

lemma written_flushed:
  assumes "tidwall_log L v" and "wal_ok v w" and "WAL_currentLSN w \<noteq> MaxUint64"
    and "wf e" and "ser e = (e', r)" and "WriteEvent L env ty r w = (w1, Inr lsn)"
    and "Flush L env' w1 = (w2, Inr ())"
  shows "\<exists>x. disk_entries v w2 = all_entries v w @ [x] \<and> WAL_Buffer w2 = [] \<and> wal_ok v w2 \<and>
    WALEntry_Type x = ty \<and> deser (WALEntry_Data x) zero = Some e'"
proof -
  from written_event [OF assms(1-6)] obtain x where
    x: "all_entries v w1 = all_entries v w @ [x]" "wal_ok v w1" "WALEntry_Type x = ty"
      "deser (WALEntry_Data x) zero = Some e'" by blast
  have "flushed v w1 w2" using flushBuffer_ok [OF assms(1) x(2)] assms(7) by (simp add: Flush_def)
  then have w2: "WAL_Buffer w2 = []" "wal_ok v w2" "all_entries v w2 = all_entries v w @ [x]"
    using x(1) by (simp_all add: flushed_def)
  then have "disk_entries v w2 = all_entries v w @ [x]" by (simp add: all_entries_def)
  with w2 x show ?thesis by blast
qed

end

section \<open>Round trips of the JSON envelopes\<close>

lemma dec_base_fields [simp]:
  assumes "\<forall>k\<in>fst ` set kvs. k \<noteq> ''type'' \<and> k \<noteq> ''lsn'' \<and> k \<noteq> ''operation''"
  shows "dec_base b0 (base_fields b @ kvs) = Some b"
proof -
  have "''type'' \<notin> fst ` set kvs" "''lsn'' \<notin> fst ` set kvs" "''operation'' \<notin> fst ` set kvs"
    using assms by blast+
  then show ?thesis by (simp add: dec_base_def base_fields_def dec_str_def)
qed

lemma jfield_base [simp]:
  "k \<noteq> ''type'' \<Longrightarrow> k \<noteq> ''lsn'' \<Longrightarrow> k \<noteq> ''operation'' \<Longrightarrow>
   jfield k old dec (base_fields b @ kvs) = jfield k old dec kvs"
  by (simp add: base_fields_def)

lemma jslice_base [simp]:
  "k \<noteq> ''type'' \<Longrightarrow> k \<noteq> ''lsn'' \<Longrightarrow> k \<noteq> ''operation'' \<Longrightarrow>
   jslice k [] dec (base_fields b @ kvs) = jfield k [] dec kvs"
  by (simp add: jslice_jfield)

lemma unmarshal_marshal_ProtoEvent:
  "unmarshal_ProtoEvent (marshal_ProtoEvent e) empty_ProtoEvent =
     Some (e\<lparr>ProtoEvent_Message := None\<rparr>)"
  by (simp add: unmarshal_ProtoEvent_def marshal_ProtoEvent_def empty_ProtoEvent_def enc_bytes_def
      dec_bytes_def)

lemma unmarshal_marshal_ReconciliationEvent:
  "unmarshal_ReconciliationEvent (marshal_ReconciliationEvent e) e0 = Some e"
  by (simp add: unmarshal_ReconciliationEvent_def marshal_ReconciliationEvent_def dec_str_def)

lemma unmarshal_marshal_BatchEntry [simp]: "unmarshal_BatchEntry (marshal_BatchEntry x) = Some x"
  by (simp add: unmarshal_BatchEntry_def marshal_BatchEntry_def dec_str_def)

lemma those_map_Some: "(\<And>x. x \<in> set xs \<Longrightarrow> f x = Some (g x)) \<Longrightarrow> those (map f xs) = Some (map g xs)"
  by (induction xs) auto

lemma dec_accounts_map: "dec_accounts (JArr (map marshal_BatchEntry xs)) = Some xs"
  using those_map_Some [of xs "\<lambda>x. unmarshal_BatchEntry (marshal_BatchEntry x)" id]
  by (simp add: dec_accounts_def comp_def)

lemma unmarshal_marshal_ReconciliationBatchEvent:
  "unmarshal_ReconciliationBatchEvent (marshal_ReconciliationBatchEvent e)
     empty_ReconciliationBatchEvent = Some e"
  by (simp add: unmarshal_ReconciliationBatchEvent_def marshal_ReconciliationBatchEvent_def
      empty_ReconciliationBatchEvent_def enc_accounts_def dec_accounts_map)

lemma unmarshal_marshal_PoTSBlockEvent:
  "unmarshal_PoTSBlockEvent (marshal_PoTSBlockEvent e) e0 = Some e"
  by (simp add: unmarshal_PoTSBlockEvent_def marshal_PoTSBlockEvent_def dec_text_def)

section \<open>Events carrying a protobuf message\<close>

text \<open>
  The message survives when the codec encodes it to a non-empty byte string that decodes to the
  same message; an event without message must not carry stale bytes.
\<close>

definition wf_proto :: "'m proto_ops \<Rightarrow> WALType \<Rightarrow> 'm ProtoEvent \<Rightarrow> bool" where
  "wf_proto P ty e \<longleftrightarrow> (case ProtoEvent_Message e of
     None \<Rightarrow> ProtoEvent_ProtoData e = []
   | Some m \<Rightarrow> \<exists>b. proto_Marshal P m = Some b \<and> b \<noteq> [] \<and> proto_Unmarshal P ty b = Some m)"

lemma proto_event_adapter:
  "event_adapter (proto_Serialize P ty) (proto_Deserialize P ty) empty_ProtoEvent (wf_proto P ty)"
proof
  fix e :: "'a ProtoEvent"
  assume "wf_proto P ty e"
  then show "\<exists>e' d. proto_Serialize P ty e = (e', Inr d)"
    by (auto simp: wf_proto_def proto_Serialize_def Let_def split: option.splits)
next
  fix e e' :: "'a ProtoEvent" and d
  assume "wf_proto P ty e" "proto_Serialize P ty e = (e', Inr d)"
  then show "wf_proto P ty e' \<and> proto_Serialize P ty e' = (e', Inr d)"
    by (auto simp: wf_proto_def proto_Serialize_def Let_def set_type_def split: option.splits)
next
  fix e e' :: "'a ProtoEvent" and d
  assume wf: "wf_proto P ty e" and s: "proto_Serialize P ty e = (e', Inr d)"
  from s have d: "d = marshal_ProtoEvent e'" and m: "ProtoEvent_Message e' = ProtoEvent_Message e"
    by (auto simp: proto_Serialize_def Let_def split: option.splits)
  have "case ProtoEvent_Message e' of None \<Rightarrow> ProtoEvent_ProtoData e' = []
    | Some m \<Rightarrow> ProtoEvent_ProtoData e' \<noteq> [] \<and> proto_Unmarshal P ty (ProtoEvent_ProtoData e') = Some m"
    using wf s by (auto simp: wf_proto_def proto_Serialize_def Let_def split: option.splits)
  then show "proto_Deserialize P ty d empty_ProtoEvent = Some e'"
    using d by (cases e') (auto simp: proto_Deserialize_def unmarshal_marshal_ProtoEvent split: option.splits)
qed

section \<open>Every event type meets the contract\<close>

interpretation header_ev: event_adapter HeaderSync "HeaderSyncEvent_Serialize P"
    "HeaderSyncEvent_Deserialize P" empty_ProtoEvent "wf_proto P HeaderSync" for P
  unfolding HeaderSyncEvent_Serialize_def HeaderSyncEvent_Deserialize_def by (rule proto_event_adapter)

interpretation merkle_ev: event_adapter MerkleSync "MerkleSyncEvent_Serialize P"
    "MerkleSyncEvent_Deserialize P" empty_ProtoEvent "wf_proto P MerkleSync" for P
  unfolding MerkleSyncEvent_Serialize_def MerkleSyncEvent_Deserialize_def by (rule proto_event_adapter)

interpretation prior_ev: event_adapter PriorSync "PriorSyncEvent_Serialize P"
    "PriorSyncEvent_Deserialize P" empty_ProtoEvent "wf_proto P PriorSync" for P
  unfolding PriorSyncEvent_Serialize_def PriorSyncEvent_Deserialize_def by (rule proto_event_adapter)

interpretation data_ev: event_adapter DataSync "DataSyncEvent_Serialize P"
    "DataSyncEvent_Deserialize P" empty_ProtoEvent "wf_proto P DataSync" for P
  unfolding DataSyncEvent_Serialize_def DataSyncEvent_Deserialize_def by (rule proto_event_adapter)

interpretation account_ev: event_adapter AccountSync "AccountSyncEvent_Serialize P"
    "AccountSyncEvent_Deserialize P" empty_ProtoEvent "wf_proto P AccountSync" for P
  unfolding AccountSyncEvent_Serialize_def AccountSyncEvent_Deserialize_def by (rule proto_event_adapter)

interpretation batch_ev: event_adapter Reconciliation ReconciliationBatchEvent_Serialize
    ReconciliationBatchEvent_Deserialize empty_ReconciliationBatchEvent "\<lambda>_. True"
  by unfold_locales (auto simp: ReconciliationBatchEvent_Serialize_def set_type_def
      ReconciliationBatchEvent_Deserialize_def unmarshal_marshal_ReconciliationBatchEvent Let_def)

interpretation single_ev: event_adapter Reconciliation ReconciliationEvent_Serialize
    ReconciliationEvent_Deserialize empty_ReconciliationEvent "\<lambda>_. True"
  by unfold_locales (auto simp: ReconciliationEvent_Serialize_def
      ReconciliationEvent_Deserialize_def unmarshal_marshal_ReconciliationEvent)

interpretation pots_ev: event_adapter PoTS PoTSBlockEvent_Serialize
    PoTSBlockEvent_Deserialize empty_PoTSBlockEvent "\<lambda>_. True"
  by unfold_locales (auto simp: PoTSBlockEvent_Serialize_def set_type_def
      PoTSBlockEvent_Deserialize_def unmarshal_marshal_PoTSBlockEvent Let_def)

section \<open>The factory\<close>

fun wf_event :: "'m proto_ops \<Rightarrow> 'm EventAdapter \<Rightarrow> bool" where
  "wf_event P (HeaderSyncEvent e) = wf_proto P HeaderSync e"
| "wf_event P (MerkleSyncEvent e) = wf_proto P MerkleSync e"
| "wf_event P (PriorSyncEvent e) = wf_proto P PriorSync e"
| "wf_event P (DataSyncEvent e) = wf_proto P DataSync e"
| "wf_event P (AccountSyncEvent e) = wf_proto P AccountSync e"
| "wf_event P (ReconciliationBatch e) = True"
| "wf_event P (ReconciliationSingle e) = True"
| "wf_event P (PoTSBlock e) = True"

lemma WALType_distinct [simp]:
  "distinct [HeaderSync, MerkleSync, PriorSync, DataSync, Reconciliation, PoTS, AccountSync]"
  by (simp add: WALType_defs)

lemma WALType_neq [simp]:
  "HeaderSync \<noteq> PriorSync" "HeaderSync \<noteq> DataSync" "HeaderSync \<noteq> Reconciliation"
  "PriorSync \<noteq> HeaderSync" "DataSync \<noteq> HeaderSync" "Reconciliation \<noteq> HeaderSync"
  "PriorSync \<noteq> DataSync" "PriorSync \<noteq> Reconciliation" "DataSync \<noteq> PriorSync"
  "DataSync \<noteq> Reconciliation" "Reconciliation \<noteq> PriorSync" "Reconciliation \<noteq> DataSync"
  "MerkleSync \<noteq> HeaderSync" "PriorSync \<noteq> MerkleSync" "DataSync \<noteq> MerkleSync"
  "Reconciliation \<noteq> MerkleSync" "PoTS \<noteq> HeaderSync" "PoTS \<noteq> MerkleSync" "PoTS \<noteq> PriorSync"
  "PoTS \<noteq> DataSync" "PoTS \<noteq> Reconciliation" "AccountSync \<noteq> HeaderSync" "AccountSync \<noteq> MerkleSync"
  "AccountSync \<noteq> PriorSync" "AccountSync \<noteq> DataSync" "AccountSync \<noteq> Reconciliation" "AccountSync \<noteq> PoTS"
  by (simp_all add: WALType_defs)

lemma EventFactory_types [simp]:
  "EventFactory HeaderSync = Some (HeaderSyncEvent empty_ProtoEvent)"
  "EventFactory MerkleSync = Some (MerkleSyncEvent empty_ProtoEvent)"
  "EventFactory PriorSync = Some (PriorSyncEvent empty_ProtoEvent)"
  "EventFactory DataSync = Some (DataSyncEvent empty_ProtoEvent)"
  "EventFactory Reconciliation = Some (ReconciliationBatch empty_ReconciliationBatchEvent)"
  "EventFactory PoTS = Some (PoTSBlock empty_PoTSBlockEvent)"
  "EventFactory AccountSync = Some (AccountSyncEvent empty_ProtoEvent)"
  by (simp_all add: EventFactory_def)

lemma map_prod_eqE:
  assumes "map_prod f id p = (a, b)" obtains x where "p = (x, b)" "a = f x"
  using assms by (cases p) auto

text \<open>The factory knows only the batch event of the reconciliation type: a single event comes back as a batch of no accounts.\<close>

fun rebuilt :: "'m EventAdapter \<Rightarrow> 'm EventAdapter" where
  "rebuilt (ReconciliationSingle e) = ReconciliationBatch \<lparr>ReconciliationBatchEvent_Base = ReconciliationEvent_Base e,
     ReconciliationBatchEvent_Accounts = [], ReconciliationBatchEvent_Timestamp = ReconciliationEvent_Timestamp e\<rparr>"
| "rebuilt ev = ev"

lemma single_as_batch:
  "ReconciliationBatchEvent_Deserialize (marshal_ReconciliationEvent e) empty_ReconciliationBatchEvent =
     Some \<lparr>ReconciliationBatchEvent_Base = ReconciliationEvent_Base e,
       ReconciliationBatchEvent_Accounts = [], ReconciliationBatchEvent_Timestamp = ReconciliationEvent_Timestamp e\<rparr>"
  by (simp add: ReconciliationBatchEvent_Deserialize_def unmarshal_ReconciliationBatchEvent_def marshal_ReconciliationEvent_def
      empty_ReconciliationBatchEvent_def jslice_jfield)

text \<open>C7: What \<open>Serialize\<close> encoded is decoded without an error by the adapter that
  \<open>EventFactory\<close> returns for the event's type, and the result is the event, for every event but the single
  \<open>ReconciliationEvent\<close>: that one silently comes back as a batch event with the same base fields and time and without any account.
  For an event with a protobuf message, the message must be encoded to a non-empty text that decodes to it.\<close>

theorem event_roundtrip:
  assumes "wf_event P ev" and "Serialize P ev = (ev', Inr d)"
  shows "\<exists>a. EventFactory (GetType ev) = Some a \<and> GetType a = GetType ev \<and> Deserialize P d a = Some (rebuilt ev') \<and>
    (rebuilt ev' = ev' \<longleftrightarrow> (\<forall>e. ev \<noteq> ReconciliationSingle e))"
  using assms
  by (cases ev) (auto elim!: map_prod_eqE dest: header_ev.roundtrip merkle_ev.roundtrip prior_ev.roundtrip data_ev.roundtrip
      account_ev.roundtrip batch_ev.roundtrip [OF TrueI] pots_ev.roundtrip [OF TrueI]
      simp: ReconciliationEvent_Serialize_def single_as_batch)

definition demo_proto :: "bytes proto_ops" where
  "demo_proto = \<lparr>proto_Marshal = (\<lambda>m. Some (1 # m)), proto_Unmarshal = (\<lambda>ty b. Some (tl b))\<rparr>"

definition demo_event :: "bytes ProtoEvent" where
  "demo_event = \<lparr>ProtoEvent_Base = \<lparr>BaseEvent_Type = HeaderSync, BaseEvent_LSN = 0, BaseEvent_Operation = ''APPEND''\<rparr>,
     ProtoEvent_Message = Some [104, 115], ProtoEvent_ProtoData = [1, 104, 115]\<rparr>"

lemma wf_demo_event: "wf_proto demo_proto HeaderSync demo_event"
  by (simp add: wf_proto_def demo_event_def demo_proto_def comp_def)

lemma ser_demo_event:
  "HeaderSyncEvent_Serialize demo_proto demo_event = (demo_event, Inr (marshal_ProtoEvent demo_event))"
  by (simp add: HeaderSyncEvent_Serialize_def proto_Serialize_def demo_event_def demo_proto_def
      set_type_def Let_def)

theorem event_roundtrip_witness:
  "\<exists>d. Serialize demo_proto (HeaderSyncEvent demo_event) = (HeaderSyncEvent demo_event, Inr d) \<and>
    Deserialize demo_proto d (HeaderSyncEvent empty_ProtoEvent) = Some (HeaderSyncEvent demo_event)"
  using event_roundtrip [of demo_proto "HeaderSyncEvent demo_event" "HeaderSyncEvent demo_event"
      "marshal_ProtoEvent demo_event"]
  by (simp add: wf_demo_event ser_demo_event)

end
