(* ===== verification/FS_WAL_Props.thy ===== *)
theory FS_WAL_Props
  imports FS_WAL_Facts
begin

text \<open>
  The properties of the write-ahead log: read-your-writes, crash recovery along every run of
  successful operations and crashes between them, checkpoint rotation, and the WAL with unsaved metadata.
  \<open>list_log\<close> is a concrete segment log on which the hypotheses about the library are satisfied.
\<close>

section \<open>A concrete segment log\<close>

definition norm_log :: "log_view \<Rightarrow> log_view" where
  "norm_log l = (if 1 \<le> fst l \<and> (snd l = [] \<longrightarrow> fst l = 1) \<and> last_index l < 2 ^ 64 then l else (1, []))"

definition list_log :: "log_view log_ops" where
  "list_log = \<lparr>
     op_write = (\<lambda>l i d. let n = norm_log l in
       if unat i = Suc (last_index n) then ((fst n, snd n @ [d]), True) else (l, False)),
     op_read = (\<lambda>l i. let n = norm_log l in
       if fst n \<le> unat i \<and> unat i \<le> last_index n then Some (snd n ! (unat i - fst n)) else None),
     op_first = (\<lambda>l. let n = norm_log l in Some (if snd n = [] then 0 else word_of_nat (fst n))),
     op_last = (\<lambda>l. Some (word_of_nat (last_index (norm_log l)))),
     op_truncate_front = (\<lambda>l i. let n = norm_log l in
       if fst n \<le> unat i \<and> unat i \<le> last_index n then ((unat i, drop (unat i - fst n) (snd n)), True)
       else (l, False)),
     op_close = (\<lambda>l. (l, True))\<rparr>"

lemma norm_log_ok:
  "1 \<le> fst (norm_log l) \<and> (snd (norm_log l) = [] \<longrightarrow> fst (norm_log l) = 1) \<and> last_index (norm_log l) < 2 ^ 64"
  by (simp add: norm_log_def last_index_def)

lemma norm_log_snoc:
  "unat (i :: u64) = Suc (last_index (norm_log l)) \<Longrightarrow>
   norm_log (fst (norm_log l), snd (norm_log l) @ [d]) = (fst (norm_log l), snd (norm_log l) @ [d])"
  using norm_log_ok [of l] unat_lt [of i] by (simp add: norm_log_def [of "(_, _ @ _)"] last_index_def)

lemma norm_log_drop:
  "fst (norm_log l) \<le> i \<Longrightarrow> i \<le> last_index (norm_log l) \<Longrightarrow>
   norm_log (i, drop (i - fst (norm_log l)) (snd (norm_log l))) =
     (i, drop (i - fst (norm_log l)) (snd (norm_log l)))"
  using norm_log_ok [of l] by (auto simp: norm_log_def [of "(i, _)"] last_index_def)

lemma tidwall_list_log: "tidwall_log list_log norm_log"
  unfolding tidwall_log_def
  using norm_log_ok
  by (auto simp: list_log_def Let_def norm_log_snoc norm_log_drop split: if_splits)

section \<open>Reachable states\<close>

text \<open>
  Runs of a WAL whose calls succeed, interrupted between calls by crashes that lose the buffer.
  The second component is the history: every entry written so far that survived the crashes.
\<close>

inductive wal_reach :: "'l log_ops \<Rightarrow> ('l \<Rightarrow> log_view) \<Rightarrow> 'l WAL \<Rightarrow> WALEntry list \<Rightarrow> bool"
  for L v where
  r_fresh: "v log = (1, []) \<Longrightarrow> NewWAL log None [] b = Inr w \<Longrightarrow> wal_reach L v w []"
| r_write: "wal_reach L v w h \<Longrightarrow> WAL_currentLSN w \<noteq> MaxUint64 \<Longrightarrow>
     WriteEvent L env ty (Inr d) w = (w', Inr lsn) \<Longrightarrow> wal_reach L v w' (h @ [new_entry env ty d w])"
| r_flush: "wal_reach L v w h \<Longrightarrow> Flush L env w = (w', Inr ()) \<Longrightarrow> wal_reach L v w' h"
| r_checkpoint: "wal_reach L v w h \<Longrightarrow> CreateCheckpoint L env w = (w', Inr lsn) \<Longrightarrow> wal_reach L v w' h"
| r_crash: "wal_reach L v w h \<Longrightarrow> reopen b w = Inr w' \<Longrightarrow>
     wal_reach L v w' (take (unat (WAL_lastFlushedLSN w)) h)"

text \<open>The metadata file always names the last flushed LSN.\<close>

definition meta_synced :: "'l WAL \<Rightarrow> bool" where
  "meta_synced w \<longleftrightarrow> (case WAL_metadataFile w of None \<Rightarrow> WAL_lastFlushedLSN w = 0
     | Some j \<Rightarrow> (\<exists>t. j = marshal_LSNMetadata \<lparr>LSNMetadata_CurrentLSN = WAL_lastFlushedLSN w,
         LSNMetadata_LastFlushedLSN = WAL_lastFlushedLSN w, LSNMetadata_LastUpdated = t\<rparr>))"

definition wal_hist :: "('l \<Rightarrow> log_view) \<Rightarrow> 'l WAL \<Rightarrow> WALEntry list \<Rightarrow> bool" where
  "wal_hist v w h \<longleftrightarrow> wal_ok v w \<and> meta_synced w \<and> lsns h = [1 ..< Suc (unat (WAL_currentLSN w))] \<and>
     all_entries v w = drop (fst (v (WAL_Log w)) - 1) h \<and>
     (\<exists>ns. markers_ok v w ns \<and> length ns \<le> MaxSnapshotLimit)"

lemma lsns_all_entries:
  assumes "wal_ok v w"
  shows "lsns (all_entries v w) = [fst (v (WAL_Log w)) ..< Suc (unat (WAL_currentLSN w))]"
proof -
  have "fst (v (WAL_Log w)) \<le> Suc (unat (WAL_lastFlushedLSN w))"
    using wal_ok_last [OF assms] by (simp add: last_index_def)
  moreover have "unat (WAL_lastFlushedLSN w) \<le> unat (WAL_currentLSN w)"
    using wal_ok_le [OF assms] by (simp add: word_le_nat_alt)
  ultimately show ?thesis
    using upt_add_eq_append [of "fst (v (WAL_Log w))" "Suc (unat (WAL_lastFlushedLSN w))"
        "unat (WAL_currentLSN w) - unat (WAL_lastFlushedLSN w)"]
    by (simp add: all_entries_def wal_ok_disk_lsns [OF assms] wal_ok_buffer [OF assms] del: upt_Suc)
qed

lemma suffix_by_lsns:
  assumes "lsns xs = [f ..< Suc n]" and "lsns h = [1 ..< Suc n]" and "xs = drop k h" and "1 \<le> f"
  shows "xs = drop (f - 1) h"
proof -
  have "length xs = Suc n - f" "length h = n"
    using arg_cong [OF assms(1), of length] arg_cong [OF assms(2), of length] by (simp_all del: upt_Suc)
  then have "n - k = Suc n - f" using assms(3) by simp
  then have "k = f - 1 \<or> n \<le> k \<and> n \<le> f - 1" using assms(4) by arith
  with \<open>length h = n\<close> assms(3) show ?thesis by auto
qed

lemma meta_synced_cong:
  "WAL_metadataFile w' = WAL_metadataFile w \<Longrightarrow> WAL_lastFlushedLSN w' = WAL_lastFlushedLSN w \<Longrightarrow>
   meta_synced w' = meta_synced w"
  by (simp add: meta_synced_def split: option.splits)

lemma meta_synced_buffered [simp]: "meta_synced (buffered env ty d w) = meta_synced w"
  by (rule meta_synced_cong) simp_all

lemma flush_synced:
  assumes L: "tidwall_log L v" and ok: "wal_ok v w" and m: "meta_synced w" and f: "flushBuffer L env w = (w', Inr ())"
  shows "meta_synced w'"
proof (cases "WAL_Buffer w = []")
  case True
  with f m show ?thesis by (simp add: flushBuffer_def)
next
  case False
  with f have "meta_saved w'" by (rule flushBuffer_meta)
  then show ?thesis
    using wal_ok_empty_buffer [of v w'] flushBuffer_ok [OF L ok f]
    by (auto simp: meta_saved_def meta_synced_def flushed_def split: option.splits)
qed

lemma write_synced:
  assumes L: "tidwall_log L v" and ok: "wal_ok v w" and m: "meta_synced w" and room: "WAL_currentLSN w \<noteq> MaxUint64"
    and wr: "WriteEvent L env ty (Inr d) w = (w', Inr lsn)"
  shows "meta_synced w'"
proof -
  have "meta_synced w2" if "flushBuffer L env (buffered env ty d w) = (w2, Inr ())" for w2
    using flush_synced [OF L buffered_ok [OF ok room] _ that] m by simp
  with wr m show ?thesis by (auto simp: WriteEvent_Inr split: if_splits prod.splits sum.splits)
qed

lemma synced_saved:
  assumes "wal_ok v w" and "meta_synced w" and "WAL_Buffer w = []"
  shows "meta_saved w"
  using assms wal_ok_empty_buffer [OF assms(1,3)]
  by (auto simp: meta_synced_def meta_saved_def split: option.splits)

lemma flush_hist:
  assumes L: "tidwall_log L v" and h: "wal_hist v w h" and f: "flushBuffer L env w = (w', Inr ())"
  shows "wal_hist v w' h"
proof -
  from h have ok: "wal_ok v w" by (simp add: wal_hist_def)
  note fl = flushBuffer_ok [OF L ok f]
  have "meta_synced w'" using flush_synced [OF L ok _ f] h by (simp add: wal_hist_def)
  moreover have "WAL_lastFlushedLSN w \<le> WAL_lastFlushedLSN w'"
    using wal_ok_empty_buffer [of v w'] fl wal_ok_le [OF ok] by (simp add: flushed_def)
  ultimately show ?thesis
    using h fl by (fastforce simp: wal_hist_def flushed_def markers_ok_def)
qed

lemma write_hist:
  assumes L: "tidwall_log L v" and h: "wal_hist v w h" and room: "WAL_currentLSN w \<noteq> MaxUint64"
    and wr: "WriteEvent L env ty (Inr d) w = (w', Inr lsn)"
  shows "wal_hist v w' (h @ [new_entry env ty d w])"
proof -
  let ?b = "buffered env ty d w"
  from h have ok: "wal_ok v w" by (simp add: wal_hist_def)
  have "fst (v (WAL_Log w)) - 1 \<le> length h"
  proof -
    have "length h = unat (WAL_currentLSN w)"
      using h by (auto simp: wal_hist_def simp del: upt_Suc dest: arg_cong [of _ _ length])
    moreover have "unat (WAL_lastFlushedLSN w) \<le> unat (WAL_currentLSN w)"
      using wal_ok_le [OF ok] by (simp add: word_le_nat_alt)
    ultimately show ?thesis using wal_ok_last [OF ok] by (simp add: last_index_def)
  qed
  then have "wal_hist v ?b (h @ [new_entry env ty d w])"
    using h buffered_ok [OF ok room, of env ty d] room
    by (auto simp: wal_hist_def all_entries_buffered markers_ok_def new_entry_def unat_plus1)
  with wr show ?thesis
    by (auto simp: WriteEvent_Inr flush_hist [OF L] split: if_splits prod.splits sum.splits)
qed

lemma checkpoint_hist:
  assumes L: "tidwall_log L v" and h: "wal_hist v w h"
    and c: "CreateCheckpoint L env w = (w', Inr lsn)"
  shows "wal_hist v w' h"
proof -
  from h have ok: "wal_ok v w" and hl: "lsns h = [1 ..< Suc (unat (WAL_currentLSN w))]"
    and suf: "all_entries v w = drop (fst (v (WAL_Log w)) - 1) h"
    by (auto simp: wal_hist_def)
  from h obtain ns where "markers_ok v w ns" "length ns \<le> MaxSnapshotLimit" by (auto simp: wal_hist_def)
  from CreateCheckpoint_ok [OF L ok this c] obtain ns' lo where
    c': "wal_ok v w'" "WAL_currentLSN w' = WAL_currentLSN w" "markers_ok v w' ns'"
      "length ns' \<le> MaxSnapshotLimit" "all_entries v w' = filter (\<lambda>e. lo \<le> WALEntry_LSN e) (all_entries v w)"
    by auto
  let ?f = "fst (v (WAL_Log w))"
  have "length (all_entries v w) = Suc (unat (WAL_currentLSN w)) - ?f"
    using arg_cong [OF lsns_all_entries [OF ok], of length] by (simp del: upt_Suc)
  then have "lsns (all_entries v w) = [?f ..< ?f + length (all_entries v w)]"
    using lsns_all_entries [OF ok]
    by (cases "?f \<le> Suc (unat (WAL_currentLSN w))") (simp_all del: upt_Suc)
  from filter_lsns [OF this, of "unat lo"]
  have "all_entries v w' = drop (unat lo - ?f + (?f - 1)) h"
    using c'(5) suf by (simp add: word_le_nat_alt)
  from suffix_by_lsns [OF lsns_all_entries [OF c'(1)] _ this] hl c'(2) log_first_pos [OF L]
  have "all_entries v w' = drop (fst (v (WAL_Log w')) - 1) h" by simp
  moreover have "meta_synced w'"
  proof -
    from c obtain w1 where fl: "flushBuffer L env w = (w1, Inr ())"
      by (auto simp: CreateCheckpoint_def split: prod.splits sum.splits)
    have "WAL_metadataFile w' = WAL_metadataFile w1 \<and> WAL_lastFlushedLSN w' = WAL_lastFlushedLSN w1"
      using c fl by (auto simp: CreateCheckpoint_def truncateBeforeUnlocked_def Let_def
          split: prod.splits sum.splits if_splits option.splits bool.splits)
    with flush_hist [OF L h fl] meta_synced_cong [of w' w1] show ?thesis by (simp add: wal_hist_def)
  qed
  ultimately show ?thesis using c' hl by (auto simp: wal_hist_def)
qed

lemma crash_hist:
  assumes L: "tidwall_log L v" and h: "wal_hist v w h" and r: "reopen b w = Inr w'"
  shows "wal_hist v w' (take (unat (WAL_lastFlushedLSN w)) h)"
proof -
  let ?n = "unat (WAL_lastFlushedLSN w)"
  from h have ok: "wal_ok v w" and hl: "lsns h = [1 ..< Suc (unat (WAL_currentLSN w))]"
    and suf: "all_entries v w = drop (fst (v (WAL_Log w)) - 1) h" and m: "meta_synced w"
    by (auto simp: wal_hist_def)
  have le: "?n \<le> unat (WAL_currentLSN w)" using wal_ok_le [OF ok] by (simp add: word_le_nat_alt)
  have w': "WAL_Log w' = WAL_Log w" "WAL_Buffer w' = []" "WAL_currentLSN w' = WAL_lastFlushedLSN w"
    "WAL_lastFlushedLSN w' = WAL_lastFlushedLSN w" "WAL_metadataFile w' = WAL_metadataFile w"
    "WAL_checkpointDir w' = WAL_checkpointDir w"
    using r m by (auto simp: reopen_def NewWAL_def loadLSN_def meta_synced_def split: option.splits)
  have "wal_ok v w'" using ok w' by (simp add: wal_ok_def)
  moreover have "all_entries v w' = take (length (disk_entries v w)) (all_entries v w)"
    using w' by (simp add: all_entries_def disk_entries_def)
  moreover have "length (disk_entries v w) = Suc ?n - fst (v (WAL_Log w))"
    using arg_cong [OF wal_ok_disk_lsns [OF ok], of length] by (simp del: upt_Suc)
  moreover have "lsns (take ?n h) = [1 ..< Suc ?n]"
    using hl le by (simp add: take_map [symmetric] take_upt del: upt_Suc)
  ultimately show ?thesis
    using h w' suf log_first_pos [OF L, of "WAL_Log w"]
    by (auto simp: wal_hist_def meta_synced_def markers_ok_def drop_take split: option.splits)
qed

lemma reach_hist:
  assumes L: "tidwall_log L v" and "wal_reach L v w h"
  shows "wal_hist v w h"
  using assms(2)
proof (induction rule: wal_reach.induct)
  case (r_fresh log b w)
  then have "wal_ok v w" by (intro NewWAL_fresh)
  moreover from r_fresh have "WAL_checkpointDir w = []" "WAL_currentLSN w = 0" "meta_synced w" "WAL_Log w = log"
    "WAL_Buffer w = []"
    by (auto simp: NewWAL_def loadLSN_def meta_synced_def)
  ultimately show ?case
    using r_fresh by (auto simp: wal_hist_def markers_ok_def all_entries_def disk_entries_def intro: exI [of _ "[]"])
next
  case r_write
  then show ?case by (blast intro: write_hist [OF L])
next
  case r_flush
  then show ?case by (auto simp: Flush_def intro: flush_hist [OF L])
next
  case r_checkpoint
  then show ?case by (blast intro: checkpoint_hist [OF L])
next
  case r_crash
  then show ?case by (blast intro: crash_hist [OF L])
qed

section \<open>Properties\<close>

text \<open>C1: In every state that a run of successful calls (writes of events that serialise, flushes, checkpoints), with crashes
  between the calls that lose the buffer, reaches from a fresh directory, the surviving history is numbered 1, 2, 3, \<dots> without
  gap, the WAL holds exactly the suffix of that history that checkpoints have not truncated, every
  entry of it can be read back by its LSN, and no entry at or above a retained checkpoint is lost. Failing calls and a crash
  inside a flush are outside these runs: what they do is stated in \<open>FS_WAL_Damage\<close> and by \<open>unsaved_metadata_blocks_wal\<close>.\<close>

theorem wal_reachable_history:
  assumes "tidwall_log L v" and "wal_reach L v w h"
  shows "lsns h = [1 ..< Suc (unat (WAL_currentLSN w))] \<and>
    (\<exists>k. all_entries v w = drop k h \<and>
       (\<exists>ns. WAL_checkpointDir w = map marker_name ns \<and> length ns \<le> 10 \<and> (\<forall>n\<in>set ns. n = 0 \<or> k < unat n))) \<and>
    (\<forall>e\<in>set (all_entries v w). GetEvent L w (WALEntry_LSN e) = Inr e)"
proof -
  have h: "wal_hist v w h" using reach_hist [OF assms] .
  let ?k = "fst (v (WAL_Log w)) - 1"
  from h obtain ns where ns: "markers_ok v w ns" "length ns \<le> MaxSnapshotLimit"
    by (auto simp: wal_hist_def)
  have "n = 0 \<or> ?k < unat n" if "n \<in> set ns" for n
    using that ns(1) log_first_pos [OF assms(1), of "WAL_Log w"] by (auto simp: markers_ok_def)
  with ns h show ?thesis
    using GetEvent_all_entries [OF assms(1)]
    by (auto simp: wal_hist_def markers_ok_def MaxSnapshotLimit_def simp del: upt_Suc)
qed

definition demo_env :: fs_env where
  "demo_env = \<lparr>env_now = 7, env_save_ok = True, env_marker_ok = True, env_readdir_ok = True, env_remove_ok = True\<rparr>"

definition demo_wal :: "log_view WAL" where
  "demo_wal = \<lparr>WAL_Log = (1, []), WAL_Buffer = [], WAL_BatchSize = 1, WAL_currentLSN = 0,
     WAL_lastFlushedLSN = 0, WAL_metadataFile = None, WAL_checkpointDir = []\<rparr>"

lemma NewWAL_demo: "NewWAL (1, []) None [] 1 = Inr demo_wal"
  by (simp add: NewWAL_def loadLSN_def demo_wal_def)

lemma norm_log_demo: "norm_log (1, []) = (1, [])"
  by (simp add: norm_log_def last_index_def)

lemma wal_ok_demo: "wal_ok norm_log demo_wal"
  by (rule NewWAL_fresh [where log = "(1, [])" and ms = "[]" and b = 1]) (rule NewWAL_demo, rule norm_log_demo)

lemma write_demo_any:
  "\<exists>w'. WriteEvent list_log demo_env ty (Inr d) demo_wal = (w', Inr 1) \<and> WAL_Buffer w' = []"
  by (simp add: WriteEvent_Inr demo_wal_def demo_env_def buffered_def new_entry_def flushBuffer_def
      list_log_def norm_log_demo [simplified] last_index_def saveLSN_def Let_def)

lemma write_demo: "\<exists>w'. WriteEvent list_log demo_env PoTS (Inr (JStr ''a'')) demo_wal = (w', Inr 1)"
  using write_demo_any by blast

theorem wal_reachable_history_witness:
  "\<exists>w h. h \<noteq> [] \<and> tidwall_log list_log norm_log \<and> wal_reach list_log norm_log w h \<and>
    lsns h = [1 ..< Suc (unat (WAL_currentLSN w))]"
proof -
  obtain w' where w': "WriteEvent list_log demo_env PoTS (Inr (JStr ''a'')) demo_wal = (w', Inr 1)"
    using write_demo by blast
  have r0: "wal_reach list_log norm_log demo_wal []"
    by (rule wal_reach.r_fresh [where log = "(1, [])" and b = 1]) (rule norm_log_demo, rule NewWAL_demo)
  have "WAL_currentLSN demo_wal \<noteq> MaxUint64" by (simp add: demo_wal_def)
  from wal_reach.r_write [OF r0 this w'] obtain h where
    "h \<noteq> []" "wal_reach list_log norm_log w' h" by blast
  with wal_reachable_history [OF tidwall_list_log this(2)] tidwall_list_log show ?thesis by blast
qed

text \<open>C2: After a run of successful calls with crashes between them, a successful flush followed by a restart from the
  files on disk makes the replay hand its handler exactly the entries of the history from the first one that no checkpoint has truncated, in LSN
  order; when there is none the replay fails, because it reads the entry 0 of an empty log. What checkpoints have truncated lies below every
  checkpoint marker that is kept.\<close>

theorem flush_then_restart_replays:
  assumes "tidwall_log L v" and "wal_reach L v w h" and "Flush L env w = (w', Inr ())" and "k = fst (v (WAL_Log w)) - 1"
  shows "\<exists>w''. reopen b w' = Inr w'' \<and>
    ReplayEvents L w'' (\<lambda>e es. Some (es @ [e])) [] = (if drop k h = [] then Inl (ReadFailed 0) else Inr (drop k h)) \<and>
    (\<exists>ns. WAL_checkpointDir w'' = map marker_name ns \<and> (\<forall>n\<in>set ns. n = 0 \<or> k < unat n))"
proof -
  have h: "wal_hist v w h" using reach_hist [OF assms(1,2)] .
  have fl: "flushBuffer L env w = (w', Inr ())" using assms(3) by (simp add: Flush_def)
  from h have ok: "wal_ok v w" by (simp add: wal_hist_def)
  have f: "flushed v w w'" using flushBuffer_ok [OF assms(1) ok fl] .
  have h': "wal_hist v w' h" using flush_hist [OF assms(1) h fl] .
  have "meta_saved w'"
    using h' f wal_ok_empty_buffer [of v w']
    by (auto simp: wal_hist_def meta_synced_def meta_saved_def flushed_def split: option.splits)
  moreover have "wal_ok v w'" "WAL_Buffer w' = []" and "disk_entries v w' = all_entries v w" "fst (v (WAL_Log w')) = fst (v (WAL_Log w))"
    using f by (auto simp: flushed_def all_entries_def)
  moreover have "all_entries v w = drop k h" using h assms(4) by (simp add: wal_hist_def)
  ultimately obtain w'' where w'': "reopen b w' = Inr w''" "wal_ok v w''" "disk_entries v w'' = drop k h"
    using reopen_ok [of v w' b] by auto
  have "run_handler (\<lambda>e es. Some (es @ [e])) xs ys = Inr (ys @ xs)" for xs ys :: "WALEntry list"
    by (induction xs arbitrary: ys) auto
  with ReplayEvents_run [OF assms(1) w''(2), of "\<lambda>e es. Some (es @ [e])" "[]"] ReplayEvents_empty [OF assms(1)] w''(3)
  have "ReplayEvents L w'' (\<lambda>e es. Some (es @ [e])) [] = (if drop k h = [] then Inl (ReadFailed 0) else Inr (drop k h))"
    by (cases "snd (v (WAL_Log w'')) = []") (auto simp: disk_entries_def)
  moreover have "WAL_checkpointDir w'' = WAL_checkpointDir w'" using w''(1)
    by (auto simp: reopen_def NewWAL_def loadLSN_def split: option.splits)
  moreover obtain ns where "WAL_checkpointDir w' = map marker_name ns" "\<forall>n\<in>set ns. n = 0 \<or> k < unat n"
    using h' f assms(4) log_first_pos [OF assms(1), of "WAL_Log w"] by (fastforce simp: wal_hist_def markers_ok_def flushed_def)
  ultimately show ?thesis using w''(1) by auto
qed

theorem flush_then_restart_replays_witness:
  "\<exists>w h w' w'' e. wal_reach list_log norm_log w h \<and> Flush list_log demo_env w = (w', Inr ()) \<and> reopen 1 w' = Inr w'' \<and>
    h = [e] \<and> ReplayEvents list_log w'' (\<lambda>e es. Some (es @ [e])) [] = Inr [e]"
proof -
  obtain w where w: "WriteEvent list_log demo_env PoTS (Inr (JStr ''a'')) demo_wal = (w, Inr 1)" "WAL_Buffer w = []"
    using write_demo_any by blast
  have r0: "wal_reach list_log norm_log demo_wal []"
    by (rule wal_reach.r_fresh [where log = "(1, [])" and b = 1]) (rule norm_log_demo, rule NewWAL_demo)
  have room: "WAL_currentLSN demo_wal \<noteq> MaxUint64" by (simp add: demo_wal_def)
  obtain e where r: "wal_reach list_log norm_log w [e]"
    using wal_reach.r_write [OF r0 room w(1)] by fastforce
  from WriteEvent_ok [OF tidwall_list_log wal_ok_demo room w(1)] have "fst (norm_log (WAL_Log w)) = 1"
    by (simp add: demo_wal_def norm_log_demo [simplified])
  then have k: "0 = fst (norm_log (WAL_Log w)) - 1" by simp
  from w(2) have fl: "Flush list_log demo_env w = (w, Inr ())" by (simp add: Flush_def flushBuffer_def)
  from flush_then_restart_replays [OF tidwall_list_log r fl k, of 1] obtain w'' where
    "reopen 1 w = Inr w''" "ReplayEvents list_log w'' (\<lambda>e es. Some (es @ [e])) [] = Inr [e]" by auto
  with r fl show ?thesis by blast
qed

text \<open>A successful \<open>WriteEvent\<close> returns a fresh LSN one above the last one, and
  \<open>GetEvent\<close> of that LSN returns the event just written, whether it is still in the buffer
  or already flushed.\<close>

theorem write_then_get:
  assumes "tidwall_log L v" and "wal_ok v w" and "WAL_currentLSN w \<noteq> MaxUint64"
    and "WriteEvent L env ty (Inr d) w = (w', Inr lsn)"
  shows "lsn = WAL_currentLSN w + 1 \<and> GetEvent L w' lsn =
    Inr \<lparr>WALEntry_Type = ty, WALEntry_Data = d, WALEntry_LSN = lsn, WALEntry_Timestamp = env_now env\<rparr>"
proof -
  from WriteEvent_ok [OF assms] have w': "wal_ok v w'" and lsn: "lsn = WAL_currentLSN w + 1"
    and e: "new_entry env ty d w \<in> set (all_entries v w')" by auto
  from GetEvent_all_entries [OF assms(1) w' e] lsn show ?thesis by (simp add: new_entry_def)
qed

theorem write_then_get_witness:
  "\<exists>w'. tidwall_log list_log norm_log \<and> wal_ok norm_log demo_wal \<and>
    WriteEvent list_log demo_env PoTS (Inr (JStr ''a'')) demo_wal = (w', Inr 1) \<and>
    GetEvent list_log w' 1 = Inr \<lparr>WALEntry_Type = PoTS, WALEntry_Data = JStr ''a'',
      WALEntry_LSN = 1, WALEntry_Timestamp = env_now demo_env\<rparr>"
proof -
  obtain w where w: "WriteEvent list_log demo_env PoTS (Inr (JStr ''a'')) demo_wal = (w, Inr 1)"
    using write_demo by blast
  have ok: "wal_ok norm_log demo_wal"
    by (rule wal_ok_demo)
  have room: "WAL_currentLSN demo_wal \<noteq> MaxUint64" by (simp add: demo_wal_def)
  from write_then_get [OF tidwall_list_log ok room w] ok w tidwall_list_log show ?thesis by blast
qed

text \<open>C9: A flush that has written its entries to the log but stops before the LSN metadata
  file is saved (a crash, or a failed \<open>os.WriteFile\<close>) leaves a directory that reopens without
  error and cannot be written any more: the stale metadata makes the next LSN collide with an entry
  already in the log, and every later write, flush and checkpoint leaves the disk unchanged.\<close>

theorem unsaved_metadata_blocks_wal:
  assumes "tidwall_log L v" and "wal_ok v w" and "meta_synced w" and "WAL_Buffer w \<noteq> []"
    and "flushBuffer L env w = (w', Inl SaveLSNFailed)"
  shows "\<exists>w''. reopen b w' = Inr w'' \<and> WAL_Log w'' = WAL_Log w' \<and>
    WAL_Log (fold (do_call L) (CallWrite ty (Inr d) env' # cs) w'') = WAL_Log w'"
proof -
  obtain lf where fl: "flush_loop L (WAL_Log w) (WAL_lastFlushedLSN w) (WAL_Buffer w) = (WAL_Log w', lf, None)"
    and m: "WAL_metadataFile w' = WAL_metadataFile w"
    using assms(4,5) by (auto simp: flushBuffer_def saveLSN_def Let_def split: prod.splits option.splits if_splits)
  from flush_loop_done [OF assms(1) fl] have "last_index (v (WAL_Log w')) = last_index (v (WAL_Log w)) + length (WAL_Buffer w)"
    using log_first_pos [OF assms(1), of "WAL_Log w"] by (simp add: last_index_def)
  then have gt: "unat (WAL_lastFlushedLSN w) < last_index (v (WAL_Log w'))"
    using wal_ok_last [OF assms(2)] assms(4) by simp
  obtain w'' where w'': "reopen b w' = Inr w''" "WAL_Log w'' = WAL_Log w'" "WAL_Buffer w'' = []"
    "WAL_currentLSN w'' = WAL_lastFlushedLSN w"
    using assms(3) m by (auto simp: reopen_def NewWAL_def loadLSN_def meta_synced_def split: option.splits)
  have "WAL_lastFlushedLSN w \<noteq> MaxUint64"
    using gt log_last_bound [OF assms(1), of "WAL_Log w'"] unat_max by auto
  then have "unat (WAL_currentLSN w'' + 1) \<noteq> Suc (last_index (v (WAL_Log w'')))"
    using gt w'' by (simp add: unat_plus1)
  from misplaced_write_stuck [OF assms(1) w''(3) this]
  have s: "stuck v (fst (WriteEvent L env' ty (Inr d) w''))"
    "WAL_Log (fst (WriteEvent L env' ty (Inr d) w'')) = WAL_Log w'" using w'' by auto
  from stuck_forever [OF assms(1) s(1), of cs] s(2) w'' show ?thesis by auto
qed

theorem unsaved_metadata_blocks_wal_witness:
  "\<exists>w w' w''. wal_ok norm_log w \<and> meta_synced w \<and> WAL_Buffer w \<noteq> [] \<and>
    flushBuffer list_log (demo_env\<lparr>env_save_ok := False\<rparr>) w = (w', Inl SaveLSNFailed) \<and>
    reopen 1 w' = Inr w'' \<and>
    WAL_Log (fold (do_call list_log) (CallWrite PoTS (Inr (JStr ''b'')) demo_env # []) w'') = WAL_Log w'"
proof -
  let ?w = "buffered demo_env PoTS (JStr ''a'') demo_wal" and ?env = "demo_env\<lparr>env_save_ok := False\<rparr>"
  have ok0: "wal_ok norm_log demo_wal"
    by (rule wal_ok_demo)
  have ok: "wal_ok norm_log ?w" by (rule buffered_ok [OF ok0]) (simp add: demo_wal_def)
  have ms: "meta_synced ?w" by (simp add: meta_synced_def demo_wal_def)
  have ne: "WAL_Buffer ?w \<noteq> []" by simp
  obtain w' where fl: "flushBuffer list_log ?env ?w = (w', Inl SaveLSNFailed)"
    by (simp add: demo_wal_def demo_env_def buffered_def new_entry_def flushBuffer_def
      list_log_def norm_log_demo [simplified] last_index_def saveLSN_def Let_def)
  from unsaved_metadata_blocks_wal [OF tidwall_list_log ok ms ne fl, of 1 PoTS "JStr ''b''" demo_env "[]"]
  show ?thesis using ok ms ne fl by blast
qed

text \<open>A successful \<open>CreateCheckpoint\<close> leaves nothing buffered, returns the last LSN and
  marks it, keeps at most ten markers, and removes from the log only entries below the oldest
  marker it keeps.\<close>

theorem checkpoint_rotation:
  assumes "tidwall_log L v" and "wal_ok v w" and "markers_ok v w ns" and "length ns \<le> MaxSnapshotLimit"
    and "CreateCheckpoint L env w = (w', Inr lsn)"
  shows "WAL_Buffer w' = [] \<and> lsn = GetLastLSN w \<and> GetLastFlushedLSN w' = lsn \<and>
    (\<exists>ns' lo. WAL_checkpointDir w' = map marker_name ns' \<and> lsn \<in> set ns' \<and> length ns' \<le> 10 \<and>
       set ns' \<subseteq> insert lsn (set ns) \<and> (\<forall>n\<in>set ns'. lo \<le> n) \<and>
       all_entries v w' = filter (\<lambda>e. lo \<le> WALEntry_LSN e) (all_entries v w))"
  using CreateCheckpoint_ok [OF assms] wal_ok_empty_buffer [of v w']
  by (auto simp: GetLastLSN_def GetLastFlushedLSN_def markers_ok_def MaxSnapshotLimit_def)

theorem checkpoint_rotation_witness:
  "\<exists>w'. wal_ok norm_log demo_wal \<and> markers_ok norm_log demo_wal [] \<and>
    CreateCheckpoint list_log demo_env demo_wal = (w', Inr 0) \<and> WAL_Buffer w' = [] \<and>
    GetLastFlushedLSN w' = 0"
proof -
  have ok: "wal_ok norm_log demo_wal"
    by (rule wal_ok_demo)
  have m: "markers_ok norm_log demo_wal []" by (simp add: markers_ok_def demo_wal_def)
  have l: "length ([] :: u64 list) \<le> MaxSnapshotLimit" by simp
  obtain w' where c: "CreateCheckpoint list_log demo_env demo_wal = (w', Inr 0)"
    by (simp add: CreateCheckpoint_def flushBuffer_def demo_wal_def demo_env_def Let_def write_name_def
        MaxSnapshotLimit_def)
  from checkpoint_rotation [OF tidwall_list_log ok m l c] ok m c show ?thesis by blast
qed

end
