(* ===== verification/FS_Hydration.thy ===== *)
theory FS_Hydration
  imports FS_Events_Facts FS_WAL_Props
begin

text \<open>
  \<open>common/WAL/hydration/hydration.go\<close>: reconstruction of the last event of each phase by replaying
  the log. The generic \<open>hydrateLastEntry[T]\<close> takes the type's \<open>Deserialize\<close> and zero value.
\<close>

section \<open>The hydrator\<close>

record 'm PhaseState =
  PhaseState_PriorSync :: "'m ProtoEvent option"
  PhaseState_HeaderSync :: "'m ProtoEvent option"
  PhaseState_DataSync :: "'m ProtoEvent option"
  PhaseState_Reconciliation :: "ReconciliationBatchEvent option"

definition empty_PhaseState :: "'m PhaseState" where
  "empty_PhaseState = \<lparr>PhaseState_PriorSync = None, PhaseState_HeaderSync = None,
     PhaseState_DataSync = None, PhaseState_Reconciliation = None\<rparr>"

definition hydrate_handler :: "'m proto_ops \<Rightarrow> WALEntry \<Rightarrow> 'm PhaseState \<Rightarrow> 'm PhaseState option" where
  "hydrate_handler P entry state =
     (if WALEntry_Type entry = PriorSync then
        (case PriorSyncEvent_Deserialize P (WALEntry_Data entry) empty_ProtoEvent of None \<Rightarrow> None
         | Some ev \<Rightarrow> Some (state\<lparr>PhaseState_PriorSync := Some ev\<rparr>))
      else if WALEntry_Type entry = HeaderSync then
        (case HeaderSyncEvent_Deserialize P (WALEntry_Data entry) empty_ProtoEvent of None \<Rightarrow> None
         | Some ev \<Rightarrow> Some (state\<lparr>PhaseState_HeaderSync := Some ev\<rparr>))
      else if WALEntry_Type entry = DataSync then
        (case DataSyncEvent_Deserialize P (WALEntry_Data entry) empty_ProtoEvent of None \<Rightarrow> None
         | Some ev \<Rightarrow> Some (state\<lparr>PhaseState_DataSync := Some ev\<rparr>))
      else if WALEntry_Type entry = Reconciliation then
        (case ReconciliationBatchEvent_Deserialize (WALEntry_Data entry) empty_ReconciliationBatchEvent of
           None \<Rightarrow> None
         | Some ev \<Rightarrow> Some (state\<lparr>PhaseState_Reconciliation := Some ev\<rparr>))
      else Some state)"

definition HydrateAll :: "'l log_ops \<Rightarrow> 'm proto_ops \<Rightarrow> 'l WAL \<Rightarrow> wal_error + 'm PhaseState" where
  "HydrateAll L P w = ReplayEvents L w (hydrate_handler P) empty_PhaseState"

definition hydrateLastEntry :: "'l log_ops \<Rightarrow> (json \<Rightarrow> 'e \<Rightarrow> 'e option) \<Rightarrow> 'e \<Rightarrow> 'l WAL \<Rightarrow> WALType
    \<Rightarrow> wal_error + 'e option" where
  "hydrateLastEntry L deser zero w walType =
     ReplayEventsByType L w walType
       (\<lambda>entry last. case deser (WALEntry_Data entry) zero of None \<Rightarrow> None | Some ev \<Rightarrow> Some (Some ev)) None"

definition HydratePriorSync where
  "HydratePriorSync L P w = hydrateLastEntry L (PriorSyncEvent_Deserialize P) empty_ProtoEvent w PriorSync"
definition HydrateHeaderSync where
  "HydrateHeaderSync L P w = hydrateLastEntry L (HeaderSyncEvent_Deserialize P) empty_ProtoEvent w HeaderSync"
definition HydrateDataSync where
  "HydrateDataSync L P w = hydrateLastEntry L (DataSyncEvent_Deserialize P) empty_ProtoEvent w DataSync"
definition HydrateReconciliation where
  "HydrateReconciliation L w = hydrateLastEntry L ReconciliationBatchEvent_Deserialize
     empty_ReconciliationBatchEvent w Reconciliation"

section \<open>One pass equals four scans\<close>

abbreviation last_handler where
  "last_handler deser zero ty \<equiv> (\<lambda>entry s. if WALEntry_Type entry = ty
     then (case deser (WALEntry_Data entry) zero of None \<Rightarrow> None | Some ev \<Rightarrow> Some (Some ev)) else Some s)"

lemma PhaseState_eq_iff:
  "(s :: 'm PhaseState) = t \<longleftrightarrow> PhaseState_PriorSync s = PhaseState_PriorSync t \<and>
     PhaseState_HeaderSync s = PhaseState_HeaderSync t \<and> PhaseState_DataSync s = PhaseState_DataSync t \<and>
     PhaseState_Reconciliation s = PhaseState_Reconciliation t"
  by auto

lemma replay_loop_phases:
  "replay_loop L log (hydrate_handler P) n i s = Inr t \<longleftrightarrow>
     replay_loop L log (last_handler (PriorSyncEvent_Deserialize P) empty_ProtoEvent PriorSync) n i
       (PhaseState_PriorSync s) = Inr (PhaseState_PriorSync t) \<and>
     replay_loop L log (last_handler (HeaderSyncEvent_Deserialize P) empty_ProtoEvent HeaderSync) n i
       (PhaseState_HeaderSync s) = Inr (PhaseState_HeaderSync t) \<and>
     replay_loop L log (last_handler (DataSyncEvent_Deserialize P) empty_ProtoEvent DataSync) n i
       (PhaseState_DataSync s) = Inr (PhaseState_DataSync t) \<and>
     replay_loop L log (last_handler ReconciliationBatchEvent_Deserialize empty_ReconciliationBatchEvent
       Reconciliation) n i (PhaseState_Reconciliation s) = Inr (PhaseState_Reconciliation t)"
proof (induction n arbitrary: i s)
  case 0
  then show ?case by (simp add: PhaseState_eq_iff)
next
  case (Suc n)
  show ?case
  proof (cases "op_read L log i")
    case None
    then show ?thesis by simp
  next
    case (Some d)
    note d = this
    show ?thesis
    proof (cases "unmarshal_WALEntry d")
      case None
      with d show ?thesis by simp
    next
      case (Some e)
      with d show ?thesis
        by (cases "WALEntry_Type e = PriorSync"; cases "WALEntry_Type e = HeaderSync";
            cases "WALEntry_Type e = DataSync"; cases "WALEntry_Type e = Reconciliation")
          (simp_all add: hydrate_handler_def [of P e] Suc.IH split: option.splits)
    qed
  qed
qed

text \<open>C5: \<open>HydrateAll\<close>, which replays the log once, returns a state exactly when the four
  per-phase hydrators all return, and its fields are what they return; whatever the log holds.\<close>

theorem HydrateAll_is_four_scans:
  "HydrateAll L P w = Inr st \<longleftrightarrow>
     HydratePriorSync L P w = Inr (PhaseState_PriorSync st) \<and>
     HydrateHeaderSync L P w = Inr (PhaseState_HeaderSync st) \<and>
     HydrateDataSync L P w = Inr (PhaseState_DataSync st) \<and>
     HydrateReconciliation L w = Inr (PhaseState_Reconciliation st)"
  by (simp add: HydrateAll_def HydratePriorSync_def HydrateHeaderSync_def HydrateDataSync_def
      HydrateReconciliation_def hydrateLastEntry_def ReplayEventsByType_def ReplayEvents_def
      replay_loop_phases empty_PhaseState_def split: option.splits)

section \<open>What was written is what is hydrated\<close>

lemma run_handler_append:
  "run_handler h (xs @ ys) s = (case run_handler h xs s of Inl e \<Rightarrow> Inl e | Inr t \<Rightarrow> run_handler h ys t)"
  by (induction xs arbitrary: s) (auto split: option.splits)

lemma run_last_handler_total:
  "\<forall>e\<in>set es. WALEntry_Type e = ty \<longrightarrow> deser (WALEntry_Data e) zero \<noteq> None \<Longrightarrow>
   \<exists>t. run_handler (last_handler deser zero ty) es s = Inr t"
  by (induction es arbitrary: s) auto

context event_adapter
begin

lemma hydrate_written:
  assumes L: "tidwall_log L v" and ok: "wal_ok v w" and room: "WAL_currentLSN w \<noteq> MaxUint64"
    and old: "\<forall>e\<in>set (all_entries v w). WALEntry_Type e = ty \<longrightarrow> deser (WALEntry_Data e) zero \<noteq> None"
    and wf: "wf e" and ser: "ser e = (e', r)" and wr: "WriteEvent L env ty r w = (w1, Inr lsn)"
    and fl: "Flush L env' w1 = (w2, Inr ())"
  shows "hydrateLastEntry L deser zero w2 ty = Inr (Some e')"
proof -
  from written_flushed [OF L ok room wf ser wr fl] obtain x where
    d: "disk_entries v w2 = all_entries v w @ [x]" and w2: "wal_ok v w2" and x: "WALEntry_Type x = ty"
      "deser (WALEntry_Data x) zero = Some e'" by blast
  obtain t where "run_handler (last_handler deser zero ty) (all_entries v w) None = Inr t"
    using run_last_handler_total [of "all_entries v w" ty deser zero None] old by blast
  then show ?thesis
    using ReplayEvents_run [OF L w2, of "last_handler deser zero ty" None] d x
    by (simp add: hydrateLastEntry_def ReplayEventsByType_def run_handler_append)
qed

end

text \<open>A header-sync event that was written and flushed is the event that
  \<open>HydrateHeaderSync\<close> rebuilds on startup, message included, provided older header-sync
  entries of the log can be decoded.\<close>

theorem hydrate_header_after_write:
  assumes "tidwall_log L v" and "wal_ok v w" and "WAL_currentLSN w \<noteq> MaxUint64"
    and "\<forall>e\<in>set (all_entries v w). WALEntry_Type e = HeaderSync \<longrightarrow>
           HeaderSyncEvent_Deserialize P (WALEntry_Data e) empty_ProtoEvent \<noteq> None"
    and "wf_proto P HeaderSync e" and "HeaderSyncEvent_Serialize P e = (e', r)"
    and "WriteEvent L env HeaderSync r w = (w1, Inr lsn)" and "Flush L env' w1 = (w2, Inr ())"
  shows "HydrateHeaderSync L P w2 = Inr (Some e')"
  unfolding HydrateHeaderSync_def by (rule header_ev.hydrate_written [OF assms])

theorem hydrate_header_after_write_witness:
  "\<exists>w1 w2. WriteEvent list_log demo_env HeaderSync (Inr (marshal_ProtoEvent demo_event)) demo_wal = (w1, Inr 1) \<and>
    Flush list_log demo_env w1 = (w2, Inr ()) \<and> HydrateHeaderSync list_log demo_proto w2 = Inr (Some demo_event)"
proof -
  obtain w1 where w1: "WriteEvent list_log demo_env HeaderSync (Inr (marshal_ProtoEvent demo_event)) demo_wal =
      (w1, Inr 1)" and b: "WAL_Buffer w1 = []"
    by (auto simp add: WriteEvent_Inr demo_wal_def demo_env_def buffered_def new_entry_def flushBuffer_def
      list_log_def norm_log_demo [simplified] last_index_def saveLSN_def Let_def)
  have fl: "Flush list_log demo_env w1 = (w1, Inr ())" using b by (simp add: Flush_def flushBuffer_def)
  have "WAL_currentLSN demo_wal \<noteq> MaxUint64" "all_entries norm_log demo_wal = []"
    using norm_log_demo by (simp_all add: demo_wal_def all_entries_def disk_entries_def)
  with hydrate_header_after_write [OF tidwall_list_log wal_ok_demo _ _ wf_demo_event ser_demo_event w1 fl]
  show ?thesis using w1 fl by auto
qed

text \<open>On an empty log hydration fails, because replay reads the non-existent entry 0; the
  documentation of \<open>HydrateAll\<close> promises an empty state instead.\<close>

theorem HydrateAll_empty_log_fails:
  assumes "tidwall_log L v" and "v log = (1, [])" and "NewWAL log None [] b = Inr w"
  shows "HydrateAll L P w = Inl (ReadFailed 0)"
proof -
  have "WAL_Log w = log" using assms(3) by (auto simp: NewWAL_def loadLSN_def)
  with assms(1,2) show ?thesis by (simp add: HydrateAll_def ReplayEvents_empty)
qed

theorem HydrateAll_empty_log_fails_witness:
  "NewWAL (1, []) None [] 1 = Inr demo_wal \<and> HydrateAll list_log demo_proto demo_wal = Inl (ReadFailed 0)"
  using HydrateAll_empty_log_fails [OF tidwall_list_log norm_log_demo NewWAL_demo] NewWAL_demo by auto

end
