(* ===== verification/FS_WAL_Live.thy ===== *)
theory FS_WAL_Live
  imports FS_WAL_Props
begin

text \<open>
  On a disk that does not fail, a WAL reached by successful calls refuses no work: writes, flushes and checkpoints
  all succeed. The laws of the segment log say when a call is well placed; the invariant of the
  WAL says that every call it makes is.
\<close>

definition env_ok :: "fs_env \<Rightarrow> bool" where
  "env_ok env \<longleftrightarrow> env_save_ok env \<and> env_marker_ok env \<and> env_readdir_ok env \<and> env_remove_ok env"

lemma reliable_write:
  assumes "tidwall_log L v" and "reliable_log L v" and "unat i = Suc (last_index (v l))"
  obtains l' where "op_write L l i d = (l', True)" "v l' = (fst (v l), snd (v l) @ [d])"
proof -
  have "snd (op_write L l i d)" using assms(2,3) by (simp add: reliable_log_def)
  then obtain l' where "op_write L l i d = (l', True)" by (cases "op_write L l i d") auto
  with log_write_True [OF assms(1) this] that show ?thesis by blast
qed

lemma flush_loop_reliable:
  assumes L: "tidwall_log L v" and R: "reliable_log L v"
    and "lsns es = [Suc (last_index (v log)) ..< Suc (last_index (v log) + length es)]"
  shows "\<exists>log' lf'. flush_loop L log lf es = (log', lf', None)"
  using assms(3)
proof (induction es arbitrary: log lf)
  case Nil
  then show ?case by simp
next
  case (Cons e es)
  let ?n = "last_index (v log)"
  from Cons.prems have "unat (WALEntry_LSN e) = Suc ?n"
    and tl: "lsns es = [Suc (Suc ?n) ..< Suc (Suc (?n + length es))]"
    by (simp_all add: upt_conv_Cons del: upt_Suc)
  then obtain log1 where l1: "op_write L log (WALEntry_LSN e) (marshal_WALEntry e) = (log1, True)"
    and v1: "v log1 = (fst (v log), snd (v log) @ [marshal_WALEntry e])"
    using reliable_write [OF L R] by metis
  have "last_index (v log1) = Suc ?n"
    using v1 log_first_pos [OF L, of log] by (simp add: last_index_def)
  with Cons.IH [of log1] tl l1 show ?case by (simp del: upt_Suc)
qed

lemma flushBuffer_reliable:
  assumes L: "tidwall_log L v" and R: "reliable_log L v" and ok: "wal_ok v w" and env: "env_save_ok env"
  shows "\<exists>w'. flushBuffer L env w = (w', Inr ())"
proof -
  let ?n = "unat (WAL_lastFlushedLSN w)"
  have "length (WAL_Buffer w) = unat (WAL_currentLSN w) - ?n"
    using arg_cong [OF wal_ok_buffer [OF ok], of length] by (simp del: upt_Suc)
  moreover have "?n \<le> unat (WAL_currentLSN w)" using wal_ok_le [OF ok] by (simp add: word_le_nat_alt)
  ultimately have "lsns (WAL_Buffer w) =
      [Suc (last_index (v (WAL_Log w))) ..< Suc (last_index (v (WAL_Log w)) + length (WAL_Buffer w))]"
    using wal_ok_buffer [OF ok] wal_ok_last [OF ok] by (simp del: upt_Suc)
  from flush_loop_reliable [OF L R this, of "WAL_lastFlushedLSN w"] env show ?thesis
    by (auto simp: flushBuffer_def saveLSN_def Let_def)
qed

lemma WriteEvent_reliable:
  assumes "tidwall_log L v" and "reliable_log L v" and "wal_ok v w" and "env_save_ok env"
    and "WAL_currentLSN w \<noteq> MaxUint64"
  shows "\<exists>w'. WriteEvent L env ty (Inr d) w = (w', Inr (WAL_currentLSN w + 1))"
  using flushBuffer_reliable [OF assms(1,2) buffered_ok [OF assms(3,5)] assms(4), of env ty d]
  by (auto simp: WriteEvent_Inr split: prod.splits sum.splits)

lemma truncate_reliable:
  assumes L: "tidwall_log L v" and R: "reliable_log L v" and ok: "wal_ok v w" and k: "k \<le> WAL_lastFlushedLSN w"
    and f: "k = 0 \<or> fst (v (WAL_Log w)) \<le> unat k"
  shows "\<exists>w'. truncateBeforeUnlocked L k w = (w', Inr ())"
proof -
  have "snd (op_truncate_front L (WAL_Log w) k)" if "k \<noteq> 0"
    using R that f k wal_ok_last [OF ok] by (simp add: reliable_log_def word_le_nat_alt)
  then show ?thesis
    by (cases "op_truncate_front L (WAL_Log w) k")
      (auto simp: truncateBeforeUnlocked_def log_first [OF L] split: prod.splits bool.splits)
qed

lemma CreateCheckpoint_reliable:
  assumes L: "tidwall_log L v" and R: "reliable_log L v" and ok: "wal_ok v w" and m: "markers_ok v w ns"
    and env: "env_ok env"
  shows "\<exists>w'. CreateCheckpoint L env w = (w', Inr (WAL_currentLSN w))"
proof -
  from flushBuffer_reliable [OF L R ok] env obtain w1 where fl: "flushBuffer L env w = (w1, Inr ())"
    by (auto simp: env_ok_def)
  let ?n = "WAL_lastFlushedLSN w1"
  let ?ns = "add_marker ?n ns"
  define w2 where "w2 = w1\<lparr>WAL_checkpointDir := write_name (marker_name ?n) (WAL_checkpointDir w1)\<rparr>"
  from mark_ok [OF L ok m fl, folded w2_def] have w2: "wal_ok v w2" "markers_ok v w2 ?ns" "?n = WAL_currentLSN w"
    by blast+
  have dir: "WAL_checkpointDir w2 = map marker_name ?ns" using w2(2) by (simp add: markers_ok_def)
  show ?thesis
  proof (cases "length ?ns > MaxSnapshotLimit")
    case False
    with fl env dir w2(3) show ?thesis
      by (simp add: CreateCheckpoint_def env_ok_def w2_def Let_def)
  next
    case True
    then obtain k rest where ns: "?ns = k # rest" by (cases ?ns) auto
    with w2(2) have "k \<le> WAL_lastFlushedLSN w2" "k = 0 \<or> fst (v (WAL_Log w2)) \<le> unat k"
      by (auto simp: markers_ok_def)
    from truncate_reliable [OF L R w2(1) this] obtain w3 where "truncateBeforeUnlocked L k w2 = (w3, Inr ())"
      by blast
    with fl env dir w2(3) True ns show ?thesis
      by (simp add: CreateCheckpoint_def env_ok_def w2_def [symmetric] Let_def) (simp add: w2_def)
  qed
qed

text \<open>After every run of successful calls with crashes between them, when the segment log and the files do not fail, writing an
  event that serialises (with LSNs left), flushing and checkpointing succeed. The WAL has no damage of its own making on such a run.\<close>

theorem wal_never_refuses:
  assumes "tidwall_log L v" and "reliable_log L v" and "wal_reach L v w h" and "env_ok env"
    and "WAL_currentLSN w \<noteq> MaxUint64"
  shows "(\<exists>w'. WriteEvent L env ty (Inr d) w = (w', Inr (WAL_currentLSN w + 1))) \<and>
    (\<exists>w'. Flush L env w = (w', Inr ())) \<and> (\<exists>w'. CreateCheckpoint L env w = (w', Inr (WAL_currentLSN w)))"
proof -
  from reach_hist [OF assms(1,3)] obtain ns where ok: "wal_ok v w" and m: "markers_ok v w ns"
    by (auto simp: wal_hist_def)
  have "env_save_ok env" using assms(4) by (simp add: env_ok_def)
  with WriteEvent_reliable [OF assms(1,2) ok _ assms(5)] flushBuffer_reliable [OF assms(1,2) ok]
    CreateCheckpoint_reliable [OF assms(1,2) ok m assms(4)]
  show ?thesis by (simp add: Flush_def)
qed

lemma env_ok_demo: "env_ok demo_env"
  by (simp add: env_ok_def demo_env_def)

lemma reliable_list_log: "reliable_log list_log norm_log"
  unfolding reliable_log_def list_log_def by (auto simp: Let_def)

theorem wal_never_refuses_witness:
  "\<exists>w h. wal_reach list_log norm_log w h \<and> (\<exists>w'. CreateCheckpoint list_log demo_env w = (w', Inr (WAL_currentLSN w)))"
proof -
  have r0: "wal_reach list_log norm_log demo_wal []"
    by (rule wal_reach.r_fresh [where log = "(1, [])" and b = 1]) (rule norm_log_demo, rule NewWAL_demo)
  have "WAL_currentLSN demo_wal \<noteq> MaxUint64" by (simp add: demo_wal_def)
  from wal_never_refuses [OF tidwall_list_log reliable_list_log r0 env_ok_demo this] r0 show ?thesis
    by blast
qed

end
