(* ===== verification/FS_Async.thy ===== *)
theory FS_Async
  imports FS_WAL_Live
begin

text \<open>
  \<open>common/WAL/async_buffer.go\<close> and the asynchronous entry points of \<open>operations.go\<close>: the
  coalescing buffers in front of the log. A buffer is shared by the writers that push into it and by
  its own goroutine \<open>run\<close>, which swaps the stack out on every tick and writes the snapshot to the
  log node by node; \<open>w.asyncBuf\<close> holds the buffer new writers use.

  The step relation \<open>async_step\<close> has one step per critical section (\<open>b.mu\<close>, \<open>w.Mu\<close>) and per
  atomic operation on the slot, so that its runs are the interleavings of the code. When a tick or
  the idle timer fires is left open. The fields \<open>A_accepted\<close>, \<open>A_out\<close> and \<open>A_lost\<close> record what
  pushes were accepted, what was handed to the log, and what a writer was told is enqueued without
  any buffer having taken it; no step reads them.
\<close>

section \<open>Buffers\<close>

record pendingEntry =
  pendingEntry_walType :: WALType
  pendingEntry_data :: json

datatype stackEntry = kindData "pendingEntry list" | kindCheckpoint

record AsyncBuffer =
  AsyncBuffer_stack :: "stackEntry list"
  AsyncBuffer_closed :: bool

definition newAsyncBuffer :: AsyncBuffer where
  "newAsyncBuffer = \<lparr>AsyncBuffer_stack = [], AsyncBuffer_closed = False\<rparr>"

definition pushData :: "pendingEntry \<Rightarrow> AsyncBuffer \<Rightarrow> AsyncBuffer \<times> bool" where
  "pushData e b =
     (if AsyncBuffer_closed b then (b, False)
      else let s = AsyncBuffer_stack b
        in (b\<lparr>AsyncBuffer_stack :=
              (if s = [] then [kindData [e]]
               else case last s of
                   kindData es \<Rightarrow> butlast s @ [kindData (es @ [e])]
                 | kindCheckpoint \<Rightarrow> s @ [kindData [e]])\<rparr>, True))"

definition pushCheckpoint :: "AsyncBuffer \<Rightarrow> AsyncBuffer \<times> bool" where
  "pushCheckpoint b =
     (if AsyncBuffer_closed b then (b, False)
      else let s = AsyncBuffer_stack b
        in if s \<noteq> [] \<and> last s = kindCheckpoint then (b, True)
           else (b\<lparr>AsyncBuffer_stack := s @ [kindCheckpoint]\<rparr>, True))"

text \<open>The critical sections of \<open>flushAndReport\<close> and \<open>closeAndDrain\<close>: the stack becomes a snapshot.\<close>

definition swap_stack :: "AsyncBuffer \<Rightarrow> AsyncBuffer \<times> stackEntry list" where
  "swap_stack b = (b\<lparr>AsyncBuffer_stack := []\<rparr>, AsyncBuffer_stack b)"

definition close_stack :: "AsyncBuffer \<Rightarrow> AsyncBuffer \<times> stackEntry list" where
  "close_stack b = (b\<lparr>AsyncBuffer_closed := True, AsyncBuffer_stack := []\<rparr>, AsyncBuffer_stack b)"

section \<open>Writing a snapshot\<close>

text \<open>
  The loop over one data node; \<open>env k\<close> is the environment of its \<open>k\<close>th iteration. Flush errors are
  logged and otherwise ignored.
\<close>

fun write_entries :: "'l log_ops \<Rightarrow> (nat \<Rightarrow> fs_env) \<Rightarrow> pendingEntry list \<Rightarrow> 'l WAL \<Rightarrow> 'l WAL" where
  "write_entries L env [] w = w"
| "write_entries L env (pe # es) w =
     (case nextLSN w of (w1, lsn) \<Rightarrow>
      let w2 = w1\<lparr>WAL_Buffer := WAL_Buffer w1 @
            [\<lparr>WALEntry_Type = pendingEntry_walType pe, WALEntry_Data = pendingEntry_data pe,
              WALEntry_LSN = lsn, WALEntry_Timestamp = env_now (env 0)\<rparr>]\<rparr>;
          w3 = (if int (length (WAL_Buffer w2)) \<ge> WAL_BatchSize w2
                then fst (flushBuffer L (env 0) w2) else w2)
      in write_entries L (\<lambda>k. env (Suc k)) es w3)"

fun write_node :: "'l log_ops \<Rightarrow> (nat \<Rightarrow> fs_env) \<Rightarrow> stackEntry \<Rightarrow> 'l WAL \<Rightarrow> 'l WAL" where
  "write_node L env (kindData es) w = fst (flushBuffer L (env (length es)) (write_entries L env es w))"
| "write_node L env kindCheckpoint w = fst (CreateCheckpoint L (env 0) w)"

fun writeToWAL :: "'l log_ops \<Rightarrow> (nat \<Rightarrow> nat \<Rightarrow> fs_env) \<Rightarrow> stackEntry list \<Rightarrow> 'l WAL \<Rightarrow> 'l WAL" where
  "writeToWAL L envs [] w = w"
| "writeToWAL L envs (se # ss) w = writeToWAL L (\<lambda>k. envs (Suc k)) ss (write_node L (envs 0) se w)"

section \<open>The concurrent system\<close>

datatype run_state = Running | Closing | Draining | Stopped

datatype first_push = FirstData pendingEntry | FirstCheckpoint

record 'l async =
  A_wal :: "'l WAL"
  A_bufs :: "nat \<Rightarrow> AsyncBuffer"
  A_next :: nat
  A_slot :: "nat option"
  A_run :: "nat \<Rightarrow> run_state"
  A_snap :: "nat \<Rightarrow> stackEntry list"
  A_first :: "nat \<Rightarrow> first_push option"
  A_accepted :: "(nat \<times> pendingEntry) list"
  A_out :: "(nat option \<times> pendingEntry) list"
  A_lost :: "pendingEntry list"

fun node_data :: "stackEntry \<Rightarrow> pendingEntry list" where
  "node_data (kindData es) = es"
| "node_data kindCheckpoint = []"

abbreviation stack_data :: "stackEntry list \<Rightarrow> pendingEntry list" where
  "stack_data s \<equiv> concat (map node_data s)"

definition async_init :: "'l WAL \<Rightarrow> 'l async" where
  "async_init w = \<lparr>A_wal = w, A_bufs = (\<lambda>_. newAsyncBuffer), A_next = 0, A_slot = None,
     A_run = (\<lambda>_. Running), A_snap = (\<lambda>_. []), A_first = (\<lambda>_. None),
     A_accepted = [], A_out = [], A_lost = []\<rparr>"

inductive async_step :: "'l log_ops \<Rightarrow> 'l async \<Rightarrow> 'l async \<Rightarrow> bool" for L where
  push_data: "i < A_next s \<Longrightarrow> pushData e (A_bufs s i) = (b, True) \<Longrightarrow>
    async_step L s (s\<lparr>A_bufs := (A_bufs s)(i := b), A_accepted := A_accepted s @ [(i, e)]\<rparr>)"
| push_checkpoint: "i < A_next s \<Longrightarrow> pushCheckpoint (A_bufs s i) = (b, True) \<Longrightarrow>
    async_step L s (s\<lparr>A_bufs := (A_bufs s)(i := b)\<rparr>)"
| create: "A_slot s = None \<Longrightarrow> i = A_next s \<Longrightarrow>
    async_step L s (s\<lparr>A_slot := Some i, A_next := Suc i, A_first := (A_first s)(i := Some f)\<rparr>)"
| first_data: "A_first s i = Some (FirstData e) \<Longrightarrow> pushData e (A_bufs s i) = (b, True) \<Longrightarrow>
    async_step L s (s\<lparr>A_first := (A_first s)(i := None), A_bufs := (A_bufs s)(i := b),
      A_accepted := A_accepted s @ [(i, e)]\<rparr>)"
| first_data_refused: "A_first s i = Some (FirstData e) \<Longrightarrow> pushData e (A_bufs s i) = (b, False) \<Longrightarrow>
    async_step L s (s\<lparr>A_first := (A_first s)(i := None), A_bufs := (A_bufs s)(i := b),
      A_lost := A_lost s @ [e]\<rparr>)"
| first_checkpoint: "A_first s i = Some FirstCheckpoint \<Longrightarrow> pushCheckpoint (A_bufs s i) = (b, r) \<Longrightarrow>
    async_step L s (s\<lparr>A_first := (A_first s)(i := None), A_bufs := (A_bufs s)(i := b)\<rparr>)"
| tick: "i < A_next s \<Longrightarrow> A_run s i = Running \<Longrightarrow> A_snap s i = [] \<Longrightarrow> swap_stack (A_bufs s i) = (b, sn) \<Longrightarrow>
    async_step L s (s\<lparr>A_bufs := (A_bufs s)(i := b), A_snap := (A_snap s)(i := sn)\<rparr>)"
| node: "i < A_next s \<Longrightarrow> A_run s i = Running \<or> A_run s i = Draining \<Longrightarrow> A_snap s i = se # ss \<Longrightarrow>
    \<forall>k. env_ok (env k) \<Longrightarrow> unat (WAL_currentLSN (A_wal s)) + length (node_data se) < 2 ^ 64 \<Longrightarrow>
    async_step L s (s\<lparr>A_wal := write_node L env se (A_wal s), A_snap := (A_snap s)(i := ss),
      A_out := A_out s @ map (Pair (Some i)) (node_data se)\<rparr>)"
| close: "i < A_next s \<Longrightarrow> A_run s i = Running \<Longrightarrow> A_snap s i = [] \<Longrightarrow> close_stack (A_bufs s i) = (b, sn) \<Longrightarrow>
    async_step L s (s\<lparr>A_bufs := (A_bufs s)(i := b), A_snap := (A_snap s)(i := sn),
      A_run := (A_run s)(i := Closing)\<rparr>)"
| unregister: "A_run s i = Closing \<Longrightarrow>
    async_step L s (s\<lparr>A_slot := (if A_slot s = Some i then None else A_slot s),
      A_run := (A_run s)(i := Draining)\<rparr>)"
| stop: "A_run s i = Draining \<Longrightarrow> A_snap s i = [] \<Longrightarrow>
    async_step L s (s\<lparr>A_run := (A_run s)(i := Stopped)\<rparr>)"
| sync_write: "WriteEvent L env ty (Inr d) (A_wal s) = (w', Inr lsn) \<Longrightarrow>
    WAL_currentLSN (A_wal s) \<noteq> MaxUint64 \<Longrightarrow>
    async_step L s (s\<lparr>A_wal := w', A_out := A_out s @
      [(None, \<lparr>pendingEntry_walType = ty, pendingEntry_data = d\<rparr>)]\<rparr>)"

section \<open>Buffer lemmas\<close>

lemma pushData_True:
  "pushData e b = (b', True) \<Longrightarrow> stack_data (AsyncBuffer_stack b') = stack_data (AsyncBuffer_stack b) @ [e] \<and>
     \<not> AsyncBuffer_closed b' \<and> \<not> AsyncBuffer_closed b"
  by (cases "AsyncBuffer_stack b" rule: rev_cases)
    (auto simp: pushData_def Let_def split: if_splits stackEntry.splits)

lemma pushData_False: "pushData e b = (b', False) \<Longrightarrow> b' = b \<and> AsyncBuffer_closed b"
  by (auto simp: pushData_def Let_def split: if_splits)

lemma pushCheckpoint_data:
  "pushCheckpoint b = (b', r) \<Longrightarrow> stack_data (AsyncBuffer_stack b') = stack_data (AsyncBuffer_stack b) \<and>
     AsyncBuffer_closed b' = AsyncBuffer_closed b \<and> (AsyncBuffer_closed b \<longrightarrow> b' = b)"
  by (auto simp: pushCheckpoint_def Let_def split: if_splits)

section \<open>Writing one node\<close>

text \<open>An iteration of the loop over a data node is a \<open>WriteEvent\<close> whose result is ignored.\<close>

lemma write_entries_WriteEvent:
  "write_entries L env (pe # es) w = write_entries L (\<lambda>k. env (Suc k)) es
     (fst (WriteEvent L (env 0) (pendingEntry_walType pe) (Inr (pendingEntry_data pe)) w))"
  by (simp add: WriteEvent_def nextLSN_def Let_def split: prod.splits sum.splits)

definition payload :: "WALEntry \<Rightarrow> pendingEntry" where
  "payload e = \<lparr>pendingEntry_walType = WALEntry_Type e, pendingEntry_data = WALEntry_Data e\<rparr>"

lemma payload_new_entry: "payload (new_entry env (pendingEntry_walType pe) (pendingEntry_data pe) w) = pe"
  by (simp add: payload_def new_entry_def)

lemma write_entries_hist:
  assumes L: "tidwall_log L v" and R: "reliable_log L v"
    and "wal_hist v w h" and "\<forall>k. env_ok (env k)" and "unat (WAL_currentLSN w) + length es < 2 ^ 64"
  shows "\<exists>h'. wal_hist v (write_entries L env es w) (h @ h') \<and> map payload h' = es"
  using assms(3-5)
proof (induction es arbitrary: w h env)
  case Nil
  then show ?case by (auto intro: exI [of _ "[]"])
next
  case (Cons pe es)
  from Cons.prems(1) have ok: "wal_ok v w" by (simp add: wal_hist_def)
  have room: "WAL_currentLSN w \<noteq> MaxUint64" using Cons.prems(3) unat_max by fastforce
  have "env_save_ok (env 0)" using Cons.prems(2) by (simp add: env_ok_def)
  from WriteEvent_reliable [OF L R ok this room, of "pendingEntry_walType pe" "pendingEntry_data pe"]
  obtain w1 where w1: "WriteEvent L (env 0) (pendingEntry_walType pe) (Inr (pendingEntry_data pe)) w =
      (w1, Inr (WAL_currentLSN w + 1))" by blast
  note h1 = write_hist [OF L Cons.prems(1) room w1]
  have "unat (WAL_currentLSN w1) = Suc (unat (WAL_currentLSN w))"
    using WriteEvent_ok [OF L ok room w1] room by (auto simp: unat_plus1)
  then have "unat (WAL_currentLSN w1) + length es < 2 ^ 64" using Cons.prems(3) by simp
  from Cons.IH [OF h1 _ this, of "\<lambda>k. env (Suc k)"] Cons.prems(2) obtain h'
    where "wal_hist v (write_entries L (\<lambda>k. env (Suc k)) es w1)
        ((h @ [new_entry (env 0) (pendingEntry_walType pe) (pendingEntry_data pe) w]) @ h')"
      "map payload h' = es" by blast
  with w1 show ?case
    by (intro exI [of _ "new_entry (env 0) (pendingEntry_walType pe) (pendingEntry_data pe) w # h'"])
      (simp only: write_entries_WriteEvent fst_conv append.simps append_assoc list.map payload_new_entry simp_thms)
qed

lemma write_node_hist:
  assumes L: "tidwall_log L v" and R: "reliable_log L v"
    and h: "wal_hist v w h" and env: "\<forall>k. env_ok (env k)"
    and room: "unat (WAL_currentLSN w) + length (node_data se) < 2 ^ 64"
  shows "\<exists>h'. wal_hist v (write_node L env se w) (h @ h') \<and> map payload h' = node_data se"
proof (cases se)
  case (kindData es)
  with write_entries_hist [OF L R h env] room obtain h' where
    h': "wal_hist v (write_entries L env es w) (h @ h')" "map payload h' = es" by auto
  then have "wal_ok v (write_entries L env es w)" by (simp add: wal_hist_def)
  from flushBuffer_reliable [OF L R this] env obtain w' where
    "flushBuffer L (env (length es)) (write_entries L env es w) = (w', Inr ())" by (auto simp: env_ok_def)
  with flush_hist [OF L h'(1) this] h' kindData show ?thesis by auto
next
  case kindCheckpoint
  from h obtain ns where "wal_ok v w" "markers_ok v w ns" by (auto simp: wal_hist_def)
  from CreateCheckpoint_reliable [OF L R this] env obtain w' where
    "CreateCheckpoint L (env 0) w = (w', Inr (WAL_currentLSN w))" by blast
  with checkpoint_hist [OF L h this] kindCheckpoint show ?thesis by (auto intro: exI [of _ "[]"])
qed

lemma hist_length: "wal_hist v w h \<Longrightarrow> unat (WAL_currentLSN w) = length h"
  by (auto simp: wal_hist_def simp del: upt_Suc dest: arg_cong [of _ _ length])

lemma writeToWAL_hist:
  assumes L: "tidwall_log L v" and R: "reliable_log L v"
    and "wal_hist v w h" and "\<forall>j k. env_ok (envs j k)"
    and "unat (WAL_currentLSN w) + length (stack_data ss) < 2 ^ 64"
  shows "\<exists>h'. wal_hist v (writeToWAL L envs ss w) (h @ h') \<and> map payload h' = stack_data ss"
  using assms(3-5)
proof (induction ss arbitrary: w h envs)
  case Nil
  then show ?case by (auto intro: exI [of _ "[]"])
next
  case (Cons se ss)
  have "\<forall>k. env_ok (envs 0 k)" "unat (WAL_currentLSN w) + length (node_data se) < 2 ^ 64"
    using Cons.prems by auto
  from write_node_hist [OF L R Cons.prems(1) this] obtain h1 where
    h1: "wal_hist v (write_node L (envs 0) se w) (h @ h1)" "map payload h1 = node_data se" by blast
  have "length h1 = length (node_data se)" using arg_cong [OF h1(2), of length] by simp
  then have "unat (WAL_currentLSN (write_node L (envs 0) se w)) + length (stack_data ss) < 2 ^ 64"
    using hist_length [OF h1(1)] hist_length [OF Cons.prems(1)] Cons.prems(3) by simp
  from Cons.IH [OF h1(1) _ this, of "\<lambda>k. envs (Suc k)"] Cons.prems(2) obtain h2 where
    "wal_hist v (writeToWAL L envs (se # ss) w) ((h @ h1) @ h2)" "map payload h2 = stack_data ss"
    by auto
  with h1(2) show ?case by (intro exI [of _ "h1 @ h2"]) simp
qed

section \<open>Invariant of the concurrent system\<close>

definition of_buf :: "'a \<Rightarrow> ('a \<times> pendingEntry) list \<Rightarrow> pendingEntry list" where
  "of_buf i xs = map snd (filter (\<lambda>x. fst x = i) xs)"

lemma of_buf_simps [simp]:
  "of_buf i [] = []" "of_buf i (x # xs) = (if fst x = i then [snd x] else []) @ of_buf i xs"
  "of_buf i (xs @ ys) = of_buf i xs @ of_buf i ys"
  "of_buf i (map (Pair j) es) = (if i = j then es else [])"
  by (auto simp: of_buf_def filter_map comp_def)

definition in_flight :: "'l async \<Rightarrow> nat \<Rightarrow> pendingEntry list" where
  "in_flight s i = stack_data (A_snap s i) @ stack_data (AsyncBuffer_stack (A_bufs s i))"

definition async_inv :: "('l \<Rightarrow> log_view) \<Rightarrow> WALEntry list \<Rightarrow> 'l async \<Rightarrow> bool" where
  "async_inv v h0 s \<longleftrightarrow>
     (\<exists>h. wal_hist v (A_wal s) (h0 @ h) \<and> map payload h = map snd (A_out s)) \<and>
     (\<forall>i. of_buf i (A_accepted s) = of_buf (Some i) (A_out s) @ in_flight s i) \<and>
     (\<forall>i. AsyncBuffer_closed (A_bufs s i) \<longrightarrow> AsyncBuffer_stack (A_bufs s i) = []) \<and>
     (\<forall>i. A_run s i \<noteq> Running \<longrightarrow> AsyncBuffer_closed (A_bufs s i)) \<and>
     (\<forall>i. A_run s i = Stopped \<longrightarrow> A_snap s i = [])"

lemma async_invD:
  assumes "async_inv v h0 s"
  shows inv_hist: "\<exists>h. wal_hist v (A_wal s) (h0 @ h) \<and> map payload h = map snd (A_out s)"
    and inv_fifo: "of_buf i (A_accepted s) = of_buf (Some i) (A_out s) @ in_flight s i"
    and inv_closed: "AsyncBuffer_closed (A_bufs s i) \<Longrightarrow> AsyncBuffer_stack (A_bufs s i) = []"
    and inv_run: "A_run s i \<noteq> Running \<Longrightarrow> AsyncBuffer_closed (A_bufs s i)"
    and inv_stopped: "A_run s i = Stopped \<Longrightarrow> A_snap s i = []"
  using assms by (simp_all add: async_inv_def)

lemma async_inv_step:
  assumes L: "tidwall_log L v" and R: "reliable_log L v" and inv: "async_inv v h0 s" and st: "async_step L s t"
  shows "async_inv v h0 t"
  using st
proof cases
  case (push_data i e b)
  then show ?thesis
    using inv pushData_True [OF push_data(3)] by (auto simp: async_inv_def in_flight_def)
next
  case (push_checkpoint i b)
  then show ?thesis
    using inv pushCheckpoint_data [OF push_checkpoint(3)] by (auto simp: async_inv_def in_flight_def)
next
  case (create i f)
  then show ?thesis using inv by (auto simp: async_inv_def in_flight_def)
next
  case (first_data i e b)
  then show ?thesis
    using inv pushData_True [OF first_data(3)] by (auto simp: async_inv_def in_flight_def)
next
  case (first_data_refused i e b)
  then show ?thesis
    using inv pushData_False [OF first_data_refused(3)] by (auto simp: async_inv_def in_flight_def)
next
  case (first_checkpoint i b r)
  then show ?thesis
    using inv pushCheckpoint_data [OF first_checkpoint(3)] by (auto simp: async_inv_def in_flight_def)
next
  case (tick i b sn)
  then show ?thesis using inv by (auto simp: async_inv_def in_flight_def swap_stack_def)
next
  case (node i se ss env)
  from inv_hist [OF inv] obtain h where h: "wal_hist v (A_wal s) (h0 @ h)" "map payload h = map snd (A_out s)"
    by blast
  from write_node_hist [OF L R h(1) node(5,6)] obtain h' where
    "wal_hist v (write_node L env se (A_wal s)) (h0 @ (h @ h'))" "map payload h' = node_data se" by auto
  with h(2) have "\<exists>h. wal_hist v (A_wal t) (h0 @ h) \<and> map payload h = map snd (A_out t)"
    by (intro exI [of _ "h @ h'"]) (simp add: node(1) comp_def)
  then show ?thesis using inv node by (auto simp: async_inv_def in_flight_def)
next
  case (close i b sn)
  then show ?thesis using inv by (auto simp: async_inv_def in_flight_def close_stack_def)
next
  case (unregister i)
  then show ?thesis using inv by (auto simp: async_inv_def in_flight_def)
next
  case (stop i)
  then show ?thesis using inv by (auto simp: async_inv_def in_flight_def)
next
  case (sync_write env ty d w' lsn)
  from inv_hist [OF inv] obtain h where h: "wal_hist v (A_wal s) (h0 @ h)" "map payload h = map snd (A_out s)"
    by blast
  from write_hist [OF L h(1) sync_write(3,2)] h(2)
  have "\<exists>h. wal_hist v (A_wal t) (h0 @ h) \<and> map payload h = map snd (A_out t)"
    by (intro exI [of _ "h @ [new_entry env ty d (A_wal s)]"])
      (simp add: sync_write(1) payload_def new_entry_def)
  then show ?thesis using inv sync_write(1) by (auto simp: async_inv_def in_flight_def)
qed

lemma async_inv_init: "wal_hist v w h0 \<Longrightarrow> async_inv v h0 (async_init w)"
  by (auto simp: async_inv_def async_init_def in_flight_def newAsyncBuffer_def intro: exI [of _ "[]"])

lemma async_inv_reach:
  assumes "tidwall_log L v" and "reliable_log L v" and "wal_hist v w h0"
    and "(async_step L)\<^sup>*\<^sup>* (async_init w) s"
  shows "async_inv v h0 s"
  using assms(4) by induction (simp_all add: async_inv_init assms(3) async_inv_step [OF assms(1,2)])

section \<open>Properties\<close>

text \<open>C3: Whatever the interleaving of writers, buffer goroutines and synchronous writes, what the
  log receives is numbered without gap in the order of the writes; each buffer passes on what it
  accepted in order, without loss or duplication, and a stopped buffer has passed on everything.\<close>

theorem async_fifo_no_loss:
  assumes "tidwall_log L v" and "reliable_log L v" and "wal_reach L v w h0"
    and "(async_step L)\<^sup>*\<^sup>* (async_init w) s"
  shows "(\<exists>h k. lsns (h0 @ h) = [1 ..< Suc (unat (WAL_currentLSN (A_wal s)))] \<and>
       all_entries v (A_wal s) = drop k (h0 @ h) \<and> map payload h = map snd (A_out s)) \<and>
    (\<forall>i. of_buf i (A_accepted s) = of_buf (Some i) (A_out s) @ in_flight s i) \<and>
    (\<forall>i. A_run s i = Stopped \<longrightarrow> of_buf i (A_accepted s) = of_buf (Some i) (A_out s))"
proof -
  have inv: "async_inv v h0 s" using async_inv_reach [OF assms(1,2) reach_hist [OF assms(1,3)] assms(4)] .
  have "in_flight s i = []" if "A_run s i = Stopped" for i
    using that inv_stopped [OF inv that] inv_closed [OF inv] inv_run [OF inv, of i] by (simp add: in_flight_def)
  moreover obtain h where h: "wal_hist v (A_wal s) (h0 @ h)" "map payload h = map snd (A_out s)"
    using inv_hist [OF inv] by blast
  moreover have "lsns (h0 @ h) = [1 ..< Suc (unat (WAL_currentLSN (A_wal s)))]"
    "\<exists>k. all_entries v (A_wal s) = drop k (h0 @ h)"
    using h(1) unfolding wal_hist_def by blast+
  ultimately show ?thesis using inv_fifo [OF inv] by (metis append_Nil2)
qed

definition demo_pe :: "string \<Rightarrow> pendingEntry" where
  "demo_pe x = \<lparr>pendingEntry_walType = PoTS, pendingEntry_data = JStr x\<rparr>"

lemma demo_hist: "wal_hist norm_log demo_wal []"
  by (rule reach_hist [OF tidwall_list_log])
    (rule wal_reach.r_fresh [where log = "(1, [])" and b = 1], rule norm_log_demo, rule NewWAL_demo)

lemma demo_write_room:
  "unat (WAL_currentLSN (write_node list_log (\<lambda>_. demo_env) (kindData [pe]) demo_wal)) = 1"
proof -
  have "unat (WAL_currentLSN demo_wal) + length (node_data (kindData [pe])) < 2 ^ 64"
    by (simp add: demo_wal_def)
  with write_node_hist [OF tidwall_list_log reliable_list_log demo_hist] env_ok_demo obtain h' where
    h': "wal_hist norm_log (write_node list_log (\<lambda>_. demo_env) (kindData [pe]) demo_wal) ([] @ h')"
    "map payload h' = [pe]" by (metis node_data.simps(1))
  from arg_cong [OF h'(2), of length] hist_length [OF h'(1)] show ?thesis by simp
qed

lemma one_push:
  "(async_step L)\<^sup>*\<^sup>* (async_init w) ((async_init w)\<lparr>A_slot := Some 0, A_next := 1,
     A_bufs := (\<lambda>_. newAsyncBuffer)(0 := fst (pushData e newAsyncBuffer)), A_accepted := [(0, e)]\<rparr>)"
proof -
  let ?s0 = "async_init w"
  let ?s1 = "?s0\<lparr>A_slot := Some 0, A_next := 1, A_first := (\<lambda>_. None)(0 := Some (FirstData e))\<rparr>"
  let ?s2 = "?s0\<lparr>A_slot := Some 0, A_next := 1,
     A_bufs := (\<lambda>_. newAsyncBuffer)(0 := fst (pushData e newAsyncBuffer)), A_accepted := [(0, e)]\<rparr>"
  have "async_step L ?s0 ?s1"
    using async_step.create [of ?s0 0 L "FirstData e"] by (simp add: async_init_def)
  moreover have "async_step L ?s1 ?s2"
    using async_step.first_data [of ?s1 0 e "fst (pushData e newAsyncBuffer)" L]
    by (simp add: async_init_def pushData_def newAsyncBuffer_def Let_def)
  ultimately show ?thesis by (rule converse_rtranclp_into_rtranclp [OF _ r_into_rtranclp])
qed

theorem async_fifo_no_loss_witness:
  "\<exists>s. (async_step list_log)\<^sup>*\<^sup>* (async_init demo_wal) s \<and> of_buf 0 (A_accepted s) = [demo_pe ''a''] \<and>
     of_buf 0 (A_accepted s) = of_buf (Some 0) (A_out s) @ in_flight s 0"
proof -
  let ?s = "(async_init demo_wal)\<lparr>A_slot := Some 0, A_next := 1,
     A_bufs := (\<lambda>_. newAsyncBuffer)(0 := fst (pushData (demo_pe ''a'') newAsyncBuffer)),
     A_accepted := [(0, demo_pe ''a'')]\<rparr>"
  have r0: "wal_reach list_log norm_log demo_wal []"
    by (rule wal_reach.r_fresh [where log = "(1, [])" and b = 1]) (rule norm_log_demo, rule NewWAL_demo)
  have "(async_step list_log)\<^sup>*\<^sup>* (async_init demo_wal) ?s" by (rule one_push)
  moreover have "of_buf 0 (A_accepted ?s) = of_buf (Some 0) (A_out ?s) @ in_flight ?s 0"
    using async_fifo_no_loss [OF tidwall_list_log reliable_list_log r0 calculation] by blast
  ultimately show ?thesis by (intro exI [of _ ?s]) simp
qed

text \<open>Across buffers the order of acceptance is not the order of the log: a closing buffer is
  unregistered before its snapshot is written, and an event accepted later by a fresh buffer can get
  the lower LSN.\<close>

theorem async_buffers_reorder:
  "\<exists>s a b. a \<noteq> b \<and> (async_step list_log)\<^sup>*\<^sup>* (async_init demo_wal) s \<and>
     A_accepted s = [(0, a), (1, b)] \<and> map snd (A_out s) = [b, a]"
proof -
  let ?a = "demo_pe ''a''" and ?b = "demo_pe ''b''"
  let ?s0 = "(async_init demo_wal)\<lparr>A_slot := Some 0, A_next := 1,
     A_bufs := (\<lambda>_. newAsyncBuffer)(0 := fst (pushData ?a newAsyncBuffer)), A_accepted := [(0, ?a)]\<rparr>"
  let ?cl = "\<lparr>AsyncBuffer_stack = [], AsyncBuffer_closed = True\<rparr>"
  let ?s1 = "?s0\<lparr>A_bufs := (A_bufs ?s0)(0 := ?cl), A_snap := (A_snap ?s0)(0 := [kindData [?a]]),
      A_run := (A_run ?s0)(0 := Closing)\<rparr>"
  let ?s2 = "?s1\<lparr>A_slot := None, A_run := (A_run ?s1)(0 := Draining)\<rparr>"
  let ?s3 = "?s2\<lparr>A_slot := Some 1, A_next := Suc (Suc 0), A_first := (A_first ?s2)(1 := Some (FirstData ?b))\<rparr>"
  let ?s4 = "?s3\<lparr>A_first := (A_first ?s3)(1 := None),
     A_bufs := (A_bufs ?s3)(1 := fst (pushData ?b newAsyncBuffer)), A_accepted := A_accepted ?s3 @ [(1, ?b)]\<rparr>"
  let ?s5 = "?s4\<lparr>A_bufs := (A_bufs ?s4)(1 := newAsyncBuffer), A_snap := (A_snap ?s4)(1 := [kindData [?b]])\<rparr>"
  let ?s6 = "?s5\<lparr>A_wal := write_node list_log (\<lambda>_. demo_env) (kindData [?b]) demo_wal,
     A_snap := (A_snap ?s5)(1 := []), A_out := [(Some 1, ?b)]\<rparr>"
  let ?s7 = "?s6\<lparr>A_wal := write_node list_log (\<lambda>_. demo_env) (kindData [?a]) (A_wal ?s6),
     A_snap := (A_snap ?s6)(0 := []), A_out := [(Some 1, ?b), (Some 0, ?a)]\<rparr>"
  note push = pushData_def newAsyncBuffer_def Let_def
  have "(async_step list_log)\<^sup>*\<^sup>* (async_init demo_wal) ?s0" by (rule one_push)
  also have "async_step list_log ?s0 ?s1"
    using async_step.close [of 0 ?s0 ?cl "[kindData [?a]]" list_log]
    by (simp add: async_init_def close_stack_def push)
  also have "async_step list_log ?s1 ?s2"
    using async_step.unregister [of ?s1 0 list_log] by (simp add: async_init_def)
  also have "async_step list_log ?s2 ?s3"
    using async_step.create [of ?s2 1 list_log "FirstData ?b"] by (simp add: async_init_def)
  also have "async_step list_log ?s3 ?s4"
    using async_step.first_data [of ?s3 1 ?b "fst (pushData ?b newAsyncBuffer)" list_log]
    by (simp add: async_init_def push)
  also have "async_step list_log ?s4 ?s5"
    using async_step.tick [of 1 ?s4 newAsyncBuffer "[kindData [?b]]" list_log]
    by (simp add: async_init_def swap_stack_def push)
  also have "async_step list_log ?s5 ?s6"
    using async_step.node [of 1 ?s5 "kindData [?b]" "[]" "\<lambda>_. demo_env" list_log] env_ok_demo
    by (simp add: async_init_def demo_wal_def [THEN arg_cong, of WAL_currentLSN])
  also have "async_step list_log ?s6 ?s7"
    using async_step.node [of 0 ?s6 "kindData [?a]" "[]" "\<lambda>_. demo_env" list_log] env_ok_demo
      demo_write_room [of ?b]
    by (simp add: async_init_def)
  finally have "(async_step list_log)\<^sup>*\<^sup>* (async_init demo_wal) ?s7" .
  moreover have "?a \<noteq> ?b" by (simp add: demo_pe_def)
  ultimately show ?thesis by (intro exI [of _ ?s7] exI [of _ ?a] exI [of _ ?b]) (simp add: async_init_def)
qed

text \<open>C10: An event can be lost although \<open>AddToBufferWAL\<close> reported success: when the buffer it has
  just created is drained before its first push, the refused push is not retried.\<close>

theorem async_first_push_lost:
  "\<exists>s e. (async_step list_log)\<^sup>*\<^sup>* (async_init demo_wal) s \<and> A_lost s = [e] \<and> A_accepted s = [] \<and>
     A_out s = [] \<and> (\<forall>i. in_flight s i = [] \<and> A_first s i = None) \<and> A_slot s = None"
proof -
  let ?e = "demo_pe ''a''" and ?cl = "\<lparr>AsyncBuffer_stack = [], AsyncBuffer_closed = True\<rparr>"
  let ?s0 = "async_init demo_wal"
  let ?s1 = "?s0\<lparr>A_slot := Some 0, A_next := 1, A_first := (\<lambda>_. None)(0 := Some (FirstData ?e))\<rparr>"
  let ?s2 = "?s1\<lparr>A_bufs := (A_bufs ?s1)(0 := ?cl), A_run := (A_run ?s1)(0 := Closing)\<rparr>"
  let ?s3 = "?s2\<lparr>A_slot := None, A_run := (A_run ?s2)(0 := Draining)\<rparr>"
  let ?s4 = "?s3\<lparr>A_first := (\<lambda>_. None), A_lost := [?e]\<rparr>"
  have "async_step list_log ?s0 ?s1"
    using async_step.create [of ?s0 0 list_log "FirstData ?e"] by (simp add: async_init_def)
  moreover have "async_step list_log ?s1 ?s2"
    using async_step.close [of 0 ?s1 ?cl "[]" list_log]
    by (simp add: async_init_def close_stack_def newAsyncBuffer_def fun_upd_idem)
  moreover have "async_step list_log ?s2 ?s3"
    using async_step.unregister [of ?s2 0 list_log] by (simp add: async_init_def)
  moreover have "async_step list_log ?s3 ?s4"
    using async_step.first_data_refused [of ?s3 0 ?e ?cl list_log]
    by (simp add: async_init_def pushData_def newAsyncBuffer_def fun_upd_idem)
  ultimately have "(async_step list_log)\<^sup>*\<^sup>* ?s0 ?s4"
    by (meson r_into_rtranclp rtranclp_trans)
  then show ?thesis
    by (intro exI [of _ ?s4] exI [of _ ?e]) (simp add: async_init_def in_flight_def newAsyncBuffer_def)
qed

end
