(* ===== verification/FS_WAL_Damage.thy ===== *)
theory FS_WAL_Damage
  imports FS_WAL_Live
begin

text \<open>
  The write-ahead log when calls fail. The first part covers every run: any calls, with any outcome, crashes between
  calls and in the middle of a flush. The second part follows a WAL whose numbering has a gap, as a failed serialisation leaves it: nothing
  written after the gap reaches the disk.
\<close>

text \<open>The documented behaviour of the segment log's errors: a refused call has changed nothing.\<close>

definition refusals_keep :: "'l log_ops \<Rightarrow> ('l \<Rightarrow> log_view) \<Rightarrow> bool" where
  "refusals_keep L v \<longleftrightarrow> (\<forall>l i d l'. op_write L l i d = (l', False) \<longrightarrow> v l' = v l) \<and>
     (\<forall>l i l'. op_truncate_front L l i = (l', False) \<longrightarrow> v l' = v l)"

section \<open>What a flush writes\<close>

text \<open>The entries the log accepts after the index \<open>n\<close>: those that continue the numbering.\<close>

fun fits :: "nat \<Rightarrow> WALEntry list \<Rightarrow> WALEntry list" where
  "fits n [] = []"
| "fits n (e # es) = (if unat (WALEntry_LSN e) = Suc n then e # fits (Suc n) es else [])"


lemma fits_all: "lsns es = [Suc n ..< Suc n + length es] \<Longrightarrow> fits n es = es"
  by (induction es arbitrary: n) (simp_all add: upt_conv_Cons del: upt_Suc)


lemma fits_snoc:
  "fits n (es @ [e]) = (if fits n es = es \<and> unat (WALEntry_LSN e) = Suc (n + length es) then es @ [e] else fits n es)"
  by (induction es arbitrary: n) auto

text \<open>Once part of the buffer is on disk, the rest of it no longer fits, because the whole buffer is tried again.\<close>

lemma fits_again: "0 < j \<Longrightarrow> j \<le> length (fits n es) \<Longrightarrow> fits (n + j) es = []"
  by (cases es) (auto split: if_splits)

lemma last_index_app: "1 \<le> fst l \<Longrightarrow> last_index (fst l, snd l @ ds) = last_index l + length ds"
  by (simp add: last_index_def)

lemma flush_loop_fits:
  assumes L: "tidwall_log L v" and K: "refusals_keep L v" and "flush_loop L log lf es = (log', lf', r)"
  shows "\<exists>j\<le>length (fits (last_index (v log)) es).
    v log' = (fst (v log), snd (v log) @ map marshal_WALEntry (take j (fits (last_index (v log)) es))) \<and>
    (r = None \<longrightarrow> fits (last_index (v log)) es = es \<and> j = length es)"
  using assms(3)
proof (induction es arbitrary: log lf)
  case (Cons e es)
  let ?n = "last_index (v log)"
  obtain log1 ok where w: "op_write L log (WALEntry_LSN e) (marshal_WALEntry e) = (log1, ok)" by fastforce
  show ?case
  proof (cases ok)
    case False
    with w Cons.prems have "log' = log1" "r \<noteq> None" by auto
    moreover from K w False have "v log1 = v log" by (auto simp: refusals_keep_def)
    ultimately show ?thesis by (intro exI [of _ 0]) simp
  next
    case True
    with log_write_True [OF L] w have lsn: "unat (WALEntry_LSN e) = Suc ?n"
      and v1: "v log1 = (fst (v log), snd (v log) @ [marshal_WALEntry e])" by auto
    then have n1: "last_index (v log1) = Suc ?n" using log_first_pos [OF L, of log] by (simp add: last_index_def)
    from Cons.IH [of log1] Cons.prems w True obtain j where j: "j \<le> length (fits (Suc ?n) es)"
      "v log' = (fst (v log1), snd (v log1) @ map marshal_WALEntry (take j (fits (Suc ?n) es)))"
      "r = None \<longrightarrow> fits (Suc ?n) es = es \<and> j = length es" unfolding n1 by auto
    then show ?thesis using lsn v1 by (intro exI [of _ "Suc j"]) simp
  qed
qed simp

text \<open>\<open>wrote v j w w'\<close>: the first \<open>j\<close> fitting entries went to disk; only when that was the whole buffer is it cleared.\<close>

definition wrote :: "('l \<Rightarrow> log_view) \<Rightarrow> nat \<Rightarrow> 'l WAL \<Rightarrow> 'l WAL \<Rightarrow> bool" where
  "wrote v j w w' \<longleftrightarrow> (let l = v (WAL_Log w); es = fits (last_index l) (WAL_Buffer w) in
     j \<le> length es \<and> v (WAL_Log w') = (fst l, snd l @ map marshal_WALEntry (take j es)) \<and>
     WAL_currentLSN w' = WAL_currentLSN w \<and>
     (WAL_Buffer w' = WAL_Buffer w \<or> WAL_Buffer w' = [] \<and> es = WAL_Buffer w \<and> j = length es) \<and>
     (WAL_metadataFile w' = WAL_metadataFile w \<or> (\<exists>m. WAL_metadataFile w' = Some (marshal_LSNMetadata m))))"

lemma flushBuffer_wrote:
  assumes "tidwall_log L v" "refusals_keep L v" "flushBuffer L env w = (w', res)"
  shows "\<exists>j. wrote v j w w'"
proof (cases "WAL_Buffer w = []")
  case True
  with assms(3) show ?thesis by (intro exI [of _ 0]) (auto simp: flushBuffer_def wrote_def Let_def)
next
  case False
  obtain log' lf r where fl: "flush_loop L (WAL_Log w) (WAL_lastFlushedLSN w) (WAL_Buffer w) = (log', lf, r)"
    by (metis surj_pair)
  from flush_loop_fits [OF assms(1,2) fl] obtain j where "j \<le> length (fits (last_index (v (WAL_Log w))) (WAL_Buffer w))"
    "v log' = (fst (v (WAL_Log w)), snd (v (WAL_Log w)) @ map marshal_WALEntry (take j (fits (last_index (v (WAL_Log w))) (WAL_Buffer w))))"
    "r = None \<longrightarrow> fits (last_index (v (WAL_Log w))) (WAL_Buffer w) = WAL_Buffer w \<and> j = length (WAL_Buffer w)" by blast
  with False assms(3) fl show ?thesis
    by (intro exI [of _ j]) (auto simp: flushBuffer_def wrote_def saveLSN_def Let_def split: option.splits if_splits)
qed

lemma disk_entries_app:
  "v (WAL_Log w') = (f, snd (v (WAL_Log w)) @ map marshal_WALEntry es) \<Longrightarrow> disk_entries v w' = disk_entries v w @ es"
  by (simp add: disk_entries_def comp_def)

lemma wrote_disk:
  "wrote v j w w' \<Longrightarrow> disk_entries v w' = disk_entries v w @ take j (fits (last_index (v (WAL_Log w))) (WAL_Buffer w))"
  by (auto simp: wrote_def Let_def intro: disk_entries_app)

text \<open>Truncation removes entries from the front, or nothing.\<close>

lemma truncate_drop:
  assumes "tidwall_log L v" "refusals_keep L v" "truncateBeforeUnlocked L n w = (w', res)"
  shows "(v (WAL_Log w') = v (WAL_Log w) \<or> (fst (v (WAL_Log w)) \<le> unat n \<and> unat n \<le> last_index (v (WAL_Log w)) \<and>
      v (WAL_Log w') = (unat n, drop (unat n - fst (v (WAL_Log w))) (snd (v (WAL_Log w)))))) \<and>
    w' = w\<lparr>WAL_Log := WAL_Log w'\<rparr>"
proof -
  obtain l' b where t: "op_truncate_front L (WAL_Log w) n = (l', b)" by fastforce
  from log_truncate_True [OF assms(1)] assms(2) t have "if b then fst (v (WAL_Log w)) \<le> unat n \<and> unat n \<le> last_index (v (WAL_Log w)) \<and>
      v l' = (unat n, drop (unat n - fst (v (WAL_Log w))) (snd (v (WAL_Log w)))) else v l' = v (WAL_Log w)"
    by (auto simp: refusals_keep_def)
  with assms(3) t show ?thesis
    by (auto simp: truncateBeforeUnlocked_def split: if_splits option.splits bool.splits)
qed

text \<open>A view cut at the front: nothing, or everything below an index it still holds.\<close>

definition cut_front :: "log_view \<Rightarrow> log_view \<Rightarrow> bool" where
  "cut_front l l' \<longleftrightarrow> l' = l \<or> (\<exists>i. fst l \<le> i \<and> i \<le> last_index l \<and> l' = (i, drop (i - fst l) (snd l)))"

lemma checkpoint_wrote:
  assumes "tidwall_log L v" "refusals_keep L v" "CreateCheckpoint L env w = (w', res)"
  obtains j w1 where "wrote v j w w1" "cut_front (v (WAL_Log w1)) (v (WAL_Log w'))"
    "WAL_Buffer w' = WAL_Buffer w1" "WAL_currentLSN w' = WAL_currentLSN w1" "WAL_metadataFile w' = WAL_metadataFile w1"
proof -
  obtain w1 r where fl: "flushBuffer L env w = (w1, r)" by fastforce
  from flushBuffer_wrote [OF assms(1,2) fl] obtain j where j: "wrote v j w w1" by blast
  have t: "cut_front (v (WAL_Log u)) (v (WAL_Log u')) \<and> WAL_Buffer u' = WAL_Buffer u \<and> WAL_currentLSN u' = WAL_currentLSN u \<and>
      WAL_metadataFile u' = WAL_metadataFile u" if "truncateBeforeUnlocked L n u = (u', x)" for n u u' x
  proof -
    have e: "WAL_Buffer u' = WAL_Buffer (u\<lparr>WAL_Log := WAL_Log u'\<rparr>)" "WAL_currentLSN u' = WAL_currentLSN (u\<lparr>WAL_Log := WAL_Log u'\<rparr>)"
      "WAL_metadataFile u' = WAL_metadataFile (u\<lparr>WAL_Log := WAL_Log u'\<rparr>)"
      using truncate_drop [OF assms(1,2) that] by metis+
    then have "WAL_Buffer u' = WAL_Buffer u" "WAL_currentLSN u' = WAL_currentLSN u" "WAL_metadataFile u' = WAL_metadataFile u" by simp_all
    moreover have "cut_front (v (WAL_Log u)) (v (WAL_Log u'))"
      using truncate_drop [OF assms(1,2) that] unfolding cut_front_def by blast
    ultimately show ?thesis by blast
  qed
  have id: "cut_front l l" for l by (simp add: cut_front_def)
  show thesis
  proof (cases "r = Inr () \<and> env_marker_ok env \<and> env_readdir_ok env")
    case False
    with assms(3) fl show thesis
      by (intro that [OF j]) (auto simp: CreateCheckpoint_def id Let_def split: sum.splits if_splits)
  next
    case True
    let ?w2 = "w1\<lparr>WAL_checkpointDir := write_name (marker_name (WAL_lastFlushedLSN w1)) (WAL_checkpointDir w1)\<rparr>"
    let ?files = "filter is_marker (WAL_checkpointDir ?w2)"
    show thesis
    proof (cases "length ?files > MaxSnapshotLimit")
      case False
      with True assms(3) fl show thesis by (intro that [OF j]) (auto simp: CreateCheckpoint_def id Let_def)
    next
      case long: True
      obtain w3 r3 where tr: "truncateBeforeUnlocked L (scan_marker (hd ?files)) ?w2 = (w3, r3)" by fastforce
      have "WAL_Log w' = WAL_Log w3" "WAL_Buffer w' = WAL_Buffer w3" "WAL_currentLSN w' = WAL_currentLSN w3"
        "WAL_metadataFile w' = WAL_metadataFile w3"
        using True long assms(3) fl tr by (auto simp: CreateCheckpoint_def Let_def split: sum.splits if_splits)
      with t [OF tr] show thesis by (intro that [OF j]) auto
    qed
  qed
qed

section \<open>Every run\<close>








text \<open>What one call does: at most one flush of the buffer, extended by a new entry when it is a write, and a cut at a checkpoint.\<close>

lemma do_call_cases:
  assumes "tidwall_log L v" "refusals_keep L v"
  obtains (skip) "do_call L c w = w"
    | (gap) ty e env where "c = CallWrite ty (Inl e) env" "do_call L c w = w\<lparr>WAL_currentLSN := WAL_currentLSN w + 1\<rparr>"
    | (buffer) ty d env where "c = CallWrite ty (Inr d) env" "do_call L c w = buffered env ty d w"
    | (written) ty d env j where "c = CallWrite ty (Inr d) env" "wrote v j (buffered env ty d w) (do_call L c w)"
    | (flush) env j where "c = CallFlush env" "wrote v j w (do_call L c w)"
    | (checkpoint) env j w1 where "c = CallCheckpoint env" "wrote v j w w1" "cut_front (v (WAL_Log w1)) (v (WAL_Log (do_call L c w)))"
        "WAL_Buffer (do_call L c w) = WAL_Buffer w1" "WAL_currentLSN (do_call L c w) = WAL_currentLSN w1"
        "WAL_metadataFile (do_call L c w) = WAL_metadataFile w1"
proof (cases c)
  case (CallWrite ty ser env)
  show thesis
  proof (cases ser)
    case (Inl e)
    with CallWrite gap show thesis by simp
  next
    case (Inr d)
    obtain w1 res where fl: "flushBuffer L env (buffered env ty d w) = (w1, res)" by fastforce
    from flushBuffer_wrote [OF assms fl] obtain j where j: "wrote v j (buffered env ty d w) w1" by blast
    show thesis
    proof (cases "int (Suc (length (WAL_Buffer w))) \<ge> WAL_BatchSize w")
      case True
      with CallWrite Inr fl have "do_call L c w = w1" by (simp add: WriteEvent_Inr split: sum.splits)
      with CallWrite Inr j show thesis by (intro written) simp_all
    next
      case False
      with CallWrite Inr show thesis by (intro buffer) (simp_all add: WriteEvent_Inr)
    qed
  qed
next
  case (CallFlush env)
  obtain w1 res where fl: "flushBuffer L env w = (w1, res)" by fastforce
  from flushBuffer_wrote [OF assms fl] CallFlush fl flush show thesis by (auto simp: Flush_def)
next
  case (CallCheckpoint env)
  obtain w' res where c: "CreateCheckpoint L env w = (w', res)" by fastforce
  from checkpoint_wrote [OF assms c] obtain j w1 where "wrote v j w w1" "cut_front (v (WAL_Log w1)) (v (WAL_Log w'))"
    "WAL_Buffer w' = WAL_Buffer w1" "WAL_currentLSN w' = WAL_currentLSN w1" "WAL_metadataFile w' = WAL_metadataFile w1" .
  with CallCheckpoint c show thesis by (intro checkpoint [of env j w1]) simp_all
qed





lemma cut_disk:
  assumes "cut_front (v (WAL_Log w)) (v (WAL_Log w'))"
  shows "\<exists>k. disk_entries v w' = drop k (disk_entries v w)"
proof -
  from assms obtain k where "snd (v (WAL_Log w')) = drop k (snd (v (WAL_Log w)))"
    unfolding cut_front_def by (metis drop0 snd_conv)
  then show ?thesis by (auto simp: disk_entries_def drop_map)
qed



lemma refusals_list_log: "refusals_keep list_log norm_log"
  by (auto simp: refusals_keep_def list_log_def Let_def split: if_splits)


section \<open>A gap in the numbering\<close>

text \<open>Of what is on disk and in the buffer only \<open>S\<close> is or can become durable: after the entries that still fit, the next
  LSN is already too large.\<close>

definition damaged :: "('l \<Rightarrow> log_view) \<Rightarrow> WALEntry set \<Rightarrow> 'l WAL \<Rightarrow> bool" where
  "damaged v S w \<longleftrightarrow> (let n = last_index (v (WAL_Log w)); es = fits n (WAL_Buffer w) in
     n + length es < unat (WAL_currentLSN w) \<and> set (disk_entries v w) \<subseteq> S \<and> set es \<subseteq> S)"

lemma damaged_wrote:
  assumes L: "tidwall_log L v" and d: "damaged v S w" and w: "wrote v j w w'"
  shows "damaged v S w'"
proof -
  let ?n = "last_index (v (WAL_Log w))"
  let ?es = "fits ?n (WAL_Buffer w)"
  from w have j: "j \<le> length ?es" "v (WAL_Log w') = (fst (v (WAL_Log w)), snd (v (WAL_Log w)) @ map marshal_WALEntry (take j ?es))"
    "WAL_currentLSN w' = WAL_currentLSN w"
    "WAL_Buffer w' = WAL_Buffer w \<or> WAL_Buffer w' = []" by (auto simp: wrote_def Let_def)
  have n: "last_index (v (WAL_Log w')) = ?n + j"
    using last_index_app [OF log_first_pos [OF L], of "WAL_Log w"] j(1,2) by simp
  have "fits (?n + j) (WAL_Buffer w') = [] \<or> j = 0 \<and> WAL_Buffer w' = WAL_Buffer w"
    using j(1,4) fits_again [of j ?n "WAL_Buffer w"] by (cases "j = 0") auto
  moreover have "set (take j ?es) \<subseteq> set ?es" by (rule set_take_subset)
  ultimately show ?thesis using d j(1,3) wrote_disk [OF w] by (auto simp: damaged_def n Let_def)
qed

lemma damaged_cut:
  assumes "damaged v S w1" "cut_front (v (WAL_Log w1)) (v (WAL_Log w'))" "WAL_Buffer w' = WAL_Buffer w1" "WAL_currentLSN w' = WAL_currentLSN w1"
  shows "damaged v S w'"
proof -
  have "last_index (v (WAL_Log w')) = last_index (v (WAL_Log w1))" using assms(2) by (auto simp: cut_front_def last_index_def)
  moreover obtain k where "disk_entries v w' = drop k (disk_entries v w1)" using cut_disk [OF assms(2)] by blast
  ultimately show ?thesis using assms(1,3,4) set_drop_subset by (fastforce simp: damaged_def Let_def)
qed

lemma damaged_buffered:
  assumes "damaged v S w" "unat (WAL_currentLSN w) + 1 < 2 ^ 64"
  shows "damaged v S (buffered env ty d w)"
proof -
  have "unat (WAL_currentLSN w + 1) = unat (WAL_currentLSN w) + 1" using assms(2) by (simp add: unat_word_ariths)
  with assms(1) show ?thesis
    by (auto simp: damaged_def fits_snoc new_entry_def disk_entries_def Let_def)
qed

lemma damaged_call:
  assumes L: "tidwall_log L v" and K: "refusals_keep L v" and d: "damaged v S w" and room: "unat (WAL_currentLSN w) + 1 < 2 ^ 64"
  shows "damaged v S (do_call L c w) \<and> unat (WAL_currentLSN (do_call L c w)) \<le> unat (WAL_currentLSN w) + 1"
proof -
  have plus: "unat (WAL_currentLSN w + 1) = unat (WAL_currentLSN w) + 1" using room by (simp add: unat_word_ariths)
  have cur: "WAL_currentLSN w' = WAL_currentLSN u" if "wrote v j u w'" for j u w' using that by (simp add: wrote_def Let_def)
  note b = damaged_buffered [OF d room]
  from L K show ?thesis
  proof (cases rule: do_call_cases [where c = c and w = w])
    case (gap ty e env)
    with d plus show ?thesis by (auto simp: damaged_def disk_entries_def Let_def)
  next
    case (written ty d env j)
    with damaged_wrote [OF L b written(2)] cur [OF written(2)] plus show ?thesis by simp
  next
    case (flush env j)
    with damaged_wrote [OF L d flush(2)] cur [OF flush(2)] show ?thesis by simp
  next
    case (checkpoint env j w1)
    with damaged_cut [OF damaged_wrote [OF L d checkpoint(2)] checkpoint(3-5)] cur [OF checkpoint(2)] show ?thesis by simp
  qed (use d b plus in simp_all)
qed

lemma damaged_calls:
  assumes L: "tidwall_log L v" and K: "refusals_keep L v"
  shows "damaged v S w \<Longrightarrow> unat (WAL_currentLSN w) + length cs < 2 ^ 64 \<Longrightarrow> damaged v S (fold (do_call L) cs w)"
proof (induction cs arbitrary: w)
  case (Cons c cs)
  have "damaged v S (do_call L c w) \<and> unat (WAL_currentLSN (do_call L c w)) \<le> unat (WAL_currentLSN w) + 1"
    using Cons.prems(2) by (intro damaged_call [OF L K Cons.prems(1)]) simp
  with Cons.prems(2) Cons.IH [of "do_call L c w"] show ?case by simp
qed simp

text \<open>C8: When an event fails to serialise, its LSN is already spent. Whatever calls follow, no event written after it ever reaches the
  disk, which holds only entries that were written before; and every flush that has such an event to write fails.\<close>

theorem serialize_failure_blocks_wal:
  assumes "tidwall_log L v" and "refusals_keep L v" and "wal_ok v w" and "unat (WAL_currentLSN w) + 1 + length cs < 2 ^ 64"
    and "w' = fold (do_call L) cs (fst (WriteEvent L env ty (Inl e) w))"
  shows "set (disk_entries v w') \<subseteq> set (all_entries v w) \<and>
    (\<not> set (WAL_Buffer w') \<subseteq> set (all_entries v w) \<longrightarrow> (\<exists>n. snd (Flush L env' w') = Inl (LogWriteFailed n)))"
proof -
  let ?S = "set (all_entries v w)" and ?w1 = "w\<lparr>WAL_currentLSN := WAL_currentLSN w + 1\<rparr>"
  have plus: "unat (WAL_currentLSN w + 1) = unat (WAL_currentLSN w) + 1" using assms(4) by (simp add: unat_word_ariths)
  let ?n = "unat (WAL_lastFlushedLSN w)"
  have "?n \<le> unat (WAL_currentLSN w)" using wal_ok_le [OF assms(3)] by (simp add: word_le_nat_alt)
  moreover have len: "length (WAL_Buffer w) = unat (WAL_currentLSN w) - ?n"
    using arg_cong [OF wal_ok_buffer [OF assms(3)], of length] by (simp del: upt_Suc)
  ultimately have n: "lsns (WAL_Buffer w) = [Suc ?n ..< Suc ?n + length (WAL_Buffer w)]" "?n + length (WAL_Buffer w) = unat (WAL_currentLSN w)"
    using wal_ok_buffer [OF assms(3)] by (simp_all del: upt_Suc)
  from fits_all [OF n(1)] have "damaged v ?S ?w1"
    using n(2) plus wal_ok_last [OF assms(3)] by (simp add: damaged_def disk_entries_def all_entries_def Let_def)
  from damaged_calls [OF assms(1,2) this, of cs] assms(4,5) plus have d: "damaged v ?S w'" by simp
  have "\<exists>n. snd (Flush L env' w') = Inl (LogWriteFailed n)" if b: "\<not> set (WAL_Buffer w') \<subseteq> ?S"
  proof -
    obtain log' lf r where fl: "flush_loop L (WAL_Log w') (WAL_lastFlushedLSN w') (WAL_Buffer w') = (log', lf, r)"
      by (metis surj_pair)
    have "fits (last_index (v (WAL_Log w'))) (WAL_Buffer w') \<noteq> WAL_Buffer w'" using b d by (auto simp: damaged_def Let_def)
    with flush_loop_fits [OF assms(1,2) fl] obtain n where "r = Some n" by auto
    moreover from b have "WAL_Buffer w' \<noteq> []" by auto
    ultimately show ?thesis using fl by (simp add: Flush_def flushBuffer_def)
  qed
  with d show ?thesis by (simp add: damaged_def Let_def)
qed

theorem serialize_failure_blocks_wal_witness:
  "\<exists>w'. w' = fold (do_call list_log) [CallWrite PoTS (Inr (JStr ''a'')) demo_env] (fst (WriteEvent list_log demo_env PoTS (Inl SerializeFailed) demo_wal)) \<and>
     disk_entries norm_log w' = [] \<and> (\<exists>n. snd (Flush list_log demo_env w') = Inl (LogWriteFailed n))"
proof -
  let ?w = "fold (do_call list_log) [CallWrite PoTS (Inr (JStr ''a'')) demo_env] (fst (WriteEvent list_log demo_env PoTS (Inl SerializeFailed) demo_wal))"
  have r: "unat (WAL_currentLSN demo_wal) + 1 + length [CallWrite PoTS (Inr (JStr ''a'')) demo_env] < 2 ^ 64" by (simp add: demo_wal_def)
  have e: "all_entries norm_log demo_wal = []"
    by (simp add: all_entries_def disk_entries_def demo_wal_def norm_log_demo [simplified])
  have "WAL_Buffer ?w \<noteq> []"
    by (simp add: WriteEvent_Inr demo_wal_def buffered_def flushBuffer_def new_entry_def list_log_def norm_log_demo [simplified] last_index_def Let_def)
  with serialize_failure_blocks_wal [OF tidwall_list_log refusals_list_log wal_ok_demo r refl, of demo_env] e show ?thesis by simp
qed

end
