(* ===== verification/FS_LRU.thy ===== *)
theory FS_LRU
  imports FS_Prelude
begin

text \<open>
  \<open>core/reconsillation/LRUCache\<close>: the block header cache, a hash map into a doubly linked list. The
  list nodes live on an explicit heap because the code links and unlinks them through pointers; an
  address is a natural number and \<open>nil\<close> is \<open>None\<close>. An operation returns \<open>None\<close> when the Go code
  would panic on a nil pointer or a nil map, or would not return. The mutex makes every exported
  method one atomic step.
\<close>

section \<open>State\<close>

type_synonym addr = nat

record 'h entry =
  entry_key :: u64
  entry_value :: 'h
  entry_next :: "addr option"
  entry_prev :: "addr option"

type_synonym 'h heap = "addr \<rightharpoonup> 'h entry"

record 'h lru_cache =
  lru_head :: "addr option"
  lru_tail :: "addr option"
  lru_total_capacity :: int
  lru_current_capacity :: int
  lru_cache_map :: "(u64 \<rightharpoonup> addr) option"
  lru_heap :: "'h heap"
  lru_free :: addr

definition NewLRUCache :: "int \<Rightarrow> 'h lru_cache" where
  "NewLRUCache capacity = \<lparr>lru_head = None, lru_tail = None, lru_total_capacity = capacity,
     lru_current_capacity = 0, lru_cache_map = Some Map.empty, lru_heap = Map.empty, lru_free = 0\<rparr>"

section \<open>The linked list\<close>

text \<open>Field assignments through a pointer; a nil pointer panics.\<close>

definition set_next :: "addr option \<Rightarrow> addr option \<Rightarrow> 'h lru_cache \<Rightarrow> 'h lru_cache option" where
  "set_next p n l = (case p of None \<Rightarrow> None | Some a \<Rightarrow> (case lru_heap l a of None \<Rightarrow> None
     | Some e \<Rightarrow> Some (l\<lparr>lru_heap := (lru_heap l)(a \<mapsto> e\<lparr>entry_next := n\<rparr>)\<rparr>)))"

definition set_prev :: "addr option \<Rightarrow> addr option \<Rightarrow> 'h lru_cache \<Rightarrow> 'h lru_cache option" where
  "set_prev p n l = (case p of None \<Rightarrow> None | Some a \<Rightarrow> (case lru_heap l a of None \<Rightarrow> None
     | Some e \<Rightarrow> Some (l\<lparr>lru_heap := (lru_heap l)(a \<mapsto> e\<lparr>entry_prev := n\<rparr>)\<rparr>)))"

definition newnode :: "u64 \<Rightarrow> 'h \<Rightarrow> 'h lru_cache \<Rightarrow> 'h lru_cache \<times> addr" where
  "newnode key value l = (l\<lparr>lru_heap := (lru_heap l)(lru_free l \<mapsto>
       \<lparr>entry_key = key, entry_value = value, entry_next = None, entry_prev = None\<rparr>),
     lru_free := Suc (lru_free l)\<rparr>, lru_free l)"

definition insertIntoLinkedList :: "u64 \<Rightarrow> 'h \<Rightarrow> 'h lru_cache \<Rightarrow> ('h lru_cache \<times> addr) option" where
  "insertIntoLinkedList key value l0 =
     (case newnode key value l0 of (l, node) \<Rightarrow>
      if lru_head l = None then Some (l\<lparr>lru_head := Some node, lru_tail := Some node\<rparr>, node)
      else (case set_prev (lru_head l) (Some node) l of None \<Rightarrow> None
        | Some l1 \<Rightarrow> (case set_next (Some node) (lru_head l1) l1 of None \<Rightarrow> None
           | Some l2 \<Rightarrow> Some (l2\<lparr>lru_head := Some node\<rparr>, node))))"

text \<open>The unlinking of the node \<open>current\<close> found by \<open>removeFromLinkedList\<close>.\<close>

definition unlink :: "addr \<Rightarrow> 'h lru_cache \<Rightarrow> 'h lru_cache option" where
  "unlink current l = (case lru_heap l current of None \<Rightarrow> None | Some c \<Rightarrow>
     (case (if entry_prev c \<noteq> None then set_next (entry_prev c) (entry_next c) l
            else Some (l\<lparr>lru_head := entry_next c\<rparr>)) of None \<Rightarrow> None
      | Some l1 \<Rightarrow>
        (case (if entry_next c \<noteq> None then set_prev (entry_next c) (entry_prev c) l1
               else Some (l1\<lparr>lru_tail := entry_prev c\<rparr>)) of None \<Rightarrow> None
         | Some l2 \<Rightarrow> (case set_prev (Some current) None l2 of None \<Rightarrow> None
            | Some l3 \<Rightarrow> set_next (Some current) None l3))))"

text \<open>The search loop: the node with the key, if any; \<open>None\<close> when the links are cyclic.\<close>

partial_function (option) find_node :: "'h heap \<Rightarrow> u64 \<Rightarrow> addr option \<Rightarrow> addr option option" where
  "find_node h key current = (case current of None \<Rightarrow> Some None
     | Some a \<Rightarrow> (case h a of None \<Rightarrow> None
        | Some e \<Rightarrow> if entry_key e = key then Some (Some a) else find_node h key (entry_next e)))"

definition removeFromLinkedList :: "u64 \<Rightarrow> 'h lru_cache \<Rightarrow> ('h lru_cache \<times> addr option) option" where
  "removeFromLinkedList key l = (case find_node (lru_heap l) key (lru_head l) of None \<Rightarrow> None
     | Some None \<Rightarrow> Some (l, None)
     | Some (Some a) \<Rightarrow> (case unlink a l of None \<Rightarrow> None | Some l' \<Rightarrow> Some (l', Some a)))"

text \<open>An assignment to a nil map panics.\<close>

definition map_put :: "u64 \<Rightarrow> addr \<Rightarrow> 'h lru_cache \<Rightarrow> 'h lru_cache option" where
  "map_put k a l = (case lru_cache_map l of None \<Rightarrow> None
     | Some c \<Rightarrow> Some (l\<lparr>lru_cache_map := Some (c(k \<mapsto> a))\<rparr>))"

definition map_get :: "u64 \<Rightarrow> 'h lru_cache \<Rightarrow> addr option" where
  "map_get k l = (case lru_cache_map l of None \<Rightarrow> None | Some c \<Rightarrow> c k)"

definition map_delete :: "u64 \<Rightarrow> 'h lru_cache \<Rightarrow> 'h lru_cache" where
  "map_delete k l = l\<lparr>lru_cache_map := map_option (\<lambda>c. c(k := None)) (lru_cache_map l)\<rparr>"

definition moveToHead :: "u64 \<Rightarrow> 'h lru_cache \<Rightarrow> 'h lru_cache option" where
  "moveToHead key l = (case removeFromLinkedList key l of None \<Rightarrow> None
     | Some (l1, None) \<Rightarrow> Some l1
     | Some (l1, Some node) \<Rightarrow> (case lru_heap l1 node of None \<Rightarrow> None
        | Some e \<Rightarrow> (case insertIntoLinkedList key (entry_value e) l1 of None \<Rightarrow> None
           | Some (l2, n) \<Rightarrow> map_put key n l2)))"

definition removeTail :: "'h lru_cache \<Rightarrow> ('h lru_cache \<times> addr option) option" where
  "removeTail l = (case lru_tail l of None \<Rightarrow> Some (l, None)
     | Some node \<Rightarrow>
        (case (if lru_head l = lru_tail l then Some (l\<lparr>lru_head := None, lru_tail := None\<rparr>)
               else (case lru_heap l node of None \<Rightarrow> None
                 | Some e \<Rightarrow> let l1 = l\<lparr>lru_tail := entry_prev e\<rparr> in set_next (lru_tail l1) None l1)) of
           None \<Rightarrow> None
         | Some l2 \<Rightarrow> (case set_prev (Some node) None l2 of None \<Rightarrow> None
            | Some l3 \<Rightarrow> Some (l3, Some node))))"

section \<open>The cache\<close>

definition Get :: "u64 \<Rightarrow> 'h lru_cache \<Rightarrow> ('h lru_cache \<times> 'h option) option" where
  "Get key l = (case map_get key l of None \<Rightarrow> Some (l, None)
     | Some value \<Rightarrow> (case moveToHead key l of None \<Rightarrow> None
        | Some l' \<Rightarrow> (case lru_heap l' value of None \<Rightarrow> None
           | Some e \<Rightarrow> Some (l', Some (entry_value e)))))"

text \<open>The two conditional blocks of \<open>Put\<close>: an existing node is unlinked, a full cache evicts its tail.\<close>

definition drop_existing :: "u64 \<Rightarrow> 'h lru_cache \<Rightarrow> 'h lru_cache option" where
  "drop_existing key l =
     (if map_get key l \<noteq> None
      then (case removeFromLinkedList key l of None \<Rightarrow> None
        | Some (l1, _) \<Rightarrow> Some (l1\<lparr>lru_current_capacity := lru_current_capacity l1 - 1\<rparr>))
      else Some l)"

definition evict_if_full :: "'h lru_cache \<Rightarrow> 'h lru_cache option" where
  "evict_if_full l =
     (if lru_current_capacity l \<ge> lru_total_capacity l
      then (case removeTail l of None \<Rightarrow> None
        | Some (l2, None) \<Rightarrow> Some l2
        | Some (l2, Some a) \<Rightarrow> (case lru_heap l2 a of None \<Rightarrow> None
           | Some e \<Rightarrow> Some ((map_delete (entry_key e) l2)\<lparr>lru_current_capacity :=
                          lru_current_capacity l2 - 1\<rparr>)))
      else Some l)"

definition Put :: "u64 \<Rightarrow> 'h \<Rightarrow> 'h lru_cache \<Rightarrow> 'h lru_cache option" where
  "Put key value l =
     (case drop_existing key l of None \<Rightarrow> None
      | Some l1 \<Rightarrow> (case evict_if_full l1 of None \<Rightarrow> None
         | Some l2 \<Rightarrow>
           (case insertIntoLinkedList key value (l2\<lparr>lru_current_capacity := lru_current_capacity l2 + 1\<rparr>) of
              None \<Rightarrow> None
            | Some (l3, n) \<Rightarrow> map_put key n l3)))"

definition Remove :: "u64 \<Rightarrow> 'h lru_cache \<Rightarrow> 'h lru_cache option" where
  "Remove key l = (case map_get key l of None \<Rightarrow> Some l
     | Some _ \<Rightarrow>
        (case removeFromLinkedList key (l\<lparr>lru_current_capacity := lru_current_capacity l - 1\<rparr>) of
           None \<Rightarrow> None
         | Some (l1, _) \<Rightarrow> Some (map_delete key l1)))"

definition CapacityLeft :: "'h lru_cache \<Rightarrow> int" where
  "CapacityLeft l = lru_total_capacity l - lru_current_capacity l"

text \<open>\<open>Len\<close> counts the keys of the map, \<open>Keys\<close> returns them in some order.\<close>

definition Len :: "'h lru_cache \<Rightarrow> nat" where
  "Len l = (case lru_cache_map l of None \<Rightarrow> 0 | Some c \<Rightarrow> card (dom c))"

definition Keys_of :: "'h lru_cache \<Rightarrow> u64 list \<Rightarrow> bool" where
  "Keys_of l ks \<longleftrightarrow> distinct ks \<and> set ks = (case lru_cache_map l of None \<Rightarrow> {} | Some c \<Rightarrow> dom c)"

definition Close_LRU :: "'h lru_cache \<Rightarrow> 'h lru_cache" where
  "Close_LRU l = l\<lparr>lru_cache_map := None, lru_head := None, lru_tail := None\<rparr>"

end
