(* ===== verification/FS_LRU_Facts.thy ===== *)
theory FS_LRU_Facts
  imports FS_LRU
begin

text \<open>
  The pointer structure of the cache implements a list of key-value pairs, most recently used
  first. \<open>list_ok l as\<close> says that \<open>as\<close> are the addresses of the doubly linked list from head to
  tail; \<open>lru_rel l kvs\<close> relates a cache to the list of pairs it represents.
\<close>

section \<open>Doubly linked segments\<close>

definition hd_or :: "addr list \<Rightarrow> addr option \<Rightarrow> addr option" where
  "hd_or as n = (case as of [] \<Rightarrow> n | a # _ \<Rightarrow> Some a)"

definition last_or :: "addr list \<Rightarrow> addr option \<Rightarrow> addr option" where
  "last_or as p = (if as = [] then p else Some (last as))"

lemma hd_or_simps [simp]: "hd_or [] n = n" "hd_or (a # as) n = Some a"
  "hd_or (xs @ ys) n = hd_or xs (hd_or ys n)"
  by (simp_all add: hd_or_def split: list.splits)

lemma last_or_simps [simp]: "last_or [] p = p" "last_or (a # as) p = last_or as (Some a)"
  "last_or (xs @ ys) p = last_or ys (last_or xs p)"
  by (auto simp: last_or_def)

text \<open>\<open>seg h p as n\<close>: the nodes \<open>as\<close> are linked both ways, after \<open>p\<close> and before \<open>n\<close>.\<close>

fun seg :: "'h heap \<Rightarrow> addr option \<Rightarrow> addr list \<Rightarrow> addr option \<Rightarrow> bool" where
  "seg h p [] n = True"
| "seg h p (a # as) n = (\<exists>e. h a = Some e \<and> entry_prev e = p \<and> entry_next e = hd_or as n \<and> seg h (Some a) as n)"

lemma seg_append [simp]: "seg h p (xs @ ys) n = (seg h p xs (hd_or ys n) \<and> seg h (last_or xs p) ys n)"
  by (induction xs arbitrary: p) auto

lemma seg_frame [simp]: "a \<notin> set as \<Longrightarrow> seg (h(a \<mapsto> e)) p as n = seg h p as n"
  by (induction as arbitrary: p) auto

lemma seg_set_next:
  assumes "seg h p (xs @ [b]) n" and "h b = Some e" and "b \<notin> set xs"
  shows "seg (h(b \<mapsto> e\<lparr>entry_next := n'\<rparr>)) p (xs @ [b]) n'"
  using assms by auto

lemma seg_set_prev:
  assumes "seg h p (b # xs) n" and "h b = Some e" and "b \<notin> set xs"
  shows "seg (h(b \<mapsto> e\<lparr>entry_prev := p'\<rparr>)) p' (b # xs) n"
  using assms by auto

lemma seg_alloc: "seg h p as n \<Longrightarrow> a \<in> set as \<Longrightarrow> \<exists>e. h a = Some e"
  by (induction as arbitrary: p) auto

definition node_key :: "'h heap \<Rightarrow> addr \<Rightarrow> u64" where
  "node_key h a = entry_key (the (h a))"

lemma find_node_seg: "seg h p as None \<Longrightarrow> find_node h k (hd_or as None) = Some (find (\<lambda>a. node_key h a = k) as)"
  by (induction as arbitrary: p) (subst find_node.simps, auto simp: node_key_def)+

section \<open>List operations\<close>

definition kv :: "'h heap \<Rightarrow> addr \<Rightarrow> (u64 \<times> 'h) option" where
  "kv h a = map_option (\<lambda>e. (entry_key e, entry_value e)) (h a)"

definition list_ok :: "'h lru_cache \<Rightarrow> addr list \<Rightarrow> bool" where
  "list_ok l as \<longleftrightarrow> lru_head l = hd_or as None \<and> lru_tail l = last_or as None \<and> distinct as \<and>
     seg (lru_heap l) None as None \<and> (\<forall>a\<in>set as. a < lru_free l)"

text \<open>What an operation on the links leaves alone.\<close>

definition same_data :: "'h lru_cache \<Rightarrow> 'h lru_cache \<Rightarrow> bool" where
  "same_data l l' \<longleftrightarrow> kv (lru_heap l') = kv (lru_heap l) \<and> lru_cache_map l' = lru_cache_map l \<and>
     lru_total_capacity l' = lru_total_capacity l \<and> lru_current_capacity l' = lru_current_capacity l \<and>
     lru_free l' = lru_free l"

lemma same_data_refl [simp]: "same_data l l"
  by (simp add: same_data_def)

lemma set_next_Some:
  assumes "lru_heap l a = Some e"
  shows "set_next (Some a) n l = Some (l\<lparr>lru_heap := (lru_heap l)(a \<mapsto> e\<lparr>entry_next := n\<rparr>)\<rparr>)"
  using assms by (simp add: set_next_def)

lemma set_prev_Some:
  assumes "lru_heap l a = Some e"
  shows "set_prev (Some a) n l = Some (l\<lparr>lru_heap := (lru_heap l)(a \<mapsto> e\<lparr>entry_prev := n\<rparr>)\<rparr>)"
  using assms by (simp add: set_prev_def)

lemma kv_set_links [simp]:
  "h a = Some e \<Longrightarrow> kv (h(a \<mapsto> e\<lparr>entry_next := n\<rparr>)) = kv h"
  "h a = Some e \<Longrightarrow> kv (h(a \<mapsto> e\<lparr>entry_prev := n\<rparr>)) = kv h"
  by (auto simp: kv_def)

text \<open>Relinking the neighbours of a node, as two steps that each keep one side intact.\<close>

definition relink_next :: "addr list \<Rightarrow> addr option \<Rightarrow> 'h lru_cache \<Rightarrow> 'h lru_cache option" where
  "relink_next xs n l = (if xs \<noteq> [] then set_next (Some (last xs)) n l else Some (l\<lparr>lru_head := n\<rparr>))"

definition relink_prev :: "addr list \<Rightarrow> addr option \<Rightarrow> 'h lru_cache \<Rightarrow> 'h lru_cache option" where
  "relink_prev ys p l = (if ys \<noteq> [] then set_prev (Some (hd ys)) p l else Some (l\<lparr>lru_tail := p\<rparr>))"

lemma relink_next_ok:
  assumes "seg (lru_heap l) None xs m" and "distinct xs"
  shows "\<exists>l'. relink_next xs n l = Some l' \<and> seg (lru_heap l') None xs n \<and> same_data l l' \<and>
    (\<forall>a. a \<notin> set xs \<longrightarrow> lru_heap l' a = lru_heap l a) \<and> lru_tail l' = lru_tail l \<and>
    lru_head l' = (if xs = [] then n else lru_head l)"
proof (cases xs rule: rev_cases)
  case Nil
  then show ?thesis by (simp add: relink_next_def same_data_def)
next
  case (snoc zs b)
  with assms obtain e where e: "lru_heap l b = Some e" by auto
  have "seg ((lru_heap l)(b \<mapsto> e\<lparr>entry_next := n\<rparr>)) None (zs @ [b]) n"
    using assms snoc e by (intro seg_set_next) auto
  with e snoc show ?thesis
    by (auto simp: relink_next_def set_next_Some same_data_def)
qed

lemma relink_prev_ok:
  assumes "seg (lru_heap l) q ys None" and "distinct ys"
  shows "\<exists>l'. relink_prev ys p l = Some l' \<and> seg (lru_heap l') p ys None \<and> same_data l l' \<and>
    (\<forall>a. a \<notin> set ys \<longrightarrow> lru_heap l' a = lru_heap l a) \<and> lru_head l' = lru_head l \<and>
    lru_tail l' = (if ys = [] then p else lru_tail l)"
proof (cases ys)
  case Nil
  then show ?thesis by (simp add: relink_prev_def same_data_def)
next
  case (Cons b zs)
  with assms obtain e where e: "lru_heap l b = Some e" by auto
  have "seg ((lru_heap l)(b \<mapsto> e\<lparr>entry_prev := p\<rparr>)) p (b # zs) None"
    using assms Cons e by (intro seg_set_prev) auto
  with e Cons show ?thesis
    by (auto simp: relink_prev_def set_prev_Some same_data_def)
qed

lemma seg_cong: "(\<And>a. a \<in> set as \<Longrightarrow> h' a = h a) \<Longrightarrow> seg h' p as n = seg h p as n"
  by (induction as arbitrary: p) auto

lemma same_data_trans: "same_data l l' \<Longrightarrow> same_data l' l'' \<Longrightarrow> same_data l l''"
  by (simp add: same_data_def)

lemma clear_links:
  assumes "lru_heap l a = Some e" and "list_ok l as" and "a \<notin> set as"
  shows "\<exists>l' l''. set_prev (Some a) None l = Some l' \<and> set_next (Some a) None l' = Some l'' \<and>
    list_ok l' as \<and> list_ok l'' as \<and> same_data l l' \<and> same_data l l''"
  using assms by (simp add: set_prev_Some set_next_def list_ok_def same_data_def) (auto simp: kv_def)

lemma unlink_ok:
  assumes "list_ok l (xs @ a # ys)"
  shows "\<exists>l'. unlink a l = Some l' \<and> list_ok l' (xs @ ys) \<and> same_data l l'"
proof -
  from assms obtain e where e: "lru_heap l a = Some e" "entry_prev e = last_or xs None"
    "entry_next e = hd_or ys None" and d: "distinct (xs @ a # ys)"
    and s1: "seg (lru_heap l) None xs (Some a)" and s2: "seg (lru_heap l) (Some a) ys None"
    by (auto simp: list_ok_def)
  from relink_next_ok [OF s1, of "hd_or ys None"] d obtain l1 where
    l1: "relink_next xs (hd_or ys None) l = Some l1" "seg (lru_heap l1) None xs (hd_or ys None)"
      "same_data l l1" "\<forall>b. b \<notin> set xs \<longrightarrow> lru_heap l1 b = lru_heap l b" "lru_tail l1 = lru_tail l"
      "lru_head l1 = (if xs = [] then hd_or ys None else lru_head l)"
    by auto
  have s2': "seg (lru_heap l1) (Some a) ys None"
    using s2 by (subst seg_cong [of _ _ "lru_heap l"]) (use l1(4) d in auto)
  from relink_prev_ok [OF this, of "last_or xs None"] d obtain l2 where
    l2: "relink_prev ys (last_or xs None) l1 = Some l2" "seg (lru_heap l2) (last_or xs None) ys None"
      "same_data l1 l2" "\<forall>b. b \<notin> set ys \<longrightarrow> lru_heap l2 b = lru_heap l1 b" "lru_head l2 = lru_head l1"
      "lru_tail l2 = (if ys = [] then last_or xs None else lru_tail l1)"
    by auto
  have "seg (lru_heap l2) None xs (hd_or ys None)"
    using l1(2) by (subst seg_cong [of _ _ "lru_heap l1"]) (use l2(4) d in auto)
  moreover have "lru_head l = hd_or xs (Some a)" "lru_tail l = last_or ys (Some a)"
    using assms by (simp_all add: list_ok_def)
  then have "lru_head l2 = hd_or (xs @ ys) None" "lru_tail l2 = last_or (xs @ ys) None"
    using l1(5,6) l2(5,6) by (cases xs; cases ys; simp)+
  moreover have "same_data l l2" using l1(3) l2(3) by (rule same_data_trans)
  ultimately have ok: "list_ok l2 (xs @ ys)"
    using assms l2(2) d by (auto simp: list_ok_def same_data_def)
  have "lru_heap l2 a = Some e" using l2(4) l1(4) e(1) d by auto
  from clear_links [OF this ok] d obtain l3 l4 where
    l34: "set_prev (Some a) None l2 = Some l3" "set_next (Some a) None l3 = Some l4"
      "list_ok l4 (xs @ ys)" "same_data l2 l4" by auto
  have "unlink a l = Some l4"
    using e l1(1) l2(1) l34(1,2)
    by (cases "xs = []"; cases ys) (simp_all add: unlink_def relink_next_def relink_prev_def last_or_def)
  then show ?thesis using l34 \<open>same_data l l2\<close> same_data_trans by blast
qed

lemma removeTail_ok:
  assumes "list_ok l (xs @ [a])"
  shows "\<exists>l'. removeTail l = Some (l', Some a) \<and> list_ok l' xs \<and> same_data l l'"
proof -
  from assms obtain e where e: "lru_heap l a = Some e" "entry_prev e = last_or xs None"
    and d: "distinct (xs @ [a])" and s1: "seg (lru_heap l) None xs (Some a)"
    and t: "lru_tail l = Some a" and h: "lru_head l = hd_or xs (Some a)"
    by (auto simp: list_ok_def)
  have ht: "lru_head l = lru_tail l \<longleftrightarrow> xs = []" using h t d by (cases xs) auto
  from relink_next_ok [OF s1, of None] d obtain l1 where
    l1: "relink_next xs None l = Some l1" "seg (lru_heap l1) None xs None"
      "same_data l l1" "\<forall>b. b \<notin> set xs \<longrightarrow> lru_heap l1 b = lru_heap l b"
      "lru_head l1 = (if xs = [] then None else lru_head l)"
    by auto
  define l2 where "l2 = l1\<lparr>lru_tail := last_or xs None\<rparr>"
  have "list_ok l2 xs"
    using l1 assms h by (auto simp: l2_def list_ok_def same_data_def hd_or_def split: list.splits)
  moreover have "lru_heap l2 a = Some e" using l1(4) e d by (simp add: l2_def)
  ultimately obtain l3 where l3: "set_prev (Some a) None l2 = Some l3" "list_ok l3 xs" "same_data l2 l3"
    using clear_links [of l2 a e xs] d by auto
  have "(if lru_head l = lru_tail l then Some (l\<lparr>lru_head := None, lru_tail := None\<rparr>)
     else case lru_heap l a of None \<Rightarrow> None
       | Some e \<Rightarrow> let l1 = l\<lparr>lru_tail := entry_prev e\<rparr> in set_next (lru_tail l1) None l1) = Some l2"
    using l1(1) ht e
    by (cases "xs = []") (auto simp: relink_next_def l2_def last_or_def set_next_def split: option.splits)
  then have "removeTail l = Some (l3, Some a)"
    using t l3(1) by (simp add: removeTail_def)
  moreover have "same_data l l3"
    using l1(3) l3(3) by (simp add: same_data_def l2_def)
  ultimately show ?thesis using l3(2) by blast
qed

lemma removeTail_Nil: "list_ok l [] \<Longrightarrow> removeTail l = Some (l, None)"
  by (simp add: removeTail_def list_ok_def)

lemma insert_ok:
  assumes "list_ok l as"
  shows "\<exists>l'. insertIntoLinkedList k v l = Some (l', lru_free l) \<and> list_ok l' (lru_free l # as) \<and>
    kv (lru_heap l') = (kv (lru_heap l))(lru_free l \<mapsto> (k, v)) \<and> lru_cache_map l' = lru_cache_map l \<and>
    lru_total_capacity l' = lru_total_capacity l \<and> lru_current_capacity l' = lru_current_capacity l"
proof -
  let ?n = "lru_free l"
  let ?e = "\<lparr>entry_key = k, entry_value = v, entry_next = None, entry_prev = None\<rparr>"
  have fresh: "?n \<notin> set as" using assms by (auto simp: list_ok_def)
  show ?thesis
  proof (cases as)
    case Nil
    then show ?thesis
      using assms by (auto simp: insertIntoLinkedList_def newnode_def list_ok_def kv_def)
  next
    case (Cons b bs)
    with assms obtain eb where eb: "lru_heap l b = Some eb" by (auto simp: list_ok_def)
    have nb: "b \<noteq> ?n" using fresh Cons by auto
    have "seg ((lru_heap l)(b \<mapsto> eb\<lparr>entry_prev := Some ?n\<rparr>)) (Some ?n) (b # bs) None"
      using assms Cons eb by (intro seg_set_prev) (auto simp: list_ok_def)
    with assms Cons eb nb fresh show ?thesis
      by (auto simp: insertIntoLinkedList_def newnode_def list_ok_def set_prev_def set_next_def kv_def fun_eq_iff
          fun_upd_twist)
  qed
qed

section \<open>Keys, pairs and the map\<close>

type_synonym 'h kvs = "addr \<rightharpoonup> u64 \<times> 'h"

definition nk :: "'h kvs \<Rightarrow> addr \<Rightarrow> u64" where
  "nk K a = fst (the (K a))"

definition prs :: "'h kvs \<Rightarrow> addr list \<Rightarrow> (u64 \<times> 'h) list" where
  "prs K as = map (\<lambda>a. the (K a)) as"

definition idx :: "'h kvs \<Rightarrow> addr list \<Rightarrow> (u64 \<rightharpoonup> addr)" where
  "idx K as = map_of (map (\<lambda>a. (nk K a, a)) as)"

abbreviation without :: "'h kvs \<Rightarrow> u64 \<Rightarrow> addr list \<Rightarrow> addr list" where
  "without K k as \<equiv> filter (\<lambda>a. nk K a \<noteq> k) as"

lemma map_fst_prs [simp]: "map fst (prs K as) = map (nk K) as"
  by (simp add: prs_def nk_def comp_def)

lemma length_prs [simp]: "length (prs K as) = length as"
  by (simp add: prs_def)

lemma prs_Nil [simp]: "prs K [] = []"
  by (simp add: prs_def)

lemma prs_without: "prs K (without K k as) = filter (\<lambda>x. fst x \<noteq> k) (prs K as)"
  by (simp add: prs_def nk_def filter_map comp_def)

lemma prs_butlast: "prs K (butlast as) = butlast (prs K as)"
  by (simp add: prs_def map_butlast)

lemma prs_upd: "n \<notin> set as \<Longrightarrow> prs (K(n \<mapsto> x)) (n # as) = x # prs K as"
  by (simp add: prs_def)

lemma nk_upd: "a \<noteq> n \<Longrightarrow> nk (K(n \<mapsto> x)) a = nk K a"
  by (simp add: nk_def)

lemma distinct_keys_upd:
  assumes "n \<notin> set as" and "k \<notin> nk K ` set as" and "distinct (map (nk K) as)"
  shows "distinct (map (nk (K(n \<mapsto> (k, v)))) (n # as))"
proof -
  have "map (nk (K(n \<mapsto> (k, v)))) as = map (nk K) as"
    by (rule map_cong [OF refl]) (use assms(1) nk_upd in metis)
  moreover have "nk (K(n \<mapsto> (k, v))) n = k" by (simp add: nk_def)
  ultimately show ?thesis using assms(2,3) by (simp only: list.map distinct.simps set_map simp_thms)
qed

lemma idx_upd: "n \<notin> set as \<Longrightarrow> idx (K(n \<mapsto> (k, v))) (n # as) = (idx K as)(k \<mapsto> n)"
  by (auto simp: idx_def nk_def intro!: arg_cong [where f = "\<lambda>m. (map_of m)(k \<mapsto> n)"])

lemma idx_without: "j \<noteq> k \<Longrightarrow> idx K (without K k as) j = idx K as j"
  by (induction as) (auto simp: idx_def)

lemma idx_without_upd: "(idx K as)(k \<mapsto> n) = (idx K (without K k as))(k \<mapsto> n)"
  by (auto simp: fun_eq_iff idx_without)

lemma idx_None: "idx K as k = None \<longleftrightarrow> k \<notin> nk K ` set as"
  by (simp add: idx_def map_of_eq_None_iff image_image)

lemma idx_delete: "(idx K as)(k := None) = idx K (without K k as)"
proof
  fix j
  have "idx K (without K k as) k = None" by (auto simp: idx_None)
  then show "((idx K as)(k := None)) j = idx K (without K k as) j" by (simp add: idx_without)
qed

lemma idx_SomeD: "idx K as k = Some a \<Longrightarrow> a \<in> set as \<and> nk K a = k"
  by (auto simp: idx_def dest!: map_of_SomeD)

lemma without_unique:
  "distinct (map (nk K) (xs @ a # ys)) \<Longrightarrow> without K (nk K a) (xs @ a # ys) = xs @ ys"
proof -
  assume d: "distinct (map (nk K) (xs @ a # ys))"
  then have "nk K a \<notin> nk K ` set xs" "nk K a \<notin> nk K ` set ys" by auto
  then have "without K (nk K a) xs = xs" "without K (nk K a) ys = ys"
    by (auto simp: filter_id_conv image_iff)
  then show ?thesis by simp
qed

lemma without_absent: "k \<notin> nk K ` set as \<Longrightarrow> without K k as = as"
  by (intro filter_True) (auto simp: image_iff)

lemma map_of_prs:
  "\<forall>a\<in>set as. K a \<noteq> None \<Longrightarrow> map_of (prs K as) k = map_option (\<lambda>a. snd (the (K a))) (idx K as k)"
  by (induction as) (auto simp: prs_def idx_def nk_def)

lemma nk_node_key: "h a = Some e \<Longrightarrow> nk (kv h) a = node_key h a"
  by (simp add: nk_def kv_def node_key_def)

section \<open>Removing by key\<close>

lemma remove_ok:
  assumes ok: "list_ok l as" and d: "distinct (map (nk (kv (lru_heap l))) as)"
  shows "\<exists>l'. removeFromLinkedList k l = Some (l', idx (kv (lru_heap l)) as k) \<and>
    list_ok l' (without (kv (lru_heap l)) k as) \<and> same_data l l'"
proof -
  let ?K = "kv (lru_heap l)"
  have s: "seg (lru_heap l) None as None" using ok by (simp add: list_ok_def)
  have "node_key (lru_heap l) a = nk ?K a" if "a \<in> set as" for a
    using seg_alloc [OF s that] nk_node_key by metis
  then have "find (\<lambda>a. node_key (lru_heap l) a = k) as = find (\<lambda>a. nk ?K a = k) as"
    by (intro find_cong) simp_all
  then have f: "find_node (lru_heap l) k (lru_head l) = Some (find (\<lambda>a. nk ?K a = k) as)"
    using find_node_seg [OF s] ok by (simp add: list_ok_def)
  show ?thesis
  proof (cases "k \<in> nk ?K ` set as")
    case False
    then have "find (\<lambda>a. nk ?K a = k) as = None" by (auto simp: find_None_iff)
    moreover have "idx ?K as k = None" using False by (simp add: idx_None)
    ultimately show ?thesis using f ok without_absent [OF False] by (simp add: removeFromLinkedList_def)
  next
    case True
    then obtain a where "a \<in> set as" and a: "nk ?K a = k" by blast
    then obtain xs ys where as: "as = xs @ a # ys" by (blast dest: split_list)
    have x: "k \<notin> nk ?K ` set xs" using d a as by auto
    have "find (\<lambda>a. nk ?K a = k) xs = None" using x by (auto simp: find_None_iff)
    then have "find (\<lambda>a. nk ?K a = k) as = Some a"
      using a by (simp add: as) (induction xs, auto)
    moreover have "idx ?K as k = Some a"
      using x a idx_None [of ?K xs k] by (simp add: as idx_def map_add_def)
    moreover obtain l' where "unlink a l = Some l'" "list_ok l' (xs @ ys)" "same_data l l'"
      using unlink_ok ok as by blast
    ultimately show ?thesis
      using f without_unique [of ?K xs a ys] d a as by (simp add: removeFromLinkedList_def)
  qed
qed

section \<open>Abstract specification and refinement\<close>

text \<open>The cache as a list of pairs, most recently used first.\<close>

definition spec_get :: "u64 \<Rightarrow> (u64 \<times> 'h) list \<Rightarrow> (u64 \<times> 'h) list \<times> 'h option" where
  "spec_get k xs = (case map_of xs k of None \<Rightarrow> (xs, None)
     | Some v \<Rightarrow> ((k, v) # filter (\<lambda>x. fst x \<noteq> k) xs, Some v))"

definition spec_remove :: "u64 \<Rightarrow> (u64 \<times> 'h) list \<Rightarrow> (u64 \<times> 'h) list" where
  "spec_remove k xs = filter (\<lambda>x. fst x \<noteq> k) xs"

definition spec_put :: "int \<Rightarrow> u64 \<Rightarrow> 'h \<Rightarrow> (u64 \<times> 'h) list \<Rightarrow> (u64 \<times> 'h) list" where
  "spec_put cap k v xs = (let ys = spec_remove k xs
     in (k, v) # (if int (length ys) \<ge> cap then butlast ys else ys))"

definition lru_rel :: "'h lru_cache \<Rightarrow> (u64 \<times> 'h) list \<Rightarrow> bool" where
  "lru_rel l xs \<longleftrightarrow> (\<exists>as. list_ok l as \<and> xs = prs (kv (lru_heap l)) as \<and>
     distinct (map (nk (kv (lru_heap l))) as) \<and> lru_cache_map l = Some (idx (kv (lru_heap l)) as) \<and>
     lru_current_capacity l = int (length as))"

lemma list_ok_alloc: "list_ok l as \<Longrightarrow> \<forall>a\<in>set as. kv (lru_heap l) a \<noteq> None"
  using seg_alloc by (fastforce simp: list_ok_def kv_def)

lemma list_ok_cong:
  "list_ok l as \<Longrightarrow> lru_head l' = lru_head l \<Longrightarrow> lru_tail l' = lru_tail l \<Longrightarrow> lru_heap l' = lru_heap l \<Longrightarrow>
   lru_free l' = lru_free l \<Longrightarrow> list_ok l' as"
  by (simp add: list_ok_def)

lemma New_rel: "lru_rel (NewLRUCache cap) []"
  by (auto simp: lru_rel_def NewLRUCache_def list_ok_def prs_def idx_def intro!: exI [of _ "[]"])

text \<open>A removal or nothing, then an eviction or nothing: the two halves of \<open>Put\<close>.\<close>

lemma drop_existing_ok:
  assumes ok: "list_ok l as" and d: "distinct (map (nk (kv (lru_heap l))) as)"
    and m: "lru_cache_map l = Some (idx (kv (lru_heap l)) as)" and c: "lru_current_capacity l = int (length as)"
  shows "\<exists>l1. drop_existing k l = Some l1 \<and> list_ok l1 (without (kv (lru_heap l)) k as) \<and>
    kv (lru_heap l1) = kv (lru_heap l) \<and> lru_cache_map l1 = lru_cache_map l \<and>
    lru_total_capacity l1 = lru_total_capacity l \<and>
    lru_current_capacity l1 = int (length (without (kv (lru_heap l)) k as))"
proof (cases "idx (kv (lru_heap l)) as k")
  case None
  then have "without (kv (lru_heap l)) k as = as" by (intro without_absent) (simp add: idx_None)
  with None ok m c show ?thesis by (simp add: drop_existing_def map_get_def)
next
  case (Some a)
  let ?K = "kv (lru_heap l)"
  obtain l' where l': "removeFromLinkedList k l = Some (l', Some a)" "list_ok l' (without ?K k as)" "same_data l l'"
    using remove_ok [OF ok d, of k] Some by auto
  from idx_SomeD [OF Some] obtain xs ys where as: "as = xs @ a # ys" and a: "nk ?K a = k"
    by (blast dest: split_list)
  have "length as = Suc (length (without ?K k as))" using without_unique [of ?K xs a ys] d a as by simp
  with l' Some m c show ?thesis
    by (auto simp: drop_existing_def map_get_def same_data_def intro: list_ok_cong)
qed

lemma evict_if_full_ok:
  assumes ok: "list_ok l as" and c: "lru_current_capacity l = int (length as)"
  defines "evict \<equiv> int (length as) \<ge> lru_total_capacity l \<and> as \<noteq> []"
  shows "\<exists>l2. evict_if_full l = Some l2 \<and> list_ok l2 (if evict then butlast as else as) \<and>
    kv (lru_heap l2) = kv (lru_heap l) \<and>
    lru_cache_map l2 = (if evict then map_option (\<lambda>m. m(nk (kv (lru_heap l)) (last as) := None)) (lru_cache_map l)
      else lru_cache_map l) \<and> lru_total_capacity l2 = lru_total_capacity l \<and>
    lru_current_capacity l2 = int (length (if evict then butlast as else as))"
proof (cases evict)
  case False
  then have "as = [] \<or> \<not> lru_current_capacity l \<ge> lru_total_capacity l" by (auto simp: evict_def c)
  then have "evict_if_full l = Some l" using ok removeTail_Nil [of l] by (auto simp: evict_if_full_def)
  then show ?thesis using False ok c by simp
next
  case True
  then obtain xs a where as: "as = xs @ [a]" unfolding evict_def by (metis rev_exhaust)
  from removeTail_ok [of l xs a] ok as obtain l2 where
    l2: "removeTail l = Some (l2, Some a)" "list_ok l2 xs" "same_data l l2" by auto
  have "kv (lru_heap l) a \<noteq> None" using list_ok_alloc [OF ok] as by simp
  then have "kv (lru_heap l2) a \<noteq> None" using l2(3) by (simp add: same_data_def)
  then obtain e where e: "lru_heap l2 a = Some e" by (auto simp: kv_def)
  have "entry_key e = nk (kv (lru_heap l2)) a" using e by (simp add: nk_def kv_def)
  then have "entry_key e = nk (kv (lru_heap l)) a" using l2(3) by (simp add: same_data_def)
  with True l2 e c as show ?thesis
    by (auto simp: evict_if_full_def evict_def same_data_def map_delete_def intro: list_ok_cong)
qed

lemma butlast_without:
  assumes "distinct (map (nk K) as)" and "as \<noteq> []"
  shows "without K (nk K (last as)) as = butlast as"
  using assms without_unique [of K "butlast as" "last as" "[]"] by simp

text \<open>The map after the two halves, extended by the new node, is the map of the new list.\<close>

lemma put_map:
  assumes "distinct (map (nk K) as)" and "as1 = without K k as"
  shows "(idx K as)(k \<mapsto> n) = (idx K as1)(k \<mapsto> n)"
    and "as1 \<noteq> [] \<Longrightarrow> ((idx K as)(nk K (last as1) := None))(k \<mapsto> n) = (idx K (butlast as1))(k \<mapsto> n)"
proof -
  show 1: "(idx K as)(k \<mapsto> n) = (idx K as1)(k \<mapsto> n)" using assms(2) idx_without_upd by metis
  assume ne: "as1 \<noteq> []"
  let ?j = "nk K (last as1)"
  have "last as1 \<in> set (without K k as)" using ne assms(2) last_in_set by blast
  then have j: "?j \<noteq> k" by simp
  have d1: "distinct (map (nk K) as1)" using assms by (simp add: distinct_map_filter)
  have "((idx K as)(?j := None))(k \<mapsto> n) = ((idx K as)(k \<mapsto> n))(?j := None)" using j by (simp add: fun_upd_twist)
  also have "\<dots> = ((idx K as1)(?j := None))(k \<mapsto> n)" using 1 j by (simp add: fun_upd_twist)
  also have "\<dots> = (idx K (butlast as1))(k \<mapsto> n)" by (simp add: idx_delete butlast_without [OF d1 ne])
  finally show "((idx K as)(?j := None))(k \<mapsto> n) = (idx K (butlast as1))(k \<mapsto> n)" .
qed

lemma Put_refines:
  assumes "lru_rel l xs"
  shows "\<exists>l'. Put k v l = Some l' \<and> lru_rel l' (spec_put (lru_total_capacity l) k v xs) \<and>
    lru_total_capacity l' = lru_total_capacity l"
proof -
  let ?K = "kv (lru_heap l)"
  from assms obtain as where ok: "list_ok l as" and xs: "xs = prs ?K as" and d: "distinct (map (nk ?K) as)"
    and m: "lru_cache_map l = Some (idx ?K as)" and c: "lru_current_capacity l = int (length as)"
    by (auto simp: lru_rel_def)
  define as1 where "as1 = without ?K k as"
  from drop_existing_ok [OF ok d m c, of k] m obtain l1 where l1: "drop_existing k l = Some l1"
    "list_ok l1 as1" "kv (lru_heap l1) = ?K" "lru_cache_map l1 = Some (idx ?K as)"
    "lru_total_capacity l1 = lru_total_capacity l" "lru_current_capacity l1 = int (length as1)"
    unfolding as1_def by auto
  have d1: "distinct (map (nk ?K) as1)" using d by (simp add: as1_def distinct_map_filter)
  define evict where "evict = (int (length as1) \<ge> lru_total_capacity l \<and> as1 \<noteq> [])"
  define as2 where "as2 = (if evict then butlast as1 else as1)"
  from evict_if_full_ok [OF l1(2,6)] obtain l2 where l2: "evict_if_full l1 = Some l2" "list_ok l2 as2"
    "kv (lru_heap l2) = ?K"
    "lru_cache_map l2 = Some (if evict then (idx ?K as)(nk ?K (last as1) := None) else idx ?K as)"
    "lru_total_capacity l2 = lru_total_capacity l" "lru_current_capacity l2 = int (length as2)"
    using l1(3-5) unfolding as2_def evict_def by (auto split: if_splits)
  let ?l2 = "l2\<lparr>lru_current_capacity := lru_current_capacity l2 + 1\<rparr>" and ?n = "lru_free l2"
  have "list_ok ?l2 as2" using l2(2) by (rule list_ok_cong) simp_all
  from insert_ok [OF this, of k v] l2(3) obtain l3 where l3: "insertIntoLinkedList k v ?l2 = Some (l3, ?n)"
    "list_ok l3 (?n # as2)" "kv (lru_heap l3) = ?K(?n \<mapsto> (k, v))"
    "lru_cache_map l3 = lru_cache_map l2" "lru_total_capacity l3 = lru_total_capacity l2"
    "lru_current_capacity l3 = lru_current_capacity l2 + 1"
    by auto
  have n: "?n \<notin> set as2" using l3(2) by (simp add: list_ok_def)
  define l4 where "l4 = l3\<lparr>lru_cache_map := Some (idx (?K(?n \<mapsto> (k, v))) (?n # as2))\<rparr>"
  have "map_put k ?n l3 = Some l4"
    using l2(4) l3(4) put_map [OF d as1_def] n
    by (auto simp: map_put_def l4_def idx_upd as2_def evict_def split: if_splits)
  then have "Put k v l = Some l4" using l1(1) l2(1) l3(1) by (simp add: Put_def)
  moreover have "prs (?K(?n \<mapsto> (k, v))) (?n # as2) = spec_put (lru_total_capacity l) k v xs"
    using n by (auto simp: prs_upd spec_put_def spec_remove_def xs as2_def evict_def as1_def prs_butlast
        prs_without [symmetric] Let_def)
  moreover have "list_ok l4 (?n # as2)" using l3(2) by (rule list_ok_cong) (simp_all add: l4_def)
  moreover have "distinct (map (nk (?K(?n \<mapsto> (k, v)))) (?n # as2))"
  proof (rule distinct_keys_upd [OF n])
    have "set as2 \<subseteq> set as1" by (auto simp: as2_def in_set_butlastD)
    then show "k \<notin> nk ?K ` set as2" by (auto simp: as1_def)
    show "distinct (map (nk ?K) as2)" using d1 by (simp add: as2_def map_butlast distinct_butlast)
  qed
  ultimately show ?thesis
    using l2(5,6) l3(3,5,6) by (intro exI [of _ l4]) (auto simp: lru_rel_def l4_def intro!: exI [of _ "?n # as2"])
qed

lemma Remove_refines:
  assumes "lru_rel l xs"
  shows "\<exists>l'. Remove k l = Some l' \<and> lru_rel l' (spec_remove k xs) \<and>
    lru_total_capacity l' = lru_total_capacity l"
proof -
  let ?K = "kv (lru_heap l)"
  from assms obtain as where ok: "list_ok l as" and xs: "xs = prs ?K as" and d: "distinct (map (nk ?K) as)"
    and m: "lru_cache_map l = Some (idx ?K as)" and c: "lru_current_capacity l = int (length as)"
    by (auto simp: lru_rel_def)
  show ?thesis
  proof (cases "idx ?K as k")
    case None
    then have "without ?K k as = as" by (intro without_absent) (simp add: idx_None)
    then have "spec_remove k xs = xs" by (simp add: spec_remove_def xs prs_without [symmetric])
    with None assms m show ?thesis by (simp add: Remove_def map_get_def)
  next
    case (Some a)
    let ?l = "l\<lparr>lru_current_capacity := lru_current_capacity l - 1\<rparr>"
    have "list_ok ?l as" using ok by (rule list_ok_cong) simp_all
    from remove_ok [OF this, of k] d Some obtain l1 where l1: "removeFromLinkedList k ?l = Some (l1, Some a)"
      "list_ok l1 (without ?K k as)" "same_data ?l l1" by auto
    from idx_SomeD [OF Some] obtain ys zs where as: "as = ys @ a # zs" and a: "nk ?K a = k"
      by (blast dest: split_list)
    have len: "length as = Suc (length (without ?K k as))" using without_unique [of ?K ys a zs] d a as by simp
    have "Remove k l = Some (map_delete k l1)" using l1(1) Some m by (simp add: Remove_def map_get_def)
    moreover have "list_ok (map_delete k l1) (without ?K k as)"
      using l1(2) by (rule list_ok_cong) (simp_all add: map_delete_def)
    moreover have "lru_cache_map (map_delete k l1) = Some (idx ?K (without ?K k as))"
      using l1(3) m by (simp add: map_delete_def same_data_def idx_delete)
    moreover have "distinct (map (nk ?K) (without ?K k as))" using d by (simp add: distinct_map_filter)
    ultimately show ?thesis
      using l1(3) c len by (auto simp: lru_rel_def spec_remove_def xs prs_without [symmetric] same_data_def
          map_delete_def intro!: exI [of _ "without ?K k as"])
  qed
qed

lemma Get_refines:
  assumes "lru_rel l xs"
  shows "\<exists>l'. Get k l = Some (l', snd (spec_get k xs)) \<and> lru_rel l' (fst (spec_get k xs)) \<and>
    lru_total_capacity l' = lru_total_capacity l"
proof -
  let ?K = "kv (lru_heap l)"
  from assms obtain as where ok: "list_ok l as" and xs: "xs = prs ?K as" and d: "distinct (map (nk ?K) as)"
    and m: "lru_cache_map l = Some (idx ?K as)" and c: "lru_current_capacity l = int (length as)"
    by (auto simp: lru_rel_def)
  have mo: "map_of xs k = map_option (\<lambda>a. snd (the (?K a))) (idx ?K as k)"
    using map_of_prs list_ok_alloc [OF ok] xs by simp
  show ?thesis
  proof (cases "idx ?K as k")
    case None
    with mo m assms show ?thesis by (simp add: Get_def map_get_def spec_get_def)
  next
    case (Some a)
    from idx_SomeD [OF this] have a: "a \<in> set as" "nk ?K a = k" by auto
    then obtain v where v: "?K a = Some (k, v)" using list_ok_alloc [OF ok] by (fastforce simp: nk_def)
    from a(1) obtain ys zs where as: "as = ys @ a # zs" by (blast dest: split_list)
    let ?as = "without ?K k as"
    have len: "length as = Suc (length ?as)" using without_unique [of ?K ys a zs] d a(2) as by simp
    from remove_ok [OF ok d, of k] Some obtain l1 where l1: "removeFromLinkedList k l = Some (l1, Some a)"
      "list_ok l1 ?as" "same_data l l1" by auto
    let ?n = "lru_free l1"
    have n: "?n \<notin> set ?as" "a \<noteq> ?n" using l1(2,3) ok a(1) by (auto simp: list_ok_def same_data_def)
    from insert_ok [OF l1(2), of k v] obtain l2 where l2: "insertIntoLinkedList k v l1 = Some (l2, ?n)"
      "list_ok l2 (?n # ?as)" "kv (lru_heap l2) = ?K(?n \<mapsto> (k, v))" "lru_cache_map l2 = lru_cache_map l1"
      "lru_total_capacity l2 = lru_total_capacity l1" "lru_current_capacity l2 = lru_current_capacity l1"
      using l1(3) by (auto simp: same_data_def)
    define l3 where "l3 = l2\<lparr>lru_cache_map := Some (idx (?K(?n \<mapsto> (k, v))) (?n # ?as))\<rparr>"
    have val: "\<exists>e. h a = Some e \<and> entry_value e = v" if "kv h a = Some (k, v)" for h
      using that by (auto simp: kv_def)
    have "kv (lru_heap l1) a = Some (k, v)" using l1(3) v by (simp add: same_data_def)
    with val obtain e1 where "lru_heap l1 a = Some e1" "entry_value e1 = v" by blast
    moreover have "map_put k ?n l2 = Some l3"
      using l2(4) l1(3) m n(1) idx_without_upd [of ?K as k ?n]
      by (simp add: map_put_def l3_def same_data_def idx_upd)
    ultimately have mv: "moveToHead k l = Some l3" using l1(1) l2(1) by (simp add: moveToHead_def)
    have "kv (lru_heap l3) a = Some (k, v)" using l2(3) v n(2) by (simp add: l3_def)
    with val obtain e3 where "lru_heap l3 a = Some e3" "entry_value e3 = v" by blast
    then have "Get k l = Some (l3, Some v)" using mv Some m by (simp add: Get_def map_get_def)
    moreover have "list_ok l3 (?n # ?as)" using l2(2) by (rule list_ok_cong) (simp_all add: l3_def)
    moreover have "distinct (map (nk (?K(?n \<mapsto> (k, v)))) (?n # ?as))"
      using n(1) d by (intro distinct_keys_upd) (auto simp: distinct_map_filter)
    moreover have "spec_get k xs = (prs (?K(?n \<mapsto> (k, v))) (?n # ?as), Some v)"
      using mo Some v n(1) by (simp add: spec_get_def prs_upd prs_without xs)
    ultimately show ?thesis
      using l2(3,5,6) l1(3) c len
      by (intro exI [of _ l3]) (auto simp: lru_rel_def l3_def same_data_def intro!: exI [of _ "?n # ?as"])
  qed
qed

end
