(* ===== verification/FS_LRU_Props.thy ===== *)
theory FS_LRU_Props
  imports FS_LRU_Facts
begin

text \<open>
  What callers of the cache rely on: any sequence of calls behaves like the list specification,
  without panic, and within the capacity; and the cache meets the contract \<open>block_cache\<close> of a
  read-through cache, on which the reconciliation rests.
\<close>

section \<open>Sequences of calls\<close>

datatype 'h lru_call = CGet u64 | CPut u64 'h | CRemove u64

fun lru_do :: "'h lru_call \<Rightarrow> 'h lru_cache \<Rightarrow> ('h lru_cache \<times> 'h option) option" where
  "lru_do (CGet k) l = Get k l"
| "lru_do (CPut k v) l = (case Put k v l of None \<Rightarrow> None | Some l' \<Rightarrow> Some (l', None))"
| "lru_do (CRemove k) l = (case Remove k l of None \<Rightarrow> None | Some l' \<Rightarrow> Some (l', None))"

fun lru_run :: "'h lru_call list \<Rightarrow> 'h lru_cache \<Rightarrow> ('h lru_cache \<times> 'h option list) option" where
  "lru_run [] l = Some (l, [])"
| "lru_run (c # cs) l = (case lru_do c l of None \<Rightarrow> None
     | Some (l1, r) \<Rightarrow> (case lru_run cs l1 of None \<Rightarrow> None | Some (l2, rs) \<Rightarrow> Some (l2, r # rs)))"

fun spec_do :: "int \<Rightarrow> 'h lru_call \<Rightarrow> (u64 \<times> 'h) list \<Rightarrow> (u64 \<times> 'h) list \<times> 'h option" where
  "spec_do cap (CGet k) xs = spec_get k xs"
| "spec_do cap (CPut k v) xs = (spec_put cap k v xs, None)"
| "spec_do cap (CRemove k) xs = (spec_remove k xs, None)"

fun spec_run :: "int \<Rightarrow> 'h lru_call list \<Rightarrow> (u64 \<times> 'h) list \<Rightarrow> (u64 \<times> 'h) list \<times> 'h option list" where
  "spec_run cap [] xs = (xs, [])"
| "spec_run cap (c # cs) xs = (case spec_do cap c xs of (ys, r) \<Rightarrow>
     (case spec_run cap cs ys of (zs, rs) \<Rightarrow> (zs, r # rs)))"

lemma lru_do_refines:
  assumes "lru_rel l xs" and "lru_total_capacity l = cap"
  shows "\<exists>l'. lru_do c l = Some (l', snd (spec_do cap c xs)) \<and> lru_rel l' (fst (spec_do cap c xs)) \<and>
    lru_total_capacity l' = cap"
proof (cases c)
  case (CGet k)
  then show ?thesis using Get_refines [OF assms(1), of k] assms(2) by auto
next
  case (CPut k v)
  then show ?thesis using Put_refines [OF assms(1), of k v] assms(2) by auto
next
  case (CRemove k)
  then show ?thesis using Remove_refines [OF assms(1), of k] assms(2) by auto
qed

lemma lru_run_refines:
  "lru_rel l xs \<Longrightarrow> lru_total_capacity l = cap \<Longrightarrow>
   \<exists>l'. lru_run cs l = Some (l', snd (spec_run cap cs xs)) \<and> lru_rel l' (fst (spec_run cap cs xs)) \<and>
     lru_total_capacity l' = cap"
proof (induction cs arbitrary: l xs)
  case Nil
  then show ?case by simp
next
  case (Cons c cs)
  from lru_do_refines [OF Cons.prems] obtain l1 where
    l1: "lru_do c l = Some (l1, snd (spec_do cap c xs))" "lru_rel l1 (fst (spec_do cap c xs))"
      "lru_total_capacity l1 = cap" by blast
  from Cons.IH [OF l1(2,3)] l1(1) show ?case by (auto split: prod.splits)
qed

lemma lru_rel_distinct: "lru_rel l xs \<Longrightarrow> distinct (map fst xs)"
  by (auto simp: lru_rel_def)

lemma length_spec_get: "distinct (map fst xs) \<Longrightarrow> length (fst (spec_get k xs)) = length xs"
proof (cases "map_of xs k")
  case (Some v)
  assume d: "distinct (map fst xs)"
  from Some obtain ys zs where xs: "xs = ys @ (k, v) # zs" by (meson map_of_SomeD split_list)
  with d have "k \<notin> fst ` set ys" "k \<notin> fst ` set zs" by auto
  then have "filter (\<lambda>x. fst x \<noteq> k) ys = ys" "filter (\<lambda>x. fst x \<noteq> k) zs = zs"
    by (auto simp: filter_id_conv)
  with Some xs show ?thesis by (simp add: spec_get_def)
qed (simp add: spec_get_def)

lemma length_spec_put:
  assumes "int (length xs) \<le> max 1 cap"
  shows "int (length (spec_put cap k v xs)) \<le> max 1 cap"
proof -
  have "int (length (spec_remove k xs)) \<le> max 1 cap"
    unfolding spec_remove_def by (rule order_trans [OF of_nat_mono [OF length_filter_le] assms])
  then show ?thesis by (cases "spec_remove k xs") (auto simp: spec_put_def Let_def)
qed

lemma length_spec_do:
  assumes "distinct (map fst xs)" and "int (length xs) \<le> max 1 cap"
  shows "int (length (fst (spec_do cap c xs))) \<le> max 1 cap"
  using assms length_spec_put [of xs cap]
  by (cases c) (auto simp: length_spec_get spec_remove_def intro: order_trans [OF of_nat_mono [OF length_filter_le]])

lemma length_spec_run:
  "lru_rel l xs \<Longrightarrow> lru_total_capacity l = cap \<Longrightarrow> int (length xs) \<le> max 1 cap \<Longrightarrow>
   int (length (fst (spec_run cap cs xs))) \<le> max 1 cap"
proof (induction cs arbitrary: l xs)
  case (Cons c cs)
  from lru_do_refines [OF Cons.prems(1,2)] obtain l1 where
    "lru_rel l1 (fst (spec_do cap c xs))" "lru_total_capacity l1 = cap" by blast
  from Cons.IH [OF this length_spec_do] lru_rel_distinct [OF Cons.prems(1)] Cons.prems(3)
  show ?case by (auto split: prod.splits)
qed simp

lemma lru_rel_Len:
  assumes "lru_rel l xs"
  shows "Len l = length xs" and "CapacityLeft l = lru_total_capacity l - int (length xs)"
proof -
  from assms obtain as where as: "xs = prs (kv (lru_heap l)) as" "distinct (map (nk (kv (lru_heap l))) as)"
    "lru_cache_map l = Some (idx (kv (lru_heap l)) as)" "lru_current_capacity l = int (length as)"
    by (auto simp: lru_rel_def)
  have "dom (idx (kv (lru_heap l)) as) = set (map (nk (kv (lru_heap l))) as)"
    using idx_None [of "kv (lru_heap l)" as] by (auto simp: dom_def)
  then show "Len l = length xs"
    using as distinct_card [OF as(2)] by (simp add: Len_def)
  show "CapacityLeft l = lru_total_capacity l - int (length xs)"
    using as by (simp add: CapacityLeft_def)
qed

text \<open>C11: Any sequence of \<open>Get\<close>, \<open>Put\<close> and \<open>Remove\<close> calls on a new cache runs without a nil
  dereference, every loop over the links ends, and the results are those of a list ordered by recency
  that drops its last element when full; the cache never holds more than its capacity (or one entry,
  for a capacity below one) and \<open>Len\<close> and \<open>CapacityLeft\<close> report the right numbers.\<close>

theorem lru_refines_recency_list:
  "\<exists>l. lru_run cs (NewLRUCache cap) = Some (l, snd (spec_run cap cs [])) \<and>
     lru_rel l (fst (spec_run cap cs [])) \<and> int (Len l) \<le> max 1 cap \<and> CapacityLeft l = cap - int (Len l)"
proof -
  have cap: "lru_total_capacity (NewLRUCache cap) = cap" by (simp add: NewLRUCache_def)
  from lru_run_refines [OF New_rel cap] obtain l where
    l: "lru_run cs (NewLRUCache cap) = Some (l, snd (spec_run cap cs []))"
      "lru_rel l (fst (spec_run cap cs []))" "lru_total_capacity l = cap" by blast
  moreover have "int (length (fst (spec_run cap cs []))) \<le> max 1 cap"
    by (rule length_spec_run [OF New_rel cap]) simp
  ultimately show ?thesis using lru_rel_Len [OF l(2)] by auto
qed

section \<open>The contract of a read-through cache\<close>

locale block_cache =
  fixes inv :: "'s \<Rightarrow> bool"
    and cached :: "'s \<Rightarrow> u64 \<Rightarrow> 'h option"
    and get :: "u64 \<Rightarrow> 's \<Rightarrow> ('s \<times> 'h option) option"
    and put :: "u64 \<Rightarrow> 'h \<Rightarrow> 's \<Rightarrow> 's option"
  assumes get_ok: "inv s \<Longrightarrow> \<exists>s'. get k s = Some (s', cached s k) \<and> inv s' \<and> cached s' = cached s"
    and put_ok: "inv s \<Longrightarrow> \<exists>s'. put k v s = Some s' \<and> inv s' \<and> cached s' k = Some v \<and>
      (\<forall>j. j \<noteq> k \<longrightarrow> cached s' j = cached s j \<or> cached s' j = None)"

definition lru_inv :: "'h lru_cache \<Rightarrow> bool" where
  "lru_inv l \<longleftrightarrow> (\<exists>xs. lru_rel l xs)"

definition lru_cached :: "'h lru_cache \<Rightarrow> u64 \<Rightarrow> 'h option" where
  "lru_cached l k = (case map_get k l of None \<Rightarrow> None | Some a \<Rightarrow> map_option entry_value (lru_heap l a))"

lemma lru_cached_rel: "lru_rel l xs \<Longrightarrow> lru_cached l = map_of xs"
proof
  fix k
  assume "lru_rel l xs"
  then obtain as where as: "list_ok l as" "xs = prs (kv (lru_heap l)) as"
    "lru_cache_map l = Some (idx (kv (lru_heap l)) as)" by (auto simp: lru_rel_def)
  have val: "kv h a \<noteq> None \<Longrightarrow> map_option entry_value (h a) = Some (snd (the (kv h a)))" for h a
    by (auto simp: kv_def)
  show "lru_cached l k = map_of xs k"
  proof (cases "idx (kv (lru_heap l)) as k")
    case None
    with as map_of_prs [OF list_ok_alloc [OF as(1)], of k] show ?thesis
      by (simp add: lru_cached_def map_get_def)
  next
    case (Some a)
    then have "kv (lru_heap l) a \<noteq> None" using list_ok_alloc [OF as(1)] idx_SomeD by fastforce
    from val [OF this] Some as map_of_prs [OF list_ok_alloc [OF as(1)], of k] show ?thesis
      by (simp add: lru_cached_def map_get_def)
  qed
qed

lemma map_of_filter_fst: "map_of (filter (\<lambda>x. fst x \<noteq> k) xs) j = (if j = k then None else map_of xs j)"
  by (induction xs) auto

lemma map_of_butlast:
  assumes "distinct (map fst xs)"
  shows "map_of (butlast xs) j = map_of xs j \<or> map_of (butlast xs) j = None"
proof (cases xs rule: rev_cases)
  case (snoc ys y)
  then show ?thesis by (cases "map_of ys j") (auto simp: map_add_def)
qed simp

interpretation lru: block_cache lru_inv lru_cached Get Put
proof
  fix s :: "'h lru_cache" and k
  assume "lru_inv s"
  then obtain xs where xs: "lru_rel s xs" by (auto simp: lru_inv_def)
  from Get_refines [OF xs, of k] obtain s' where s': "Get k s = Some (s', snd (spec_get k xs))"
    "lru_rel s' (fst (spec_get k xs))" by blast
  have "map_of (fst (spec_get k xs)) = map_of xs" "snd (spec_get k xs) = map_of xs k"
    by (auto simp: spec_get_def map_of_filter_fst fun_eq_iff split: option.splits)
  with s' xs show "\<exists>s'. Get k s = Some (s', lru_cached s k) \<and> lru_inv s' \<and> lru_cached s' = lru_cached s"
    by (auto simp: lru_inv_def lru_cached_rel)
next
  fix s :: "'h lru_cache" and k v
  assume "lru_inv s"
  then obtain xs where xs: "lru_rel s xs" by (auto simp: lru_inv_def)
  let ?ys = "spec_put (lru_total_capacity s) k v xs"
  from Put_refines [OF xs] obtain s' where s': "Put k v s = Some s'" "lru_rel s' ?ys" by blast
  have "distinct (map fst (spec_remove k xs))"
    using lru_rel_distinct [OF xs] by (simp add: spec_remove_def distinct_map_filter)
  then have "map_of ?ys j = map_of xs j \<or> map_of ?ys j = None" if "j \<noteq> k" for j
    using that map_of_butlast [of "spec_remove k xs" j]
    by (auto simp: spec_put_def spec_remove_def Let_def map_of_filter_fst)
  moreover have "map_of ?ys k = Some v" by (simp add: spec_put_def Let_def)
  ultimately show "\<exists>s'. Put k v s = Some s' \<and> lru_inv s' \<and> lru_cached s' k = Some v \<and>
      (\<forall>j. j \<noteq> k \<longrightarrow> lru_cached s' j = lru_cached s j \<or> lru_cached s' j = None)"
    using s' xs by (auto simp: lru_inv_def lru_cached_rel)
qed

end
