(* ===== verification/FS_Reconcile.thy ===== *)
theory FS_Reconcile
  imports FS_Types FS_Events FS_LRU
begin

text \<open>
  \<open>core/reconsillation\<close>: recomputation of account balances after the data sync. Each tagged account
  replays its transactions (or takes a precomputed delta), missing accounts are pre-created from a
  remote, the planned updates are written to the WAL and then committed to the database.

  Not part of the repository and therefore parameters: the database behind \<open>types.AccountManager\<close>
  (\<open>A :: 'd AccountManager\<close> over a database state \<open>'d\<close>), the header table (\<open>fetch\<close>), go-ethereum's
  \<open>common.BytesToAddress(b).Hex()\<close> in lower case (\<open>hexlow\<close>), and the remote's answer to
  \<open>FetchAccounts\<close>. The workers of phase 1 only read the database and share the header cache; the
  model computes the accounts one after the other, in the order \<open>arrivals\<close> in which their results reach
  the collecting loop.
\<close>

section \<open>Data\<close>

record DBTransaction =
  Tx_From :: "bytes option"
  Tx_To :: "bytes option"
  Tx_Value :: "int option"
  Tx_Type :: "8 word"
  Tx_Nonce :: u64
  Tx_GasLimit :: u64
  Tx_GasPrice :: "int option"
  Tx_MaxFee :: "int option"
  Tx_MaxPriorityFee :: "int option"
  Tx_BlockNumber :: u64

record accountState =
  accountState_Address :: string
  accountState_ComputedBalance :: int
  accountState_Nonce :: u64
  accountState_GasSpent :: int

record AccountUpdate =
  AccountUpdate_Address :: string
  AccountUpdate_NewBalance :: int
  AccountUpdate_Nonce :: u64
  AccountUpdate_TxNonce :: u64
  AccountUpdate_TxCountSent :: u64
  AccountUpdate_IsNewAccount :: bool

record AccountDelta =
  AccountDelta_BalanceDelta :: int
  AccountDelta_Nonce :: u64
  AccountDelta_TxNonce :: u64
  AccountDelta_TxCountSent :: u64
  AccountDelta_IsSender :: bool

record 'd AccountManager =
  GetTransactionsForAccountInRange :: "'d \<Rightarrow> string \<Rightarrow> u64 \<Rightarrow> u64 \<Rightarrow> DBTransaction list option"
  GetAccountBalance :: "'d \<Rightarrow> string \<Rightarrow> (int option \<times> u64) option"
  CreateAccount :: "string \<Rightarrow> int \<Rightarrow> u64 \<Rightarrow> 'd \<Rightarrow> 'd \<times> bool"
  BatchUpdateAccounts :: "AccountUpdate list \<Rightarrow> 'd \<Rightarrow> 'd \<times> bool"

record RemoteAccount =
  RemoteAccount_Address :: bytes
  RemoteAccount_Nonce :: u64

datatype recon_error =
    TransactionsFailed string
  | BalanceFailed string
  | ComputationFailed nat
  | WALWriteFailed wal_error
  | WALFlushFailed wal_error
  | CommitFailed

section \<open>Header cache\<close>

text \<open>\<open>GetBlockFromLRUCache\<close> over any cache operations; the outer option is a panic of the cache.\<close>

definition cache_read :: "(u64 \<Rightarrow> 's \<Rightarrow> ('s \<times> 'h option) option) \<Rightarrow> (u64 \<Rightarrow> 'h \<Rightarrow> 's \<Rightarrow> 's option) \<Rightarrow>
    (u64 list \<Rightarrow> 'h list option) option \<Rightarrow> u64 \<Rightarrow> 's option \<Rightarrow> ('s option \<times> 'h option) option" where
  "cache_read get put blockInfo blockNumber headerCache =
     (case headerCache of None \<Rightarrow> Some (None, None)
      | Some c \<Rightarrow> (case get blockNumber c of None \<Rightarrow> None
         | Some (c1, Some block) \<Rightarrow> Some (Some c1, Some block)
         | Some (c1, None) \<Rightarrow> (case blockInfo of None \<Rightarrow> Some (Some c1, None)
            | Some fetch \<Rightarrow> (case fetch [blockNumber] of None \<Rightarrow> Some (Some c1, None)
               | Some [] \<Rightarrow> Some (Some c1, None)
               | Some (header # _) \<Rightarrow> (case put blockNumber header c1 of None \<Rightarrow> None
                  | Some c2 \<Rightarrow> Some (Some c2, Some header))))))"

type_synonym header_source = "(u64 list \<Rightarrow> Header list option) option"

definition GetBlockFromLRUCache :: "header_source \<Rightarrow> u64 \<Rightarrow> Header lru_cache option
    \<Rightarrow> (Header lru_cache option \<times> Header option) option" where
  "GetBlockFromLRUCache = cache_read Get Put"

section \<open>Replaying transactions\<close>

definition calculateGasCostFromTx :: "DBTransaction \<Rightarrow> int" where
  "calculateGasCostFromTx tx =
     (if Tx_GasLimit tx = 0 then 0
      else let gasPrice =
             (if Tx_Type tx = 0 then Tx_GasPrice tx
              else if Tx_Type tx = 1 \<or> Tx_Type tx = 2
                then (if Tx_MaxFee tx = None then Tx_MaxPriorityFee tx else Tx_MaxFee tx)
              else None)
        in case gasPrice of None \<Rightarrow> 0 | Some p \<Rightarrow> uint (Tx_GasLimit tx) * p)"

definition addr_of :: "(bytes \<Rightarrow> string) \<Rightarrow> bytes \<Rightarrow> string" where
  "addr_of hexlow b = (if b = [] then [] else hexlow b)"

text \<open>The body of the loop of \<open>calculateAccountState\<close>, for the header found for the block.\<close>

definition apply_tx :: "(bytes \<Rightarrow> string) \<Rightarrow> string \<Rightarrow> DBTransaction \<Rightarrow> Header option \<Rightarrow> accountState \<Rightarrow> accountState" where
  "apply_tx hexlow normalizedAccount tx header s0 =
     (let fromAddr = (case Tx_From tx of None \<Rightarrow> [] | Some a \<Rightarrow> hexlow a);
          toAddr = (case Tx_To tx of None \<Rightarrow> [] | Some a \<Rightarrow> hexlow a);
          isOutgoing = (fromAddr = normalizedAccount);
          isIncoming = (toAddr = normalizedAccount);
          gasFeeToDeduct = calculateGasCostFromTx tx;
          halfGasFee = gasFeeToDeduct div 2;
          remainder = gasFeeToDeduct mod 2;
          coinbaseGasFee = halfGasFee + remainder;
          zkvmGasFee = halfGasFee;
          coinbaseAddr = (case header of None \<Rightarrow> [] | Some h \<Rightarrow> addr_of hexlow (Header_CoinbaseAddr h));
          zkvmAddr = (case header of None \<Rightarrow> [] | Some h \<Rightarrow> addr_of hexlow (Header_ZkvmAddr h));
          s1 = (if isOutgoing
                then s0\<lparr>accountState_Nonce := (if Tx_Nonce tx > accountState_Nonce s0 then Tx_Nonce tx
                          else accountState_Nonce s0),
                        accountState_GasSpent := accountState_GasSpent s0 + gasFeeToDeduct,
                        accountState_ComputedBalance := accountState_ComputedBalance s0 - gasFeeToDeduct\<rparr>
                else s0);
          s2 = (case Tx_Value tx of None \<Rightarrow> s1
                | Some v \<Rightarrow> if v > 0
                    then (let s' = (if isOutgoing then s1\<lparr>accountState_ComputedBalance :=
                                      accountState_ComputedBalance s1 - v\<rparr> else s1)
                          in if isIncoming then s'\<lparr>accountState_ComputedBalance :=
                                      accountState_ComputedBalance s' + v\<rparr> else s')
                    else s1);
          s3 = (if coinbaseAddr \<noteq> [] \<and> normalizedAccount = coinbaseAddr
                then s2\<lparr>accountState_ComputedBalance := accountState_ComputedBalance s2 + coinbaseGasFee\<rparr> else s2)
      in if zkvmAddr \<noteq> [] \<and> normalizedAccount = zkvmAddr
         then s3\<lparr>accountState_ComputedBalance := accountState_ComputedBalance s3 + zkvmGasFee\<rparr> else s3)"

fun replay_txs :: "(bytes \<Rightarrow> string) \<Rightarrow> header_source \<Rightarrow> string \<Rightarrow> DBTransaction list \<Rightarrow>
    Header lru_cache option \<Rightarrow> accountState \<Rightarrow> (Header lru_cache option \<times> accountState) option" where
  "replay_txs hexlow fetch acc [] c s = Some (c, s)"
| "replay_txs hexlow fetch acc (tx # txs) c s =
     (case GetBlockFromLRUCache fetch (Tx_BlockNumber tx) c of None \<Rightarrow> None
      | Some (c', header) \<Rightarrow> replay_txs hexlow fetch acc txs c' (apply_tx hexlow acc tx header s))"

definition zero_state :: "string \<Rightarrow> accountState" where
  "zero_state a = \<lparr>accountState_Address = a, accountState_ComputedBalance = 0,
     accountState_Nonce = 0, accountState_GasSpent = 0\<rparr>"

definition calculateAccountState :: "(bytes \<Rightarrow> string) \<Rightarrow> header_source \<Rightarrow> string \<Rightarrow> DBTransaction list \<Rightarrow>
    Header lru_cache option \<Rightarrow> (Header lru_cache option \<times> accountState) option" where
  "calculateAccountState hexlow fetch accountAddress transactions c =
     replay_txs hexlow fetch (ToLower accountAddress) transactions c (zero_state accountAddress)"

definition with_0x :: "string \<Rightarrow> string" where
  "with_0x a = (if HasPrefix a ''0x'' then a else ''0x'' @ a)"

definition computeAccountUpdate :: "'d AccountManager \<Rightarrow> (bytes \<Rightarrow> string) \<Rightarrow> header_source \<Rightarrow> 'd \<Rightarrow> u64 \<Rightarrow> u64 \<Rightarrow>
    string \<Rightarrow> Header lru_cache option \<Rightarrow> (Header lru_cache option \<times> (recon_error + AccountUpdate)) option" where
  "computeAccountUpdate A hexlow fetch db fromBlock toBlock accountAddress0 c =
     (let accountAddress = with_0x accountAddress0
      in case GetTransactionsForAccountInRange A db accountAddress fromBlock toBlock of
           None \<Rightarrow> Some (c, Inl (TransactionsFailed accountAddress))
         | Some transactions \<Rightarrow>
            (case calculateAccountState hexlow fetch accountAddress transactions c of None \<Rightarrow> None
             | Some (c', state) \<Rightarrow>
                (case GetAccountBalance A db accountAddress of
                   None \<Rightarrow> Some (c', Inl (BalanceFailed accountAddress))
                 | Some (bal, identityNonce) \<Rightarrow>
                    let currentBalance = (case bal of None \<Rightarrow> 0 | Some b \<Rightarrow> b);
                        newBalance = currentBalance + accountState_ComputedBalance state;
                        newBalance' = (if newBalance < 0 then 0 else newBalance)
                    in Some (c', Inr \<lparr>AccountUpdate_Address = accountAddress, AccountUpdate_NewBalance = newBalance',
                         AccountUpdate_Nonce = identityNonce, AccountUpdate_TxNonce = 0,
                         AccountUpdate_TxCountSent = 0, AccountUpdate_IsNewAccount = (bal = None)\<rparr>))))"

definition computeUpdateFromDelta :: "'d AccountManager \<Rightarrow> 'd \<Rightarrow> string \<Rightarrow> AccountDelta \<Rightarrow> recon_error + AccountUpdate" where
  "computeUpdateFromDelta A db addr0 delta =
     (let addr = with_0x addr0
      in case GetAccountBalance A db addr of None \<Rightarrow> Inl (BalanceFailed addr)
         | Some (bal, identityNonce) \<Rightarrow>
            let currentBalance = (case bal of None \<Rightarrow> 0 | Some b \<Rightarrow> b);
                newBalance = currentBalance + AccountDelta_BalanceDelta delta;
                newBalance' = (if newBalance < 0 then 0 else newBalance)
            in Inr \<lparr>AccountUpdate_Address = addr, AccountUpdate_NewBalance = newBalance',
                 AccountUpdate_Nonce = identityNonce, AccountUpdate_TxNonce = AccountDelta_TxNonce delta,
                 AccountUpdate_TxCountSent = AccountDelta_TxCountSent delta,
                 AccountUpdate_IsNewAccount = (bal = None)\<rparr>)"

section \<open>Batches for the workers\<close>

text \<open>The map is iterated in some order \<open>keys\<close>; a batch is closed when it has \<open>batchSize\<close> accounts.\<close>

fun split_loop :: "int \<Rightarrow> string list \<Rightarrow> string list list \<Rightarrow> string list \<Rightarrow> string list list" where
  "split_loop n [] batches cur = (if length cur > 0 then batches @ [cur] else batches)"
| "split_loop n (a # as) batches cur =
     (let cur' = cur @ [a]
      in if int (length cur') \<ge> n then split_loop n as (batches @ [cur']) [] else split_loop n as batches cur')"

definition SplitIntoBatches :: "string list \<Rightarrow> int \<Rightarrow> string list list" where
  "SplitIntoBatches keys batchSize = split_loop batchSize keys [] []"

definition worker_batches :: "string list \<Rightarrow> string list list" where
  "worker_batches keys =
     (let numAccounts = int (length keys);
          numRoutines = min numAccounts (int ATMOST_ACCOUNT_ROUTINES);
          batchSize = (numAccounts + numRoutines - 1) div numRoutines
      in SplitIntoBatches keys batchSize)"

section \<open>The three phases\<close>

record ('l, 'd) recon =
  R_cache :: "Header lru_cache option"
  R_wal :: "'l WAL option"
  R_db :: 'd

text \<open>Phase 1 collects updates and failed accounts in the order the results arrive.\<close>

fun compute_all :: "'d AccountManager \<Rightarrow> (bytes \<Rightarrow> string) \<Rightarrow> header_source \<Rightarrow> 'd \<Rightarrow> u64 \<Rightarrow> u64 \<Rightarrow> string list \<Rightarrow>
    Header lru_cache option \<Rightarrow> AccountUpdate list \<Rightarrow> string list \<Rightarrow>
    (Header lru_cache option \<times> AccountUpdate list \<times> string list) option" where
  "compute_all A hexlow fetch db f t [] c us failed = Some (c, us, failed)"
| "compute_all A hexlow fetch db f t (a # as) c us failed =
     (case computeAccountUpdate A hexlow fetch db f t a c of None \<Rightarrow> None
      | Some (c', Inl e) \<Rightarrow> compute_all A hexlow fetch db f t as c' us (failed @ [a])
      | Some (c', Inr u) \<Rightarrow> compute_all A hexlow fetch db f t as c' (us @ [u]) failed)"

fun delta_all :: "'d AccountManager \<Rightarrow> 'd \<Rightarrow> (string \<Rightarrow> AccountDelta) \<Rightarrow> string list \<Rightarrow>
    AccountUpdate list \<Rightarrow> string list \<Rightarrow> AccountUpdate list \<times> string list" where
  "delta_all A db deltas [] us failed = (us, failed)"
| "delta_all A db deltas (a # as) us failed =
     (case computeUpdateFromDelta A db a (deltas a) of
        Inl e \<Rightarrow> delta_all A db deltas as us (failed @ [a])
      | Inr u \<Rightarrow> delta_all A db deltas as (us @ [u]) failed)"

text \<open>Phase 1.5: \<open>missingIdx\<close> and the loop over the accounts the remote returned.\<close>

fun missing_idx :: "nat \<Rightarrow> AccountUpdate list \<Rightarrow> (string \<rightharpoonup> nat) \<Rightarrow> (string \<rightharpoonup> nat)" where
  "missing_idx i [] m = m"
| "missing_idx i (u # us) m = missing_idx (Suc i) us
     (if AccountUpdate_IsNewAccount u then m(AccountUpdate_Address u \<mapsto> i) else m)"

fun create_loop :: "'d AccountManager \<Rightarrow> (bytes \<Rightarrow> string) \<Rightarrow> (string \<rightharpoonup> nat) \<Rightarrow> RemoteAccount list \<Rightarrow> 'd \<Rightarrow>
    AccountUpdate list \<Rightarrow> 'd \<times> AccountUpdate list" where
  "create_loop A hexlow m [] db us = (db, us)"
| "create_loop A hexlow m (acc # accs) db us =
     (if RemoteAccount_Address acc = [] then create_loop A hexlow m accs db us
      else case m (hexlow (RemoteAccount_Address acc)) of
          None \<Rightarrow> create_loop A hexlow m accs db us
        | Some idx \<Rightarrow>
           (case CreateAccount A (hexlow (RemoteAccount_Address acc)) 0 (RemoteAccount_Nonce acc) db of
              (db', False) \<Rightarrow> create_loop A hexlow m accs db' us
            | (db', True) \<Rightarrow> create_loop A hexlow m accs db'
                (us[idx := (us ! idx)\<lparr>AccountUpdate_IsNewAccount := False\<rparr>])))"

text \<open>\<open>remote\<close> is \<open>None\<close> when no remote was given; it answers \<open>None\<close> on an error or a nil response.\<close>

type_synonym remote = "(string set \<Rightarrow> RemoteAccount list option) option"

definition pre_create :: "'d AccountManager \<Rightarrow> (bytes \<Rightarrow> string) \<Rightarrow> remote \<Rightarrow> 'd \<Rightarrow> AccountUpdate list \<Rightarrow>
    'd \<times> AccountUpdate list" where
  "pre_create A hexlow remote db us =
     (case remote of None \<Rightarrow> (db, us)
      | Some fetchAccounts \<Rightarrow>
         let m = missing_idx 0 us Map.empty
         in if dom m = {} then (db, us)
            else case fetchAccounts (dom m) of None \<Rightarrow> (db, us)
              | Some accs \<Rightarrow> create_loop A hexlow m accs db us)"

definition batch_event :: "i64 \<Rightarrow> AccountUpdate list \<Rightarrow> ReconciliationBatchEvent" where
  "batch_event now us = \<lparr>ReconciliationBatchEvent_Base = empty_BaseEvent,
     ReconciliationBatchEvent_Accounts = map (\<lambda>u. \<lparr>ReconciliationBatchEntry_AccountAddress = AccountUpdate_Address u,
        ReconciliationBatchEntry_NewBalance = show_int (AccountUpdate_NewBalance u),
        ReconciliationBatchEntry_Nonce = AccountUpdate_Nonce u\<rparr>) us,
     ReconciliationBatchEvent_Timestamp = now\<rparr>"

text \<open>Phase 2 writes and flushes the batch event, when there is a WAL.\<close>

definition log_updates :: "'l log_ops \<Rightarrow> (nat \<Rightarrow> fs_env) \<Rightarrow> AccountUpdate list \<Rightarrow> 'l WAL option \<Rightarrow>
    'l WAL option \<times> recon_error option" where
  "log_updates L env us wal = (case wal of None \<Rightarrow> (None, None)
     | Some w \<Rightarrow>
        (case WriteEvent L (env 0) Reconciliation
                (snd (ReconciliationBatchEvent_Serialize (batch_event (env_now (env 0)) us))) w of
           (w1, Inl e) \<Rightarrow> (Some w1, Some (WALWriteFailed e))
         | (w1, Inr _) \<Rightarrow>
            (case Flush L (env 1) w1 of
               (w2, Inl e) \<Rightarrow> (Some w2, Some (WALFlushFailed e))
             | (w2, Inr _) \<Rightarrow> (Some w2, None))))"

type_synonym recon_result = "nat \<times> string list \<times> recon_error option"

text \<open>Phases 2 and 3, and the checkpoint whose failure is only logged.\<close>

definition commit :: "'l log_ops \<Rightarrow> (nat \<Rightarrow> fs_env) \<Rightarrow> 'd AccountManager \<Rightarrow> AccountUpdate list \<Rightarrow>
    ('l, 'd) recon \<Rightarrow> ('l, 'd) recon \<times> recon_result" where
  "commit L env A us r =
     (case log_updates L env us (R_wal r) of
        (wal1, Some e) \<Rightarrow> (r\<lparr>R_wal := wal1\<rparr>, (0, [], Some e))
      | (wal1, None) \<Rightarrow>
         (case BatchUpdateAccounts A us (R_db r) of
            (db', False) \<Rightarrow> (r\<lparr>R_wal := wal1, R_db := db'\<rparr>, (0, [], Some CommitFailed))
          | (db', True) \<Rightarrow>
             let wal2 = map_option (\<lambda>w. fst (CreateCheckpoint L (env 2) w)) wal1
             in (r\<lparr>R_wal := wal2, R_db := db'\<rparr>, (length us, [], None))))"

definition Reconcile :: "'l log_ops \<Rightarrow> (nat \<Rightarrow> fs_env) \<Rightarrow> 'd AccountManager \<Rightarrow> (bytes \<Rightarrow> string) \<Rightarrow> header_source \<Rightarrow>
    remote \<Rightarrow> string list \<Rightarrow> u64 \<Rightarrow> u64 \<Rightarrow> ('l, 'd) recon \<Rightarrow> (('l, 'd) recon \<times> recon_result) option" where
  "Reconcile L env A hexlow fetch remote arrivals fromBlock toBlock r =
     (if arrivals = [] then Some (r, (0, [], None))
      else case compute_all A hexlow fetch (R_db r) fromBlock toBlock arrivals (R_cache r) [] [] of
          None \<Rightarrow> None
        | Some (c, us, failed) \<Rightarrow>
           if failed \<noteq> [] then Some (r\<lparr>R_cache := c\<rparr>, (0, failed, Some (ComputationFailed (length failed))))
           else (case pre_create A hexlow remote (R_db r) us of (db, us') \<Rightarrow>
             Some (commit L env A us' (r\<lparr>R_cache := c, R_db := db\<rparr>))))"

definition ReconcileWithDeltas :: "'l log_ops \<Rightarrow> (nat \<Rightarrow> fs_env) \<Rightarrow> 'd AccountManager \<Rightarrow> (bytes \<Rightarrow> string) \<Rightarrow>
    remote \<Rightarrow> (string \<Rightarrow> AccountDelta) \<Rightarrow> string list \<Rightarrow> ('l, 'd) recon \<Rightarrow> ('l, 'd) recon \<times> recon_result" where
  "ReconcileWithDeltas L env A hexlow remote deltas arrivals r =
     (if arrivals = [] then (r, (0, [], None))
      else case delta_all A (R_db r) deltas arrivals [] [] of (us, failed) \<Rightarrow>
        if failed \<noteq> [] then (r, (0, failed, Some (ComputationFailed (length failed))))
        else (case pre_create A hexlow remote (R_db r) us of (db, us') \<Rightarrow>
          commit L env A us' (r\<lparr>R_db := db\<rparr>)))"

end
