(* ===== verification/FS_Reconcile_Props.thy ===== *)
theory FS_Reconcile_Props
  imports FS_Reconcile FS_LRU_Props FS_Events_Facts FS_WAL_Live
begin

text \<open>
  Properties of the reconciliation: the header cache does not influence the replay, the replay
  conserves value, both ways to compute an update agree, and the order of the phases makes the planned
  updates durable before the database changes.
\<close>

section \<open>The cache is transparent\<close>

definition header_of :: "(u64 list \<Rightarrow> 'h list option) option \<Rightarrow> u64 \<Rightarrow> 'h option" where
  "header_of fetch n = (case fetch of None \<Rightarrow> None | Some f \<Rightarrow> (case f [n] of Some (h # _) \<Rightarrow> Some h | _ \<Rightarrow> None))"

context block_cache
begin

lemma cache_read_coherent:
  assumes "inv s" and co: "\<forall>k h. cached s k = Some h \<longrightarrow> header_of fetch k = Some h"
  shows "\<exists>s'. cache_read get put fetch n (Some s) = Some (Some s', header_of fetch n) \<and> inv s' \<and>
    (\<forall>k h. cached s' k = Some h \<longrightarrow> header_of fetch k = Some h)"
proof -
  from get_ok [OF assms(1), of n] obtain s1 where
    s1: "get n s = Some (s1, cached s n)" "inv s1" "cached s1 = cached s" by blast
  show ?thesis
  proof (cases "cached s n")
    case (Some h)
    with s1 co show ?thesis by (auto simp: cache_read_def)
  next
    case None
    note miss = this
    show ?thesis
    proof (cases "header_of fetch n")
      case None
      then have "cache_read get put fetch n (Some s) = Some (Some s1, None)"
        using s1(1) miss by (auto simp: cache_read_def header_of_def split: option.splits list.splits)
      with None s1 co show ?thesis by simp
    next
      case (Some h)
      then obtain f hs where f: "fetch = Some f" "f [n] = Some (h # hs)"
        by (auto simp: header_of_def split: option.splits list.splits)
      from put_ok [OF s1(2), of n h] obtain s2 where s2: "put n h s1 = Some s2" "inv s2" "cached s2 n = Some h"
        "\<forall>j. j \<noteq> n \<longrightarrow> cached s2 j = cached s1 j \<or> cached s2 j = None" by blast
      have "header_of fetch k = Some h'" if "cached s2 k = Some h'" for k h'
      proof (cases "k = n")
        case True
        with that s2(3) Some show ?thesis by simp
      next
        case False
        with that s2(4) have "cached s1 k = Some h'" by (metis option.distinct(1))
        with s1(3) co show ?thesis by simp
      qed
      with s1 s2 f Some miss show ?thesis by (auto simp: cache_read_def)
    qed
  qed
qed

end

definition coherent :: "header_source \<Rightarrow> Header lru_cache option \<Rightarrow> bool" where
  "coherent fetch c \<longleftrightarrow> (case c of None \<Rightarrow> True
     | Some l \<Rightarrow> lru_inv l \<and> (\<forall>k h. lru_cached l k = Some h \<longrightarrow> header_of fetch k = Some h))"

definition seen_header :: "header_source \<Rightarrow> Header lru_cache option \<Rightarrow> u64 \<Rightarrow> Header option" where
  "seen_header fetch c n = (if c = None then None else header_of fetch n)"

lemma coherent_new: "coherent fetch (Some (NewLRUCache cap))"
  using New_rel by (auto simp: coherent_def lru_inv_def lru_cached_rel [OF New_rel])

lemma GetBlock_coherent:
  assumes "coherent fetch c"
  shows "\<exists>c'. GetBlockFromLRUCache fetch n c = Some (c', seen_header fetch c n) \<and> coherent fetch c' \<and>
    (c' = None \<longleftrightarrow> c = None)"
proof (cases c)
  case None
  then show ?thesis by (simp add: GetBlockFromLRUCache_def cache_read_def seen_header_def coherent_def)
next
  case (Some l)
  with assms lru.cache_read_coherent [of l fetch n] show ?thesis
    by (auto simp: GetBlockFromLRUCache_def seen_header_def coherent_def)
qed

lemma replay_txs_coherent:
  "coherent fetch c \<Longrightarrow> \<exists>c'. replay_txs hexlow fetch a txs c s =
     Some (c', foldl (\<lambda>s tx. apply_tx hexlow a tx (seen_header fetch c (Tx_BlockNumber tx)) s) s txs) \<and>
     coherent fetch c' \<and> (c' = None \<longleftrightarrow> c = None)"
proof (induction txs arbitrary: c s)
  case (Cons tx txs)
  from GetBlock_coherent [OF Cons.prems, of "Tx_BlockNumber tx"] obtain c1 where
    c1: "GetBlockFromLRUCache fetch (Tx_BlockNumber tx) c = Some (c1, seen_header fetch c (Tx_BlockNumber tx))"
      "coherent fetch c1" "c1 = None \<longleftrightarrow> c = None" by blast
  have "seen_header fetch c1 = seen_header fetch c" using c1(3) by (simp add: seen_header_def fun_eq_iff)
  with Cons.IH [OF c1(2)] c1 show ?case by auto
qed simp

text \<open>With a header cache whose entries agree with the header table, replaying an account
  never panics, leaves the cache in agreement, and computes what a replay without any cache
  would: the hits, misses and evictions do not show in the result.\<close>

theorem account_replay_cache_transparent:
  assumes "coherent fetch c"
  shows "\<exists>c'. calculateAccountState hexlow fetch a txs c =
      Some (c', foldl (\<lambda>s tx. apply_tx hexlow (ToLower a) tx (seen_header fetch c (Tx_BlockNumber tx)) s)
        (zero_state a) txs) \<and> coherent fetch c'"
  using replay_txs_coherent [OF assms] unfolding calculateAccountState_def by blast

section \<open>Conservation of value\<close>








definition demo_hex :: "bytes \<Rightarrow> string" where
  "demo_hex b = (if b = [1] then ''0xa'' else if b = [2] then ''0xb'' else ''0xc'')"

definition demo_header :: Header where
  "demo_header = \<lparr>Header_ProofHash = [], Header_Status = [], Header_TxnsRoot = [], Header_Timestamp = 0,
     Header_ExtraData = [], Header_StateRoot = [], Header_CoinbaseAddr = [3], Header_ZkvmAddr = [3],
     Header_PrevHash = [], Header_BlockHash = [], Header_GasLimit = 0, Header_GasUsed = 0,
     Header_BlockNumber = 5, Header_LogsBloom = []\<rparr>"

definition demo_tx :: DBTransaction where
  "demo_tx = \<lparr>Tx_From = Some [1], Tx_To = Some [2], Tx_Value = Some 10, Tx_Type = 0, Tx_Nonce = 7,
     Tx_GasLimit = 3, Tx_GasPrice = Some 5, Tx_MaxFee = None, Tx_MaxPriorityFee = None, Tx_BlockNumber = 5\<rparr>"

lemma demo_coherent: "coherent (Some (\<lambda>_. Some [demo_header])) (Some (NewLRUCache 4))"
  by (rule coherent_new)

theorem account_replay_cache_transparent_witness:
  "\<exists>c' st. calculateAccountState demo_hex (Some (\<lambda>_. Some [demo_header])) ''0xa'' [demo_tx, demo_tx] (Some (NewLRUCache 4)) =
     Some (c', st) \<and> accountState_ComputedBalance st = - 50 \<and> accountState_Nonce st = 7"
proof -
  have low: "ToLower ''0xa'' = ''0xa''" by (simp add: ToLower_def lower_char_def Let_def of_char_Char)
  from account_replay_cache_transparent [OF demo_coherent, of demo_hex "''0xa''" "[demo_tx, demo_tx]"]
  show ?thesis unfolding low
    by (auto simp: seen_header_def header_of_def apply_tx_def demo_tx_def demo_header_def demo_hex_def addr_of_def
        calculateGasCostFromTx_def zero_state_def Let_def)
qed


section \<open>Two ways to an update\<close>

text \<open>The delta path computes the same update as the replay path when the delta's balance is
  the replayed one: same address, clamped balance, stored identity nonce and new-account flag; only the
  transaction counters, which the replay path leaves at zero, differ.\<close>

theorem delta_update_agrees:
  assumes "GetTransactionsForAccountInRange A db (with_0x a) f t = Some txs"
    and "calculateAccountState hexlow fetch (with_0x a) txs c = Some (c', st)"
    and "AccountDelta_BalanceDelta d = accountState_ComputedBalance st"
  shows "computeAccountUpdate A hexlow fetch db f t a c =
    Some (c', map_sum id (\<lambda>u. u\<lparr>AccountUpdate_TxNonce := 0, AccountUpdate_TxCountSent := 0\<rparr>)
      (computeUpdateFromDelta A db a d))"
  using assms by (auto simp: computeAccountUpdate_def computeUpdateFromDelta_def Let_def split: option.splits)

definition demo_mgr :: "bool \<Rightarrow> (string \<rightharpoonup> int \<times> u64) AccountManager" where
  "demo_mgr ok = \<lparr>GetTransactionsForAccountInRange = (\<lambda>db a f t. Some [demo_tx]),
     GetAccountBalance = (\<lambda>db a. Some (case db a of None \<Rightarrow> (None, 0) | Some (b, n) \<Rightarrow> (Some b, n))),
     CreateAccount = (\<lambda>a b n db. (db(a \<mapsto> (b, n)), True)),
     BatchUpdateAccounts = (\<lambda>us db. if ok then (foldl (\<lambda>db u. db(AccountUpdate_Address u \<mapsto>
         (AccountUpdate_NewBalance u, AccountUpdate_Nonce u))) db us, True) else (db, False))\<rparr>"

definition demo_delta :: AccountDelta where
  "demo_delta = \<lparr>AccountDelta_BalanceDelta = -25, AccountDelta_Nonce = 7, AccountDelta_TxNonce = 8,
     AccountDelta_TxCountSent = 1, AccountDelta_IsSender = True\<rparr>"

lemma demo_replay:
  "\<exists>st. calculateAccountState demo_hex None ''0xa'' [demo_tx] None = Some (None, st) \<and>
     accountState_ComputedBalance st = -25"
  by (simp add: calculateAccountState_def GetBlockFromLRUCache_def cache_read_def apply_tx_def zero_state_def
      demo_tx_def demo_hex_def ToLower_def lower_char_def of_char_Char calculateGasCostFromTx_def Let_def)

theorem delta_update_agrees_witness:
  "computeAccountUpdate (demo_mgr True) demo_hex None [''0xa'' \<mapsto> (100, 3)] 0 9 ''0xa'' None =
    Some (None, map_sum id (\<lambda>u. u\<lparr>AccountUpdate_TxNonce := 0, AccountUpdate_TxCountSent := 0\<rparr>)
      (computeUpdateFromDelta (demo_mgr True) [''0xa'' \<mapsto> (100, 3)] ''0xa'' demo_delta))"
proof -
  obtain st where "calculateAccountState demo_hex None (with_0x ''0xa'') [demo_tx] None = Some (None, st)"
    "AccountDelta_BalanceDelta demo_delta = accountState_ComputedBalance st"
    using demo_replay by (auto simp: with_0x_def HasPrefix_def demo_delta_def)
  then show ?thesis by (intro delta_update_agrees) (simp_all add: demo_mgr_def)
qed

section \<open>Worker batches\<close>

lemma split_loop_parts:
  "1 \<le> n \<Longrightarrow> \<forall>b\<in>set batches. int (length b) = n \<Longrightarrow> int (length cur) < n \<Longrightarrow>
   concat (split_loop n keys batches cur) = concat batches @ cur @ keys \<and>
   (\<forall>b\<in>set (split_loop n keys batches cur). b \<noteq> [] \<and> int (length b) \<le> n) \<and>
   (\<forall>b\<in>set (butlast (split_loop n keys batches cur)). int (length b) = n)"
proof (induction keys arbitrary: batches cur)
  case Nil
  then have "b \<noteq> []" "int (length b) \<le> n" if "b \<in> set batches" for b
    using that by force+
  with Nil show ?case by (auto dest: in_set_butlastD)
next
  case (Cons a keys)
  show ?case
  proof (cases "int (length (cur @ [a])) \<ge> n")
    case True
    then have "\<forall>b\<in>set (batches @ [cur @ [a]]). int (length b) = n" using Cons.prems by auto
    from Cons.IH [OF Cons.prems(1) this, of "[]"] Cons.prems(1) True show ?thesis by simp
  next
    case False
    with Cons.IH [OF Cons.prems(1,2), of "cur @ [a]"] show ?thesis by simp
  qed
qed

lemma sum_list_const: "\<forall>b\<in>set bs. length b = n \<Longrightarrow> length (concat bs) = n * length bs"
  by (induction bs) auto

text \<open>The accounts are divided among the workers without loss or duplication: the batches
  concatenate to the accounts, none is empty, and there are at most three.\<close>

theorem worker_batches_partition:
  assumes "keys \<noteq> []"
  shows "concat (worker_batches keys) = keys \<and> [] \<notin> set (worker_batches keys) \<and>
    length (worker_batches keys) \<le> ATMOST_ACCOUNT_ROUTINES"
proof -
  let ?N = "int (length keys)"
  define r where "r = min ?N 3"
  define n where "n = (?N + r - 1) div r"
  have r: "1 \<le> r" "r \<le> 3" "r \<le> ?N" using assms by (auto simp: r_def Suc_le_eq)
  have "r * n + (?N + r - 1) mod r = ?N + r - 1" by (simp add: n_def)
  moreover have "(?N + r - 1) mod r < r" using r by simp
  ultimately have N: "?N \<le> r * n" by linarith
  moreover have "0 < ?N" using r by linarith
  ultimately have "0 < r * n" by linarith
  with r(1) N have n: "1 \<le> n" "?N \<le> r * n" by (simp_all add: zero_less_mult_iff)
  let ?bs = "worker_batches keys"
  have bs: "?bs = split_loop n keys [] []"
    by (simp add: worker_batches_def SplitIntoBatches_def n_def r_def ATMOST_ACCOUNT_ROUTINES_def Let_def)
  have parts: "concat ?bs = keys" "\<forall>b\<in>set ?bs. b \<noteq> []" "\<forall>b\<in>set (butlast ?bs). length b = nat n"
    using split_loop_parts [of n "[]" "[]" keys] n(1) by (auto simp: bs)
  have "length ?bs \<le> 3"
  proof (cases ?bs rule: rev_cases)
    case (snoc cs b)
    then have "length keys = nat n * length cs + length b" "b \<noteq> []"
      using parts sum_list_const [of cs "nat n"] by (metis butlast_snoc concat_append length_append concat.simps append_Nil2, auto)
    then have "n * int (length cs) < ?N" using n(1) by (simp add: nat_0_le)
    then have "n * int (length cs) < n * r" using n(2) by (simp add: mult.commute)
    then have "int (length cs) < 3" using n(1) r(2) by simp
    then show ?thesis using snoc by simp
  qed simp
  with parts show ?thesis by (auto simp: ATMOST_ACCOUNT_ROUTINES_def)
qed

theorem worker_batches_partition_witness:
  "concat (worker_batches [''a'', ''b'', ''c'', ''d'']) = [''a'', ''b'', ''c'', ''d''] \<and>
   length (worker_batches [''a'', ''b'', ''c'', ''d'']) \<le> 3"
  using worker_batches_partition [of "[''a'', ''b'', ''c'', ''d'']"] by (simp add: ATMOST_ACCOUNT_ROUTINES_def)

section \<open>The phases\<close>

lemma compute_all_length:
  "compute_all A hexlow fetch db f t as c us failed = Some (c', us', failed') \<Longrightarrow>
   length us' + length failed' = length as + length us + length failed"
  by (induction as arbitrary: c us failed) (auto split: option.splits sum.splits prod.splits)

lemma create_loop_length: "create_loop A hexlow m accs db us = (db', us') \<Longrightarrow> length us' = length us"
  by (induction accs arbitrary: db us) (auto split: option.splits prod.splits bool.splits if_splits)

lemma pre_create_length: "pre_create A hexlow remote db us = (db', us') \<Longrightarrow> length us' = length us"
  by (auto simp: pre_create_def Let_def split: option.splits if_splits dest: create_loop_length)

text \<open>The entry that phase 2 leaves on disk.\<close>

definition logged :: "('l \<Rightarrow> log_view) \<Rightarrow> AccountUpdate list \<Rightarrow> 'l WAL \<Rightarrow> bool" where
  "logged v us w \<longleftrightarrow> WAL_Buffer w = [] \<and> disk_entries v w \<noteq> [] \<and>
     WALEntry_Type (last (disk_entries v w)) = Reconciliation \<and>
     (\<exists>ev. ReconciliationBatchEvent_Deserialize (WALEntry_Data (last (disk_entries v w)))
         empty_ReconciliationBatchEvent = Some ev \<and>
       map ReconciliationBatchEntry_AccountAddress (ReconciliationBatchEvent_Accounts ev) =
         map AccountUpdate_Address us \<and>
       map ReconciliationBatchEntry_NewBalance (ReconciliationBatchEvent_Accounts ev) =
         map (\<lambda>u. show_int (AccountUpdate_NewBalance u)) us \<and>
       map ReconciliationBatchEntry_Nonce (ReconciliationBatchEvent_Accounts ev) = map AccountUpdate_Nonce us)"

lemma log_updates_logged:
  assumes L: "tidwall_log L v" and ok: "wal_ok v w" and room: "WAL_currentLSN w \<noteq> MaxUint64"
    and l: "log_updates L env us (Some w) = (wal', None)"
  shows "\<exists>w'. wal' = Some w' \<and> logged v us w' \<and> wal_ok v w'"
proof -
  let ?ev = "batch_event (env_now (env 0)) us"
  obtain ev' d where ser: "ReconciliationBatchEvent_Serialize ?ev = (ev', Inr d)"
    and acc: "ReconciliationBatchEvent_Accounts ev' = ReconciliationBatchEvent_Accounts ?ev"
    by (auto simp: ReconciliationBatchEvent_Serialize_def Let_def)
  from l ser obtain w1 lsn w2 where w1: "WriteEvent L (env 0) Reconciliation (Inr d) w = (w1, Inr lsn)"
    and w2: "Flush L (env 1) w1 = (w2, Inr ())" and wal': "wal' = Some w2"
    by (auto simp: log_updates_def split: prod.splits sum.splits)
  from batch_ev.written_flushed [OF L ok room TrueI ser w1 w2] acc show ?thesis
    by (auto simp: wal' logged_def batch_event_def comp_def)
qed

text \<open>C13: Write-ahead, for every outcome of a \<open>Reconcile\<close> with a log whose accounts could be computed: either the log could not be
  written or flushed, then an error is returned and \<open>BatchUpdateAccounts\<close> was not called: the database is the one that phase 1.5 left; or a WAL entry with
  exactly the addresses, balances and identity nonces of the updates, one per account, is the last one on disk, and only then they
  were handed to the database, whose success decides about the error and the checkpoint. When some account could not be
  computed, nothing is logged and nothing is written.\<close>

theorem reconcile_logs_before_commit:
  assumes "tidwall_log L v" and "R_wal r = Some w" and "wal_ok v w" and "WAL_currentLSN w \<noteq> MaxUint64"
    and "arrivals \<noteq> []"
    and "Reconcile L env A hexlow fetch remote arrivals f t r = Some (r', (n, failed, res))"
  shows "\<exists>c us0 bad. compute_all A hexlow fetch (R_db r) f t arrivals (R_cache r) [] [] = Some (c, us0, bad) \<and>
    (if bad \<noteq> [] then R_db r' = R_db r \<and> R_wal r' = R_wal r \<and> n = 0 \<and> failed = bad \<and> res \<noteq> None
     else \<exists>db us. pre_create A hexlow remote (R_db r) us0 = (db, us) \<and> length us = length arrivals \<and> failed = [] \<and>
       (R_db r' = db \<and> n = 0 \<and> (\<exists>e. res = Some (WALWriteFailed e) \<or> res = Some (WALFlushFailed e)) \<or>
        (\<exists>w' ok. logged v us w' \<and> BatchUpdateAccounts A us db = (R_db r', ok) \<and>
           R_wal r' = Some (if ok then fst (CreateCheckpoint L (env 2) w') else w') \<and>
           n = (if ok then length arrivals else 0) \<and> res = (if ok then None else Some CommitFailed))))"
proof -
  from assms(5,6) obtain c us0 bad where
    c: "compute_all A hexlow fetch (R_db r) f t arrivals (R_cache r) [] [] = Some (c, us0, bad)"
    by (auto simp: Reconcile_def split: option.splits)
  show ?thesis
  proof (cases "bad = []")
    case False
    with assms(5,6) c show ?thesis by (intro exI [of _ c] exI [of _ us0] exI [of _ bad]) (auto simp: Reconcile_def)
  next
    case True
    obtain db us where p: "pre_create A hexlow remote (R_db r) us0 = (db, us)" by fastforce
    have len: "length us = length arrivals" using compute_all_length [OF c [unfolded True]] pre_create_length [OF p] by simp
    from assms(5,6) c p True have cm: "commit L env A us (r\<lparr>R_cache := c, R_db := db\<rparr>) = (r', (n, failed, res))"
      by (auto simp: Reconcile_def)
    obtain wal1 e where l: "log_updates L env us (Some w) = (wal1, e)" by fastforce
    obtain db' ok where b: "BatchUpdateAccounts A us db = (db', ok)" by fastforce
    have "R_db r' = db \<and> n = 0 \<and> failed = [] \<and> (\<exists>e. res = Some (WALWriteFailed e) \<or> res = Some (WALFlushFailed e))" if "e \<noteq> None"
      using that cm l assms(2) by (auto simp: commit_def log_updates_def split: prod.splits sum.splits)
    moreover have "\<exists>w'. logged v us w' \<and> R_db r' = db' \<and> R_wal r' = Some (if ok then fst (CreateCheckpoint L (env 2) w') else w') \<and>
        n = (if ok then length arrivals else 0) \<and> failed = [] \<and> res = (if ok then None else Some CommitFailed)" if e: "e = None"
    proof -
      from log_updates_logged [OF assms(1,3,4) l [unfolded e]] obtain w' where w': "wal1 = Some w'" "logged v us w'" by blast
      from cm l b assms(2) e w'(1) len show ?thesis by (intro exI [of _ w']) (auto simp: commit_def w'(2) Let_def split: bool.splits)
    qed
    ultimately show ?thesis using c p len b True
      by (intro exI [of _ c] exI [of _ us0] exI [of _ bad]) (cases e; fastforce)
  qed
qed

text \<open>The documented atomicity of \<open>BatchUpdateAccounts\<close>: a failed batch changes nothing.\<close>

definition atomic_batch :: "'d AccountManager \<Rightarrow> bool" where
  "atomic_batch A \<longleftrightarrow> (\<forall>us db db'. BatchUpdateAccounts A us db = (db', False) \<longrightarrow> db' = db)"

lemma commit_error:
  assumes "atomic_batch A" and "commit L env A us q = (q', (n, failed, Some e))"
  shows "n = 0 \<and> failed = [] \<and> R_db q' = R_db q"
  using assms by (auto simp: commit_def atomic_batch_def Let_def split: prod.splits option.splits bool.splits)

text \<open>C14: An error means an unchanged database when some account could not be computed, and in
  every case when no remote is given.\<close>

theorem reconcile_error_leaves_db:
  assumes "atomic_batch A" and "Reconcile L env A hexlow fetch remote arrivals f t r = Some (r', (n, failed, Some e))"
    and "failed \<noteq> [] \<or> remote = None"
  shows "n = 0 \<and> R_db r' = R_db r"
proof -
  from assms(2) obtain c us bad where
    c: "compute_all A hexlow fetch (R_db r) f t arrivals (R_cache r) [] [] = Some (c, us, bad)"
    by (auto simp: Reconcile_def split: option.splits if_splits)
  show ?thesis
  proof (cases "bad = []")
    case False
    with assms(2) c show ?thesis by (auto simp: Reconcile_def split: if_splits)
  next
    case True
    obtain db us' where p: "pre_create A hexlow remote (R_db r) us = (db, us')" by fastforce
    with True assms(2) c have cm: "commit L env A us' (r\<lparr>R_cache := c, R_db := db\<rparr>) = (r', (n, failed, Some e))"
      by (auto simp: Reconcile_def split: if_splits)
    from commit_error [OF assms(1) cm] assms(3) p show ?thesis by (auto simp: pre_create_def)
  qed
qed

lemma log_updates_reliable:
  assumes L: "tidwall_log L v" and R: "reliable_log L v" and ok: "wal_ok v w"
    and room: "WAL_currentLSN w \<noteq> MaxUint64" and env: "\<forall>k. env_ok (env k)"
  shows "\<exists>w'. log_updates L env us (Some w) = (Some w', None)"
proof -
  obtain ev' d where ser: "ReconciliationBatchEvent_Serialize (batch_event (env_now (env 0)) us) = (ev', Inr d)"
    by (auto simp: ReconciliationBatchEvent_Serialize_def Let_def)
  have e: "env_save_ok (env k)" for k using env by (simp add: env_ok_def)
  from WriteEvent_reliable [OF L R ok e room] obtain w1 lsn where
    w1: "WriteEvent L (env 0) Reconciliation (Inr d) w = (w1, Inr lsn)" by blast
  then have "wal_ok v w1" using WriteEvent_ok [OF L ok room w1] by auto
  from flushBuffer_reliable [OF L R this e [of 1]] w1 ser show ?thesis
    by (auto simp: log_updates_def Flush_def)
qed

definition demo_recon :: "'l WAL option \<Rightarrow> (string \<rightharpoonup> int \<times> u64) \<Rightarrow> ('l, string \<rightharpoonup> int \<times> u64) recon" where
  "demo_recon w db = \<lparr>R_cache = None, R_wal = w, R_db = db\<rparr>"

lemma demo_compute:
  "\<exists>u. compute_all (demo_mgr ok) demo_hex None db f t [''0xa''] None [] [] = Some (None, [u], []) \<and>
     AccountUpdate_Address u = ''0xa'' \<and> AccountUpdate_IsNewAccount u = (db ''0xa'' = None)"
proof -
  obtain st where "calculateAccountState demo_hex None ''0xa'' [demo_tx] None = Some (None, st)"
    using demo_replay by blast
  then show ?thesis
    by (auto simp: computeAccountUpdate_def with_0x_def HasPrefix_def demo_mgr_def Let_def split: option.splits)
qed

theorem reconcile_logs_before_commit_witness:
  "\<exists>r' us w'. Reconcile list_log (\<lambda>_. demo_env) (demo_mgr True) demo_hex None None [''0xa''] 0 9
      (demo_recon (Some demo_wal) [''0xa'' \<mapsto> (100, 3)]) = Some (r', (1, [], None)) \<and> logged norm_log us w' \<and>
      length us = 1"
proof -
  have room: "WAL_currentLSN demo_wal \<noteq> MaxUint64" by (simp add: demo_wal_def)
  let ?r = "demo_recon (Some demo_wal) [''0xa'' \<mapsto> (100, 3)]"
  obtain u where u: "compute_all (demo_mgr True) demo_hex None [''0xa'' \<mapsto> (100, 3)] 0 9 [''0xa''] None [] [] =
      Some (None, [u], [])"
    using demo_compute by blast
  obtain w1 where "log_updates list_log (\<lambda>_. demo_env) [u] (Some demo_wal) = (Some w1, None)"
    using log_updates_reliable [OF tidwall_list_log reliable_list_log wal_ok_demo room, of "\<lambda>_. demo_env"] env_ok_demo
    by blast
  then obtain r' where r': "Reconcile list_log (\<lambda>_. demo_env) (demo_mgr True) demo_hex None None [''0xa''] 0 9 ?r =
      Some (r', (1, [], None))"
    using u by (auto simp: Reconcile_def demo_recon_def pre_create_def commit_def demo_mgr_def [of True] Let_def)
  have "R_wal ?r = Some demo_wal" by (simp add: demo_recon_def)
  from reconcile_logs_before_commit [OF tidwall_list_log this wal_ok_demo room _ r'] u
  have "\<exists>us w'. logged norm_log us w' \<and> length us = 1" by (auto simp: demo_recon_def pre_create_def split: if_splits)
  with r' show ?thesis by blast
qed

theorem reconcile_error_leaves_db_witness:
  "\<exists>r' e. Reconcile list_log (\<lambda>_. demo_env) (demo_mgr False) demo_hex None None [''0xa''] 0 9
      (demo_recon None [''0xa'' \<mapsto> (100, 3)]) = Some (r', (0, [], Some e)) \<and> R_db r' = [''0xa'' \<mapsto> (100, 3)]"
proof -
  let ?r = "demo_recon None [''0xa'' \<mapsto> (100, 3)] :: (log_view, string \<rightharpoonup> int \<times> u64) recon"
  obtain u where u: "compute_all (demo_mgr False) demo_hex None [''0xa'' \<mapsto> (100, 3)] 0 9 [''0xa''] None [] [] =
      Some (None, [u], [])"
    using demo_compute by blast
  then obtain r' where r': "Reconcile list_log (\<lambda>_. demo_env) (demo_mgr False) demo_hex None None [''0xa''] 0 9 ?r =
      Some (r', (0, [], Some CommitFailed))"
    by (auto simp: Reconcile_def demo_recon_def pre_create_def commit_def log_updates_def demo_mgr_def [of False])
  have "atomic_batch (demo_mgr False)" by (simp add: atomic_batch_def demo_mgr_def)
  from reconcile_error_leaves_db [OF this r'] r' show ?thesis by (auto simp: demo_recon_def)
qed

text \<open>With a remote, an error does not mean an unchanged database: the accounts pre-created in
  phase 1.5 stay when the commit that follows fails.\<close>

theorem reconcile_error_mutates_db:
  "\<exists>r' e. atomic_batch (demo_mgr False) \<and>
     Reconcile list_log (\<lambda>_. demo_env) (demo_mgr False) demo_hex None
       (Some (\<lambda>_. Some [\<lparr>RemoteAccount_Address = [1], RemoteAccount_Nonce = 42\<rparr>])) [''0xa''] 0 9
       (demo_recon None Map.empty) = Some (r', (0, [], Some e)) \<and>
     R_db r' = [''0xa'' \<mapsto> (0, 42)]"
proof -
  obtain u where u: "compute_all (demo_mgr False) demo_hex None Map.empty 0 9 [''0xa''] None [] [] = Some (None, [u], [])"
    "AccountUpdate_Address u = ''0xa''" "AccountUpdate_IsNewAccount u"
    using demo_compute [of False Map.empty 0 9] by auto
  have "pre_create (demo_mgr False) demo_hex (Some (\<lambda>_. Some [\<lparr>RemoteAccount_Address = [1], RemoteAccount_Nonce = 42\<rparr>]))
      Map.empty [u] = ([''0xa'' \<mapsto> (0, 42)], [u\<lparr>AccountUpdate_IsNewAccount := False\<rparr>])"
    using u(2,3) by (simp add: pre_create_def demo_hex_def demo_mgr_def Let_def)
  with u(1) show ?thesis
    by (auto simp: Reconcile_def demo_recon_def commit_def log_updates_def atomic_batch_def demo_mgr_def [of False])
qed

end
