(* ===== verification/FS_Float.thy ===== *)
theory FS_Float
  imports FS_Prelude
begin

text \<open>
  The \<open>float64\<close> arithmetic of the block-merge computations: \<open>math.Ceil(float64(n) * c)\<close> for an integer
  \<open>n\<close> and one of the two constants of the source. A \<open>float64\<close> has a significand of 53 bits and rounds to
  nearest, ties to even. Both constants are \<open>C / 2 ^ k\<close> with a 53-bit \<open>C\<close>, every product is far from the
  exponent limits, so the product of \<open>float64(n)\<close> and the constant is the integer \<open>round53 n * C\<close>
  rounded to 53 bits, scaled by \<open>2 ^ k\<close>.
\<close>

fun bits :: "nat \<Rightarrow> nat" where
  "bits n = (if n = 0 then 0 else Suc (bits (n div 2)))"

declare bits.simps [simp del]

definition round53 :: "nat \<Rightarrow> nat" where
  "round53 n =
     (if n < 2 ^ 53 then n
      else let s = bits n - 53; q = n div 2 ^ s; r = n mod 2 ^ s; half = 2 ^ (s - 1)
           in (if r > half \<or> r = half \<and> odd q then q + 1 else q) * 2 ^ s)"

text \<open>\<open>math.Ceil(float64(n) * (C / 2^k))\<close>\<close>

definition ceil_mul :: "nat \<Rightarrow> nat \<Rightarrow> nat \<Rightarrow> nat" where
  "ceil_mul C k n = (round53 (round53 n * C) + (2 ^ k - 1)) div 2 ^ k"

text \<open>The constants \<open>0.05\<close> and \<open>0.005\<close> as \<open>float64\<close> values.\<close>

definition five_percent :: "nat \<Rightarrow> nat" where
  "five_percent = ceil_mul 3602879701896397 56"

definition half_percent :: "nat \<Rightarrow> nat" where
  "half_percent = ceil_mul 5764607523034235 60"

section \<open>Rounding\<close>

lemma bits_bounds: "n > 0 \<Longrightarrow> bits n > 0 \<and> 2 ^ (bits n - 1) \<le> n \<and> n < 2 ^ bits n"
proof (induction n rule: bits.induct)
  case (1 n)
  have b: "bits n = Suc (bits (n div 2))" using 1 by (simp add: bits.simps [of n])
  show ?case
  proof (cases "n div 2 = 0")
    case True
    then have "n = 1" using 1(2) by simp
    then show ?thesis using b by (simp add: bits.simps [of 0])
  next
    case False
    from 1(1) False have IH: "bits (n div 2) > 0" "2 ^ (bits (n div 2) - 1) \<le> n div 2" "n div 2 < 2 ^ bits (n div 2)"
      using 1(2) by auto
    obtain k where k: "bits (n div 2) = Suc k" using IH(1) by (metis gr0_implies_Suc)
    show ?thesis using IH unfolding b k by (simp, linarith)
  qed
qed

lemma bits_unique: "2 ^ k \<le> n \<Longrightarrow> n < 2 ^ Suc k \<Longrightarrow> bits n = Suc k"
proof -
  assume a: "2 ^ k \<le> n" "n < 2 ^ Suc k"
  then have "n > 0" by (metis less_le_trans zero_less_numeral zero_less_power)
  note b = bits_bounds [OF this]
  have "(2 :: nat) ^ k < 2 ^ bits n" "(2 :: nat) ^ (bits n - 1) < 2 ^ Suc k" using a b by linarith+
  then have "k < bits n" "bits n - 1 < Suc k" by (simp_all only: power_strict_increasing_iff one_less_numeral_iff semiring_norm)
  then show ?thesis by simp
qed

lemma round53_small [simp]: "n < 2 ^ 53 \<Longrightarrow> round53 n = n"
  by (simp add: round53_def)

lemma round53_div_mod:
  assumes "2 ^ 53 \<le> n" and s: "s = bits n - 53"
  shows "round53 n = (if n mod 2 ^ s > 2 ^ (s - 1) \<or> n mod 2 ^ s = 2 ^ (s - 1) \<and> odd (n div 2 ^ s)
    then n div 2 ^ s + 1 else n div 2 ^ s) * 2 ^ s"
  using assms by (simp add: round53_def Let_def not_less)

text \<open>The rounding error is at most half a unit in the last place.\<close>

lemma round53_error:
  assumes "n < 2 ^ (53 + t)" "t \<ge> 1"
  shows "round53 n \<le> n + 2 ^ (t - 1)" "n \<le> round53 n + 2 ^ (t - 1)"
proof -
  have "round53 n \<le> n + 2 ^ (t - 1) \<and> n \<le> round53 n + 2 ^ (t - 1)"
  proof (cases "n < 2 ^ 53")
    case False
    define s where "s = bits n - 53"
    have n: "2 ^ (bits n - 1) \<le> n" "n < 2 ^ bits n" using bits_bounds [of n] False by auto
    have "(2 :: nat) ^ 53 < 2 ^ bits n" "(2 :: nat) ^ (bits n - 1) < 2 ^ (53 + t)" using n False assms(1) by linarith+
    then have "53 < bits n" "bits n - 1 < 53 + t"
      by (simp_all only: power_strict_increasing_iff one_less_numeral_iff semiring_norm)
    then have s: "1 \<le> s" "s \<le> t" by (simp_all add: s_def)
    define h :: nat where "h = 2 ^ (s - 1)"
    have h: "2 ^ s = 2 * h" using s(1) by (cases s) (simp_all add: h_def)
    have ht: "h \<le> 2 ^ (t - 1)" using s(2) by (simp add: h_def)
    have dm: "n = n div 2 ^ s * 2 ^ s + n mod 2 ^ s" by (rule div_mod_decomp)
    have lt: "n mod 2 ^ s < 2 * h" by (simp flip: h)
    show ?thesis
    proof (cases "n mod 2 ^ s > h \<or> n mod 2 ^ s = h \<and> odd (n div 2 ^ s)")
      case True
      then have "round53 n = (n div 2 ^ s + 1) * 2 ^ s"
        using round53_div_mod [OF _ s_def] False by (simp add: h_def)
      moreover have "h \<le> n mod 2 ^ s" using True by auto
      ultimately show ?thesis using dm lt ht h by (simp add: algebra_simps)
    next
      case c: False
      then have "round53 n = n div 2 ^ s * 2 ^ s"
        using round53_div_mod [OF _ s_def] False by (simp add: h_def)
      moreover have "n mod 2 ^ s \<le> h" using c by auto
      ultimately show ?thesis using dm ht by linarith
    qed
  qed simp
  then show "round53 n \<le> n + 2 ^ (t - 1)" "n \<le> round53 n + 2 ^ (t - 1)" by simp_all
qed

lemma round53_down:
  assumes "bits n = 53 + Suc s" "n = a * 2 ^ Suc s + r" "r < 2 ^ s"
  shows "round53 n = a * 2 ^ Suc s"
proof -
  have "n \<ge> 2 ^ 53"
  proof -
    have "n > 0" using assms(1) by (auto simp: bits.simps [of 0] intro: gr0I)
    from bits_bounds [OF this] have "2 ^ (53 + s) \<le> n" using assms(1) by simp
    moreover have "(2 :: nat) ^ 53 \<le> 2 ^ (53 + s)" by (rule power_increasing) simp_all
    ultimately show ?thesis by linarith
  qed
  moreover have "n mod 2 ^ Suc s = r" "n div 2 ^ Suc s = a" using assms(2,3) by simp_all
  ultimately show ?thesis using round53_div_mod [of n "Suc s"] assms(1,3) by simp
qed

section \<open>The percentages of a 32-bit count are exact\<close>

lemma ceil_div:
  assumes "q * d < m" "m \<le> (q + 1) * d" "d > (0 :: nat)"
  shows "(m + (d - 1)) div d = q + 1"
proof -
  have "(q + 1) * d \<le> m + (d - 1)" "m + (d - 1) < (q + 2) * d" using assms by (auto simp: algebra_simps)
  then show ?thesis by (metis add.commute add_Suc_right div_nat_eqI mult.commute one_add_one plus_1_eq_Suc)
qed

lemma div_round_down: "d > (0 :: nat) \<Longrightarrow> (d * q + (d - 1)) div d = q"
  by (rule div_nat_eqI) simp_all

text \<open>
  \<open>C / 2 ^ k\<close> is just above \<open>1 / d\<close>. On a multiple of \<open>d\<close> the product exceeds an integer by less than half a unit
  in the last place, so it is rounded down to it; elsewhere it stays clear of the integers.
\<close>

lemma ceil_mul_multiple:
  assumes dC: "d * C = 2 ^ k + e" and e: "e \<le> 2 ^ (k - 54)" and k: "54 \<le> k" and dq: "d * q < 2 ^ 53"
  shows "ceil_mul C k (d * q) = q"
proof (cases "q = 0")
  case False
  define b where "b = bits q"
  have q: "b > 0" "2 ^ (b - 1) \<le> q" "q < 2 ^ b" using bits_bounds [of q] False by (auto simp: b_def)
  have "d > 0" using dC by (auto intro: gr0I)
  then have "q \<le> d * q" by simp
  then have "(2 :: nat) ^ (b - 1) < 2 ^ 53" using q(2) dq by linarith
  then have b53: "b \<le> 53" by (simp only: power_strict_increasing_iff one_less_numeral_iff semiring_norm)
  define n where "n = q * 2 ^ k + e * q"
  have P: "round53 (d * q) * C = n"
  proof -
    have "round53 (d * q) * C = q * (d * C)" unfolding round53_small [OF dq] by (simp only: ac_simps)
    then show ?thesis unfolding dC n_def by (simp add: algebra_simps)
  qed
  have eq: "e * q < 2 ^ (k - 54 + b)"
  proof -
    have "e * q \<le> 2 ^ (k - 54) * q" using e by simp
    also have "\<dots> < 2 ^ (k - 54) * 2 ^ b" using q(3) by simp
    finally show ?thesis by (simp add: power_add)
  qed
  have eqk: "e * q < 2 ^ k"
    using eq power_increasing [of "k - 54 + b" k "2 :: nat"] b53 k by linarith
  have "2 ^ (k + b - 1) \<le> n"
  proof -
    have "k + b - 1 = (b - 1) + k" using q(1) by simp
    then have "(2 :: nat) ^ (k + b - 1) = 2 ^ (b - 1) * 2 ^ k" by (simp only: power_add)
    also have "\<dots> \<le> q * 2 ^ k" using q(2) by simp
    finally show ?thesis by (simp add: n_def)
  qed
  moreover have "n < 2 ^ Suc (k + b - 1)"
  proof -
    have "n < (q + 1) * 2 ^ k" using eqk by (simp add: n_def)
    also have "\<dots> \<le> 2 ^ b * 2 ^ k" using q(3) by (metis Suc_eq_plus1 Suc_leI mult_le_mono1)
    also have "\<dots> = 2 ^ Suc (k + b - 1)" using q(1) by (simp flip: power_add add: add.commute)
    finally show ?thesis .
  qed
  ultimately have "bits n = Suc (k + b - 1)" by (rule bits_unique)
  then have bits: "bits n = 53 + Suc (k - 54 + b)" using q(1) k by simp
  have pk: "(2 :: nat) ^ k = 2 ^ (53 - b) * 2 ^ Suc (k - 54 + b)"
  proof -
    have "k = (53 - b) + Suc (k - 54 + b)" using b53 k by simp
    then show ?thesis by (metis power_add)
  qed
  then have split: "n = (q * 2 ^ (53 - b)) * 2 ^ Suc (k - 54 + b) + e * q" by (simp only: n_def mult.assoc)
  from round53_down [OF bits split eq] have "round53 n = q * 2 ^ k" by (simp only: pk mult.assoc)
  then have "ceil_mul C k (d * q) = (2 ^ k * q + (2 ^ k - 1)) div 2 ^ k" unfolding ceil_mul_def P by (simp only: mult.commute)
  also have "\<dots> = q" by (rule div_round_down) simp
  finally show ?thesis .
qed (simp add: ceil_mul_def)

lemma ceil_mul_exact:
  assumes dC: "d * C = 2 ^ k + e" and e: "e \<le> 2 ^ (k - 54)" and k: "54 \<le> k"
    and C: "C < 2 ^ 53" "e * 2 ^ 32 + e + 2 ^ 31 < C" and n: "n < 2 ^ 32"
  shows "ceil_mul C k n = (n + (d - 1)) div d"
proof -
  have d: "d > 0" using dC by (auto intro: gr0I)
  define q r where "q = n div d" and "r = n mod d"
  have nqr: "n = d * q + r" "r < d" using d by (simp_all add: q_def r_def)
  have q: "q < 2 ^ 32" using n by (simp add: q_def) (metis d div_le_dividend le_less_trans)
  show ?thesis
  proof (cases "r = 0")
    case True
    then have "d * q < 2 ^ 53" using nqr(1) n by simp
    note ceil_mul_multiple [OF dC e k this]
    moreover have "(d * q + (d - 1)) div d = q" using d by (rule div_round_down)
    ultimately show ?thesis using True nqr(1) by simp
  next
    case False
    define p where "p = n * C"
    have P: "round53 n * C = p" using n by (simp add: p_def)
    have "p \<le> n * 2 ^ 53" using C(1) by (simp add: p_def)
    also have "\<dots> < 2 ^ 32 * 2 ^ 53" using n by simp
    finally have "p < 2 ^ (53 + 32)" by simp
    note err = round53_error [OF this]
    have p: "p = q * 2 ^ k + e * q + r * C"
    proof -
      have "p = q * (d * C) + r * C" unfolding p_def by (subst nqr(1)) (simp add: algebra_simps)
      then show ?thesis unfolding dC by (simp add: algebra_simps)
    qed
    have "C \<le> r * C" using False by simp
    moreover have "r * C + C \<le> 2 ^ k + e" using nqr(2) by (metis Suc_leI add.commute dC mult_Suc mult_le_mono1)
    moreover have "e * q \<le> e * 2 ^ 32" using q by simp
    moreover have "(q + 1) * 2 ^ k = q * 2 ^ k + 2 ^ k" by simp
    moreover have "p \<le> round53 p + 2 ^ 31" "round53 p \<le> p + 2 ^ 31" using err by simp_all
    ultimately have "q * 2 ^ k < round53 p" "round53 p \<le> (q + 1) * 2 ^ k" using p C(2) by linarith+
    then have "(round53 p + (2 ^ k - 1)) div 2 ^ k = q + 1" by (rule ceil_div) simp
    then have "ceil_mul C k n = q + 1" by (simp only: ceil_mul_def P)
    moreover have "(n + (d - 1)) div d = q + 1"
      by (rule ceil_div [OF _ _ d]) (use nqr False in \<open>simp_all add: algebra_simps\<close>)
    ultimately show ?thesis by simp
  qed
qed

lemma five_percent_exact: "n < 2 ^ 32 \<Longrightarrow> five_percent n = (n + 19) div 20"
  using ceil_mul_exact [of 20 3602879701896397 56 4 n] by (simp add: five_percent_def)

lemma half_percent_exact: "n < 2 ^ 32 \<Longrightarrow> half_percent n = (n + 199) div 200"
  using ceil_mul_exact [of 200 5764607523034235 60 24 n] by (simp add: half_percent_def)

end
