(* ===== verification/FS_Merkle.thy ===== *)
theory FS_Merkle
  imports FS_Types FS_Float
begin

text \<open>
  \<open>helper/merkle/merkle_converter.go\<close> and \<open>core/protocol/merkle/merkle.go\<close>: the conversion of tree
  snapshots to and from their messages, and the construction of a Merkle tree over a block range.

  The tree library (\<open>JMDN_Merkletree/merkletree\<close>) is not part of the repository: its builder is the type \<open>'t\<close>
  and its operations are the parameter \<open>M\<close>. \<open>Push\<close> and \<open>Finalize\<close> return the builder they may have changed;
  the other operations read it. The snapshot structures are the library's, with the fields the converter
  names. An error is its text; a nil dereference is the outer \<open>None\<close>. Memory is unbounded.
\<close>

section \<open>The library's data\<close>

text \<open>A pointer to a \<open>SnapshotNode\<close> is a value of the datatype, \<open>nil_node\<close> for nil.\<close>

datatype SnapshotNode =
    nil_node
  | snap_node (sn_Left: SnapshotNode) (sn_Right: SnapshotNode) (sn_Root: bytes) (sn_Start: u64)
      (sn_Count: u32) (sn_Data: bytes) (sn_HasData: bool)

record SnapshotConfig =
  Config_BlockMerge :: i64
  Config_ExpectedTotal :: u64

record MerkleTreeSnapshot =
  Snapshot_Version :: i64
  Snapshot_Config :: SnapshotConfig
  Snapshot_TotalBlocks :: u64
  Snapshot_ExpectedNextHeight :: u64
  Snapshot_EnforceHeights :: bool
  Snapshot_InChunkElems :: "bytes list"
  Snapshot_InChunkStart :: u64
  Snapshot_Peaks :: "SnapshotNode list"

text \<open>A tree node as \<open>RootNode\<close> returns it: its left and right child and its metadata.\<close>

datatype tree_node =
    no_node
  | tree_node (tn_Left: tree_node) (tn_Right: tree_node) (tn_Start: u64) (tn_Count: u32)

record 't merkle_ops =
  NewBuilder :: "SnapshotConfig \<Rightarrow> string + 't"
  Push :: "u64 \<Rightarrow> bytes list \<Rightarrow> 't \<Rightarrow> 't \<times> string option"
  Finalize :: "'t \<Rightarrow> 't \<times> (string + bytes)"
  ToSnapshot_lib :: "'t \<Rightarrow> MerkleTreeSnapshot"
  FromSnapshot :: "MerkleTreeSnapshot option \<Rightarrow> string + 't"
  TreeDiff :: "'t \<Rightarrow> 't \<Rightarrow> string + (u64 \<times> u32) list"
  RootNode :: "'t \<Rightarrow> string + tree_node"

section \<open>merkle_converter.go\<close>

definition sentinel :: SnapshotNode_pb where
  "sentinel = pb_node pb_nil pb_nil [] 0 0 [] False"

fun snapshotNodeToProto :: "SnapshotNode \<Rightarrow> SnapshotNode_pb" where
  "snapshotNodeToProto nil_node = sentinel"
| "snapshotNodeToProto (snap_node l r root start cnt data has) =
     pb_node (snapshotNodeToProto l) (snapshotNodeToProto r) root start cnt data has"

definition snapshotNodesToProto :: "SnapshotNode list \<Rightarrow> SnapshotNode_pb list" where
  "snapshotNodesToProto nodes = map (\<lambda>n. if n = nil_node then sentinel else snapshotNodeToProto n) nodes"

definition MerkleSnapshotToProto :: "MerkleTreeSnapshot option \<Rightarrow> MerkleSnapshot option" where
  "MerkleSnapshotToProto snap = (case snap of None \<Rightarrow> None
     | Some m \<Rightarrow> Some \<lparr>MerkleSnapshot_Version = ucast (Snapshot_Version m),
         MerkleSnapshot_Config = Some \<lparr>pbConfig_BlockMerge = ucast (Config_BlockMerge (Snapshot_Config m)),
           pbConfig_ExpectedTotal = Config_ExpectedTotal (Snapshot_Config m)\<rparr>,
         MerkleSnapshot_TotalBlocks = Snapshot_TotalBlocks m,
         MerkleSnapshot_ExpectedNextHeight = Snapshot_ExpectedNextHeight m,
         MerkleSnapshot_EnforceHeights = Snapshot_EnforceHeights m,
         MerkleSnapshot_InChunkElems = Snapshot_InChunkElems m,
         MerkleSnapshot_InChunkStart = Snapshot_InChunkStart m,
         MerkleSnapshot_Peaks = snapshotNodesToProto (Snapshot_Peaks m)\<rparr>)"

fun protoToSnapshotNode :: "SnapshotNode_pb \<Rightarrow> SnapshotNode" where
  "protoToSnapshotNode pb_nil = nil_node"
| "protoToSnapshotNode (pb_node l r root start cnt data has) =
     (if length root \<noteq> 32 then nil_node
      else snap_node (protoToSnapshotNode l) (protoToSnapshotNode r) root start cnt data has)"

definition protoToSnapshotNodes :: "SnapshotNode_pb list \<Rightarrow> SnapshotNode list" where
  "protoToSnapshotNodes nodes = map protoToSnapshotNode nodes"

text \<open>A message without a \<open>Config\<close> panics.\<close>

definition ProtoToMerkleSnapshot :: "MerkleSnapshot option \<Rightarrow> MerkleTreeSnapshot option option" where
  "ProtoToMerkleSnapshot snap = (case snap of None \<Rightarrow> Some None
     | Some m \<Rightarrow> (case MerkleSnapshot_Config m of None \<Rightarrow> None
        | Some c \<Rightarrow> Some (Some \<lparr>Snapshot_Version = scast (MerkleSnapshot_Version m),
            Snapshot_Config = \<lparr>Config_BlockMerge = scast (pbConfig_BlockMerge c),
              Config_ExpectedTotal = pbConfig_ExpectedTotal c\<rparr>,
            Snapshot_TotalBlocks = MerkleSnapshot_TotalBlocks m,
            Snapshot_ExpectedNextHeight = MerkleSnapshot_ExpectedNextHeight m,
            Snapshot_EnforceHeights = MerkleSnapshot_EnforceHeights m,
            Snapshot_InChunkElems = MerkleSnapshot_InChunkElems m,
            Snapshot_InChunkStart = MerkleSnapshot_InChunkStart m,
            Snapshot_Peaks = protoToSnapshotNodes (MerkleSnapshot_Peaks m)\<rparr>)))"

section \<open>merkle.go: building a tree\<close>

text \<open>The batch size the iterator is created with.\<close>

definition iterator_batch :: nat where "iterator_batch = 1000"

definition zero_hash :: bytes where "zero_hash = replicate 32 0"

text \<open>\<open>make([]merkletree.Hash32, gapSize)\<close>\<close>

definition padding :: "u64 \<Rightarrow> bytes list" where
  "padding gapSize = replicate (unat gapSize) zero_hash"

definition GenerateMerkleConfig :: "u64 \<Rightarrow> u64 \<Rightarrow> SnapshotConfig" where
  "GenerateMerkleConfig startBlock endBlock =
     \<lparr>Config_BlockMerge = word_of_nat (half_percent (unat (endBlock - startBlock + 1))),
      Config_ExpectedTotal = endBlock - startBlock + 1\<rparr>"

text \<open>The inner loop over one batch: fill the gap before a block with zero hashes, then push the block.\<close>

fun push_blocks :: "'t merkle_ops \<Rightarrow> unit ZKBlock list \<Rightarrow> u64 \<Rightarrow> 't \<Rightarrow> string + u64 \<times> 't" where
  "push_blocks M [] expected b = Inr (expected, b)"
| "push_blocks M (block # blocks) expected b =
     (case (if ZKBlock_BlockNumber block > expected
            then Push M expected (padding (ZKBlock_BlockNumber block - expected)) b else (b, None)) of
        (b1, Some err) \<Rightarrow> Inl (''failed to push padding for gap: '' @ err)
      | (b1, None) \<Rightarrow>
         (case Push M (ZKBlock_BlockNumber block) [ZKBlock_BlockHash block] b1 of
            (b2, Some err) \<Rightarrow> Inl (''failed to push block '' @ show_nat (unat (ZKBlock_BlockNumber block)) @ '': '' @ err)
          | (b2, None) \<Rightarrow> push_blocks M blocks (ZKBlock_BlockNumber block + 1) b2))"

fun push_batches :: "'t merkle_ops \<Rightarrow> (string + unit ZKBlock list) list \<Rightarrow> u64 \<Rightarrow> 't \<Rightarrow> string + u64 \<times> 't" where
  "push_batches M [] expected b = Inr (expected, b)"
| "push_batches M (Inl err # bs) expected b = Inl (''failed to retrieve blocks: '' @ err)"
| "push_batches M (Inr blocks # bs) expected b =
     (case push_blocks M blocks expected b of Inl e \<Rightarrow> Inl e
      | Inr (expected', b') \<Rightarrow> push_batches M bs expected' b')"

definition push_trailing :: "'t merkle_ops \<Rightarrow> u64 \<Rightarrow> u64 \<Rightarrow> 't \<Rightarrow> string + 't" where
  "push_trailing M expected endBlock b =
     (if expected \<le> endBlock
      then (case Push M expected (padding (endBlock - expected + 1)) b of
          (b1, Some err) \<Rightarrow> Inl (''failed to push trailing padding: '' @ err)
        | (b1, None) \<Rightarrow> Inr b1)
      else Inr b)"

text \<open>The common body of the two generators, from the configuration on.\<close>

definition build_tree :: "'t merkle_ops \<Rightarrow> 'b BlockInfo \<Rightarrow> SnapshotConfig \<Rightarrow> u64 \<Rightarrow> u64 \<Rightarrow> string + 't" where
  "build_tree M B cfg startBlock endBlock =
     (case NewBuilder M cfg of Inl err \<Rightarrow> Inl (''failed to create builder: '' @ err)
      | Inr b0 \<Rightarrow>
         (case push_batches M (NewBlockIterator B startBlock endBlock iterator_batch) startBlock b0 of Inl e \<Rightarrow> Inl e
          | Inr (expected, b1) \<Rightarrow>
             (case push_trailing M expected endBlock b1 of Inl e \<Rightarrow> Inl e
              | Inr b2 \<Rightarrow>
                 (case Finalize M b2 of
                    (b3, Inl err) \<Rightarrow> Inl (''failed to finalize merkle tree: '' @ err)
                  | (b3, Inr _) \<Rightarrow> Inr b3))))"

definition range_error :: "u64 \<Rightarrow> u64 \<Rightarrow> string" where
  "range_error startBlock endBlock = ''endBlock ('' @ show_nat (unat endBlock) @
     '') cannot be less than startBlock ('' @ show_nat (unat startBlock) @ '')''"

definition GenerateMerkleTree :: "'t merkle_ops \<Rightarrow> 'b BlockInfo \<Rightarrow> u64 \<Rightarrow> u64 \<Rightarrow> string + 't" where
  "GenerateMerkleTree M B startBlock endBlock =
     (if endBlock \<noteq> MaxUint64 \<and> endBlock < startBlock then Inl (range_error startBlock endBlock)
      else let e = (if endBlock = MaxUint64 then GetBlockNumber B else endBlock)
           in build_tree M B \<lparr>Config_BlockMerge = word_of_nat (half_percent (unat (e - startBlock + 1))),
                Config_ExpectedTotal = e - startBlock + 1\<rparr> startBlock e)"

text \<open>Only the \<open>BlockMerge\<close> of the given configuration is used.\<close>

definition GenerateMerkleTreeWithConfig :: "'t merkle_ops \<Rightarrow> 'b BlockInfo \<Rightarrow> u64 \<Rightarrow> u64 \<Rightarrow> SnapshotConfig \<Rightarrow> string + 't" where
  "GenerateMerkleTreeWithConfig M B startBlock endBlock config =
     (if endBlock \<noteq> MaxUint64 \<and> endBlock < startBlock then Inl (range_error startBlock endBlock)
      else let e = (if endBlock = MaxUint64 then GetBlockNumber B else endBlock)
           in build_tree M B \<lparr>Config_BlockMerge = Config_BlockMerge config,
                Config_ExpectedTotal = e - startBlock + 1\<rparr> startBlock e)"

definition ReconstructTree :: "'t merkle_ops \<Rightarrow> MerkleTreeSnapshot option \<Rightarrow> string + 't" where
  "ReconstructTree M snap = (case FromSnapshot M snap of
     Inl err \<Rightarrow> Inl (''failed to restore builder from snapshot: '' @ err) | Inr b \<Rightarrow> Inr b)"

fun convertSnapshotNode :: "SnapshotNode \<Rightarrow> SnapshotNode_pb" where
  "convertSnapshotNode nil_node = pb_nil"
| "convertSnapshotNode (snap_node l r root start cnt data has) =
     pb_node (convertSnapshotNode l) (convertSnapshotNode r) root start cnt data has"

definition ToSnapshot :: "'t merkle_ops \<Rightarrow> 't \<Rightarrow> string + MerkleSnapshot" where
  "ToSnapshot M b = (let s = ToSnapshot_lib M b in Inr
     \<lparr>MerkleSnapshot_Version = ucast (Snapshot_Version s),
      MerkleSnapshot_Config = Some \<lparr>pbConfig_BlockMerge = ucast (Config_BlockMerge (Snapshot_Config s)),
        pbConfig_ExpectedTotal = Config_ExpectedTotal (Snapshot_Config s)\<rparr>,
      MerkleSnapshot_TotalBlocks = Snapshot_TotalBlocks s,
      MerkleSnapshot_ExpectedNextHeight = Snapshot_ExpectedNextHeight s,
      MerkleSnapshot_EnforceHeights = Snapshot_EnforceHeights s,
      MerkleSnapshot_InChunkElems = Snapshot_InChunkElems s,
      MerkleSnapshot_InChunkStart = Snapshot_InChunkStart s,
      MerkleSnapshot_Peaks = map convertSnapshotNode (Snapshot_Peaks s)\<rparr>)"

end
