(* ===== verification/FS_Merkle_Props.thy ===== *)
theory FS_Merkle_Props
  imports FS_Merkle
begin

text \<open>
  Correctness of the Merkle component. A snapshot survives the conversion to a message and back. The tree
  generated over a block range commits to exactly one leaf per block number of the range, in order: the
  hash of the block, or the zero hash where the store has none.

  What the tree library is relied on for is \<open>merkle_law\<close>: \<open>commits t f\<close> says that the tree \<open>t\<close> was built from the
  leaves \<open>f\<close>, and it is a parameter of every statement.
\<close>

section \<open>Snapshots\<close>

fun roots_ok :: "SnapshotNode \<Rightarrow> bool" where
  "roots_ok nil_node = True"
| "roots_ok (snap_node l r root start cnt data has) = (length root = 32 \<and> roots_ok l \<and> roots_ok r)"

text \<open>A snapshot that can be transmitted: 32-byte roots, and the two \<open>int\<close> fields fit \<open>int32\<close>.\<close>

definition fits_int32 :: "i64 \<Rightarrow> bool" where
  "fits_int32 w \<longleftrightarrow> - (2 ^ 31) \<le> sint w \<and> sint w < 2 ^ 31"

definition wf_snapshot :: "MerkleTreeSnapshot \<Rightarrow> bool" where
  "wf_snapshot m \<longleftrightarrow> fits_int32 (Snapshot_Version m) \<and> fits_int32 (Config_BlockMerge (Snapshot_Config m)) \<and>
     list_all roots_ok (Snapshot_Peaks m)"

lemma scast_ucast_int32: "fits_int32 w \<Longrightarrow> scast (ucast w :: i32) = w"
proof -
  assume "fits_int32 w"
  then have "signed_take_bit 31 (sint w) = sint w"
    by (intro signed_take_bit_int_eq_self) (auto simp: fits_int32_def)
  moreover have "signed_take_bit 31 (sint w) = signed_take_bit 31 (uint w)" by (simp add: sint_uint)
  ultimately have "sint (ucast w :: i32) = sint w" by (simp add: signed_ucast_eq)
  then show ?thesis by (simp add: scast_eq)
qed

lemma protoToSnapshotNode_sentinel [simp]: "protoToSnapshotNode sentinel = nil_node"
  by (simp add: sentinel_def)

lemma node_roundtrip: "roots_ok n \<Longrightarrow> protoToSnapshotNode (snapshotNodeToProto n) = n"
  by (induction n) auto

lemma convert_roundtrip: "roots_ok n \<Longrightarrow> protoToSnapshotNode (convertSnapshotNode n) = n"
  by (induction n) auto

lemma nodes_roundtrip:
  assumes "list_all roots_ok ns"
  shows "protoToSnapshotNodes (snapshotNodesToProto ns) = ns" "protoToSnapshotNodes (map convertSnapshotNode ns) = ns"
  using assms by (induction ns) (auto simp: protoToSnapshotNodes_def snapshotNodesToProto_def node_roundtrip convert_roundtrip)

lemma ProtoToMerkleSnapshot_decodes:
  assumes "wf_snapshot m"
  shows "ProtoToMerkleSnapshot (MerkleSnapshotToProto (Some m)) = Some (Some m)"
    and "ToSnapshot_lib M t = m \<Longrightarrow> ToSnapshot M t = Inr s \<Longrightarrow> ProtoToMerkleSnapshot (Some s) = Some (Some m)"
  using assms by (auto simp: ProtoToMerkleSnapshot_def MerkleSnapshotToProto_def ToSnapshot_def Let_def wf_snapshot_def
      scast_ucast_int32 nodes_roundtrip)

section \<open>The leaves of a generated tree\<close>

text \<open>The \<open>k\<close> heights from \<open>s\<close> on.\<close>

definition heights :: "u64 \<Rightarrow> nat \<Rightarrow> u64 list" where
  "heights s k = map (\<lambda>i. s + of_nat i) [0 ..< k]"

text \<open>
  The documented behaviour of the builder: a new one has no leaf, \<open>Push s hs\<close> adds \<open>hs\<close> at the heights from
  \<open>s\<close> on, \<open>Finalize\<close> does not change the leaves. \<open>accepts_next\<close>: it refuses no push at the next height.
\<close>

definition merkle_law :: "'t merkle_ops \<Rightarrow> ('t \<Rightarrow> (u64 \<rightharpoonup> bytes) \<Rightarrow> bool) \<Rightarrow> bool" where
  "merkle_law M commits \<longleftrightarrow>
     (\<forall>cfg b. NewBuilder M cfg = Inr b \<longrightarrow> commits b Map.empty) \<and>
     (\<forall>b f s hs b'. commits b f \<longrightarrow> Push M s hs b = (b', None) \<longrightarrow>
        commits b' (f ++ map_of (zip (heights s (length hs)) hs))) \<and>
     (\<forall>b f b' r. commits b f \<longrightarrow> Finalize M b = (b', r) \<longrightarrow> commits b' f)"

definition accepts_next :: "'t merkle_ops \<Rightarrow> ('t \<Rightarrow> (u64 \<rightharpoonup> bytes) \<Rightarrow> bool) \<Rightarrow> bool" where
  "accepts_next M commits \<longleftrightarrow>
     (\<forall>b f s x hs. commits b f \<longrightarrow> dom f = {s ..< x} \<longrightarrow> snd (Push M x hs b) = None) \<and>
     (\<forall>b. \<exists>b' r. Finalize M b = (b', Inr r))"

lemma merkle_lawD:
  assumes "merkle_law M commits"
  shows "NewBuilder M cfg = Inr b \<Longrightarrow> commits b Map.empty"
    and "commits b f \<Longrightarrow> Push M s hs b = (b', None) \<Longrightarrow> commits b' (f ++ map_of (zip (heights s (length hs)) hs))"
    and "commits b f \<Longrightarrow> Finalize M b = (b', r) \<Longrightarrow> commits b' f"
  using assms by (auto simp: merkle_law_def)

text \<open>The leaf of a height in a list of blocks, and the leaves of the heights in \<open>[lo, hi)\<close>.\<close>

definition leaf_at :: "unit ZKBlock list \<Rightarrow> u64 \<Rightarrow> bytes" where
  "leaf_at bs n = (case map_of (map (\<lambda>b. (ZKBlock_BlockNumber b, ZKBlock_BlockHash b)) bs) n of
     Some h \<Rightarrow> h | None \<Rightarrow> zero_hash)"

definition leaves :: "unit ZKBlock list \<Rightarrow> nat \<Rightarrow> nat \<Rightarrow> u64 \<rightharpoonup> bytes" where
  "leaves bs lo hi n = (if lo \<le> unat n \<and> unat n < hi then Some (leaf_at bs n) else None)"

definition chain_leaves :: "unit ZKBlock list \<Rightarrow> u64 \<Rightarrow> u64 \<Rightarrow> u64 \<rightharpoonup> bytes" where
  "chain_leaves bs s e n = (if s \<le> n \<and> n \<le> e then Some (leaf_at bs n) else None)"

text \<open>The blocks the iterator yields, and what it is relied on for: no error, ascending order, within the range.\<close>

definition iterator_blocks :: "'b BlockInfo \<Rightarrow> u64 \<Rightarrow> u64 \<Rightarrow> unit ZKBlock list" where
  "iterator_blocks B s e = concat (map projr (NewBlockIterator B s e iterator_batch))"

definition iterator_ok :: "'b BlockInfo \<Rightarrow> u64 \<Rightarrow> u64 \<Rightarrow> bool" where
  "iterator_ok B s e \<longleftrightarrow> list_all (\<lambda>x. \<not> isl x) (NewBlockIterator B s e iterator_batch) \<and>
     sorted_wrt (<) (map ZKBlock_BlockNumber (iterator_blocks B s e)) \<and>
     (\<forall>b\<in>set (iterator_blocks B s e). s \<le> ZKBlock_BlockNumber b \<and> ZKBlock_BlockNumber b \<le> e)"

lemma length_heights [simp]: "length (heights s k) = k"
  by (simp add: heights_def)

lemma map_of_heights:
  assumes "unat s + length hs \<le> 2 ^ 64"
  shows "map_of (zip (heights s (length hs)) hs) n =
    (if unat s \<le> unat n \<and> unat n < unat s + length hs then Some (hs ! (unat n - unat s)) else None)"
proof -
  have u: "unat (s + of_nat i) = unat s + i" if "i < length hs" for i
  proof -
    have "unat (of_nat i :: u64) = i" using that assms by (simp add: unat_of_nat)
    then show ?thesis using that assms by (simp add: unat_plus_if_size word_size)
  qed
  have nth: "heights s (length hs) ! i = s + of_nat i" if "i < length hs" for i
    using that by (simp add: heights_def)
  have d: "distinct (heights s (length hs))"
    unfolding distinct_conv_nth by (metis nth u add_left_cancel length_heights)
  show ?thesis
  proof (cases "unat s \<le> unat n \<and> unat n < unat s + length hs")
    case True
    define i where "i = unat n - unat s"
    have i: "i < length hs" "unat n = unat s + i" using True by (auto simp: i_def)
    have "n = s + of_nat i" by (rule unat_inj) (use u [OF i(1)] i(2) in simp)
    then have "map_of (zip (heights s (length hs)) hs) n = Some (hs ! i)"
      using map_of_zip_nth [OF length_heights d i(1)] nth [OF i(1)] by metis
    then show ?thesis using True by (simp only: if_True simp_thms i_def)
  next
    case False
    have "n \<notin> set (heights s (length hs))" using False u by (fastforce simp: heights_def)
    then have "map_of (zip (heights s (length hs)) hs) n = None" by (auto simp: map_of_eq_None_iff dest: set_zip_leftD)
    then show ?thesis using False by presburger
  qed
qed

text \<open>One push extends the leaves \<open>[lo, s)\<close> to \<open>[lo, s + k)\<close> when it pushes the leaves of those heights.\<close>

lemma leaves_push:
  assumes "lo \<le> unat s" "unat s + length hs \<le> 2 ^ 64"
    and "\<And>n. unat s \<le> unat n \<Longrightarrow> unat n < unat s + length hs \<Longrightarrow> leaf_at bs n = hs ! (unat n - unat s)"
  shows "leaves bs lo (unat s) ++ map_of (zip (heights s (length hs)) hs) = leaves bs lo (unat s + length hs)"
  using assms by (auto simp: fun_eq_iff map_add_def map_of_heights leaves_def)

lemma leaf_at_block:
  assumes "sorted_wrt (<) (map ZKBlock_BlockNumber bs)" "b \<in> set bs"
  shows "leaf_at bs (ZKBlock_BlockNumber b) = ZKBlock_BlockHash b"
proof -
  have "distinct (map fst (map (\<lambda>b. (ZKBlock_BlockNumber b, ZKBlock_BlockHash b)) bs))"
    using assms(1) strict_sorted_iff by (auto simp: comp_def)
  from map_of_is_SomeI [OF this] assms(2) show ?thesis by (force simp: leaf_at_def)
qed

lemma leaf_at_gap: "n \<notin> ZKBlock_BlockNumber ` set bs \<Longrightarrow> leaf_at bs n = zero_hash"
  by (auto simp: leaf_at_def split: option.splits dest!: map_of_SomeD)

text \<open>Pushing the zero padding for a gap, and pushing one block.\<close>

lemma push_gap:
  assumes L: "merkle_law M commits" and b: "commits b (leaves bs lo (unat x))" "lo \<le> unat x"
    and gap: "\<And>n. x \<le> n \<Longrightarrow> unat n < unat x + unat g \<Longrightarrow> n \<notin> ZKBlock_BlockNumber ` set bs" "unat x + unat g \<le> 2 ^ 64"
    and p: "Push M x (padding g) b = (b', None)"
  shows "commits b' (leaves bs lo (unat x + unat g))"
proof -
  have "leaves bs lo (unat x) ++ map_of (zip (heights x (length (padding g))) (padding g)) =
      leaves bs lo (unat x + length (padding g))"
    by (rule leaves_push) (use b gap in \<open>auto simp: padding_def leaf_at_gap word_le_nat_alt\<close>)
  then show ?thesis using merkle_lawD(2) [OF L b(1) p] by (simp add: padding_def)
qed

lemma push_one:
  assumes L: "merkle_law M commits" and s: "sorted_wrt (<) (map ZKBlock_BlockNumber bs)" "block \<in> set bs"
    and b: "commits b (leaves bs lo (unat (ZKBlock_BlockNumber block)))" "lo \<le> unat (ZKBlock_BlockNumber block)"
    and p: "Push M (ZKBlock_BlockNumber block) [ZKBlock_BlockHash block] b = (b', None)"
  shows "commits b' (leaves bs lo (Suc (unat (ZKBlock_BlockNumber block))))"
proof -
  let ?n = "ZKBlock_BlockNumber block"
  have "leaves bs lo (unat ?n) ++ map_of (zip (heights ?n (length [ZKBlock_BlockHash block])) [ZKBlock_BlockHash block]) =
      leaves bs lo (unat ?n + length [ZKBlock_BlockHash block])"
  proof (rule leaves_push [OF b(2)])
    show "unat ?n + length [ZKBlock_BlockHash block] \<le> 2 ^ 64" using unat_lt [of ?n] by simp
    show "leaf_at bs n = [ZKBlock_BlockHash block] ! (unat n - unat ?n)"
      if "unat ?n \<le> unat n" "unat n < unat ?n + length [ZKBlock_BlockHash block]" for n
    proof -
      have "n = ?n" using that by (intro unat_inj) simp
      then show ?thesis using leaf_at_block [OF s] by simp
    qed
  qed
  then show ?thesis using merkle_lawD(2) [OF L b(1) p] by simp
qed

text \<open>
  The state of the push loop: the tree holds the leaves \<open>[lo, x)\<close>, every block pushed so far is below \<open>x\<close> and the
  rest is not.
\<close>

definition pushed :: "('t \<Rightarrow> (u64 \<rightharpoonup> bytes) \<Rightarrow> bool) \<Rightarrow> unit ZKBlock list \<Rightarrow> nat \<Rightarrow> unit ZKBlock list \<Rightarrow> u64 \<Rightarrow> 't \<Rightarrow> bool" where
  "pushed commits bs lo rest x b \<longleftrightarrow> commits b (leaves bs lo (unat x)) \<and> lo \<le> unat x \<and>
     (\<exists>done. bs = done @ rest \<and> (\<forall>d\<in>set done. ZKBlock_BlockNumber d < x) \<and> (\<forall>r\<in>set rest. x \<le> ZKBlock_BlockNumber r))"

lemma pushed_Cons:
  assumes s: "sorted_wrt (<) (map ZKBlock_BlockNumber bs)" and b: "pushed commits bs lo (block # rest) x b"
  obtains pre where "bs = pre @ block # rest" "\<forall>d\<in>set pre. ZKBlock_BlockNumber d < x" "x \<le> ZKBlock_BlockNumber block"
    "lo \<le> unat x" "commits b (leaves bs lo (unat x))" "\<forall>r\<in>set rest. ZKBlock_BlockNumber block < ZKBlock_BlockNumber r"
  using assms by (fastforce simp: pushed_def sorted_wrt_append)

lemma pushed_gap:
  assumes L: "merkle_law M commits" and s: "sorted_wrt (<) (map ZKBlock_BlockNumber bs)"
    and b: "pushed commits bs lo (block # rest) x b"
    and g: "(if ZKBlock_BlockNumber block > x then Push M x (padding (ZKBlock_BlockNumber block - x)) b else (b, None)) = (b1, None)"
  shows "commits b1 (leaves bs lo (unat (ZKBlock_BlockNumber block)))"
proof (cases "ZKBlock_BlockNumber block > x")
  case True
  let ?n = "ZKBlock_BlockNumber block"
  obtain pre where d: "bs = pre @ block # rest" "\<forall>d\<in>set pre. ZKBlock_BlockNumber d < x" "x \<le> ?n" "lo \<le> unat x"
    "commits b (leaves bs lo (unat x))" "\<forall>r\<in>set rest. ?n < ZKBlock_BlockNumber r" by (rule pushed_Cons [OF s b])
  have u: "unat (?n - x) = unat ?n - unat x" using d(3) by (rule unat_diff_le)
  have le: "unat x \<le> unat ?n" using d(3) by (simp add: word_le_nat_alt)
  have "commits b1 (leaves bs lo (unat x + unat (?n - x)))"
  proof (rule push_gap [OF L d(5) d(4)])
    show "m \<notin> ZKBlock_BlockNumber ` set bs" if "x \<le> m" "unat m < unat x + unat (?n - x)" for m
    proof -
      have "m < ?n" using that u le by (simp add: word_less_nat_alt)
      then show ?thesis using d that by (auto simp: not_less)
    qed
    show "unat x + unat (?n - x) \<le> 2 ^ 64" using u le unat_lt [of ?n] by simp
    show "Push M x (padding (?n - x)) b = (b1, None)" using g True by simp
  qed
  then show ?thesis using u le by simp
next
  case False
  obtain pre where "x \<le> ZKBlock_BlockNumber block" "commits b (leaves bs lo (unat x))" by (rule pushed_Cons [OF s b])
  with False g show ?thesis by simp
qed

lemma pushed_block:
  assumes L: "merkle_law M commits" and s: "sorted_wrt (<) (map ZKBlock_BlockNumber bs)"
    and b: "pushed commits bs lo (block # rest) x b" and n: "ZKBlock_BlockNumber block \<noteq> MaxUint64"
    and b1: "commits b1 (leaves bs lo (unat (ZKBlock_BlockNumber block)))"
    and p: "Push M (ZKBlock_BlockNumber block) [ZKBlock_BlockHash block] b1 = (b2, None)"
  shows "pushed commits bs lo rest (ZKBlock_BlockNumber block + 1) b2"
proof -
  let ?n = "ZKBlock_BlockNumber block"
  obtain pre where d: "bs = pre @ block # rest" "\<forall>d\<in>set pre. ZKBlock_BlockNumber d < x" "x \<le> ?n" "lo \<le> unat x"
    "\<forall>r\<in>set rest. ?n < ZKBlock_BlockNumber r" by (rule pushed_Cons [OF s b])
  have lo: "lo \<le> unat ?n" using d(3,4) by (simp add: word_le_nat_alt)
  have "commits b2 (leaves bs lo (unat (?n + 1)))"
    using push_one [OF L s _ b1 lo p] d(1) unat_plus1 [OF n] by simp
  moreover have "\<forall>r\<in>set rest. ?n + 1 \<le> ZKBlock_BlockNumber r" using d(5) by (simp add: plus1_le_iff [OF n])
  moreover have "\<forall>r\<in>set (pre @ [block]). ZKBlock_BlockNumber r < ?n + 1"
    using d(2,3) by (auto simp: less_plus1_iff [OF n])
  ultimately show ?thesis using d(1) lo unat_plus1 [OF n]
    unfolding pushed_def by (intro conjI exI [of _ "pre @ [block]"]) auto
qed

lemma push_blocks_pushed:
  assumes L: "merkle_law M commits" and s: "sorted_wrt (<) (map ZKBlock_BlockNumber bs)"
    and n: "\<forall>b\<in>set bs. ZKBlock_BlockNumber b \<noteq> MaxUint64"
  shows "pushed commits bs lo (blocks @ rest) x b \<Longrightarrow> push_blocks M blocks x b = Inr (x', b') \<Longrightarrow>
    pushed commits bs lo rest x' b'"
proof (induction blocks arbitrary: x b)
  case (Cons block blocks)
  have "block \<in> set bs" using Cons.prems(1) by (auto simp: pushed_def)
  with n have n': "ZKBlock_BlockNumber block \<noteq> MaxUint64" by blast
  from Cons.prems(2) obtain b1 b2 where
    g: "(if ZKBlock_BlockNumber block > x then Push M x (padding (ZKBlock_BlockNumber block - x)) b else (b, None)) = (b1, None)"
    and p: "Push M (ZKBlock_BlockNumber block) [ZKBlock_BlockHash block] b1 = (b2, None)"
    and r: "push_blocks M blocks (ZKBlock_BlockNumber block + 1) b2 = Inr (x', b')"
    by (auto split: prod.splits option.splits)
  have b: "pushed commits bs lo (block # blocks @ rest) x b" using Cons.prems(1) by simp
  show ?case by (rule Cons.IH [OF pushed_block [OF L s b n' pushed_gap [OF L s b g] p] r])
qed simp

lemma push_batches_pushed:
  assumes L: "merkle_law M commits" and s: "sorted_wrt (<) (map ZKBlock_BlockNumber bs)"
    and n: "\<forall>b\<in>set bs. ZKBlock_BlockNumber b \<noteq> MaxUint64"
  shows "pushed commits bs lo (concat (map projr batches)) x b \<Longrightarrow> push_batches M batches x b = Inr (x', b') \<Longrightarrow>
    pushed commits bs lo [] x' b'"
proof (induction batches arbitrary: x b)
  case (Cons batch batches)
  from Cons.prems(2) obtain blocks x1 b1 where batch: "batch = Inr blocks"
    and p: "push_blocks M blocks x b = Inr (x1, b1)" and r: "push_batches M batches x1 b1 = Inr (x', b')"
    by (cases batch) (auto split: sum.splits)
  have "pushed commits bs lo (blocks @ concat (map projr batches)) x b" using Cons.prems(1) by (simp add: batch)
  from Cons.IH [OF push_blocks_pushed [OF L s n this p] r] show ?case .
qed simp

text \<open>The loop never pushes at another height than the next one, so a builder that only insists on that accepts it all.\<close>

lemma dom_leaves: "dom (leaves bs (unat (s :: u64)) (unat x)) = {s ..< x}"
  by (auto simp: leaves_def word_le_nat_alt word_less_nat_alt split: if_splits)

lemma accepts_push:
  assumes "accepts_next M commits" "commits b (leaves bs (unat (s :: u64)) (unat x))"
  shows "\<exists>b'. Push M x hs b = (b', None)"
  using assms dom_leaves [of bs s x] unfolding accepts_next_def by (metis prod.collapse)

lemma push_blocks_accepted:
  assumes A: "accepts_next M commits" and L: "merkle_law M commits" and s: "sorted_wrt (<) (map ZKBlock_BlockNumber bs)"
    and n: "\<forall>b\<in>set bs. ZKBlock_BlockNumber b \<noteq> MaxUint64"
  shows "pushed commits bs (unat (lo :: u64)) (blocks @ rest) x b \<Longrightarrow> \<exists>x' b'. push_blocks M blocks x b = Inr (x', b')"
proof (induction blocks arbitrary: x b)
  case (Cons block blocks)
  have "block \<in> set bs" using Cons.prems(1) by (auto simp: pushed_def)
  with n have n': "ZKBlock_BlockNumber block \<noteq> MaxUint64" by blast
  have b: "pushed commits bs (unat (lo :: u64)) (block # blocks @ rest) x b" using Cons.prems(1) by simp
  have "commits b (leaves bs (unat (lo :: u64)) (unat x))" using b by (simp add: pushed_def)
  from accepts_push [OF A this, of "padding (ZKBlock_BlockNumber block - x)"] obtain b1 where
    g: "(if ZKBlock_BlockNumber block > x then Push M x (padding (ZKBlock_BlockNumber block - x)) b else (b, None)) = (b1, None)"
    by (cases "ZKBlock_BlockNumber block > x") auto
  note b1 = pushed_gap [OF L s b g]
  from accepts_push [OF A b1, of "[ZKBlock_BlockHash block]"] obtain b2 where
    p: "Push M (ZKBlock_BlockNumber block) [ZKBlock_BlockHash block] b1 = (b2, None)" by blast
  from Cons.IH [OF pushed_block [OF L s b n' b1 p]] show ?case using g p by auto
qed simp

lemma push_batches_accepted:
  assumes A: "accepts_next M commits" and L: "merkle_law M commits" and s: "sorted_wrt (<) (map ZKBlock_BlockNumber bs)"
    and n: "\<forall>b\<in>set bs. ZKBlock_BlockNumber b \<noteq> MaxUint64"
  shows "pushed commits bs (unat (lo :: u64)) (concat (map projr batches)) x b \<Longrightarrow> list_all (\<lambda>x. \<not> isl x) batches \<Longrightarrow>
    \<exists>x' b'. push_batches M batches x b = Inr (x', b')"
proof (induction batches arbitrary: x b)
  case (Cons batch batches)
  from Cons.prems(2) obtain blocks where batch: "batch = Inr blocks" by (cases batch) auto
  have b: "pushed commits bs (unat (lo :: u64)) (blocks @ concat (map projr batches)) x b" using Cons.prems(1) by (simp add: batch)
  from push_blocks_accepted [OF A L s n b] obtain x1 b1 where p: "push_blocks M blocks x b = Inr (x1, b1)" by blast
  from Cons.IH [OF push_blocks_pushed [OF L s n b p]] Cons.prems(2) show ?case by (auto simp: batch p)
qed simp

lemma push_blocks_next:
  "push_blocks M blocks x b = Inr (x', b') \<Longrightarrow> x' = x \<or> (\<exists>k\<in>set blocks. x' = ZKBlock_BlockNumber k + 1)"
  by (induction M blocks x b rule: push_blocks.induct) (auto split: prod.splits option.splits if_splits)

lemma push_batches_next:
  "push_batches M batches x b = Inr (x', b') \<Longrightarrow>
   x' = x \<or> (\<exists>k\<in>set (concat (map projr batches)). x' = ZKBlock_BlockNumber k + 1)"
proof (induction batches arbitrary: x b)
  case (Cons batch batches)
  from Cons.prems obtain blocks x1 b1 where batch: "batch = Inr blocks"
    and p: "push_blocks M blocks x b = Inr (x1, b1)" and r: "push_batches M batches x1 b1 = Inr (x', b')"
    by (cases batch) (auto split: sum.splits)
  from push_blocks_next [OF p] Cons.IH [OF r] show ?case by (auto simp: batch)
qed simp

lemma leaves_chain:
  "s \<le> e \<Longrightarrow> leaves bs (unat s) (Suc (unat e)) = chain_leaves bs s e"
  by (auto simp: fun_eq_iff leaves_def chain_leaves_def word_le_nat_alt)

lemma iterator_okD:
  assumes "iterator_ok B s e" "e \<noteq> MaxUint64"
  shows "sorted_wrt (<) (map ZKBlock_BlockNumber (iterator_blocks B s e))"
    and "\<forall>b\<in>set (iterator_blocks B s e). ZKBlock_BlockNumber b \<noteq> MaxUint64"
    and "list_all (\<lambda>x. \<not> isl x) (NewBlockIterator B s e iterator_batch)"
    and "\<forall>b\<in>set (iterator_blocks B s e). s \<le> ZKBlock_BlockNumber b \<and> ZKBlock_BlockNumber b \<le> e"
proof -
  show "\<forall>b\<in>set (iterator_blocks B s e). ZKBlock_BlockNumber b \<noteq> MaxUint64"
  proof
    fix b assume "b \<in> set (iterator_blocks B s e)"
    then have "ZKBlock_BlockNumber b \<le> e" using assms(1) by (simp add: iterator_ok_def)
    then show "ZKBlock_BlockNumber b \<noteq> MaxUint64" using assms(2) word_order.extremum_unique by metis
  qed
qed (use assms(1) in \<open>auto simp: iterator_ok_def\<close>)

lemma pushed_start:
  assumes "merkle_law M commits" "NewBuilder M cfg = Inr b" "iterator_ok B s e"
  shows "pushed commits (iterator_blocks B s e) (unat s) (concat (map projr (NewBlockIterator B s e iterator_batch))) s b"
proof -
  have "leaves (iterator_blocks B s e) (unat s) (unat s) = Map.empty" by (auto simp: leaves_def)
  then show ?thesis using merkle_lawD(1) [OF assms(1,2)] assms(3)
    by (simp add: pushed_def iterator_ok_def flip: iterator_blocks_def)
qed

lemma push_trailing_chain:
  assumes L: "merkle_law M commits" and it: "iterator_ok B s e" "e \<noteq> MaxUint64" "s \<le> e"
    and x: "pushed commits (iterator_blocks B s e) (unat s) [] x b" "unat x \<le> Suc (unat e)"
    and p: "push_trailing M x e b = Inr b'"
  shows "commits b' (chain_leaves (iterator_blocks B s e) s e)"
proof (cases "x \<le> e")
  case True
  have u: "unat (e - x + 1) = Suc (unat e - unat x)" using True it(2) by (intro unat_range_size) auto
  have le: "unat x \<le> unat e" using True by (simp add: word_le_nat_alt)
  have "commits b' (leaves (iterator_blocks B s e) (unat s) (unat x + unat (e - x + 1)))"
  proof (rule push_gap [OF L])
    show "commits b (leaves (iterator_blocks B s e) (unat s) (unat x))" "unat s \<le> unat x" using x(1) by (auto simp: pushed_def)
    show "n \<notin> ZKBlock_BlockNumber ` set (iterator_blocks B s e)" if "x \<le> n" for n
      using x(1) that by (auto simp: pushed_def not_less)
    show "unat x + unat (e - x + 1) \<le> 2 ^ 64" using u le unat_lt [of e] by simp
    show "Push M x (padding (e - x + 1)) b = (b', None)" using p True by (auto simp: push_trailing_def split: prod.splits option.splits)
  qed
  then show ?thesis using u le leaves_chain [OF it(3)] by simp
next
  case False
  then have "unat x = Suc (unat e)" using x(2) by (simp add: word_le_nat_alt)
  then show ?thesis using x(1) p False leaves_chain [OF it(3), of "iterator_blocks B s e"]
    by (simp add: pushed_def push_trailing_def)
qed

lemma batches_bound:
  assumes it: "iterator_ok B s e" "e \<noteq> MaxUint64" "s \<le> e"
    and p: "push_batches M (NewBlockIterator B s e iterator_batch) s b = Inr (x, b')"
  shows "unat x \<le> Suc (unat e)"
proof -
  note I = iterator_okD [OF it(1,2)]
  from push_batches_next [OF p] consider "x = s" | k where "k \<in> set (iterator_blocks B s e)" "x = ZKBlock_BlockNumber k + 1"
    by (auto simp: iterator_blocks_def)
  then show ?thesis
  proof cases
    case 1
    then show ?thesis using it(3) by (simp add: word_le_nat_alt)
  next
    case 2
    then show ?thesis using I(2,4) by (simp add: unat_plus1 word_le_nat_alt)
  qed
qed

lemma build_tree_commits:
  assumes L: "merkle_law M commits" and it: "iterator_ok B s e" "e \<noteq> MaxUint64" "s \<le> e"
    and t: "build_tree M B cfg s e = Inr t"
  shows "commits t (chain_leaves (iterator_blocks B s e) s e)"
proof -
  note I = iterator_okD [OF it(1,2)]
  from t obtain b0 x b1 b2 r where b0: "NewBuilder M cfg = Inr b0"
    and p: "push_batches M (NewBlockIterator B s e iterator_batch) s b0 = Inr (x, b1)"
    and tr: "push_trailing M x e b1 = Inr b2" and f: "Finalize M b2 = (t, Inr r)"
    by (auto simp: build_tree_def split: sum.splits prod.splits)
  from push_batches_pushed [OF L I(1,2) pushed_start [OF L b0 it(1)] p]
  have "commits b2 (chain_leaves (iterator_blocks B s e) s e)"
    by (rule push_trailing_chain [OF L it _ batches_bound [OF it p] tr])
  from merkle_lawD(3) [OF L this f] show ?thesis .
qed

lemma build_tree_accepted:
  assumes A: "accepts_next M commits" and L: "merkle_law M commits" and it: "iterator_ok B s e" "e \<noteq> MaxUint64" "s \<le> e"
    and b0: "NewBuilder M cfg = Inr b0"
  shows "\<exists>t. build_tree M B cfg s e = Inr t"
proof -
  note I = iterator_okD [OF it(1,2)] and st = pushed_start [OF L b0 it(1)]
  from push_batches_accepted [OF A L I(1,2) st I(3)] obtain x b1 where
    p: "push_batches M (NewBlockIterator B s e iterator_batch) s b0 = Inr (x, b1)" by blast
  have "commits b1 (leaves (iterator_blocks B s e) (unat s) (unat x))"
    using push_batches_pushed [OF L I(1,2) st p] by (simp add: pushed_def)
  from accepts_push [OF A this, of "padding (e - x + 1)"] obtain b2 where "push_trailing M x e b1 = Inr b2"
    by (cases "x \<le> e") (auto simp: push_trailing_def)
  moreover obtain b3 r where "Finalize M b2 = (b3, Inr r)" using A unfolding accepts_next_def by blast
  ultimately show ?thesis using b0 p by (simp add: build_tree_def)
qed

section \<open>A library that satisfies the laws\<close>

text \<open>
  The tree as the list of its leaves: it shows that the hypotheses can hold, and the witnesses run on it. Its snapshot
  stores the leaves as one partial chunk, and its diff names every height below \<open>MaxUint64\<close> at which two trees differ.
\<close>

definition leaf_diff :: "(u64 \<times> bytes) list \<Rightarrow> (u64 \<times> bytes) list \<Rightarrow> (u64 \<times> u32) list" where
  "leaf_diff a b = map (\<lambda>n. (n, 1)) (filter (\<lambda>n. n \<noteq> MaxUint64 \<and> map_of a n \<noteq> map_of b n) (map fst (a @ b)))"

definition leaf_snapshot :: "(u64 \<times> bytes) list \<Rightarrow> MerkleTreeSnapshot" where
  "leaf_snapshot t = \<lparr>Snapshot_Version = 1, Snapshot_Config = \<lparr>Config_BlockMerge = 1, Config_ExpectedTotal = 0\<rparr>,
     Snapshot_TotalBlocks = of_nat (length t), Snapshot_ExpectedNextHeight = 0, Snapshot_EnforceHeights = True,
     Snapshot_InChunkElems = map snd (sort_key fst t),
     Snapshot_InChunkStart = (if t = [] then 0 else fst (hd (sort_key fst t))), Snapshot_Peaks = []\<rparr>"

definition leaf_tree :: "(u64 \<times> bytes) list merkle_ops" where
  "leaf_tree = \<lparr>NewBuilder = (\<lambda>cfg. Inr []), Push = (\<lambda>s hs t. (zip (heights s (length hs)) hs @ t, None)),
     Finalize = (\<lambda>t. (t, Inr (concat (map snd t)))), ToSnapshot_lib = leaf_snapshot,
     FromSnapshot = (\<lambda>s. case s of None \<Rightarrow> Inl ''nil snapshot''
       | Some s \<Rightarrow> Inr (zip (heights (Snapshot_InChunkStart s) (length (Snapshot_InChunkElems s))) (Snapshot_InChunkElems s))),
     TreeDiff = (\<lambda>a b. Inr (leaf_diff a b)), RootNode = (\<lambda>t. Inr no_node)\<rparr>"

definition leaf_commits :: "(u64 \<times> bytes) list \<Rightarrow> (u64 \<rightharpoonup> bytes) \<Rightarrow> bool" where
  "leaf_commits t f \<longleftrightarrow> map_of t = f"

lemma leaf_tree_law: "merkle_law leaf_tree leaf_commits" "accepts_next leaf_tree leaf_commits"
  by (auto simp: merkle_law_def accepts_next_def leaf_tree_def leaf_commits_def)

text \<open>A store with the blocks 3 and 5, which the iterator returns in two batches.\<close>

definition demo_zk :: "u64 \<Rightarrow> unit ZKBlock" where
  "demo_zk n = \<lparr>ZKBlock_BlockNumber = n, ZKBlock_BlockHash = replicate 32 (ucast n), ZKBlock_Content = ()\<rparr>"

definition demo_store :: "unit BlockInfo" where
  "demo_store = \<lparr>GetBlockNumber = 6, GetBlockDetails = \<lparr>Details_Blocknumber = 6, Details_Stateroot = [],
       Details_Blockhash = [], Details_Range = None, Details_Version = 1\<rparr>,
     NewBlockIterator = (\<lambda>s e n. [Inr (filter (\<lambda>b. s \<le> ZKBlock_BlockNumber b \<and> ZKBlock_BlockNumber b \<le> e) [demo_zk 3]),
       Inr (filter (\<lambda>b. s \<le> ZKBlock_BlockNumber b \<and> ZKBlock_BlockNumber b \<le> e) [demo_zk 5])]),
     GetBlockHeaders = (\<lambda>_. Inr []), GetBlockHeadersRange = (\<lambda>s e. Inr []),
     GetBlockNonHeaders = (\<lambda>_. Inr []), GetBlockNonHeadersRange = (\<lambda>_ _. Inr [])\<rparr>"

lemma demo_iterator_ok: "iterator_ok demo_store s e"
  by (auto simp: iterator_ok_def iterator_blocks_def demo_store_def demo_zk_def)

section \<open>Properties\<close>

text \<open>C16: Both tree generators commit to exactly one leaf per block number of the requested range: the hash of the
  block the iterator yielded for that number, and the zero hash where it yielded none. The pushes are contiguous
  from the first block on, so with a builder that refuses no push at the next height they return a tree.\<close>

theorem generated_tree_commits:
  assumes "merkle_law M commits" and "iterator_ok B s e" and "s \<le> e" and "e \<noteq> MaxUint64"
  shows "(\<forall>t. GenerateMerkleTree M B s e = Inr t \<longrightarrow> commits t (chain_leaves (iterator_blocks B s e) s e)) \<and>
    (\<forall>cfg t. GenerateMerkleTreeWithConfig M B s e cfg = Inr t \<longrightarrow> commits t (chain_leaves (iterator_blocks B s e) s e)) \<and>
    (accepts_next M commits \<longrightarrow> (\<forall>cfg. \<exists>b. NewBuilder M cfg = Inr b) \<longrightarrow>
      (\<exists>t. GenerateMerkleTree M B s e = Inr t) \<and> (\<forall>cfg. \<exists>t. GenerateMerkleTreeWithConfig M B s e cfg = Inr t))"
proof -
  have ok: "\<not> (e \<noteq> MaxUint64 \<and> e < s)" using assms(3) by (simp add: not_less)
  have commits: "commits t (chain_leaves (iterator_blocks B s e) s e)" if "build_tree M B cfg s e = Inr t" for cfg t
    using build_tree_commits [OF assms(1,2,4,3) that] .
  have returns: "\<exists>t. build_tree M B cfg s e = Inr t"
    if "accepts_next M commits" "\<forall>cfg. \<exists>b. NewBuilder M cfg = Inr b" for cfg
    using build_tree_accepted [OF that(1) assms(1,2,4,3)] that(2) by metis
  show ?thesis
    unfolding GenerateMerkleTree_def GenerateMerkleTreeWithConfig_def Let_def if_not_P [OF ok] if_not_P [OF assms(4)]
    using commits returns by blast
qed

theorem generated_tree_commits_witness:
  "\<exists>t. GenerateMerkleTree leaf_tree demo_store 2 6 = Inr t \<and> map_of t 3 = Some (replicate 32 3) \<and>
     map_of t 4 = Some zero_hash \<and> map_of t 6 = Some zero_hash \<and> map_of t 7 = None"
proof -
  have new: "\<forall>cfg. \<exists>b. NewBuilder leaf_tree cfg = Inr b" by (simp add: leaf_tree_def)
  note g = generated_tree_commits [OF leaf_tree_law(1) demo_iterator_ok, of 2 6]
  obtain t where t: "GenerateMerkleTree leaf_tree demo_store 2 6 = Inr t" using g leaf_tree_law(2) new by auto
  moreover have "map_of t = chain_leaves (iterator_blocks demo_store 2 6) 2 6" using g t by (auto simp: leaf_commits_def)
  ultimately show ?thesis
    by (simp add: chain_leaves_def leaf_at_def iterator_blocks_def demo_store_def demo_zk_def)
qed

text \<open>C28: A snapshot whose roots are 32 bytes long and whose version and block merge fit \<open>int32\<close> survives the wire: both
  encoders produce a message from which \<open>ProtoToMerkleSnapshot\<close> rebuilds it, empty slots of the peak list included.\<close>

theorem merkle_snapshot_roundtrip:
  assumes "wf_snapshot m"
  shows "ProtoToMerkleSnapshot (MerkleSnapshotToProto (Some m)) = Some (Some m) \<and>
    (\<forall>(M :: 't merkle_ops) t. ToSnapshot_lib M t = m \<longrightarrow> (\<exists>s. ToSnapshot M t = Inr s \<and> ProtoToMerkleSnapshot (Some s) = Some (Some m)))"
proof -
  have "\<exists>s. ToSnapshot M t = Inr s" for M :: "'t merkle_ops" and t by (simp add: ToSnapshot_def Let_def)
  then show ?thesis using ProtoToMerkleSnapshot_decodes [OF assms] by metis
qed

definition demo_snapshot :: MerkleTreeSnapshot where
  "demo_snapshot = (leaf_snapshot [(4, [1])])\<lparr>Snapshot_Peaks :=
     [nil_node, snap_node (snap_node nil_node nil_node (replicate 32 7) 0 1 [] False) nil_node (replicate 32 9) 0 2 [] False]\<rparr>"

theorem merkle_snapshot_roundtrip_witness:
  "ProtoToMerkleSnapshot (MerkleSnapshotToProto (Some demo_snapshot)) = Some (Some demo_snapshot)"
proof -
  have "wf_snapshot demo_snapshot" by (simp add: wf_snapshot_def fits_int32_def demo_snapshot_def leaf_snapshot_def)
  from merkle_snapshot_roundtrip [OF this] show ?thesis by blast
qed

end
