(* ===== verification/FS_Checksum.thy ===== *)
theory FS_Checksum
  imports FS_Types
begin

text \<open>
  \<open>internal/checksum/checksum.go\<close> and \<open>common/checksum/checksum_priorsync\<close>: the checksum of a prior-sync message. The
  two algorithms are those of Go's standard library (\<open>hash/crc32\<close> and \<open>crypto/sha256\<close>), written out. The
  serialisation \<open>proto.Marshal\<close> is the parameter \<open>marshal\<close>. An error is its text; a nil slice is \<open>None\<close>.
\<close>

unbundle bit_operations_syntax

section \<open>The algorithms\<close>

definition crc_step :: "u32 \<Rightarrow> u32" where
  "crc_step c = (if bit c 0 then drop_bit 1 c XOR 0xEDB88320 else drop_bit 1 c)"

text \<open>\<open>crc32.ChecksumIEEE\<close>\<close>

definition ChecksumIEEE :: "bytes \<Rightarrow> u32" where
  "ChecksumIEEE data = NOT (foldl (\<lambda>c b. (crc_step ^^ 8) (c XOR ucast b)) (NOT 0) data)"

text \<open>\<open>binary.BigEndian.PutUint32\<close> and its inverse on a list of bytes.\<close>

definition PutUint32 :: "u32 \<Rightarrow> bytes" where
  "PutUint32 w = [ucast (drop_bit 24 w), ucast (drop_bit 16 w), ucast (drop_bit 8 w), ucast w]"

fun be_words :: "bytes \<Rightarrow> u32 list" where
  "be_words (a # b # c # d # bs) =
     (push_bit 24 (ucast a) OR push_bit 16 (ucast b) OR push_bit 8 (ucast c) OR ucast d) # be_words bs"
| "be_words _ = []"

text \<open>
  FIPS 180-4 defines the constants as the first 32 bits of the fractional parts of the cube roots of the first 64 primes,
  and of the square roots of the first eight. \<open>int_root k n b r\<close> finds the remaining \<open>b\<close> bits of the \<open>k\<close>-th root of \<open>n\<close>.
\<close>

fun int_root :: "nat \<Rightarrow> int \<Rightarrow> nat \<Rightarrow> int \<Rightarrow> int" where
  "int_root k n 0 r = r"
| "int_root k n (Suc b) r = int_root k n b (if (r + 2 ^ b) ^ k \<le> n then r + 2 ^ b else r)"

definition frac_root :: "nat \<Rightarrow> int \<Rightarrow> u32" where
  "frac_root k p = word_of_int (int_root k (p * 2 ^ (32 * k)) 36 0)"

definition primes_below :: "int \<Rightarrow> int list" where
  "primes_below n = filter (\<lambda>p. \<forall>d\<in>set [2..p - 1]. p mod d \<noteq> 0) [2..n]"

definition sha_K :: "u32 list" where
  "sha_K = map (frac_root 3) (primes_below 311)"

definition sha_H0 :: "u32 list" where
  "sha_H0 = map (frac_root 2) (primes_below 19)"

definition sha_pad :: "bytes \<Rightarrow> bytes" where
  "sha_pad data = data @ [0x80] @ replicate ((119 - length data mod 64) mod 64) 0 @
     PutUint32 (word_of_nat (8 * length data div 2 ^ 32)) @ PutUint32 (word_of_nat (8 * length data))"

text \<open>The message schedule, extended one word at a time.\<close>

definition sha_next :: "u32 list \<Rightarrow> u32" where
  "sha_next ws = (let t = length ws; x = ws ! (t - 15); y = ws ! (t - 2) in
     ws ! (t - 16) + (word_rotr 7 x XOR word_rotr 18 x XOR drop_bit 3 x) + ws ! (t - 7) +
     (word_rotr 17 y XOR word_rotr 19 y XOR drop_bit 10 y))"

definition sha_schedule :: "u32 list \<Rightarrow> u32 list" where
  "sha_schedule ws = ((\<lambda>ws. ws @ [sha_next ws]) ^^ 48) ws"

fun sha_round :: "u32 list \<Rightarrow> u32 \<times> u32 \<Rightarrow> u32 list" where
  "sha_round [a, b, c, d, e, f, g, h] (k, w) =
     (let t1 = h + (word_rotr 6 e XOR word_rotr 11 e XOR word_rotr 25 e) + ((e AND f) XOR (NOT e AND g)) + k + w;
          t2 = (word_rotr 2 a XOR word_rotr 13 a XOR word_rotr 22 a) + ((a AND b) XOR (a AND c) XOR (b AND c))
      in [t1 + t2, a, b, c, d + t1, e, f, g])"
| "sha_round s _ = s"

definition sha_block :: "u32 list \<Rightarrow> u32 list \<Rightarrow> u32 list" where
  "sha_block H ws = map2 (+) H (foldl sha_round H (zip sha_K (sha_schedule ws)))"

fun sha_blocks :: "nat \<Rightarrow> u32 list \<Rightarrow> u32 list \<Rightarrow> u32 list" where
  "sha_blocks 0 H ws = H"
| "sha_blocks (Suc n) H ws = sha_blocks n (sha_block H (take 16 ws)) (drop 16 ws)"

text \<open>\<open>sha256.Sum256\<close>\<close>

definition Sum256 :: "bytes \<Rightarrow> bytes" where
  "Sum256 data = (let ws = be_words (sha_pad data)
     in concat (map PutUint32 (sha_blocks (length ws div 16) sha_H0 ws)))"

section \<open>internal/checksum\<close>

definition UnsupportedChecksumVersion :: string where "UnsupportedChecksumVersion = ''unsupported checksum version''"
definition NilData :: string where "NilData = ''data is nil''"

definition checksum_Create :: "bytes option \<Rightarrow> u16 \<Rightarrow> string + bytes" where
  "checksum_Create data version = (case data of None \<Rightarrow> Inl NilData
     | Some d \<Rightarrow> if version = 1 then Inr (PutUint32 (ChecksumIEEE d))
         else if version = 2 then Inr (Sum256 d)
         else Inl UnsupportedChecksumVersion)"

fun same_bytes :: "bytes \<Rightarrow> bytes \<Rightarrow> bool" where
  "same_bytes (x # xs) (y # ys) = (if x \<noteq> y then False else same_bytes xs ys)"
| "same_bytes _ _ = True"

definition checksum_Verify :: "bytes option \<Rightarrow> u16 \<Rightarrow> bytes \<Rightarrow> string + bool" where
  "checksum_Verify data version expected = (case checksum_Create data version of Inl err \<Rightarrow> Inl err
     | Inr got \<Rightarrow> if length got \<noteq> length expected then Inr False else Inr (same_bytes got expected))"

section \<open>common/checksum/checksum_priorsync\<close>

definition check_version :: "u16 \<Rightarrow> bool" where
  "check_version version \<longleftrightarrow> version = 1 \<or> version = 2"

definition empty_MerkleSnapshot :: MerkleSnapshot where
  "empty_MerkleSnapshot = \<lparr>MerkleSnapshot_Version = 0, MerkleSnapshot_Config = None, MerkleSnapshot_TotalBlocks = 0,
     MerkleSnapshot_ExpectedNextHeight = 0, MerkleSnapshot_EnforceHeights = False, MerkleSnapshot_InChunkElems = [],
     MerkleSnapshot_InChunkStart = 0, MerkleSnapshot_Peaks = []\<rparr>"

definition empty_Metadata :: Metadata where
  "empty_Metadata = \<lparr>Metadata_Checksum = [], Metadata_Version = 0, Metadata_Nodeinfo = None\<rparr>"

text \<open>The message that is hashed: without metadata and snapshot.\<close>

definition pbData :: "u64 \<Rightarrow> bytes \<Rightarrow> bytes \<Rightarrow> Range option \<Rightarrow> PriorSync_pb" where
  "pbData number stateroot blockhash rng = \<lparr>PriorSync_Blocknumber = number, PriorSync_Stateroot = stateroot,
     PriorSync_Blockhash = blockhash, PriorSync_Metadata = Some empty_Metadata,
     PriorSync_Merklesnapshot = Some empty_MerkleSnapshot,
     PriorSync_Range = (case rng of None \<Rightarrow> None | Some r \<Rightarrow> Some \<lparr>Range_Start = Range_Start r, Range_End = Range_End r\<rparr>)\<rparr>"

definition Create :: "(PriorSync_pb \<Rightarrow> string + bytes option) \<Rightarrow> PriorSync_details \<Rightarrow> u16 \<Rightarrow> string + bytes" where
  "Create marshal data version =
     (if \<not> check_version version then Inl UnsupportedChecksumVersion
      else case marshal (pbData (Details_Blocknumber data) (Details_Stateroot data) (Details_Blockhash data) (Details_Range data)) of
          Inl err \<Rightarrow> Inl err | Inr dataBytes \<Rightarrow> checksum_Create dataBytes version)"

definition Verify :: "(PriorSync_pb \<Rightarrow> string + bytes option) \<Rightarrow> PriorSync_details \<Rightarrow> u16 \<Rightarrow> bytes \<Rightarrow> string + bool" where
  "Verify marshal data version expected =
     (if \<not> check_version version then Inl UnsupportedChecksumVersion
      else case marshal (pbData (Details_Blocknumber data) (Details_Stateroot data) (Details_Blockhash data) (Details_Range data)) of
          Inl err \<Rightarrow> Inl err | Inr dataBytes \<Rightarrow> checksum_Verify dataBytes version expected)"

definition CreatefromPB :: "(PriorSync_pb \<Rightarrow> string + bytes option) \<Rightarrow> PriorSync_pb \<Rightarrow> u16 \<Rightarrow> string + bytes" where
  "CreatefromPB marshal data version =
     (if \<not> check_version version then Inl UnsupportedChecksumVersion
      else case marshal (pbData (PriorSync_Blocknumber data) (PriorSync_Stateroot data) (PriorSync_Blockhash data) (PriorSync_Range data)) of
          Inl err \<Rightarrow> Inl err | Inr dataBytes \<Rightarrow> checksum_Create dataBytes version)"

definition VerifyfromPB :: "(PriorSync_pb \<Rightarrow> string + bytes option) \<Rightarrow> PriorSync_pb \<Rightarrow> u16 \<Rightarrow> bytes \<Rightarrow> string + bool" where
  "VerifyfromPB marshal data version expected = Verify marshal
     \<lparr>Details_Blocknumber = PriorSync_Blocknumber data, Details_Stateroot = PriorSync_Stateroot data,
      Details_Blockhash = PriorSync_Blockhash data,
      Details_Range = (case PriorSync_Range data of None \<Rightarrow> None | Some r \<Rightarrow> Some \<lparr>Range_Start = Range_Start r, Range_End = Range_End r\<rparr>),
      Details_Version = 0\<rparr> version expected"

section \<open>Facts\<close>

lemma same_bytes_iff: "length xs = length ys \<Longrightarrow> same_bytes xs ys \<longleftrightarrow> xs = ys"
  by (induction xs ys rule: list_induct2) auto

lemma checksum_Verify_iff:
  "checksum_Verify d v e = (case checksum_Create d v of Inl err \<Rightarrow> Inl err | Inr c \<Rightarrow> Inr (e = c))"
  by (auto simp: checksum_Verify_def same_bytes_iff split: sum.splits)

lemma VerifyfromPB_iff:
  "VerifyfromPB marshal d v e = (case CreatefromPB marshal d v of Inl err \<Rightarrow> Inl err | Inr c \<Rightarrow> Inr (e = c))"
  by (auto simp: VerifyfromPB_def Verify_def CreatefromPB_def pbData_def checksum_Verify_iff split: sum.splits option.splits)

lemma length_PutUint32 [simp]: "length (PutUint32 w) = 4"
  by (simp add: PutUint32_def)

lemma length_sha_block: "length H = 8 \<Longrightarrow> length (sha_block H ws) = 8"
proof -
  assume H: "length H = 8"
  have r: "length s = 8 \<Longrightarrow> length (sha_round s p) = 8" for s p
    by (cases "(s, p)" rule: sha_round.cases) (auto simp: Let_def)
  have "length s = 8 \<Longrightarrow> length (foldl sha_round s ps) = 8" for s ps
    by (induction ps arbitrary: s) (auto simp: r)
  then show ?thesis using H by (simp add: sha_block_def)
qed

lemma length_sha_H0: "length sha_H0 = 8"
proof -
  have "primes_below 19 = [2, 3, 5, 7, 11, 13, 17, 19]" by code_simp
  then show ?thesis by (simp add: sha_H0_def)
qed

lemma length_Sum256: "length (Sum256 d) = 32"
proof -
  have "length H = 8 \<Longrightarrow> length (sha_blocks n H ws) = 8" for n H ws
    by (induction n H ws rule: sha_blocks.induct) (auto simp: length_sha_block)
  moreover have "length (concat (map PutUint32 ws)) = 4 * length ws" for ws
    by (induction ws) auto
  ultimately show ?thesis by (simp add: Sum256_def Let_def length_sha_H0)
qed

text \<open>The length of a checksum is given by the version.\<close>

lemma checksum_length: "checksum_Create d v = Inr c \<Longrightarrow> length c = (if v = 1 then 4 else 32)"
  by (auto simp: checksum_Create_def length_Sum256 split: option.splits if_splits)

end
