(* ===== verification/FS_HeaderSync.thy ===== *)
theory FS_HeaderSync
  imports FS_Events FS_Merkle FS_Checksum
begin

text \<open>
  \<open>core/headersync/headersync.go\<close>: fetching the headers of a tag from remotes, batch by batch, and
  confirming with the remotes that the header sets agree.

  The network is a parameter: \<open>N :: ('n, 't, 'b) hs_net\<close> gives the answer to every request by its round,
  batch, remote and attempt, so that it ranges over all behaviours of the peers. It also gives the order in
  which concurrent workers deliver their results, the local block store in every round, the Merkle tree
  library and \<open>proto.Marshal\<close>. The header table is the parameter \<open>W\<close> (\<open>types.WriteHeaders\<close>). \<open>sort.Slice\<close>
  is the stable sort.
\<close>

section \<open>Errors\<close>

datatype hs_error =
    RequestNil
  | NoRemotes
  | CommNotSet
  | BatchFailed nat
  | HSWALWriteFailed nat
  | HSWALFlushFailed nat
  | WriteHeadersFailed nat
  | SnapshotFailed
  | AuthenticationFailed
  | ChecksumFailed
  | MissingHeadersync
  | PeersExhausted
  | NotConverged

definition maxRetries :: nat where "maxRetries = 2"
definition maxSyncRounds :: nat where "maxSyncRounds = 4"
definition maxWorkers :: nat where "maxWorkers = 3"

section \<open>Batches\<close>

definition makeBatchRequest :: "Tag \<Rightarrow> Auth option \<Rightarrow> HeaderSyncRequest" where
  "makeBatchRequest tag auth = \<lparr>HeaderSyncRequest_Tag = Some tag,
     HeaderSyncRequest_Ack = Some \<lparr>Ack_Ok = True, Ack_Error = []\<rparr>,
     HeaderSyncRequest_Phase = Some \<lparr>Phase_PresentPhase = HEADER_SYNC_REQUEST,
       Phase_SuccessivePhase = HEADER_SYNC_RESPONSE, Phase_Success = True, Phase_Error = [], Phase_Auth = auth\<rparr>\<rparr>"

text \<open>The packing loops carry the finished batches, the current tag and its \<open>uint64\<close> count.\<close>

type_synonym pack = "HeaderSyncRequest list \<times> Tag \<times> u64"

definition finalize :: "Auth option \<Rightarrow> pack \<Rightarrow> pack" where
  "finalize auth p = (case p of (batches, currentTag, currentCount) \<Rightarrow>
     (batches @ [makeBatchRequest currentTag auth], empty_Tag, 0))"

definition pack_range :: "Auth option \<Rightarrow> RangeTag \<Rightarrow> pack \<Rightarrow> pack" where
  "pack_range auth r p0 =
     (let rangeSize = RangeTag_End r - RangeTag_Start r + 1;
          p1 = (if snd (snd p0) > 0 \<and> snd (snd p0) + rangeSize > MAX_HEADERS_PER_REQUEST
                then finalize auth p0 else p0)
      in case p1 of (batches, currentTag, currentCount) \<Rightarrow>
        let p2 = (batches, currentTag\<lparr>Tag_Range := Tag_Range currentTag @ [r]\<rparr>, currentCount + rangeSize)
        in if snd (snd p2) \<ge> MAX_HEADERS_PER_REQUEST then finalize auth p2 else p2)"

definition pack_block :: "Auth option \<Rightarrow> u64 \<Rightarrow> pack \<Rightarrow> pack" where
  "pack_block auth bn p0 =
     (let p1 = (if snd (snd p0) > 0 \<and> snd (snd p0) + 1 > MAX_HEADERS_PER_REQUEST then finalize auth p0 else p0)
      in case p1 of (batches, currentTag, currentCount) \<Rightarrow>
        (batches, currentTag\<lparr>Tag_BlockNumber := Tag_BlockNumber currentTag @ [bn]\<rparr>, currentCount + 1))"

definition buildBatches :: "Tag \<Rightarrow> Auth option \<Rightarrow> HeaderSyncRequest list" where
  "buildBatches tag auth =
     (let ranges = sort_key RangeTag_Start (Tag_Range tag);
          blockNums = sort (Tag_BlockNumber tag);
          p1 = foldl (\<lambda>p r. pack_range auth r p) ([], empty_Tag, 0) ranges;
          p2 = foldl (\<lambda>p bn. pack_block auth bn p) p1 blockNums
      in if snd (snd p2) > 0 then fst (finalize auth p2) else fst p2)"

section \<open>Fetching one batch\<close>

record batchResult =
  batchResult_BatchID :: nat
  batchResult_Headers :: "Header list"
  batchResult_Err :: bool

definition refused :: "HeaderSyncResponse \<Rightarrow> bool" where
  "refused resp \<longleftrightarrow> (case HeaderSyncResponse_Ack resp of None \<Rightarrow> False | Some a \<Rightarrow> \<not> Ack_Ok a)"

fun try_attempts :: "(nat \<Rightarrow> HeaderSyncResponse option) \<Rightarrow> nat list \<Rightarrow> Header list option" where
  "try_attempts send [] = None"
| "try_attempts send (attempt # as) = (case send attempt of None \<Rightarrow> try_attempts send as
     | Some resp \<Rightarrow> if refused resp then try_attempts send as
         else if HeaderSyncResponse_Header resp = [] then try_attempts send as
         else Some (sort_key Header_BlockNumber (HeaderSyncResponse_Header resp)))"

definition with_auth :: "Auth option \<Rightarrow> HeaderSyncRequest \<Rightarrow> HeaderSyncRequest" where
  "with_auth a req = req\<lparr>HeaderSyncRequest_Phase :=
     map_option (\<lambda>p. p\<lparr>Phase_Auth := a\<rparr>) (HeaderSyncRequest_Phase req)\<rparr>"

definition try_remote :: "(nat \<Rightarrow> HeaderSyncRequest \<Rightarrow> HeaderSyncResponse option) \<Rightarrow> HeaderSyncRequest \<Rightarrow>
    'n AvailabilityResponse \<Rightarrow> Header list option" where
  "try_remote send req ar =
     try_attempts (\<lambda>k. send k (with_auth (AvailabilityResponse_Auth ar) req)) [1 ..< Suc maxRetries]"

fun try_remotes :: "('n \<Rightarrow> bool) \<Rightarrow> (nat \<Rightarrow> nat \<Rightarrow> HeaderSyncRequest \<Rightarrow> HeaderSyncResponse option) \<Rightarrow>
    HeaderSyncRequest \<Rightarrow> nat \<Rightarrow> 'n AvailabilityResponse list \<Rightarrow> Header list option" where
  "try_remotes parses send req i [] = None"
| "try_remotes parses send req i (ar # ars) =
     (if \<not> parses (AvailabilityResponse_Nodeinfo ar) then try_remotes parses send req (Suc i) ars
      else case try_remote (send i) req ar of
          Some hs \<Rightarrow> Some hs
        | None \<Rightarrow> try_remotes parses send req (Suc i) ars)"

text \<open>One job of \<open>fetchWorker\<close>.\<close>

definition fetch_job :: "('n \<Rightarrow> bool) \<Rightarrow> (nat \<Rightarrow> nat \<Rightarrow> nat \<Rightarrow> HeaderSyncRequest \<Rightarrow> HeaderSyncResponse option) \<Rightarrow>
    'n AvailabilityResponse list \<Rightarrow> nat \<Rightarrow> HeaderSyncRequest \<Rightarrow> batchResult" where
  "fetch_job parses send remotes batchID req =
     (case try_remotes parses (send batchID) req 0 remotes of
        Some hs \<Rightarrow> \<lparr>batchResult_BatchID = batchID, batchResult_Headers = hs, batchResult_Err = False\<rparr>
      | None \<Rightarrow> \<lparr>batchResult_BatchID = batchID, batchResult_Headers = [], batchResult_Err = True\<rparr>)"

section \<open>Writing the results\<close>

record ('l, 'd, 'n) hs_state =
  HS_wal :: "'l WAL option"
  HS_db :: 'd
  HS_auth :: "Auth option"
  HS_remotes :: "'n AvailabilityResponse list"

definition OpAppend :: string where "OpAppend = ''APPEND''"

definition header_event :: "Header list \<Rightarrow> HeaderSyncResponse ProtoEvent" where
  "header_event hs = \<lparr>ProtoEvent_Base = empty_BaseEvent\<lparr>BaseEvent_Operation := OpAppend\<rparr>,
     ProtoEvent_Message = Some \<lparr>HeaderSyncResponse_Header = hs, HeaderSyncResponse_Ack = None,
       HeaderSyncResponse_Phase = None\<rparr>, ProtoEvent_ProtoData = []\<rparr>"

text \<open>WAL write and flush, database write, checkpoint (whose failure is only logged).\<close>

definition write_result :: "'l log_ops \<Rightarrow> (nat \<Rightarrow> fs_env) \<Rightarrow> HeaderSyncResponse proto_ops \<Rightarrow>
    (Header list \<Rightarrow> 'd \<Rightarrow> 'd \<times> bool) \<Rightarrow> batchResult \<Rightarrow> ('l, 'd, 'n) hs_state \<Rightarrow>
    ('l, 'd, 'n) hs_state \<times> hs_error option" where
  "write_result L env P W r s =
     (if batchResult_Headers r = [] then (s, None)
      else case (case HS_wal s of None \<Rightarrow> (None, None)
            | Some w \<Rightarrow>
               (case WriteEvent L (env 0) HeaderSync
                       (snd (HeaderSyncEvent_Serialize P (header_event (batchResult_Headers r)))) w of
                  (w1, Inl _) \<Rightarrow> (Some w1, Some (HSWALWriteFailed (batchResult_BatchID r)))
                | (w1, Inr _) \<Rightarrow> (case Flush L (env 1) w1 of
                     (w2, Inl _) \<Rightarrow> (Some w2, Some (HSWALFlushFailed (batchResult_BatchID r)))
                   | (w2, Inr _) \<Rightarrow> (Some w2, None)))) of
          (wal, Some e) \<Rightarrow> (s\<lparr>HS_wal := wal\<rparr>, Some e)
        | (wal, None) \<Rightarrow>
           (case W (batchResult_Headers r) (HS_db s) of
              (db, False) \<Rightarrow> (s\<lparr>HS_wal := wal, HS_db := db\<rparr>, Some (WriteHeadersFailed (batchResult_BatchID r)))
            | (db, True) \<Rightarrow> (s\<lparr>HS_wal := map_option (\<lambda>w. fst (CreateCheckpoint L (env 2) w)) wal, HS_db := db\<rparr>, None)))"

fun write_results :: "'l log_ops \<Rightarrow> (nat \<Rightarrow> nat \<Rightarrow> fs_env) \<Rightarrow> HeaderSyncResponse proto_ops \<Rightarrow>
    (Header list \<Rightarrow> 'd \<Rightarrow> 'd \<times> bool) \<Rightarrow> batchResult list \<Rightarrow> ('l, 'd, 'n) hs_state \<Rightarrow>
    ('l, 'd, 'n) hs_state \<times> hs_error option" where
  "write_results L env P W [] s = (s, None)"
| "write_results L env P W (r # rs) s = (case write_result L (env 0) P W r s of
     (s', Some e) \<Rightarrow> (s', Some e)
   | (s', None) \<Rightarrow> write_results L (\<lambda>k. env (Suc k)) P W rs s')"

definition first_block :: "batchResult \<Rightarrow> u64" where
  "first_block r = Header_BlockNumber (hd (batchResult_Headers r))"

text \<open>The errors are checked before anything is sorted, so that no result without headers is compared.\<close>

definition processResults :: "'l log_ops \<Rightarrow> (nat \<Rightarrow> nat \<Rightarrow> fs_env) \<Rightarrow> HeaderSyncResponse proto_ops \<Rightarrow>
    (Header list \<Rightarrow> 'd \<Rightarrow> 'd \<times> bool) \<Rightarrow> batchResult list \<Rightarrow> ('l, 'd, 'n) hs_state \<Rightarrow>
    ('l, 'd, 'n) hs_state \<times> hs_error option" where
  "processResults L env P W results s =
     (case find batchResult_Err results of
        Some r \<Rightarrow> (s, Some (BatchFailed (batchResult_BatchID r)))
      | None \<Rightarrow> write_results L env P W (sort_key first_block results) s)"

record ('n, 't, 'b) hs_net =
  net_parses :: "'n \<Rightarrow> bool"
  net_headers :: "nat \<Rightarrow> nat \<Rightarrow> nat \<Rightarrow> nat \<Rightarrow> HeaderSyncRequest \<Rightarrow> HeaderSyncResponse option"
  net_arrival :: "nat \<Rightarrow> batchResult list \<Rightarrow> batchResult list"
  net_avail :: "nat \<Rightarrow> nat \<Rightarrow> nat \<Rightarrow> 'n AvailabilityResponse option"
  net_auth_order :: "nat \<Rightarrow> nat list \<Rightarrow> nat list"
  net_prior :: "nat \<Rightarrow> nat \<Rightarrow> MerkleSnapshot \<Rightarrow> PriorSyncMessage \<Rightarrow> PriorSyncMessage option"
  net_store :: "nat \<Rightarrow> 'b BlockInfo"
  net_tree :: "'t merkle_ops"
  net_marshal :: "PriorSync_pb \<Rightarrow> string + bytes option"

definition processQueue :: "'l log_ops \<Rightarrow> (nat \<Rightarrow> nat \<Rightarrow> fs_env) \<Rightarrow> HeaderSyncResponse proto_ops \<Rightarrow>
    (Header list \<Rightarrow> 'd \<Rightarrow> 'd \<times> bool) \<Rightarrow> ('n, 't, 'b) hs_net \<Rightarrow> nat \<Rightarrow> HeaderSyncRequest list \<Rightarrow> ('l, 'd, 'n) hs_state \<Rightarrow>
    ('l, 'd, 'n) hs_state \<times> hs_error option" where
  "processQueue L env P W N round queue s =
     (if queue = [] then (s, None)
      else processResults L env P W (net_arrival N round
             (map (\<lambda>(i, req). fetch_job (net_parses N) (net_headers N round) (HS_remotes s) (i + 1) req)
                (enumerate 0 queue))) s)"

section \<open>Sync confirmation\<close>

text \<open>\<open>interpretSyncResponse\<close>: an error, a match, a divergence, or neither.\<close>

definition interpretSyncResponse :: "PriorSyncMessage \<Rightarrow> hs_error + Tag option \<times> bool" where
  "interpretSyncResponse resp =
     (let succ = (case PriorSyncMessage_Phase resp of None \<Rightarrow> False | Some p \<Rightarrow> Phase_Success p);
          divergence = (case PriorSyncMessage_Headersync resp of None \<Rightarrow> Inr (None, False)
            | Some h \<Rightarrow> (case HeaderSyncRequest_Tag h of None \<Rightarrow> Inr (None, False)
               | Some tag \<Rightarrow> Inr (Some tag, False)))
      in if succ
         then (case PriorSyncMessage_Headersync resp of None \<Rightarrow> Inl MissingHeadersync
           | Some h \<Rightarrow>
              if HeaderSyncRequest_Tag h = None \<and>
                 (case PriorSyncMessage_Phase resp of None \<Rightarrow> False
                  | Some p \<Rightarrow> Phase_SuccessivePhase p = DATA_SYNC_REQUEST)
              then Inr (None, True) else divergence)
         else divergence)"

definition priorSyncRange :: "PriorSync_details \<Rightarrow> Range" where
  "priorSyncRange d = (case Details_Range d of
     Some r \<Rightarrow> \<lparr>Range_Start = Range_Start r, Range_End = Range_End r\<rparr>
   | None \<Rightarrow> \<lparr>Range_Start = 0, Range_End = Details_Blocknumber d\<rparr>)"

definition buildPriorSyncMsg :: "(PriorSync_pb \<Rightarrow> string + bytes option) \<Rightarrow> PriorSync_details \<Rightarrow> Range \<Rightarrow> Auth option \<Rightarrow>
    hs_error + PriorSyncMessage" where
  "buildPriorSyncMsg marshal d blockRange auth =
     (let ps = \<lparr>PriorSync_Blocknumber = Details_Blocknumber d, PriorSync_Stateroot = Details_Stateroot d,
                PriorSync_Blockhash = Details_Blockhash d,
                PriorSync_Metadata = Some \<lparr>Metadata_Checksum = [], Metadata_Version = 0, Metadata_Nodeinfo = None\<rparr>,
                PriorSync_Merklesnapshot = None, PriorSync_Range = Some blockRange\<rparr>
      in case CreatefromPB marshal ps (Details_Version d) of Inl _ \<Rightarrow> Inl ChecksumFailed
         | Inr c \<Rightarrow> Inr \<lparr>PriorSyncMessage_Priorsync = Some (ps\<lparr>PriorSync_Metadata := Some
               \<lparr>Metadata_Checksum = c, Metadata_Version = ucast (Details_Version d), Metadata_Nodeinfo = None\<rparr>\<rparr>),
             PriorSyncMessage_Ack = None,
             PriorSyncMessage_Phase = Some (empty_Phase\<lparr>Phase_Auth := auth\<rparr>),
             PriorSyncMessage_Headersync = None\<rparr>)"

definition buildMerkleSnapshot :: "'t merkle_ops \<Rightarrow> 'b BlockInfo \<Rightarrow> u64 \<Rightarrow> string + MerkleSnapshot" where
  "buildMerkleSnapshot M B topBlock = (case GenerateMerkleTree M B 0 topBlock of
     Inl err \<Rightarrow> Inl (''build merkle tree: '' @ err)
   | Inr builder \<Rightarrow> (case ToSnapshot M builder of Inl err \<Rightarrow> Inl (''serialize merkle snapshot: '' @ err)
      | Inr snapshot \<Rightarrow> Inr snapshot))"

text \<open>The fresh token of the first attempt that yields one.\<close>

definition fresh_auth :: "'n AvailabilityResponse option \<Rightarrow> Auth option" where
  "fresh_auth r = (case r of None \<Rightarrow> None
     | Some resp \<Rightarrow> if AvailabilityResponse_IsAvailable resp
         then (case AvailabilityResponse_Auth resp of None \<Rightarrow> None
           | Some a \<Rightarrow> if Auth_UUID a \<noteq> [] then Some a else None)
         else None)"

fun refresh_attempts :: "(nat \<Rightarrow> 'n AvailabilityResponse option) \<Rightarrow> nat list \<Rightarrow> Auth option" where
  "refresh_attempts avail [] = None"
| "refresh_attempts avail (k # ks) = (case fresh_auth (avail k) of Some a \<Rightarrow> Some a
     | None \<Rightarrow> refresh_attempts avail ks)"

definition tryRefreshAuth :: "('n, 't, 'b) hs_net \<Rightarrow> nat \<Rightarrow> nat \<Rightarrow> 'n AvailabilityResponse \<Rightarrow> Auth option" where
  "tryRefreshAuth N round i ar =
     (if net_parses N (AvailabilityResponse_Nodeinfo ar)
      then refresh_attempts (net_avail N round i) [1 ..< Suc maxRetries] else None)"

text \<open>
  \<open>refreshAuthForRemotes\<close>: the remotes with their tokens replaced in place, and the (index, token)
  pairs in the order the goroutines delivered them.
\<close>

definition refreshAuthForRemotes :: "('n, 't, 'b) hs_net \<Rightarrow> nat \<Rightarrow> 'n AvailabilityResponse list \<Rightarrow>
    'n AvailabilityResponse list \<times> (hs_error + (nat \<times> Auth) list)" where
  "refreshAuthForRemotes N round remotes =
     (let tok = (\<lambda>i. tryRefreshAuth N round i (remotes ! i));
          remotes' = map (\<lambda>i. case tok i of None \<Rightarrow> remotes ! i
             | Some a \<Rightarrow> (remotes ! i)\<lparr>AvailabilityResponse_Auth := Some a\<rparr>) [0 ..< length remotes];
          out = map (\<lambda>i. (i, the (tok i))) (net_auth_order N round
             (filter (\<lambda>i. tok i \<noteq> None) [0 ..< length remotes]))
      in (remotes', if out = [] then Inl AuthenticationFailed else Inr out))"

fun sendPriorSyncToRemotes :: "('n, 't, 'b) hs_net \<Rightarrow> nat \<Rightarrow> MerkleSnapshot \<Rightarrow> PriorSync_details \<Rightarrow> (nat \<times> Auth) list \<Rightarrow> Auth option \<Rightarrow>
    Auth option \<times> (hs_error + Tag option \<times> bool)" where
  "sendPriorSyncToRemotes N round snapshot d [] serverAuth = (serverAuth, Inl PeersExhausted)"
| "sendPriorSyncToRemotes N round snapshot d ((i, a) # rs) serverAuth =
     (case buildPriorSyncMsg (net_marshal N) d (priorSyncRange d) (Some a) of
        Inl e \<Rightarrow> (serverAuth, Inl e)
      | Inr msg \<Rightarrow> (case net_prior N round i snapshot msg of
           None \<Rightarrow> sendPriorSyncToRemotes N round snapshot d rs serverAuth
         | Some resp \<Rightarrow> (case interpretSyncResponse resp of
              Inl e \<Rightarrow> (serverAuth, Inl e)
            | Inr (tag, synced) \<Rightarrow>
                if synced \<or> tag \<noteq> None then (Some a, Inr (tag, synced))
                else sendPriorSyncToRemotes N round snapshot d rs serverAuth)))"

definition SyncConfirmation :: "('n, 't, 'b) hs_net \<Rightarrow> nat \<Rightarrow> ('l, 'd, 'n) hs_state \<Rightarrow>
    ('l, 'd, 'n) hs_state \<times> (hs_error + Tag option \<times> bool)" where
  "SyncConfirmation N round s =
     (let localDetails = GetBlockDetails (net_store N round)
      in case buildMerkleSnapshot (net_tree N) (net_store N round) (Details_Blocknumber localDetails) of
        Inl _ \<Rightarrow> (s, Inl SnapshotFailed)
      | Inr snapshot \<Rightarrow> (case refreshAuthForRemotes N round (HS_remotes s) of
             (remotes', Inl e) \<Rightarrow> (s\<lparr>HS_remotes := remotes'\<rparr>, Inl e)
           | (remotes', Inr authRemotes) \<Rightarrow>
              (case sendPriorSyncToRemotes N round snapshot localDetails authRemotes (HS_auth s) of
                 (auth', res) \<Rightarrow> (s\<lparr>HS_remotes := remotes', HS_auth := auth'\<rparr>, res))))"

section \<open>The protocol\<close>

definition data_sync_request :: "Tag \<Rightarrow> u16 \<Rightarrow> Auth option \<Rightarrow> DataSyncRequest" where
  "data_sync_request tag version auth = \<lparr>DataSyncRequest_Tag = Some tag, DataSyncRequest_Version = ucast version,
     DataSyncRequest_Ack = Some \<lparr>Ack_Ok = True, Ack_Error = []\<rparr>,
     DataSyncRequest_Phase = Some \<lparr>Phase_PresentPhase = HEADER_SYNC_RESPONSE,
       Phase_SuccessivePhase = DATA_SYNC_REQUEST, Phase_Success = True, Phase_Error = [], Phase_Auth = auth\<rparr>\<rparr>"

text \<open>The rounds \<open>round, round + 1, \<dots>\<close>; \<open>left\<close> of them are still allowed.\<close>

fun sync_rounds :: "'l log_ops \<Rightarrow> (nat \<Rightarrow> nat \<Rightarrow> nat \<Rightarrow> fs_env) \<Rightarrow> HeaderSyncResponse proto_ops \<Rightarrow>
    (Header list \<Rightarrow> 'd \<Rightarrow> 'd \<times> bool) \<Rightarrow> ('n, 't, 'b) hs_net \<Rightarrow> u16 \<Rightarrow> Tag \<Rightarrow> nat \<Rightarrow> nat \<Rightarrow> HeaderSyncRequest list \<Rightarrow>
    ('l, 'd, 'n) hs_state \<Rightarrow> ('l, 'd, 'n) hs_state \<times> (hs_error + DataSyncRequest option)" where
  "sync_rounds L env P W N ver originalTag round 0 queue s = (s, Inl NotConverged)"
| "sync_rounds L env P W N ver originalTag round (Suc left) queue s =
     (case processQueue L (env round) P W N round queue s of
        (s1, Some e) \<Rightarrow> (s1, Inl e)
      | (s1, None) \<Rightarrow> (case SyncConfirmation N round s1 of
           (s2, Inl e) \<Rightarrow> (s2, Inl e)
         | (s2, Inr (newTag, synced)) \<Rightarrow>
             if synced then (s2, Inr (Some (data_sync_request originalTag ver (HS_auth s2))))
             else sync_rounds L env P W N ver originalTag (Suc round) left
                    (buildBatches (the newTag) (HS_auth s2)) s2))"

definition HeaderSync_HeaderSync :: "'l log_ops \<Rightarrow> (nat \<Rightarrow> nat \<Rightarrow> nat \<Rightarrow> fs_env) \<Rightarrow> HeaderSyncResponse proto_ops \<Rightarrow>
    (Header list \<Rightarrow> 'd \<Rightarrow> 'd \<times> bool) \<Rightarrow> ('n, 't, 'b) hs_net \<Rightarrow> u16 \<Rightarrow> bool \<Rightarrow> HeaderSyncRequest option \<Rightarrow> bool \<Rightarrow>
    ('l, 'd, 'n) hs_state \<Rightarrow> ('l, 'd, 'n) hs_state \<times> (hs_error + DataSyncRequest option)" where
  "HeaderSync_HeaderSync L env P W N ver commSet headersyncrequest syncConfirmation s =
     (case headersyncrequest of None \<Rightarrow> (s, Inl RequestNil)
      | Some req \<Rightarrow>
         if HS_remotes s = [] then (s, Inl NoRemotes)
         else if \<not> commSet then (s, Inl CommNotSet)
         else case HeaderSyncRequest_Tag req of None \<Rightarrow> (s, Inr None)
           | Some originalTag \<Rightarrow>
              let auth = (case HeaderSyncRequest_Phase req of None \<Rightarrow> None | Some p \<Rightarrow> Phase_Auth p);
                  s0 = s\<lparr>HS_auth := auth\<rparr>;
                  queue = buildBatches originalTag auth
              in if \<not> syncConfirmation
                 then (case processQueue L (env 1) P W N 1 queue s0 of
                     (s1, Some e) \<Rightarrow> (s1, Inl e)
                   | (s1, None) \<Rightarrow> (s1, Inr (Some (data_sync_request originalTag ver (HS_auth s1)))))
                 else sync_rounds L env P W N ver originalTag 1 maxSyncRounds queue s0)"

end
