(* ===== verification/FS_DataSync.thy ===== *)
theory FS_DataSync
  imports FS_Tagging FS_HeaderSync
begin

text \<open>
  \<open>core/datasync/datasync.go\<close>: fetching the block bodies of a tag. The batches are fetched by
  concurrent workers and written strictly in batch order by one collecting loop, which buffers the
  batches that arrive early. The network and the database are parameters as in the header sync; \<open>'b\<close> is
  the content of \<open>blockpb.NonHeaders\<close> beside its block number.
\<close>

section \<open>Data\<close>

record 'b dataBatchResult =
  dataBatchResult_BatchID :: nat
  dataBatchResult_NonHeaders :: "'b NonHeaders list"
  dataBatchResult_TaggedAccounts :: "TaggedAccounts option"
  dataBatchResult_Err :: bool

datatype ds_error =
    DSRequestNil
  | DSNoRemotes
  | DSCommNotSet
  | DSBatchFailed nat
  | DSWALWriteFailed nat
  | DSWALFlushFailed nat
  | WriteDataFailed nat

section \<open>Batches\<close>

definition makeDataBatchRequest :: "Tag \<Rightarrow> u16 \<Rightarrow> Auth option \<Rightarrow> DataSyncRequest" where
  "makeDataBatchRequest tag version auth = \<lparr>DataSyncRequest_Tag = Some tag, DataSyncRequest_Version = ucast version,
     DataSyncRequest_Ack = Some \<lparr>Ack_Ok = True, Ack_Error = []\<rparr>,
     DataSyncRequest_Phase = Some \<lparr>Phase_PresentPhase = DATA_SYNC_REQUEST,
       Phase_SuccessivePhase = DATA_SYNC_RESPONSE, Phase_Success = True, Phase_Error = [], Phase_Auth = auth\<rparr>\<rparr>"

type_synonym dpack = "DataSyncRequest list \<times> Tag \<times> u64"

definition flush_batch :: "u16 \<Rightarrow> Auth option \<Rightarrow> dpack \<Rightarrow> dpack" where
  "flush_batch ver auth p = (case p of (batches, currentTag, currentCount) \<Rightarrow>
     (batches @ [makeDataBatchRequest currentTag ver auth], empty_Tag, 0))"

text \<open>One iteration on \<open>[currStart, currEnd]\<close>: the next start, and the packing state.\<close>

definition chunk_step :: "u16 \<Rightarrow> Auth option \<Rightarrow> u64 \<Rightarrow> u64 \<Rightarrow> dpack \<Rightarrow> u64 \<times> dpack" where
  "chunk_step ver auth currStart currEnd p = (case p of (batches, currentTag, currentCount) \<Rightarrow>
     (let remainingCapacity = MAX_DATA_PER_REQUEST - currentCount;
          remainingPieces = currEnd - currStart + 1
      in if remainingPieces \<le> remainingCapacity
         then (let p' = (batches, currentTag\<lparr>Tag_Range := Tag_Range currentTag @
                     [\<lparr>RangeTag_Start = currStart, RangeTag_End = currEnd\<rparr>]\<rparr>, currentCount + remainingPieces)
               in (currEnd + 1, if snd (snd p') = MAX_DATA_PER_REQUEST then flush_batch ver auth p' else p'))
         else (let chunkEnd = currStart + remainingCapacity - 1
               in (chunkEnd + 1, flush_batch ver auth (batches, currentTag\<lparr>Tag_Range := Tag_Range currentTag @
                     [\<lparr>RangeTag_Start = currStart, RangeTag_End = chunkEnd\<rparr>]\<rparr>,
                     currentCount + remainingCapacity)))))"

partial_function (option) chunk_loop :: "u16 \<Rightarrow> Auth option \<Rightarrow> u64 \<Rightarrow> u64 \<Rightarrow> dpack \<Rightarrow> dpack option" where
  "chunk_loop ver auth currStart currEnd p =
     (if currStart \<le> currEnd
      then (case chunk_step ver auth currStart currEnd p of (s', p') \<Rightarrow> chunk_loop ver auth s' currEnd p')
      else Some p)"

fun chunk_ranges :: "u16 \<Rightarrow> Auth option \<Rightarrow> RangeTag list \<Rightarrow> dpack \<Rightarrow> dpack option" where
  "chunk_ranges ver auth [] p = Some p"
| "chunk_ranges ver auth (r # rs) p = (case chunk_loop ver auth (RangeTag_Start r) (RangeTag_End r) p of
     None \<Rightarrow> None | Some p' \<Rightarrow> chunk_ranges ver auth rs p')"

definition pack_number :: "u16 \<Rightarrow> Auth option \<Rightarrow> u64 \<Rightarrow> dpack \<Rightarrow> dpack" where
  "pack_number ver auth bn p0 =
     (let p1 = (if snd (snd p0) > 0 \<and> snd (snd p0) + 1 > MAX_DATA_PER_REQUEST then flush_batch ver auth p0 else p0)
      in case p1 of (batches, currentTag, currentCount) \<Rightarrow>
        (batches, currentTag\<lparr>Tag_BlockNumber := Tag_BlockNumber currentTag @ [bn]\<rparr>, currentCount + 1))"

definition buildDataBatches :: "Tag \<Rightarrow> u16 \<Rightarrow> Auth option \<Rightarrow> DataSyncRequest list option" where
  "buildDataBatches tag ver auth =
     (case chunk_ranges ver auth (sort_key RangeTag_Start (Tag_Range tag)) ([], empty_Tag, 0) of None \<Rightarrow> None
      | Some p1 \<Rightarrow>
         let p2 = foldl (\<lambda>p bn. pack_number ver auth bn p) p1 (sort (Tag_BlockNumber tag))
         in Some (if snd (snd p2) > 0 then fst (flush_batch ver auth p2) else fst p2))"

section \<open>Fetching one batch\<close>

fun data_attempts :: "(nat \<Rightarrow> 'b DataSyncResponse option) \<Rightarrow> nat list \<Rightarrow> 'b DataSyncResponse option" where
  "data_attempts send [] = None"
| "data_attempts send (k # ks) = (case send k of None \<Rightarrow> data_attempts send ks
     | Some resp \<Rightarrow> if (case DataSyncResponse_Ack resp of None \<Rightarrow> False | Some a \<Rightarrow> \<not> Ack_Ok a) then data_attempts send ks
         else if DataSyncResponse_Data resp = [] then data_attempts send ks
         else Some (resp\<lparr>DataSyncResponse_Data := sort_key NonHeaders_BlockNumber (DataSyncResponse_Data resp)\<rparr>))"

text \<open>The copy of the request with the remote's token, when both exist.\<close>

definition data_request_for :: "'n AvailabilityResponse \<Rightarrow> DataSyncRequest \<Rightarrow> DataSyncRequest" where
  "data_request_for ar req = (case (DataSyncRequest_Phase req, AvailabilityResponse_Auth ar) of
     (Some ph, Some a) \<Rightarrow> req\<lparr>DataSyncRequest_Phase := Some (ph\<lparr>Phase_Auth := Some a\<rparr>)\<rparr>
   | _ \<Rightarrow> req)"

fun data_remotes :: "('n \<Rightarrow> bool) \<Rightarrow> (nat \<Rightarrow> nat \<Rightarrow> DataSyncRequest \<Rightarrow> 'b DataSyncResponse option) \<Rightarrow>
    DataSyncRequest \<Rightarrow> nat \<Rightarrow> 'n AvailabilityResponse list \<Rightarrow> 'b DataSyncResponse option" where
  "data_remotes parses send req i [] = None"
| "data_remotes parses send req i (ar # ars) =
     (if \<not> parses (AvailabilityResponse_Nodeinfo ar) then data_remotes parses send req (Suc i) ars
      else case data_attempts (\<lambda>k. send i k (data_request_for ar req)) [1 ..< Suc maxRetries] of
          Some resp \<Rightarrow> Some resp
        | None \<Rightarrow> data_remotes parses send req (Suc i) ars)"

definition data_fetch_job :: "('n \<Rightarrow> bool) \<Rightarrow> (nat \<Rightarrow> nat \<Rightarrow> nat \<Rightarrow> DataSyncRequest \<Rightarrow> 'b DataSyncResponse option) \<Rightarrow>
    'n AvailabilityResponse list \<Rightarrow> nat \<Rightarrow> DataSyncRequest \<Rightarrow> 'b dataBatchResult" where
  "data_fetch_job parses send remotes batchID req =
     (case data_remotes parses (send batchID) req 0 remotes of
        Some resp \<Rightarrow> \<lparr>dataBatchResult_BatchID = batchID, dataBatchResult_NonHeaders = DataSyncResponse_Data resp,
          dataBatchResult_TaggedAccounts = DataSyncResponse_Taggedaccounts resp, dataBatchResult_Err = False\<rparr>
      | None \<Rightarrow> \<lparr>dataBatchResult_BatchID = batchID, dataBatchResult_NonHeaders = [],
          dataBatchResult_TaggedAccounts = None, dataBatchResult_Err = True\<rparr>)"

section \<open>Writing in batch order\<close>

text \<open>
  The collecting loop of \<open>processDataQueue\<close>, for any way \<open>process\<close> to handle one batch:
  \<open>expected\<close> is the next batch to write, \<open>early\<close> the map of batches that came too early.
\<close>

partial_function (option) drain_early ::
  "('b dataBatchResult \<Rightarrow> 's \<Rightarrow> 's \<times> ds_error option) \<Rightarrow> nat \<Rightarrow> (nat \<rightharpoonup> 'b dataBatchResult) \<Rightarrow> 's \<Rightarrow>
    (nat \<times> (nat \<rightharpoonup> 'b dataBatchResult) \<times> 's \<times> ds_error option) option" where
  "drain_early process expected early s = (case early expected of
     None \<Rightarrow> Some (expected, early, s, None)
   | Some r \<Rightarrow> (case process r s of
        (s', Some e) \<Rightarrow> Some (expected, early, s', Some e)
      | (s', None) \<Rightarrow> drain_early process (Suc expected) (early(expected := None)) s'))"

fun collect_results :: "('b dataBatchResult \<Rightarrow> 's \<Rightarrow> 's \<times> ds_error option) \<Rightarrow> nat \<Rightarrow> (nat \<rightharpoonup> 'b dataBatchResult) \<Rightarrow>
    'b dataBatchResult list \<Rightarrow> 's \<Rightarrow> ('s \<times> ds_error option) option" where
  "collect_results process expected early [] s = Some (s, None)"
| "collect_results process expected early (r # rs) s =
     (if dataBatchResult_Err r then Some (s, Some (DSBatchFailed (dataBatchResult_BatchID r)))
      else if dataBatchResult_BatchID r = expected
      then (case process r s of
          (s1, Some e) \<Rightarrow> Some (s1, Some e)
        | (s1, None) \<Rightarrow> (case drain_early process (Suc expected) early s1 of
             None \<Rightarrow> None
           | Some (k, m, s2, Some e) \<Rightarrow> Some (s2, Some e)
           | Some (k, m, s2, None) \<Rightarrow> collect_results process k m rs s2))
      else collect_results process expected (early(dataBatchResult_BatchID r \<mapsto> r)) rs s)"

record ('l, 'd) ds_state =
  DS_wal :: "'l WAL option"
  DS_db :: 'd
  DS_tags :: Tagging

definition data_event :: "'b NonHeaders list \<Rightarrow> 'b DataSyncResponse ProtoEvent" where
  "data_event ns = \<lparr>ProtoEvent_Base = empty_BaseEvent\<lparr>BaseEvent_Operation := OpAppend\<rparr>,
     ProtoEvent_Message = Some \<lparr>DataSyncResponse_Data = ns, DataSyncResponse_Version = 0,
       DataSyncResponse_Taggedaccounts = None, DataSyncResponse_Ack = None, DataSyncResponse_Phase = None\<rparr>, ProtoEvent_ProtoData = []\<rparr>"

text \<open>\<open>keys\<close> is the order in which the loop ranges over a received account map.\<close>

definition processAndWriteBatch :: "(TaggedAccounts \<Rightarrow> string list) \<Rightarrow> 'l log_ops \<Rightarrow> (nat \<Rightarrow> nat \<Rightarrow> fs_env) \<Rightarrow> 'b DataSyncResponse proto_ops \<Rightarrow>
    ('b NonHeaders list \<Rightarrow> 'd \<Rightarrow> 'd \<times> bool) \<Rightarrow> 'b dataBatchResult \<Rightarrow> ('l, 'd) ds_state \<Rightarrow>
    ('l, 'd) ds_state \<times> ds_error option" where
  "processAndWriteBatch keys L envs P W r s0 =
     (let s = (case dataBatchResult_TaggedAccounts r of None \<Rightarrow> s0
            | Some accounts \<Rightarrow> s0\<lparr>DS_tags := fold (\<lambda>a t. TagAccounts t a) (keys accounts) (DS_tags s0)\<rparr>);
          ns = dataBatchResult_NonHeaders r; env = envs (dataBatchResult_BatchID r)
      in if ns = [] then (s, None)
         else case (case DS_wal s of None \<Rightarrow> (None, None)
              | Some w \<Rightarrow>
                 (case WriteEvent L (env 0) DataSync (snd (DataSyncEvent_Serialize P (data_event ns))) w of
                    (w1, Inl _) \<Rightarrow> (Some w1, Some (DSWALWriteFailed (dataBatchResult_BatchID r)))
                  | (w1, Inr _) \<Rightarrow> (case Flush L (env 1) w1 of
                       (w2, Inl _) \<Rightarrow> (Some w2, Some (DSWALFlushFailed (dataBatchResult_BatchID r)))
                     | (w2, Inr _) \<Rightarrow> (Some w2, None)))) of
            (wal, Some e) \<Rightarrow> (s\<lparr>DS_wal := wal\<rparr>, Some e)
          | (wal, None) \<Rightarrow>
             (case W ns (DS_db s) of
                (db, False) \<Rightarrow> (s\<lparr>DS_wal := wal, DS_db := db\<rparr>, Some (WriteDataFailed (dataBatchResult_BatchID r)))
              | (db, True) \<Rightarrow> (s\<lparr>DS_wal := map_option (\<lambda>w. fst (CreateCheckpoint L (env 2) w)) wal, DS_db := db\<rparr>, None)))"

record ('b, 'n) ds_net =
  dnet_parses :: "'n \<Rightarrow> bool"
  dnet_data :: "nat \<Rightarrow> nat \<Rightarrow> nat \<Rightarrow> DataSyncRequest \<Rightarrow> 'b DataSyncResponse option"
  dnet_keys :: "TaggedAccounts \<Rightarrow> string list"
  dnet_arrival :: "'b dataBatchResult list \<Rightarrow> 'b dataBatchResult list"

definition processDataQueue :: "'l log_ops \<Rightarrow> (nat \<Rightarrow> nat \<Rightarrow> fs_env) \<Rightarrow> 'b DataSyncResponse proto_ops \<Rightarrow>
    ('b NonHeaders list \<Rightarrow> 'd \<Rightarrow> 'd \<times> bool) \<Rightarrow> ('b, 'n) ds_net \<Rightarrow> 'n AvailabilityResponse list \<Rightarrow> DataSyncRequest list \<Rightarrow>
    ('l, 'd) ds_state \<Rightarrow> (('l, 'd) ds_state \<times> (ds_error + TaggedAccounts option)) option" where
  "processDataQueue L envs P W N remotes queue s =
     (if queue = [] then Some (s, Inr None)
      else case collect_results (processAndWriteBatch (dnet_keys N) L envs P W) 1 Map.empty
             (dnet_arrival N (map (\<lambda>(i, req). data_fetch_job (dnet_parses N) (dnet_data N) remotes (i + 1) req)
                (enumerate 0 queue))) (s\<lparr>DS_tags := NewTagging\<rparr>) of
          None \<Rightarrow> None
        | Some (s', Some e) \<Rightarrow> Some (s', Inl e)
        | Some (s', None) \<Rightarrow> Some (s', Inr (GetAccountTag (DS_tags s'))))"

definition DataSync_DataSync :: "'l log_ops \<Rightarrow> (nat \<Rightarrow> nat \<Rightarrow> fs_env) \<Rightarrow> 'b DataSyncResponse proto_ops \<Rightarrow>
    ('b NonHeaders list \<Rightarrow> 'd \<Rightarrow> 'd \<times> bool) \<Rightarrow> ('b, 'n) ds_net \<Rightarrow> u16 \<Rightarrow> bool \<Rightarrow> DataSyncRequest option \<Rightarrow>
    'n AvailabilityResponse list \<Rightarrow> ('l, 'd) ds_state \<Rightarrow> (('l, 'd) ds_state \<times> (ds_error + TaggedAccounts option)) option" where
  "DataSync_DataSync L envs P W N ver commSet datasyncrequest remotes s =
     (case datasyncrequest of None \<Rightarrow> Some (s, Inl DSRequestNil)
      | Some req \<Rightarrow> (case DataSyncRequest_Tag req of None \<Rightarrow> Some (s, Inl DSRequestNil)
         | Some tag \<Rightarrow>
            if remotes = [] then Some (s, Inl DSNoRemotes)
            else if \<not> commSet then Some (s, Inl DSCommNotSet)
            else case buildDataBatches tag ver
                (case DataSyncRequest_Phase req of None \<Rightarrow> None | Some p \<Rightarrow> Phase_Auth p) of
                None \<Rightarrow> None
              | Some queue \<Rightarrow> processDataQueue L envs P W N remotes queue s))"

end
