(* ===== verification/FS_DataSync_Props.thy ===== *)
theory FS_DataSync_Props
  imports FS_DataSync FS_HeaderSync_Props
begin

text \<open>
  Properties of the data sync: the batches divide the tag exactly and never exceed 30 blocks, building
  them ends for every tag below \<open>MaxUint64\<close> and not otherwise, and the collecting loop writes the
  batches in order whatever the order of arrival.
\<close>

section \<open>Batches\<close>

abbreviation dbatch_tag :: "DataSyncRequest \<Rightarrow> Tag" where
  "dbatch_tag b \<equiv> the (DataSyncRequest_Tag b)"

definition small_batch :: "u16 \<Rightarrow> Auth option \<Rightarrow> DataSyncRequest \<Rightarrow> bool" where
  "small_batch ver auth b \<longleftrightarrow> (\<exists>t. b = makeDataBatchRequest t ver auth \<and> 0 < tag_size t \<and> tag_size t \<le> 30)"

definition dpack_blocks :: "dpack \<Rightarrow> u64 set" where
  "dpack_blocks p = (\<Union>b\<in>set (fst p). tag_blocks (dbatch_tag b)) \<union> tag_blocks (fst (snd p))"

definition dpack_size :: "dpack \<Rightarrow> nat" where
  "dpack_size p = (\<Sum>b\<leftarrow>fst p. tag_size (dbatch_tag b)) + tag_size (fst (snd p))"

definition dpack_ok :: "u16 \<Rightarrow> Auth option \<Rightarrow> u64 set \<Rightarrow> nat \<Rightarrow> nat \<Rightarrow> dpack \<Rightarrow> bool" where
  "dpack_ok ver auth U n bound p \<longleftrightarrow> dpack_blocks p = U \<and> dpack_size p = n \<and>
     unat (snd (snd p)) = tag_size (fst (snd p)) \<and> tag_size (fst (snd p)) \<le> bound \<and>
     (tag_size (fst (snd p)) = 0 \<longrightarrow> fst (snd p) = empty_Tag) \<and> (\<forall>b\<in>set (fst p). small_batch ver auth b)"

lemma makeDataBatchRequest_tag [simp]: "DataSyncRequest_Tag (makeDataBatchRequest t ver auth) = Some t"
  by (simp add: makeDataBatchRequest_def)

lemma u64_30: "unat MAX_DATA_PER_REQUEST = 30"
  by (simp add: MAX_DATA_PER_REQUEST_def)

lemma flush_batch_ok:
  assumes "dpack_ok ver auth U n 30 p" and "0 < tag_size (fst (snd p))"
  shows "dpack_ok ver auth U n 0 (flush_batch ver auth p)"
  using assms by (cases p)
    (auto simp: dpack_ok_def flush_batch_def dpack_blocks_def dpack_size_def small_batch_def)

lemma dpack_ok_mono: "dpack_ok ver auth U n b p \<Longrightarrow> b \<le> b' \<Longrightarrow> dpack_ok ver auth U n b' p"
  by (auto simp: dpack_ok_def)

text \<open>Appending a range that fits.\<close>

lemma append_range_ok:
  assumes "dpack_ok ver auth U n 29 (bs, t, c)" and "s \<le> e" and "Suc (unat e - unat s) + tag_size t \<le> 30"
    and "unat c' = unat c + Suc (unat e - unat s)"
  shows "dpack_ok ver auth (U \<union> {s .. e}) (n + Suc (unat e - unat s)) 30
    (bs, t\<lparr>Tag_Range := Tag_Range t @ [\<lparr>RangeTag_Start = s, RangeTag_End = e\<rparr>]\<rparr>, c')"
  using assms by (auto simp: dpack_ok_def dpack_blocks_def dpack_size_def tag_simps range_blocks_def range_size_eq)

lemma chunk_step_ok:
  assumes ok: "dpack_ok ver auth U n 29 p" and le: "s \<le> e" and e: "e \<noteq> MaxUint64"
  shows "\<exists>s' p' m. chunk_step ver auth s e p = (s', p') \<and> s \<le> m \<and> m \<le> e \<and> s' = m + 1 \<and>
    dpack_ok ver auth (U \<union> {s .. m}) (n + Suc (unat m - unat s)) 29 p'"
proof -
  obtain bs t c where p: "p = (bs, t, c)" by (cases p) auto
  have c: "unat c = tag_size t" "unat c \<le> 29" using ok p by (auto simp: dpack_ok_def)
  let ?cap = "MAX_DATA_PER_REQUEST - c" and ?pc = "e - s + 1"
  have cap: "unat ?cap = 30 - unat c"
    using c(2) by (subst unat_diff_le) (auto simp: word_le_nat_alt u64_30)
  have pc: "unat ?pc = Suc (unat e - unat s)" using le e by (intro unat_range_size) auto
  have se: "unat s \<le> unat e" using le by (simp add: word_le_nat_alt)
  show ?thesis
  proof (cases "?pc \<le> ?cap")
    case True
    then have fit: "Suc (unat e - unat s) + unat c \<le> 30" using pc cap c(2) by (simp add: word_le_nat_alt)
    have sum: "unat (c + ?pc) = unat c + Suc (unat e - unat s)"
      using pc fit by (subst unat_plus_if_size) (auto simp: word_size)
    let ?p = "(bs, t\<lparr>Tag_Range := Tag_Range t @ [\<lparr>RangeTag_Start = s, RangeTag_End = e\<rparr>]\<rparr>, c + ?pc)"
    have ok': "dpack_ok ver auth (U \<union> {s .. e}) (n + Suc (unat e - unat s)) 30 ?p"
      using append_range_ok [OF _ le _ sum] ok p fit c(1) by simp
    have "dpack_ok ver auth (U \<union> {s .. e}) (n + Suc (unat e - unat s)) 29
        (if c + ?pc = MAX_DATA_PER_REQUEST then flush_batch ver auth ?p else ?p)"
    proof (cases "c + ?pc = MAX_DATA_PER_REQUEST")
      case True
      have "0 < tag_size (fst (snd ?p))" using ok' sum by (simp add: dpack_ok_def)
      from dpack_ok_mono [OF flush_batch_ok [OF ok' this], of 29] True show ?thesis by simp
    next
      case False
      then have "unat (c + ?pc) \<noteq> 30" using u64_30 unat_inj by metis
      with False ok' fit sum show ?thesis by (simp add: dpack_ok_def)
    qed
    with True le show ?thesis by (simp add: chunk_step_def p Let_def)
  next
    case False
    then have lt: "30 - unat c < Suc (unat e - unat s)" using pc cap by (simp add: word_le_nat_alt)
    define m where "m = s + ?cap - 1"
    have mm: "unat m = unat s + (29 - unat c)"
    proof -
      have b: "unat s + (30 - unat c) < 2 ^ 64" using lt se unat_lt [of e] c(2) by linarith
      then have "unat (s + ?cap) = unat s + (30 - unat c)" using cap by (subst unat_plus_if_size) (auto simp: word_size)
      moreover have "1 \<le> s + ?cap" using calculation c(2) by (simp add: word_le_nat_alt)
      ultimately show ?thesis unfolding m_def using c(2) by (simp add: unat_diff_le)
    qed
    have sm: "s \<le> m" "m \<le> e" using mm lt se c(2) by (auto simp: word_le_nat_alt)
    have sum: "unat (c + ?cap) = unat c + Suc (unat m - unat s)"
      using cap c(2) mm by (subst unat_plus_if_size) (auto simp: word_size)
    let ?p = "(bs, t\<lparr>Tag_Range := Tag_Range t @ [\<lparr>RangeTag_Start = s, RangeTag_End = m\<rparr>]\<rparr>, c + ?cap)"
    have ok': "dpack_ok ver auth (U \<union> {s .. m}) (n + Suc (unat m - unat s)) 30 ?p"
      using append_range_ok [OF _ sm(1) _ sum] ok p mm c by simp
    have "0 < tag_size (fst (snd ?p))" using ok' sum by (simp add: dpack_ok_def)
    from dpack_ok_mono [OF flush_batch_ok [OF ok' this], of 29]
    have "dpack_ok ver auth (U \<union> {s .. m}) (n + Suc (unat m - unat s)) 29 (flush_batch ver auth ?p)" by simp
    with False sm show ?thesis by (auto simp: chunk_step_def p Let_def m_def)
  qed
qed

lemma chunk_loop_ok:
  assumes "dpack_ok ver auth U n 29 p" and "s \<le> e" and "e \<noteq> MaxUint64"
  shows "\<exists>p'. chunk_loop ver auth s e p = Some p' \<and>
    dpack_ok ver auth (U \<union> {s .. e}) (n + Suc (unat e - unat s)) 29 p'"
  using assms(1,2)
proof (induction "unat e - unat s" arbitrary: s U n p rule: less_induct)
  case less
  from chunk_step_ok [OF less.prems assms(3)] obtain p1 m where
    st: "chunk_step ver auth s e p = (m + 1, p1)" "s \<le> m" "m \<le> e"
      "dpack_ok ver auth (U \<union> {s .. m}) (n + Suc (unat m - unat s)) 29 p1" by blast
  have m: "m \<noteq> MaxUint64" using st(3) assms(3) word_order.extremum_unique by blast
  show ?case
  proof (cases "m = e")
    case True
    then have "\<not> m + 1 \<le> e" using m by (simp add: plus1_le_iff)
    then have "chunk_loop ver auth (m + 1) e p1 = Some p1" by (subst chunk_loop.simps) simp
    then have "chunk_loop ver auth s e p = Some p1"
      using st(1) less.prems(2) by (subst chunk_loop.simps) simp
    with st(4) True show ?thesis by blast
  next
    case False
    then have lt: "m < e" using st(3) by simp
    have um: "unat s \<le> unat m" "unat m < unat e" "unat (m + 1) = Suc (unat m)"
      using st(2) lt m by (simp_all add: word_le_nat_alt word_less_nat_alt unat_plus1)
    have "m + 1 \<le> e" using lt m by (simp add: plus1_le_iff)
    moreover have "unat e - unat (m + 1) < unat e - unat s" using um by simp
    ultimately have "\<exists>p'. chunk_loop ver auth (m + 1) e p1 = Some p' \<and> dpack_ok ver auth (U \<union> {s .. m} \<union> {m + 1 .. e})
        (n + Suc (unat m - unat s) + Suc (unat e - unat (m + 1))) 29 p'"
      using less.hyps st(4) by blast
    then obtain p' where
      p': "chunk_loop ver auth (m + 1) e p1 = Some p'"
        "dpack_ok ver auth (U \<union> {s .. m} \<union> {m + 1 .. e}) (n + Suc (unat m - unat s) + Suc (unat e - Suc (unat m))) 29 p'"
      unfolding um(3) by blast
    have eq1: "{s .. e} = {s .. m} \<union> {m + 1 .. e}" using word_range_split [OF st(2) lt] .
    have eq2: "n + Suc (unat m - unat s) + Suc (unat e - Suc (unat m)) = n + Suc (unat e - unat s)"
      using um by simp
    have "dpack_ok ver auth (U \<union> {s .. e}) (n + Suc (unat e - unat s)) 29 p'"
      using p'(2) unfolding eq1 eq2 Un_assoc .
    moreover have "chunk_loop ver auth s e p = Some p'"
      using st(1) p'(1) less.prems(2) by (subst chunk_loop.simps) simp
    ultimately show ?thesis by blast
  qed
qed

lemma chunk_ranges_ok:
  assumes "dpack_ok ver auth U n 29 p" and "\<forall>r\<in>set rs. RangeTag_End r \<noteq> MaxUint64"
  shows "\<exists>p'. chunk_ranges ver auth rs p = Some p' \<and>
    dpack_ok ver auth (U \<union> (\<Union>r\<in>set rs. range_blocks r)) (n + sum_list (map range_size rs)) 29 p'"
  using assms
proof (induction rs arbitrary: U n p)
  case (Cons r rs)
  let ?s = "RangeTag_Start r" and ?e = "RangeTag_End r"
  have "\<exists>p1. chunk_loop ver auth ?s ?e p = Some p1 \<and> dpack_ok ver auth (U \<union> range_blocks r) (n + range_size r) 29 p1"
  proof (cases "?s \<le> ?e")
    case True
    from chunk_loop_ok [OF Cons.prems(1) True] Cons.prems(2) True show ?thesis
      by (auto simp: range_blocks_def range_size_eq)
  next
    case False
    then show ?thesis using Cons.prems(1) by (subst chunk_loop.simps) (simp add: range_blocks_def range_size_eq)
  qed
  then obtain p1 where p1: "chunk_loop ver auth ?s ?e p = Some p1"
    "dpack_ok ver auth (U \<union> range_blocks r) (n + range_size r) 29 p1" by blast
  from Cons.IH [OF p1(2)] Cons.prems(2) p1(1) show ?case by (auto simp: Un_assoc add.assoc)
qed simp

lemma pack_number_ok:
  assumes ok: "dpack_ok ver auth U n 30 p"
  shows "dpack_ok ver auth (insert bn U) (Suc n) 30 (pack_number ver auth bn p)"
proof -
  define p1 where "p1 = (if snd (snd p) > 0 \<and> snd (snd p) + 1 > MAX_DATA_PER_REQUEST then flush_batch ver auth p else p)"
  have c30: "unat (snd (snd p)) \<le> 30" "unat (snd (snd p)) = tag_size (fst (snd p))"
    using ok by (auto simp: dpack_ok_def)
  then have "snd (snd p) \<noteq> MaxUint64" using unat_max by auto
  then have sc: "unat (snd (snd p) + 1) = Suc (unat (snd (snd p)))" by (rule unat_plus1)
  have p1: "dpack_ok ver auth U n 29 p1"
  proof (cases "snd (snd p) > 0 \<and> snd (snd p) + 1 > MAX_DATA_PER_REQUEST")
    case True
    then have "0 < unat (snd (snd p))" by (simp add: unat_gt_0 word_gt_0)
    then have "0 < tag_size (fst (snd p))" using c30 by simp
    from dpack_ok_mono [OF flush_batch_ok [OF ok this], of 29] show ?thesis unfolding p1_def if_P [OF True] by simp
  next
    case False
    then have "snd (snd p) = 0 \<or> Suc (unat (snd (snd p))) \<le> 30" using sc
      by (auto simp: word_less_nat_alt u64_30 unat_gt_0)
    with c30 ok have "dpack_ok ver auth U n 29 p" by (auto simp: dpack_ok_def)
    then show ?thesis unfolding p1_def if_not_P [OF False] .
  qed
  obtain bs t c where q: "p1 = (bs, t, c)" by (cases p1) auto
  have c: "unat c = tag_size t" "tag_size t \<le> 29" using p1 q by (auto simp: dpack_ok_def)
  then have "c \<noteq> MaxUint64" using unat_max by auto
  then have "unat (c + 1) = Suc (tag_size t)" using c(1) by (simp add: unat_plus1)
  moreover have "pack_number ver auth bn p = (bs, t\<lparr>Tag_BlockNumber := Tag_BlockNumber t @ [bn]\<rparr>, c + 1)"
    by (simp add: pack_number_def p1_def [symmetric] q)
  ultimately show ?thesis
    using p1 q c by (auto simp: dpack_ok_def dpack_blocks_def dpack_size_def tag_simps)
qed

lemma foldl_pack_number:
  "dpack_ok ver auth U n 30 p \<Longrightarrow>
   dpack_ok ver auth (U \<union> set xs) (n + length xs) 30 (foldl (\<lambda>p bn. pack_number ver auth bn p) p xs)"
proof (induction xs arbitrary: U n p)
  case (Cons b xs)
  from Cons.IH [OF pack_number_ok [OF Cons.prems]] show ?case by simp
qed simp

lemma buildDataBatches_ok:
  assumes "\<forall>r\<in>set (Tag_Range tag). RangeTag_End r \<noteq> MaxUint64"
  obtains bs where "buildDataBatches tag ver auth = Some bs" "(\<Union>b\<in>set bs. tag_blocks (dbatch_tag b)) = tag_blocks tag"
    "(\<Sum>b\<leftarrow>bs. tag_size (dbatch_tag b)) = tag_size tag" "\<forall>b\<in>set bs. small_batch ver auth b"
proof -
  let ?rs = "sort_key RangeTag_Start (Tag_Range tag)" and ?ns = "sort (Tag_BlockNumber tag)"
  have "dpack_ok ver auth {} 0 29 ([], empty_Tag, 0)"
    by (simp add: dpack_ok_def dpack_blocks_def dpack_size_def)
  from chunk_ranges_ok [OF this, of ?rs] assms obtain p1 where p1: "chunk_ranges ver auth ?rs ([], empty_Tag, 0) = Some p1"
    "dpack_ok ver auth (\<Union>r\<in>set ?rs. range_blocks r) (sum_list (map range_size ?rs)) 29 p1" by auto
  define p2 where "p2 = foldl (\<lambda>p bn. pack_number ver auth bn p) p1 ?ns"
  have sz: "sum_list (map range_size ?rs) + length ?ns = tag_size tag"
    by (simp add: tag_size_def sum_mset_sum_list [symmetric])
  have bl: "(\<Union>r\<in>set ?rs. range_blocks r) \<union> set ?ns = tag_blocks tag" by (simp add: tag_blocks_def)
  have "dpack_ok ver auth (tag_blocks tag) (tag_size tag) 30 p2"
    using foldl_pack_number [OF dpack_ok_mono [OF p1(2), of 30], of ?ns] unfolding p2_def [symmetric] bl sz by simp
  then have "dpack_ok ver auth (tag_blocks tag) (tag_size tag) 0
      (if snd (snd p2) > 0 then flush_batch ver auth p2 else p2)"
    using flush_batch_ok [of ver auth _ _ p2] by (auto simp: dpack_ok_def word_gt_0 unat_gt_0 [symmetric] simp del: unat_gt_0)
  then obtain bs where "(if snd (snd p2) > 0 then fst (flush_batch ver auth p2) else fst p2) = bs"
    "(\<Union>b\<in>set bs. tag_blocks (dbatch_tag b)) = tag_blocks tag" "(\<Sum>b\<leftarrow>bs. tag_size (dbatch_tag b)) = tag_size tag"
    "\<forall>b\<in>set bs. small_batch ver auth b"
    by (auto simp: dpack_ok_def dpack_blocks_def dpack_size_def split: if_splits)
  then show thesis using p1(1) by (intro that) (simp_all add: buildDataBatches_def p2_def [symmetric] Let_def)
qed

text \<open>C22: For a tag whose ranges end below \<open>MaxUint64\<close>, \<open>buildDataBatches\<close> returns, its batches
  denote exactly the blocks of the tag, with the same total size, and every batch asks for between 1 and 30
  blocks.\<close>

theorem buildDataBatches_exact:
  assumes "\<forall>r\<in>set (Tag_Range tag). RangeTag_End r \<noteq> MaxUint64"
  shows "\<exists>bs. buildDataBatches tag ver auth = Some bs \<and>
    (\<Union>b\<in>set bs. tag_blocks (dbatch_tag b)) = tag_blocks tag \<and>
    (\<Sum>b\<leftarrow>bs. tag_size (dbatch_tag b)) = tag_size tag \<and>
    (\<forall>b\<in>set bs. \<exists>t. b = makeDataBatchRequest t ver auth \<and> 0 < tag_size t \<and> tag_size t \<le> 30)"
proof -
  obtain bs where "buildDataBatches tag ver auth = Some bs" "(\<Union>b\<in>set bs. tag_blocks (dbatch_tag b)) = tag_blocks tag"
    "(\<Sum>b\<leftarrow>bs. tag_size (dbatch_tag b)) = tag_size tag" "\<forall>b\<in>set bs. small_batch ver auth b"
    using buildDataBatches_ok [OF assms] .
  then show ?thesis by (simp add: small_batch_def)
qed

theorem buildDataBatches_exact_witness:
  "\<exists>bs. buildDataBatches demo_tag 1 None = Some bs \<and> (\<Union>b\<in>set bs. tag_blocks (dbatch_tag b)) = tag_blocks demo_tag"
proof -
  have "\<forall>r\<in>set (Tag_Range demo_tag). RangeTag_End r \<noteq> MaxUint64" by (simp add: demo_tag_def)
  from buildDataBatches_exact [OF this, of 1 None] show ?thesis by blast
qed


lemma chunk_loop_max:
  assumes ret: "chunk_loop ver auth s e p = Some q"
  shows "e \<noteq> MaxUint64"
proof (rule chunk_loop.raw_induct [where P = "\<lambda>ver auth s e p q. e \<noteq> MaxUint64", OF _ ret])
  fix f :: "u16 \<Rightarrow> Auth option \<Rightarrow> u64 \<Rightarrow> u64 \<Rightarrow> dpack \<Rightarrow> dpack option" and ver auth s e p q
  assume IH: "\<And>ver auth s e p q. f ver auth s e p = Some q \<Longrightarrow> e \<noteq> MaxUint64"
    and eq: "(if s \<le> e then (case chunk_step ver auth s e p of (s', p') \<Rightarrow> f ver auth s' e p') else Some p) = Some q"
  show "e \<noteq> MaxUint64"
  proof (cases "s \<le> e")
    case True
    with eq show ?thesis by (cases "chunk_step ver auth s e p") (auto dest!: IH)
  next
    case False
    then show ?thesis by auto
  qed
qed

lemma chunk_ranges_max:
  "chunk_ranges ver auth rs p = Some q \<Longrightarrow> r \<in> set rs \<Longrightarrow> RangeTag_End r \<noteq> MaxUint64"
  by (induction rs arbitrary: p) (auto split: option.splits dest: chunk_loop_max)

text \<open>C23: \<open>buildDataBatches\<close> returns if and only if no range of the tag ends at \<open>math.MaxUint64\<close>: a tag
  with such a range sends its inner loop round for ever, since \<open>currStart <= currEnd\<close> never fails.\<close>

theorem buildDataBatches_returns_iff:
  "(buildDataBatches tag ver auth \<noteq> None) = (MaxUint64 \<notin> RangeTag_End ` set (Tag_Range tag))"
proof
  assume "buildDataBatches tag ver auth \<noteq> None"
  then obtain p where "chunk_ranges ver auth (sort_key RangeTag_Start (Tag_Range tag)) ([], empty_Tag, 0) = Some p"
    by (auto simp: buildDataBatches_def split: option.splits)
  then have "RangeTag_End r \<noteq> MaxUint64" if "r \<in> set (Tag_Range tag)" for r
    using chunk_ranges_max that by fastforce
  then show "MaxUint64 \<notin> RangeTag_End ` set (Tag_Range tag)" by (metis imageE)
next
  assume a: "MaxUint64 \<notin> RangeTag_End ` set (Tag_Range tag)"
  have "dpack_ok ver auth {} 0 29 ([], empty_Tag, 0)"
    by (simp add: dpack_ok_def dpack_blocks_def dpack_size_def)
  moreover have "\<forall>r\<in>set (sort_key RangeTag_Start (Tag_Range tag)). RangeTag_End r \<noteq> MaxUint64"
    using a by (metis image_eqI set_sort)
  ultimately obtain p where "chunk_ranges ver auth (sort_key RangeTag_Start (Tag_Range tag)) ([], empty_Tag, 0) = Some p"
    using chunk_ranges_ok by blast
  then show "buildDataBatches tag ver auth \<noteq> None" by (simp add: buildDataBatches_def Let_def)
qed

section \<open>Writing in order\<close>

text \<open>The reference: the batches handled one after another until one fails.\<close>

fun in_order :: "('b dataBatchResult \<Rightarrow> 's \<Rightarrow> 's \<times> ds_error option) \<Rightarrow> 'b dataBatchResult list \<Rightarrow> 's \<Rightarrow>
    's \<times> ds_error option" where
  "in_order process [] s = (s, None)"
| "in_order process (r # rs) s = (case process r s of (s', Some e) \<Rightarrow> (s', Some e) | (s', None) \<Rightarrow> in_order process rs s')"

lemma in_order_append:
  "in_order process (xs @ ys) s = (case in_order process xs s of (s', Some e) \<Rightarrow> (s', Some e)
     | (s', None) \<Rightarrow> in_order process ys s')"
  by (induction xs arbitrary: s) (auto split: prod.splits option.splits)

definition held :: "(nat \<Rightarrow> 'b dataBatchResult) \<Rightarrow> nat set \<Rightarrow> nat \<rightharpoonup> 'b dataBatchResult" where
  "held F E = (\<lambda>i. if i \<in> E then Some (F i) else None)"

lemma held_del: "(held F E)(k := None) = held F (E - {k})"
  by (auto simp: held_def)

lemma held_add: "(held F E)(k \<mapsto> F k) = held F (insert k E)"
  by (auto simp: held_def)

text \<open>Draining the early batches handles the maximal run \<open>[k ..< j]\<close> of consecutive batches held.\<close>

definition drained :: "('b dataBatchResult \<Rightarrow> 's \<Rightarrow> 's \<times> ds_error option) \<Rightarrow> (nat \<Rightarrow> 'b dataBatchResult) \<Rightarrow> nat set \<Rightarrow>
    nat \<Rightarrow> nat \<Rightarrow> 's \<Rightarrow> nat \<Rightarrow> (nat \<times> (nat \<rightharpoonup> 'b dataBatchResult) \<times> 's \<times> ds_error option) option \<Rightarrow> bool" where
  "drained process F E k N s j res \<longleftrightarrow> k \<le> j \<and> j \<le> N \<and> {k ..< j} \<subseteq> E \<and>
     ((\<exists>s'. in_order process (map F [k ..< j]) s = (s', None) \<and> j \<notin> E \<and> res = Some (j, held F (E - {k ..< j}), s', None)) \<or>
      (\<exists>s' e k' m. in_order process (map F [k ..< j]) s = (s', Some e) \<and> res = Some (k', m, s', Some e)))"

lemma drain_early_run:
  assumes "E \<subseteq> {k ..< N}" and "k \<le> N"
  shows "\<exists>j. drained process F E k N s j (drain_early process k (held F E) s)"
  using assms
proof (induction "N - k" arbitrary: k E s)
  case 0
  then have "E = {}" "k = N" by auto
  then show ?case by (intro exI [of _ k]) (subst drain_early.simps, auto simp: held_def drained_def)
next
  case (Suc d)
  show ?case
  proof (cases "k \<in> E")
    case False
    then show ?thesis using Suc.prems
      by (intro exI [of _ k]) (subst drain_early.simps, auto simp: held_def drained_def)
  next
    case True
    then have kN: "k < N" using Suc.prems by auto
    obtain s' eo where pr: "process (F k) s = (s', eo)" by (cases "process (F k) s") auto
    have up: "[k ..< j] = k # [Suc k ..< j]" if "k < j" for j using that by (rule upt_conv_Cons)
    show ?thesis
    proof (cases eo)
      case (Some e)
      have "drain_early process k (held F E) s = Some (k, held F E, s', Some e)"
        using True pr Some by (subst drain_early.simps) (simp add: held_def)
      then show ?thesis using True kN pr Some
        by (intro exI [of _ "Suc k"]) (auto simp: up drained_def)
    next
      case None
      have E': "E - {k} \<subseteq> {Suc k ..< N}" using Suc.prems by auto
      have "d = N - Suc k" "Suc k \<le> N" using Suc.hyps(2) kN by auto
      from Suc.hyps(1) [OF this(1) E' this(2)] obtain j where
        j: "drained process F (E - {k}) (Suc k) N s' j (drain_early process (Suc k) (held F (E - {k})) s')" by blast
      have kj: "k < j" "{k ..< j} = insert k {Suc k ..< j}" "j \<noteq> k" using j by (auto simp: drained_def)
      have st: "drain_early process k (held F E) s = drain_early process (Suc k) (held F (E - {k})) s'"
      proof -
        have "held F E k = Some (F k)" using True by (simp add: held_def)
        then show ?thesis using pr None by (subst drain_early.simps) (simp add: held_del)
      qed
      have io: "in_order process (map F [k ..< j]) s = in_order process (map F [Suc k ..< j]) s'"
        using kj(1) pr None by (simp add: up)
      have "E - {k} - {Suc k ..< j} = E - {k ..< j}" using kj(2) by auto
      with j kj True have "drained process F E k N s j (drain_early process k (held F E) s)"
        unfolding drained_def st io by auto
      then show ?thesis ..
    qed
  qed
qed

lemma upt_append: "k \<le> j \<Longrightarrow> j \<le> N \<Longrightarrow> [k ..< N] = [k ..< j] @ [j ..< N]"
  using upt_add_eq_append [of k j "N - j"] by simp

text \<open>
  What the loop may return on the batches \<open>k, ..., N - 1\<close>: the outcome of handling a run \<open>[k ..< j]\<close> of
  fetched batches in order, which is all of them unless a batch was not fetched or could not be handled.
\<close>

definition ordered_outcome :: "('b dataBatchResult \<Rightarrow> 's \<Rightarrow> 's \<times> ds_error option) \<Rightarrow> (nat \<Rightarrow> 'b dataBatchResult) \<Rightarrow>
    nat \<Rightarrow> nat \<Rightarrow> 's \<Rightarrow> nat \<Rightarrow> ('s \<times> ds_error option) option \<Rightarrow> bool" where
  "ordered_outcome process F k N s j res \<longleftrightarrow> k \<le> j \<and> j \<le> N \<and> (\<forall>i\<in>{k ..< j}. \<not> dataBatchResult_Err (F i)) \<and>
     ((\<exists>b s'. b \<in> {k ..< N} \<and> dataBatchResult_Err (F b) \<and> in_order process (map F [k ..< j]) s = (s', None) \<and>
         res = Some (s', Some (DSBatchFailed b))) \<or>
      (res = Some (in_order process (map F [k ..< j]) s) \<and> (j = N \<or> snd (in_order process (map F [k ..< j]) s) \<noteq> None)))"

lemma ordered_outcome_prepend:
  assumes "ordered_outcome process F j N s1 l res" and "in_order process (map F [k ..< j]) s = (s1, None)"
    and "k \<le> j" and "\<forall>i\<in>{k ..< j}. \<not> dataBatchResult_Err (F i)"
  shows "ordered_outcome process F k N s l res"
proof -
  have jl: "j \<le> l" using assms(1) by (simp add: ordered_outcome_def)
  have "in_order process (map F [k ..< l]) s = in_order process (map F [j ..< l]) s1"
    unfolding upt_append [OF assms(3) jl] using assms(2) by (simp add: in_order_append)
  with assms(1,3,4) jl show ?thesis
    unfolding ordered_outcome_def by (auto simp: Ball_def) (metis linorder_not_le)+
qed

lemma collect_results_run:
  assumes "\<forall>r\<in>set A. F (dataBatchResult_BatchID r) = r" and "distinct (map dataBatchResult_BatchID A)"
    and "dataBatchResult_BatchID ` set A \<union> E = {k ..< N}" and "dataBatchResult_BatchID ` set A \<inter> E = {}"
    and "k \<notin> E" and "k \<le> N" and "\<forall>i\<in>E. \<not> dataBatchResult_Err (F i)"
  shows "\<exists>j. ordered_outcome process F k N s j (collect_results process k (held F E) A s)"
  using assms
proof (induction A arbitrary: k E s)
  case Nil
  then have "k = N" by (auto simp: set_eq_iff)
  then show ?case by (intro exI [of _ k]) (simp add: ordered_outcome_def)
next
  case (Cons r A)
  let ?b = "dataBatchResult_BatchID r" and ?ids = "dataBatchResult_BatchID ` set A"
  have Fr: "F ?b = r" using Cons.prems(1) by simp
  have bN: "?b \<in> {k ..< N}" "?b \<notin> E" "?b \<notin> ?ids" using Cons.prems by auto
  have rest: "\<forall>r\<in>set A. F (dataBatchResult_BatchID r) = r" "distinct (map dataBatchResult_BatchID A)"
    using Cons.prems by auto
  consider (err) "dataBatchResult_Err r" | (next_one) "\<not> dataBatchResult_Err r" "?b = k"
    | (early) "\<not> dataBatchResult_Err r" "?b \<noteq> k" by blast
  then show ?case
  proof cases
    case err
    then show ?thesis using bN Fr Cons.prems(6) by (intro exI [of _ k]) (auto simp: ordered_outcome_def)
  next
    case early
    have "\<forall>i\<in>insert ?b E. \<not> dataBatchResult_Err (F i)" "?ids \<union> insert ?b E = {k ..< N}"
      "?ids \<inter> insert ?b E = {}" "k \<notin> insert ?b E" using Cons.prems Fr early bN by auto
    from Cons.IH [OF rest this(2-4) Cons.prems(6) this(1), of s]
    show ?thesis using early held_add [of F E ?b] Fr by simp
  next
    case next_one
    obtain s1 eo where pr: "process r s = (s1, eo)" by (cases "process r s") auto
    have kN: "Suc k \<le> N" and one: "in_order process (map F [k ..< Suc k]) s = (s1, eo)"
      using bN Fr pr next_one by (auto split: option.splits)
    have ek: "\<forall>i\<in>{k ..< Suc k}. \<not> dataBatchResult_Err (F i)" using Fr next_one by simp
    show ?thesis
    proof (cases eo)
      case (Some e)
      then have "ordered_outcome process F k N s (Suc k) (collect_results process k (held F E) (r # A) s)"
        using next_one pr kN ek one by (simp add: ordered_outcome_def del: upt_Suc)
      then show ?thesis ..
    next
      case None
      have "E \<subseteq> {Suc k ..< N}" using Cons.prems(3,5) by (auto simp: Suc_le_eq order_less_le)
      from drain_early_run [OF this kN, of process F s1] obtain j where
        d: "drained process F E (Suc k) N s1 j (drain_early process (Suc k) (held F E) s1)" by blast
      have j: "Suc k \<le> j" "j \<le> N" "{Suc k ..< j} \<subseteq> E" using d by (auto simp: drained_def)
      have ej: "\<forall>i\<in>{Suc k ..< j}. \<not> dataBatchResult_Err (F i)" using j(3) Cons.prems(7) by auto
      have "\<exists>l. ordered_outcome process F (Suc k) N s1 l (collect_results process k (held F E) (r # A) s)"
      proof (cases "in_order process (map F [Suc k ..< j]) s1")
        case (Pair s2 e2)
        show ?thesis
        proof (cases e2)
          case (Some e)
          then have "ordered_outcome process F (Suc k) N s1 j (collect_results process k (held F E) (r # A) s)"
            using d Pair None next_one pr j ej by (auto simp: drained_def ordered_outcome_def)
          then show ?thesis ..
        next
          case None2: None
          let ?E = "E - {Suc k ..< j}"
          have eq: "collect_results process k (held F E) (r # A) s = collect_results process j (held F ?E) A s2"
            using d Pair None None2 next_one pr by (auto simp: drained_def)
          have nj: "j \<notin> E" using d Pair None2 by (auto simp: drained_def)
          have "insert k (?ids \<union> E) = {k ..< N}" "k \<notin> ?ids \<union> E"
            using Cons.prems(3,5) next_one(2) bN(3) by auto
          then have "?ids \<union> E = {k ..< N} - {k}" by blast
          moreover have "?ids \<inter> {Suc k ..< j} = {}" using Cons.prems(4) j(3) by auto
          moreover have "{k ..< N} - {k} - {Suc k ..< j} = {j ..< N}" using j(1) by auto
          ultimately have "?ids \<union> ?E = {j ..< N}" by blast
          moreover have "?ids \<inter> ?E = {}" using Cons.prems(4) by auto
          moreover have "\<forall>i\<in>?E. \<not> dataBatchResult_Err (F i)" using Cons.prems(7) by auto
          ultimately obtain l where "ordered_outcome process F j N s2 l (collect_results process j (held F ?E) A s2)"
            using Cons.IH [OF rest, of ?E j] nj j(2) by blast
          from ordered_outcome_prepend [OF this _ j(1) ej] Pair None2 eq show ?thesis by auto
        qed
      qed
      then obtain l where "ordered_outcome process F (Suc k) N s1 l (collect_results process k (held F E) (r # A) s)" ..
      from ordered_outcome_prepend [OF this one [unfolded None] le_SucI [OF order_refl] ek] show ?thesis by blast
    qed
  qed
qed

text \<open>C21: Whatever the order in which the fetched batches \<open>1, ..., n\<close> arrive, the collecting loop of
  \<open>processDataQueue\<close> returns, and it has handled a run \<open>1, ..., j - 1\<close> of the batches one after another, in
  batch order and none twice: all of them, unless a batch could not be fetched, in which case it reports that
  batch and has handled only fetched ones, or handling one failed, in which case it reports that error.\<close>

theorem data_batches_in_order:
  assumes "map dataBatchResult_BatchID rs = [1 ..< Suc n]" and "mset arrivals = mset rs"
  shows "\<exists>j res. collect_results process 1 Map.empty arrivals s = Some res \<and> j \<le> n \<and>
    (\<forall>r\<in>set (take j rs). \<not> dataBatchResult_Err r) \<and>
    ((\<exists>r\<in>set rs. dataBatchResult_Err r \<and> in_order process (take j rs) s = (fst res, None) \<and>
        snd res = Some (DSBatchFailed (dataBatchResult_BatchID r))) \<or>
     res = in_order process (take j rs) s \<and> (j = n \<or> snd res \<noteq> None))"
proof -
  define F where "F = (\<lambda>i. rs ! (i - 1))"
  have n: "length rs = n" using arg_cong [OF assms(1), of length] by simp
  have id: "dataBatchResult_BatchID (rs ! i) = Suc i" if "i < n" for i
    using arg_cong [OF assms(1), of "\<lambda>l. l ! i"] that n by (simp del: upt_Suc)
  have sets: "set arrivals = set rs" "distinct (map dataBatchResult_BatchID arrivals)"
    using assms mset_eq_setD by (blast, metis distinct_upt mset_map mset_eq_imp_distinct_iff)
  have F: "F (dataBatchResult_BatchID r) = r" if "r \<in> set rs" for r
    using that id n by (auto simp: F_def in_set_conv_nth)
  have ids: "dataBatchResult_BatchID ` set arrivals \<union> {} = {1 ..< Suc n}"
    using sets(1) assms(1) by (metis set_map set_upt Un_empty_right)
  have emp: "held F {} = Map.empty" by (simp add: held_def)
  from collect_results_run [of arrivals F "{}" 1 "Suc n" process s] F sets ids
  obtain j where j: "ordered_outcome process F 1 (Suc n) s j (collect_results process 1 Map.empty arrivals s)"
    unfolding emp by auto
  have tk: "map F [1 ..< j] = take (j - 1) rs"
    using j n by (intro nth_equalityI) (auto simp: ordered_outcome_def F_def)
  have mem: "F b \<in> set rs" "dataBatchResult_BatchID (F b) = b" if "b \<in> {1 ..< Suc n}" for b
    using that n id by (auto simp: F_def)
  have "\<forall>r\<in>set (take (j - 1) rs). \<not> dataBatchResult_Err r"
    unfolding tk [symmetric] using j by (auto simp: ordered_outcome_def)
  then show ?thesis using j mem unfolding ordered_outcome_def tk
    by (intro exI [of _ "j - 1"] exI [of _ "the (collect_results process 1 Map.empty arrivals s)"]) auto
qed

definition demo_data_result :: "nat \<Rightarrow> u64 list \<Rightarrow> unit dataBatchResult" where
  "demo_data_result i bs = \<lparr>dataBatchResult_BatchID = i,
     dataBatchResult_NonHeaders = map (\<lambda>b. \<lparr>NonHeaders_BlockNumber = b, NonHeaders_Transactions = [], NonHeaders_Body = ()\<rparr>) bs,
     dataBatchResult_TaggedAccounts = None, dataBatchResult_Err = False\<rparr>"

definition demo_process :: "unit dataBatchResult \<Rightarrow> nat list \<Rightarrow> nat list \<times> ds_error option" where
  "demo_process r s = (s @ [dataBatchResult_BatchID r], None)"

theorem data_batches_in_order_witness:
  "collect_results demo_process 1 Map.empty [demo_data_result 3 [7], demo_data_result 1 [5], demo_data_result 2 [6]] [] =
     Some ([1, 2, 3], None)"
proof -
  let ?rs = "[demo_data_result 1 [5], demo_data_result 2 [6], demo_data_result 3 [7]]"
  have "map dataBatchResult_BatchID ?rs = [1 ..< Suc 3]" by (simp add: demo_data_result_def upt_rec)
  moreover have "mset [demo_data_result 3 [7], demo_data_result 1 [5], demo_data_result 2 [6]] = mset ?rs" by simp
  ultimately obtain j res where
    res: "collect_results demo_process 1 Map.empty [demo_data_result 3 [7], demo_data_result 1 [5], demo_data_result 2 [6]] [] = Some res"
      "j \<le> 3" "(\<exists>r\<in>set ?rs. dataBatchResult_Err r \<and> in_order demo_process (take j ?rs) [] = (fst res, None) \<and>
        snd res = Some (DSBatchFailed (dataBatchResult_BatchID r))) \<or>
     res = in_order demo_process (take j ?rs) [] \<and> (j = 3 \<or> snd res \<noteq> None)"
    using data_batches_in_order [of ?rs 3 "[demo_data_result 3 [7], demo_data_result 1 [5], demo_data_result 2 [6]]" demo_process "[]"]
    by blast
  have ne: "\<not> dataBatchResult_Err (demo_data_result i bs)" for i bs by (simp add: demo_data_result_def)
  have sn: "snd (in_order demo_process l s) = None" for l s
    by (induction l arbitrary: s) (auto simp: demo_process_def)
  from res(3) ne sn have "res = in_order demo_process ?rs []" by auto
  then show ?thesis unfolding res(1) by (simp add: demo_process_def demo_data_result_def)
qed

end
