(* ===== verification/FS_PoTS.thy ===== *)
theory FS_PoTS
  imports FS_Tagging "HOL-Library.AList"
begin

text \<open>
  \<open>core/protocol/router/helper/pots\<close>: the server side of the PoTS phase. The client sends the hashes of
  the blocks it collected while the sync ran; the server answers with a tag of the blocks that are newer
  than the client's sync point and that the client lacks or holds with another hash.

  \<open>types.BlockInfo\<close> is a parameter: the height and \<open>GetBlockHeadersRange\<close>, whose error is its text.
\<close>

section \<open>compare_maps.go\<close>

fun bytesEqual_from :: "nat \<Rightarrow> bytes \<Rightarrow> bytes \<Rightarrow> bool" where
  "bytesEqual_from 0 a b = True"
| "bytesEqual_from (Suc n) a b = (if a ! (length a - Suc n) \<noteq> b ! (length a - Suc n) then False else bytesEqual_from n a b)"

definition bytesEqual :: "bytes \<Rightarrow> bytes \<Rightarrow> bool" where
  "bytesEqual a b = (if length a \<noteq> length b then False else bytesEqual_from (length a) a b)"

text \<open>Deleting the visited key while ranging over a map is a filter of its entries.\<close>

definition CompareMaps :: "hash_map \<Rightarrow> hash_map \<Rightarrow> hash_map" where
  "CompareMaps MAPServer MAPClient = filter (\<lambda>(key, serverHash). case map_of MAPClient key of
      Some clientHash \<Rightarrow> \<not> bytesEqual serverHash clientHash | None \<Rightarrow> True) MAPServer"

section \<open>pots_tags.go: tags from a map\<close>

text \<open>The inner loop: the end of the run of consecutive numbers, and what is left of the list.\<close>

fun run_end :: "u64 \<Rightarrow> u64 list \<Rightarrow> u64 \<times> u64 list" where
  "run_end e [] = (e, [])"
| "run_end e (b # bs) = (if b = e + 1 then run_end b bs else (e, b # bs))"

lemma length_run_end: "length (snd (run_end e bs)) \<le> length bs"
  by (induction e bs rule: run_end.induct) auto

function tag_runs :: "u64 list \<Rightarrow> Tagging \<Rightarrow> Tagging" where
  "tag_runs [] tagger = tagger"
| "tag_runs (start # bs) tagger =
     (let (end, rest) = run_end start bs
      in tag_runs rest (if end > start then TagRange tagger start end else TagBlock tagger start))"
  by pat_completeness auto
termination
  by (relation "measure (length \<circ> fst)") (auto, metis length_run_end less_Suc_eq_le snd_conv)

definition GenerateTagsFromMap :: "hash_map \<Rightarrow> Tag" where
  "GenerateTagsFromMap blockMap =
     (if blockMap = [] then empty_Tag
      else Tagging_Tag (tag_runs (sort (map fst blockMap)) NewTagging))"

section \<open>pots_response.go\<close>

definition NewPoTSResponseBuilder :: PoTSResponse where
  "NewPoTSResponseBuilder = \<lparr>PoTSResponse_Tag = None, PoTSResponse_LatestBlockNumber = 0,
     PoTSResponse_Phase = Some (empty_Phase\<lparr>Phase_PresentPhase := PoTS_RESPONSE\<rparr>)\<rparr>"

definition AddTag :: "Tag \<Rightarrow> PoTSResponse \<Rightarrow> PoTSResponse" where
  "AddTag t p = p\<lparr>PoTSResponse_Tag := Some t\<rparr>"

definition AddStatus :: "bool \<Rightarrow> PoTSResponse \<Rightarrow> PoTSResponse" where
  "AddStatus b p = p\<lparr>PoTSResponse_Phase := map_option (\<lambda>x. x\<lparr>Phase_Success := b\<rparr>) (PoTSResponse_Phase p)\<rparr>"

definition AddErrorMessage :: "string \<Rightarrow> PoTSResponse \<Rightarrow> PoTSResponse" where
  "AddErrorMessage m p = p\<lparr>PoTSResponse_Phase := map_option (\<lambda>x. x\<lparr>Phase_Error := m\<rparr>) (PoTSResponse_Phase p)\<rparr>"

definition AddLatestBlockNumber :: "u64 \<Rightarrow> PoTSResponse \<Rightarrow> PoTSResponse" where
  "AddLatestBlockNumber n p = p\<lparr>PoTSResponse_LatestBlockNumber := n\<rparr>"

definition AddAuth :: "Auth option \<Rightarrow> PoTSResponse \<Rightarrow> PoTSResponse" where
  "AddAuth a p = p\<lparr>PoTSResponse_Phase := map_option (\<lambda>x. x\<lparr>Phase_Auth := a\<rparr>) (PoTSResponse_Phase p)\<rparr>"

definition AddSuccesivePhase :: "string \<Rightarrow> PoTSResponse \<Rightarrow> PoTSResponse" where
  "AddSuccesivePhase ph p = p\<lparr>PoTSResponse_Phase := map_option (\<lambda>x. x\<lparr>Phase_SuccessivePhase := ph\<rparr>) (PoTSResponse_Phase p)\<rparr>"

lemmas pots_builder = NewPoTSResponseBuilder_def AddTag_def AddStatus_def AddErrorMessage_def
  AddLatestBlockNumber_def AddAuth_def AddSuccesivePhase_def

section \<open>pots_tags.go: the request\<close>

definition server_map :: "Header list \<Rightarrow> hash_map" where
  "server_map headers = fold (\<lambda>h m. AList.update (Header_BlockNumber h) (Header_BlockHash h) m) headers []"

text \<open>The response, and the text of the error when one is returned beside it.\<close>

definition ProcessPoTSRequest :: "'b BlockInfo option \<Rightarrow> PoTSRequest option \<Rightarrow> PoTSResponse \<times> string option" where
  "ProcessPoTSRequest blockInfo request = (case request of
     None \<Rightarrow> (AddSuccesivePhase FAILURE (AddErrorMessage ''request is nil''
        (AddStatus False NewPoTSResponseBuilder)), Some ''request is nil'')
   | Some req \<Rightarrow> (case blockInfo of
        None \<Rightarrow> (AddSuccesivePhase FAILURE (AddErrorMessage ''nodeinfo or blockinfo not initialized''
          (AddStatus False NewPoTSResponseBuilder)), Some ''nodeinfo not initialized'')
      | Some B \<Rightarrow>
         let serverLatestBlock = GetBlockNumber B;
             clientLatestBlock = PoTSRequest_LatestBlockNumber req;
             span = show_nat (unat (clientLatestBlock + 1)) @ ''-'' @ show_nat (unat serverLatestBlock)
         in if clientLatestBlock \<ge> serverLatestBlock
            then (AddSuccesivePhase HEADER_SYNC_REQUEST (AddTag empty_Tag (AddLatestBlockNumber serverLatestBlock
                (AddStatus True NewPoTSResponseBuilder))), None)
            else case GetBlockHeadersRange B (clientLatestBlock + 1) serverLatestBlock of
              Inl err \<Rightarrow> (AddSuccesivePhase FAILURE (AddLatestBlockNumber serverLatestBlock
                (AddErrorMessage (''failed to query block headers: '' @ err)
                  (AddStatus False NewPoTSResponseBuilder))), Some (''failed to query headers: '' @ err))
            | Inr headers \<Rightarrow>
               if headers = []
               then (AddSuccesivePhase FAILURE (AddLatestBlockNumber serverLatestBlock
                 (AddErrorMessage (''no headers found in range '' @ span)
                   (AddStatus False NewPoTSResponseBuilder))), Some (''no headers returned for range '' @ span))
               else (AddSuccesivePhase HEADER_SYNC_REQUEST (AddLatestBlockNumber serverLatestBlock
                 (AddTag (GenerateTagsFromMap (CompareMaps (server_map headers) (PoTSRequest_Blocks req)))
                   (AddStatus True NewPoTSResponseBuilder))), None)))"

section \<open>Facts\<close>

lemma bytesEqual_from_iff:
  "n \<le> length a \<Longrightarrow> length a = length b \<Longrightarrow>
   bytesEqual_from n a b \<longleftrightarrow> drop (length a - n) a = drop (length a - n) b"
proof (induction n)
  case (Suc n)
  let ?i = "length a - Suc n"
  have "drop ?i a = a ! ?i # drop (length a - n) a" "drop ?i b = b ! ?i # drop (length a - n) b"
    using Suc.prems by (simp_all add: Cons_nth_drop_Suc [symmetric] Suc_diff_Suc)
  with Suc show ?case by simp
qed simp

lemma bytesEqual_iff [simp]: "bytesEqual a b \<longleftrightarrow> a = b"
  using bytesEqual_from_iff [of "length a" a b] by (auto simp: bytesEqual_def)

lemma keys_CompareMaps: "fst ` set (CompareMaps s c) = {k. \<exists>h. (k, h) \<in> set s \<and> map_of c k \<noteq> Some h}"
  by (force simp: CompareMaps_def split: option.splits)

lemma distinct_CompareMaps: "distinct (map fst s) \<Longrightarrow> distinct (map fst (CompareMaps s c))"
  unfolding CompareMaps_def by (induction s) (auto simp: image_iff)

lemma run_end_split:
  assumes "sorted (e # bs)" and "distinct (e # bs)" and "run_end e bs = (e', rest)"
  shows "e \<le> e' \<and> {e .. e'} \<union> set rest = insert e (set bs) \<and> sorted rest \<and> distinct rest \<and>
    {e .. e'} \<inter> set rest = {} \<and> Suc (unat e' - unat e) + length rest = Suc (length bs)"
  using assms
proof (induction e bs arbitrary: e' rest rule: run_end.induct)
  case (2 e b bs)
  show ?case
  proof (cases "b = e + 1")
    case True
    then have eb: "e < e + 1" using "2.prems"(1,2) by (auto simp: order_less_le)
    then have m: "e \<noteq> MaxUint64" by (auto simp: word_less_max)
    from "2.prems" True have "run_end b bs = (e', rest)" by simp
    from "2.IH" [OF True _ _ this] "2.prems"(1,2) have
      IH: "b \<le> e'" "{b .. e'} \<union> set rest = insert b (set bs)" "sorted rest" "distinct rest"
        "{b .. e'} \<inter> set rest = {}" "Suc (unat e' - unat b) + length rest = Suc (length bs)" by auto
    have ee: "e < e'" using eb IH(1) True by simp
    have sp: "{e .. e'} = insert e {b .. e'}" using word_range_split [of e e e'] ee True by auto
    have nr: "e \<notin> set rest"
    proof
      assume "e \<in> set rest"
      then have "e \<in> insert b (set bs)" using IH(2) by blast
      with "2.prems"(2) show False by auto
    qed
    have "unat b = Suc (unat e)" "unat b \<le> unat e'"
      using unat_plus1 [OF m] IH(1) True by (simp_all add: word_le_nat_alt)
    with IH ee sp nr show ?thesis by auto
  next
    case False
    with "2.prems" show ?thesis by auto
  qed
qed auto

lemma tag_runs_exact:
  "sorted bs \<Longrightarrow> distinct bs \<Longrightarrow> \<forall>r\<in>set (Tag_Range (Tagging_Tag t)). RangeTag_Start r < RangeTag_End r \<Longrightarrow>
   tagging_blocks (tag_runs bs t) = tagging_blocks t \<union> set bs \<and>
   tag_size (Tagging_Tag (tag_runs bs t)) = tag_size (Tagging_Tag t) + length bs \<and>
   (\<forall>r\<in>set (Tag_Range (Tagging_Tag (tag_runs bs t))). RangeTag_Start r < RangeTag_End r)"
proof (induction bs t rule: tag_runs.induct)
  case (2 start bs t)
  obtain e' rest where re: "run_end start bs = (e', rest)" by (cases "run_end start bs") auto
  from run_end_split [OF "2.prems"(1,2) re] have
    sp: "start \<le> e'" "{start .. e'} \<union> set rest = insert start (set bs)" "sorted rest" "distinct rest"
      "Suc (unat e' - unat start) + length rest = Suc (length bs)" by auto
  define t' where "t' = (if e' > start then TagRange t start e' else TagBlock t start)"
  have b: "tagging_blocks t' = tagging_blocks t \<union> {start .. e'}"
    using sp(1) by (auto simp: t'_def)
  have s: "tag_size (Tagging_Tag t') = tag_size (Tagging_Tag t) + Suc (unat e' - unat start)"
    using sp(1) by (auto simp: t'_def TagRange_def TagBlock_def tag_simps range_size_eq)
  have r: "\<forall>r\<in>set (Tag_Range (Tagging_Tag t')). RangeTag_Start r < RangeTag_End r"
    using "2.prems"(3) by (auto simp: t'_def)
  from "2.IH" [OF re [symmetric] refl sp(3,4) r [unfolded t'_def]] b s sp(2,5) re show ?case
    by (auto simp: t'_def [symmetric])
qed simp

lemma distinct_server_map: "distinct (map fst (server_map hs))"
proof -
  have "distinct (map fst m) \<Longrightarrow>
      distinct (map fst (fold (\<lambda>h m. AList.update (Header_BlockNumber h) (Header_BlockHash h) m) hs m))" for m
    by (induction hs arbitrary: m) (simp_all add: distinct_update)
  then show ?thesis by (simp add: server_map_def)
qed

lemma map_of_server_map:
  assumes "distinct (map Header_BlockNumber hs)"
  shows "map_of (server_map hs) = map_of (map (\<lambda>h. (Header_BlockNumber h, Header_BlockHash h)) hs)"
proof -
  have "distinct (map Header_BlockNumber hs) \<Longrightarrow>
      map_of (fold (\<lambda>h m. AList.update (Header_BlockNumber h) (Header_BlockHash h) m) hs m) =
      map_of m ++ map_of (map (\<lambda>h. (Header_BlockNumber h, Header_BlockHash h)) hs)" for m
  proof (induction hs arbitrary: m)
    case (Cons h hs)
    then have "Header_BlockNumber h \<notin> dom (map_of (map (\<lambda>h. (Header_BlockNumber h, Header_BlockHash h)) hs))"
      by (simp add: dom_map_of_conv_image_fst image_image)
    with Cons show ?case by (auto simp: update_conv' fun_eq_iff map_add_def split: option.splits)
  qed simp
  from this [OF assms, of "[]"] show ?thesis by (simp add: server_map_def)
qed

lemma server_map_pairs:
  assumes "distinct (map Header_BlockNumber hs)"
  shows "(k, x) \<in> set (server_map hs) \<longleftrightarrow> (\<exists>h\<in>set hs. Header_BlockNumber h = k \<and> Header_BlockHash h = x)"
proof -
  have d: "distinct (map fst (map (\<lambda>h. (Header_BlockNumber h, Header_BlockHash h)) hs))"
    using assms by (simp add: comp_def)
  have "(k, x) \<in> set (server_map hs) \<longleftrightarrow> map_of (server_map hs) k = Some x"
    using distinct_server_map by (simp add: map_of_eq_Some_iff)
  also have "\<dots> \<longleftrightarrow> (k, x) \<in> set (map (\<lambda>h. (Header_BlockNumber h, Header_BlockHash h)) hs)"
    unfolding map_of_server_map [OF assms] using d by (rule map_of_eq_Some_iff)
  finally show ?thesis by auto
qed

lemma Tagging_Tag_New [simp]: "Tagging_Tag NewTagging = empty_Tag"
  by (simp add: NewTagging_def)

lemma empty_Tag_Range [simp]: "Tag_Range empty_Tag = []"
  by (simp add: empty_Tag_def)

lemma tags_of_map:
  assumes "distinct (map fst m)"
  shows "tag_blocks (GenerateTagsFromMap m) = fst ` set m" (is ?blocks)
    and "tag_size (GenerateTagsFromMap m) = length m" (is ?size)
    and "\<forall>r\<in>set (Tag_Range (GenerateTagsFromMap m)). RangeTag_Start r < RangeTag_End r" (is ?ranges)
proof -
  have "sorted (sort (map fst m))" "distinct (sort (map fst m))" using assms by simp_all
  from tag_runs_exact [OF this, of NewTagging] have
    "tag_blocks (Tagging_Tag (tag_runs (sort (map fst m)) NewTagging)) = fst ` set m"
    "tag_size (Tagging_Tag (tag_runs (sort (map fst m)) NewTagging)) = length m"
    "\<forall>r\<in>set (Tag_Range (Tagging_Tag (tag_runs (sort (map fst m)) NewTagging))). RangeTag_Start r < RangeTag_End r"
    by (simp_all add: tagging_blocks_def)
  then show ?blocks ?size ?ranges by (auto simp: GenerateTagsFromMap_def)
qed

section \<open>Properties\<close>

text \<open>For every block map, \<open>GenerateTagsFromMap\<close> returns a tag that denotes exactly the keys of the
  map, each of them once, in ranges of at least two blocks and single numbers.\<close>

theorem GenerateTagsFromMap_exact:
  assumes "distinct (map fst m)"
  shows "tag_blocks (GenerateTagsFromMap m) = fst ` set m \<and> tag_size (GenerateTagsFromMap m) = length m \<and>
    (\<forall>r\<in>set (Tag_Range (GenerateTagsFromMap m)). RangeTag_Start r < RangeTag_End r)"
  using tags_of_map [OF assms] by blast

theorem GenerateTagsFromMap_exact_witness:
  "tag_blocks (GenerateTagsFromMap [(9, [1]), (4, []), (5, [2])]) = {4, 5, 9} \<and>
   tag_size (GenerateTagsFromMap [(9, [1]), (4, []), (5, [2])]) = 3"
  using GenerateTagsFromMap_exact [of "[(9, [1]), (4, []), (5, [2])]"] by auto

text \<open>C25: When the server answers a PoTS request without an error, the tag of the answer denotes exactly
  the blocks the client needs: nothing when the client is not behind, and otherwise the blocks above the
  client's height that the header table returned and that the client lacks or holds with another hash.\<close>

theorem pots_answer_exact:
  assumes "ProcessPoTSRequest (Some B) (Some req) = (resp, None)"
    and "\<And>s e hs. GetBlockHeadersRange B s e = Inr hs \<Longrightarrow> distinct (map Header_BlockNumber hs)"
  shows "PoTSResponse_LatestBlockNumber resp = GetBlockNumber B \<and> (\<exists>ph. PoTSResponse_Phase resp = Some ph \<and> Phase_Success ph) \<and>
    (\<exists>tag. PoTSResponse_Tag resp = Some tag \<and>
      (if GetBlockNumber B \<le> PoTSRequest_LatestBlockNumber req then tag_blocks tag = {}
       else \<exists>hs. GetBlockHeadersRange B (PoTSRequest_LatestBlockNumber req + 1) (GetBlockNumber B) = Inr hs \<and> hs \<noteq> [] \<and>
         tag_blocks tag = {b. \<exists>h\<in>set hs. Header_BlockNumber h = b \<and>
            map_of (PoTSRequest_Blocks req) b \<noteq> Some (Header_BlockHash h)}))"
proof (cases "GetBlockNumber B \<le> PoTSRequest_LatestBlockNumber req")
  case True
  with assms(1) show ?thesis by (auto simp: ProcessPoTSRequest_def pots_builder Let_def)
next
  case False
  with assms(1) obtain hs where hs: "GetBlockHeadersRange B (PoTSRequest_LatestBlockNumber req + 1) (GetBlockNumber B) = Inr hs"
    "hs \<noteq> []" by (auto simp: ProcessPoTSRequest_def Let_def split: sum.splits if_splits)
  have d: "distinct (map Header_BlockNumber hs)" using assms(2) hs(1) .
  let ?m = "CompareMaps (server_map hs) (PoTSRequest_Blocks req)"
  have resp: "resp = AddSuccesivePhase HEADER_SYNC_REQUEST (AddLatestBlockNumber (GetBlockNumber B)
      (AddTag (GenerateTagsFromMap ?m) (AddStatus True NewPoTSResponseBuilder)))"
    using assms(1) hs False by (simp add: ProcessPoTSRequest_def Let_def)
  have "distinct (map fst ?m)" by (intro distinct_CompareMaps distinct_server_map)
  from tags_of_map(1) [OF this] have "tag_blocks (GenerateTagsFromMap ?m) =
      {b. \<exists>h\<in>set hs. Header_BlockNumber h = b \<and> map_of (PoTSRequest_Blocks req) b \<noteq> Some (Header_BlockHash h)}"
    unfolding keys_CompareMaps server_map_pairs [OF d] by auto
  with hs False show ?thesis by (simp add: resp pots_builder)
qed

definition demo_hdr :: "u64 \<Rightarrow> bytes \<Rightarrow> Header" where
  "demo_hdr n h = \<lparr>Header_ProofHash = [], Header_Status = [], Header_TxnsRoot = [], Header_Timestamp = 0,
     Header_ExtraData = [], Header_StateRoot = [], Header_CoinbaseAddr = [], Header_ZkvmAddr = [],
     Header_PrevHash = [], Header_BlockHash = h, Header_GasLimit = 0, Header_GasUsed = 0,
     Header_BlockNumber = n, Header_LogsBloom = []\<rparr>"

definition demo_source :: "unit BlockInfo" where
  "demo_source = \<lparr>GetBlockNumber = 7, GetBlockDetails = \<lparr>Details_Blocknumber = 7, Details_Stateroot = [], Details_Blockhash = [],
       Details_Range = None, Details_Version = 1\<rparr>, NewBlockIterator = (\<lambda>_ _ _. []), GetBlockHeaders = (\<lambda>_. Inr []),
     GetBlockHeadersRange = (\<lambda>s e. Inr [demo_hdr 6 [1], demo_hdr 7 [2]]), GetBlockNonHeaders = (\<lambda>_. Inr []),
     GetBlockNonHeadersRange = (\<lambda>_ _. Inr [])\<rparr>"

definition demo_pots_request :: PoTSRequest where
  "demo_pots_request = \<lparr>PoTSRequest_Blocks = [(6, [1])], PoTSRequest_LatestBlockNumber = 5, PoTSRequest_Phase = None\<rparr>"

theorem pots_answer_exact_witness:
  "\<exists>resp tag. ProcessPoTSRequest (Some demo_source) (Some demo_pots_request) = (resp, None) \<and>
     PoTSResponse_Tag resp = Some tag \<and> tag_blocks tag = {7}"
proof -
  obtain resp where r: "ProcessPoTSRequest (Some demo_source) (Some demo_pots_request) = (resp, None)"
    by (simp add: ProcessPoTSRequest_def demo_source_def demo_pots_request_def Let_def)
  from pots_answer_exact [OF r] have "\<exists>tag. PoTSResponse_Tag resp = Some tag \<and> tag_blocks tag = {7}"
    by (auto simp: demo_source_def demo_pots_request_def demo_hdr_def)
  with r show ?thesis by blast
qed

end
