(* ===== verification/FS_PoTS_WAL.thy ===== *)
theory FS_PoTS_WAL
  imports FS_Types FS_Events
begin

text \<open>
  \<open>core/pots/pots_wal.go\<close>: the log of the blocks that arrive while the sync runs, with its in-memory
  index by block number. \<open>'b\<close> is the content of a \<open>types.ZKBlock\<close> beside its number; \<open>encoding/json\<close> on
  that struct, which runs the encoders of go-ethereum's address and hash types, is the parameter \<open>C\<close>.
\<close>

record 'b block_codec =
  json_Marshal :: "'b ZKBlock \<Rightarrow> json option"
  json_Unmarshal :: "json \<Rightarrow> 'b ZKBlock option"

record 'l PoTSWAL =
  PW_wal :: "'l WAL"
  PW_blockIndex :: "u64 \<rightharpoonup> u64"
  PW_lsnOrder :: "u64 list"
  PW_latestBlock :: u64

datatype pots_error =
    PoTSBlockNil
  | PoTSMarshalFailed u64
  | PoTSWriteFailed u64 wal_error
  | PoTSFlushFailed wal_error
  | PoTSRebuildFailed wal_error
  | PoTSReadFailed u64
  | PoTSDeserializeFailed u64
  | PoTSUnmarshalFailed u64
  | PoTSCloseFailed

text \<open>The three assignments that follow a durable write.\<close>

definition index_add :: "u64 \<Rightarrow> u64 \<Rightarrow> 'l PoTSWAL \<Rightarrow> 'l PoTSWAL" where
  "index_add bn lsn pw = pw\<lparr>PW_blockIndex := (PW_blockIndex pw)(bn \<mapsto> lsn),
     PW_lsnOrder := PW_lsnOrder pw @ [lsn],
     PW_latestBlock := (if bn > PW_latestBlock pw then bn else PW_latestBlock pw)\<rparr>"

definition rebuild_handler :: "WALEntry \<Rightarrow> 'l PoTSWAL \<Rightarrow> 'l PoTSWAL option" where
  "rebuild_handler entry pw = (case PoTSBlockEvent_Deserialize (WALEntry_Data entry) empty_PoTSBlockEvent of
     None \<Rightarrow> Some pw
   | Some ev \<Rightarrow> Some (index_add (PoTSBlockEvent_BlockNumber ev) (WALEntry_LSN entry) pw))"

definition rebuildIndex :: "'l log_ops \<Rightarrow> 'l PoTSWAL \<Rightarrow> wal_error + 'l PoTSWAL" where
  "rebuildIndex L pw = (case op_first L (WAL_Log (PW_wal pw)) of None \<Rightarrow> Inl IndexFailed
     | Some firstIndex \<Rightarrow> (case op_last L (WAL_Log (PW_wal pw)) of None \<Rightarrow> Inl IndexFailed
        | Some lastIndex \<Rightarrow>
           if firstIndex = 0 \<and> lastIndex = 0 then Inr pw
           else ReplayEventsByType L (PW_wal pw) PoTS rebuild_handler pw))"

definition empty_PoTSWAL :: "'l WAL \<Rightarrow> 'l PoTSWAL" where
  "empty_PoTSWAL w = \<lparr>PW_wal = w, PW_blockIndex = Map.empty, PW_lsnOrder = [], PW_latestBlock = 0\<rparr>"

definition NewPoTSWAL :: "'l log_ops \<Rightarrow> 'l WAL \<Rightarrow> pots_error + 'l PoTSWAL" where
  "NewPoTSWAL L w = (case rebuildIndex L (empty_PoTSWAL w) of
     Inl e \<Rightarrow> Inl (PoTSRebuildFailed e) | Inr pw \<Rightarrow> Inr pw)"

section \<open>Writing\<close>

definition pots_event :: "u64 \<Rightarrow> json \<Rightarrow> PoTSBlockEvent" where
  "pots_event bn data = \<lparr>PoTSBlockEvent_Base = empty_BaseEvent\<lparr>BaseEvent_Operation := ''APPEND''\<rparr>,
     PoTSBlockEvent_BlockNumber = bn, PoTSBlockEvent_BlockData = data, PoTSBlockEvent_Timestamp = 0\<rparr>"

definition write_block :: "'l log_ops \<Rightarrow> fs_env \<Rightarrow> 'b block_codec \<Rightarrow> 'b ZKBlock \<Rightarrow> 'l WAL \<Rightarrow> 'l WAL \<times> (pots_error + u64)" where
  "write_block L env C block w = (case json_Marshal C block of
     None \<Rightarrow> (w, Inl (PoTSMarshalFailed (ZKBlock_BlockNumber block)))
   | Some data \<Rightarrow>
      (case WriteEvent L env PoTS (snd (PoTSBlockEvent_Serialize (pots_event (ZKBlock_BlockNumber block) data))) w of
         (w1, Inl e) \<Rightarrow> (w1, Inl (PoTSWriteFailed (ZKBlock_BlockNumber block) e))
       | (w1, Inr lsn) \<Rightarrow> (w1, Inr lsn)))"

definition Write :: "'l log_ops \<Rightarrow> (nat \<Rightarrow> fs_env) \<Rightarrow> 'b block_codec \<Rightarrow> 'b ZKBlock option \<Rightarrow> 'l PoTSWAL \<Rightarrow>
    'l PoTSWAL \<times> pots_error option" where
  "Write L env C block pw = (case block of None \<Rightarrow> (pw, Some PoTSBlockNil)
     | Some b \<Rightarrow>
        (case write_block L (env 0) C b (PW_wal pw) of
           (w1, Inl e) \<Rightarrow> (pw\<lparr>PW_wal := w1\<rparr>, Some e)
         | (w1, Inr lsn) \<Rightarrow>
            (case Flush L (env 1) w1 of
               (w2, Inl e) \<Rightarrow> (pw\<lparr>PW_wal := w2\<rparr>, Some (PoTSFlushFailed e))
             | (w2, Inr _) \<Rightarrow> (index_add (ZKBlock_BlockNumber b) lsn (pw\<lparr>PW_wal := w2\<rparr>), None))))"

text \<open>The loop of \<open>WriteBatch\<close>: nil blocks are skipped; the written pairs are collected.\<close>

fun batch_loop :: "'l log_ops \<Rightarrow> (nat \<Rightarrow> fs_env) \<Rightarrow> 'b block_codec \<Rightarrow> 'b ZKBlock option list \<Rightarrow> 'l WAL \<Rightarrow>
    (u64 \<times> u64) list \<Rightarrow> 'l WAL \<times> (pots_error + (u64 \<times> u64) list)" where
  "batch_loop L env C [] w committed = (w, Inr committed)"
| "batch_loop L env C (None # bs) w committed = batch_loop L (\<lambda>k. env (Suc k)) C bs w committed"
| "batch_loop L env C (Some b # bs) w committed =
     (case write_block L (env 0) C b w of
        (w1, Inl e) \<Rightarrow> (w1, Inl e)
      | (w1, Inr lsn) \<Rightarrow> batch_loop L (\<lambda>k. env (Suc k)) C bs w1 (committed @ [(ZKBlock_BlockNumber b, lsn)]))"

definition WriteBatch :: "'l log_ops \<Rightarrow> (nat \<Rightarrow> fs_env) \<Rightarrow> fs_env \<Rightarrow> 'b block_codec \<Rightarrow> 'b ZKBlock option list \<Rightarrow> 'l PoTSWAL \<Rightarrow>
    'l PoTSWAL \<times> pots_error option" where
  "WriteBatch L env env' C blocks pw =
     (if blocks = [] then (pw, None)
      else case batch_loop L env C blocks (PW_wal pw) [] of
          (w1, Inl e) \<Rightarrow> (pw\<lparr>PW_wal := w1\<rparr>, Some e)
        | (w1, Inr committed) \<Rightarrow>
           (case Flush L env' w1 of
              (w2, Inl e) \<Rightarrow> (pw\<lparr>PW_wal := w2\<rparr>, Some (PoTSFlushFailed e))
            | (w2, Inr _) \<Rightarrow> (fold (\<lambda>(bn, lsn). index_add bn lsn) committed (pw\<lparr>PW_wal := w2\<rparr>), None)))"

section \<open>Reading\<close>

fun readByLSNs :: "'l log_ops \<Rightarrow> 'b block_codec \<Rightarrow> 'l PoTSWAL \<Rightarrow> u64 list \<Rightarrow> pots_error + 'b ZKBlock list" where
  "readByLSNs L C pw [] = Inr []"
| "readByLSNs L C pw (lsn # ls) =
     (case GetEvent L (PW_wal pw) lsn of Inl _ \<Rightarrow> Inl (PoTSReadFailed lsn)
      | Inr entry \<Rightarrow>
         (case PoTSBlockEvent_Deserialize (WALEntry_Data entry) empty_PoTSBlockEvent of
            None \<Rightarrow> Inl (PoTSDeserializeFailed lsn)
          | Some ev \<Rightarrow> (case json_Unmarshal C (PoTSBlockEvent_BlockData ev) of
              None \<Rightarrow> Inl (PoTSUnmarshalFailed lsn)
            | Some block \<Rightarrow> (case readByLSNs L C pw ls of Inl e \<Rightarrow> Inl e | Inr bs \<Rightarrow> Inr (block # bs)))))"

text \<open>\<open>Read\<close> panics (\<open>None\<close>) on a negative offset or length.\<close>

definition Read :: "'l log_ops \<Rightarrow> 'b block_codec \<Rightarrow> 'l PoTSWAL \<Rightarrow> int \<Rightarrow> int \<Rightarrow> (pots_error + 'b ZKBlock list) option" where
  "Read L C pw offset limit =
     (let total = int (length (PW_lsnOrder pw))
      in if offset \<ge> total then Some (Inr [])
         else let e = go_int (offset + limit); end = (if e > total then total else e)
              in if offset < 0 \<or> end - offset < 0 then None
                 else Some (readByLSNs L C pw (take (nat (end - offset)) (drop (nat offset) (PW_lsnOrder pw)))))"

partial_function (option) range_lsns :: "(u64 \<rightharpoonup> u64) \<Rightarrow> u64 \<Rightarrow> u64 \<Rightarrow> u64 list \<Rightarrow> u64 list option" where
  "range_lsns idx bn endBlock ls =
     (if bn \<le> endBlock
      then range_lsns idx (bn + 1) endBlock (case idx bn of Some lsn \<Rightarrow> ls @ [lsn] | None \<Rightarrow> ls)
      else Some ls)"

text \<open>\<open>None\<close> stands for a call that never returns.\<close>

definition ReadByRange :: "'l log_ops \<Rightarrow> 'b block_codec \<Rightarrow> 'l PoTSWAL \<Rightarrow> u64 \<Rightarrow> u64 \<Rightarrow> (pots_error + 'b ZKBlock list) option" where
  "ReadByRange L C pw startBlock endBlock =
     map_option (readByLSNs L C pw) (range_lsns (PW_blockIndex pw) startBlock endBlock [])"

definition HasBlock :: "'l PoTSWAL \<Rightarrow> u64 \<Rightarrow> bool" where
  "HasBlock pw bn \<longleftrightarrow> PW_blockIndex pw bn \<noteq> None"

definition GetLatestBlockNumber :: "'l PoTSWAL \<Rightarrow> u64" where
  "GetLatestBlockNumber pw = PW_latestBlock pw"

definition Count :: "'l PoTSWAL \<Rightarrow> u64" where
  "Count pw = word_of_nat (length (PW_lsnOrder pw))"

definition Close_PoTSWAL :: "'l log_ops \<Rightarrow> fs_env \<Rightarrow> 'l PoTSWAL \<Rightarrow> 'l PoTSWAL \<times> pots_error option" where
  "Close_PoTSWAL L env pw = (case Flush L env (PW_wal pw) of
     (w1, Inl e) \<Rightarrow> (pw\<lparr>PW_wal := w1\<rparr>, Some (PoTSFlushFailed e))
   | (w1, Inr _) \<Rightarrow> (case op_close L (WAL_Log w1) of
        (log', ok) \<Rightarrow> (pw\<lparr>PW_wal := w1\<lparr>WAL_Log := log'\<rparr>\<rparr>, if ok then None else Some PoTSCloseFailed)))"

end
