(* ===== verification/FS_PoTS_WAL_Props.thy ===== *)
theory FS_PoTS_WAL_Props
  imports FS_PoTS_WAL FS_Events_Facts FS_WAL_Props
begin

text \<open>
  The PoTS log refines a list of blocks in the order of their arrival: through any sequence of successful
  writes, batch writes and restarts, paging, range reads and the index agree with that list.
\<close>

definition json_roundtrip :: "'b block_codec \<Rightarrow> bool" where
  "json_roundtrip C \<longleftrightarrow> (\<forall>b d. json_Marshal C b = Some d \<longrightarrow> json_Unmarshal C d = Some b)"

abbreviation bnum :: "'b ZKBlock \<Rightarrow> u64" where
  "bnum \<equiv> ZKBlock_BlockNumber"

text \<open>A log entry that holds a block.\<close>

definition entry_block :: "'b block_codec \<Rightarrow> WALEntry \<Rightarrow> 'b ZKBlock \<Rightarrow> bool" where
  "entry_block C x b \<longleftrightarrow> WALEntry_Type x = PoTS \<and>
     (\<exists>ev. PoTSBlockEvent_Deserialize (WALEntry_Data x) empty_PoTSBlockEvent = Some ev \<and>
        PoTSBlockEvent_BlockNumber ev = bnum b \<and> json_Unmarshal C (PoTSBlockEvent_BlockData ev) = Some b)"

definition index_all :: "(WALEntry \<times> 'b ZKBlock) list \<Rightarrow> 'l PoTSWAL \<Rightarrow> 'l PoTSWAL" where
  "index_all ps pw = fold (\<lambda>(x, b). index_add (bnum b) (WALEntry_LSN x)) ps pw"

definition pots_rel :: "('l \<Rightarrow> log_view) \<Rightarrow> 'b block_codec \<Rightarrow> 'l PoTSWAL \<Rightarrow> 'b ZKBlock list \<Rightarrow> bool" where
  "pots_rel v C pw bs \<longleftrightarrow> wal_ok v (PW_wal pw) \<and> meta_synced (PW_wal pw) \<and> WAL_Buffer (PW_wal pw) = [] \<and>
     list_all2 (entry_block C) (disk_entries v (PW_wal pw)) bs \<and>
     pw = index_all (zip (disk_entries v (PW_wal pw)) bs) (empty_PoTSWAL (PW_wal pw))"

section \<open>The index\<close>

lemma index_add_sel [simp]:
  "PW_wal (index_add bn l pw) = PW_wal pw"
  "PW_blockIndex (index_add bn l pw) = (PW_blockIndex pw)(bn \<mapsto> l)"
  "PW_lsnOrder (index_add bn l pw) = PW_lsnOrder pw @ [l]"
  "PW_latestBlock (index_add bn l pw) = max (PW_latestBlock pw) bn"
  by (auto simp: index_add_def max_def)

lemma index_add_wal: "(index_add bn l pw)\<lparr>PW_wal := w\<rparr> = index_add bn l (pw\<lparr>PW_wal := w\<rparr>)"
  by (simp add: index_add_def)

lemma index_all_snoc: "index_all (ps @ [(x, b)]) pw = index_add (bnum b) (WALEntry_LSN x) (index_all ps pw)"
  by (simp add: index_all_def)

lemma index_all_append: "index_all (ps @ qs) pw = index_all qs (index_all ps pw)"
  by (simp add: index_all_def)

lemma index_all_wal: "(index_all ps (empty_PoTSWAL w))\<lparr>PW_wal := w'\<rparr> = index_all ps (empty_PoTSWAL w')"
  by (induction ps rule: rev_induct) (auto simp: index_all_snoc index_add_wal, simp add: index_all_def empty_PoTSWAL_def)

lemma index_all_sel:
  "PW_wal (index_all ps pw) = PW_wal pw"
  "PW_lsnOrder (index_all ps (empty_PoTSWAL w)) = map (WALEntry_LSN \<circ> fst) ps"
  "PW_blockIndex (index_all ps (empty_PoTSWAL w)) n =
     map_option (WALEntry_LSN \<circ> fst) (find (\<lambda>(x, b). bnum b = n) (rev ps))"
  "PW_latestBlock (index_all ps (empty_PoTSWAL w)) = foldl max 0 (map (bnum \<circ> snd) ps)"
  by (induction ps rule: rev_induct) (auto simp: index_all_snoc, auto simp: index_all_def empty_PoTSWAL_def)

lemma find_zip_snd:
  "length xs = length bs \<Longrightarrow> map_option snd (find (\<lambda>(x, b). P b) (zip xs bs)) = find P bs"
  by (induction xs bs rule: list_induct2) auto

section \<open>Writing\<close>

lemma write_block_ok:
  assumes L: "tidwall_log L v" and C: "json_roundtrip C" and ok: "wal_ok v w" and m: "meta_synced w"
    and room: "WAL_currentLSN w \<noteq> MaxUint64" and wr: "write_block L env C b w = (w', Inr lsn)"
  shows "\<exists>x. all_entries v w' = all_entries v w @ [x] \<and> wal_ok v w' \<and> meta_synced w' \<and> WALEntry_LSN x = lsn \<and>
    entry_block C x b \<and> WAL_currentLSN w' = WAL_currentLSN w + 1"
proof -
  from wr obtain d where d: "json_Marshal C b = Some d"
    and we: "WriteEvent L env PoTS (snd (PoTSBlockEvent_Serialize (pots_event (bnum b) d))) w = (w', Inr lsn)"
    by (auto simp: write_block_def split: option.splits prod.splits sum.splits)
  obtain ev j where ser: "PoTSBlockEvent_Serialize (pots_event (bnum b) d) = (ev, Inr j)"
    using pots_ev.ser_total [OF TrueI] by blast
  have ev: "PoTSBlockEvent_BlockNumber ev = bnum b" "PoTSBlockEvent_BlockData ev = d"
    using ser by (auto simp: PoTSBlockEvent_Serialize_def pots_event_def Let_def)
  have we': "WriteEvent L env PoTS (Inr j) w = (w', Inr lsn)" using we ser by simp
  from pots_ev.written_event [OF L ok room TrueI ser we'] obtain x where
    x: "all_entries v w' = all_entries v w @ [x]" "wal_ok v w'" "WALEntry_LSN x = lsn" "WALEntry_Type x = PoTS"
      "PoTSBlockEvent_Deserialize (WALEntry_Data x) empty_PoTSBlockEvent = Some ev" by blast
  have "entry_block C x b" using x(4,5) ev C d by (simp add: entry_block_def json_roundtrip_def)
  moreover have "WAL_currentLSN w' = WAL_currentLSN w + 1" using WriteEvent_ok [OF L ok room we'] by auto
  ultimately show ?thesis using x write_synced [OF L ok m room we'] by blast
qed

lemma flush_all:
  assumes L: "tidwall_log L v" and ok: "wal_ok v w" and m: "meta_synced w" and f: "Flush L env w = (w', Inr ())"
  shows "wal_ok v w' \<and> meta_synced w' \<and> WAL_Buffer w' = [] \<and> disk_entries v w' = all_entries v w \<and>
    WAL_currentLSN w' = WAL_currentLSN w"
  using flushBuffer_ok [OF L ok f [unfolded Flush_def]] flush_synced [OF L ok m f [unfolded Flush_def]]
  by (auto simp: flushed_def all_entries_def)

lemma list_all2_snoc: "list_all2 P xs ys \<Longrightarrow> P x y \<Longrightarrow> list_all2 P (xs @ [x]) (ys @ [y])"
  by (rule list_all2_appendI) simp_all

lemma Write_ok:
  assumes L: "tidwall_log L v" and C: "json_roundtrip C" and r: "pots_rel v C pw bs"
    and room: "WAL_currentLSN (PW_wal pw) \<noteq> MaxUint64" and wr: "Write L env C (Some b) pw = (pw', None)"
  shows "pots_rel v C pw' (bs @ [b])"
proof -
  let ?w = "PW_wal pw"
  have w: "wal_ok v ?w" "meta_synced ?w" "WAL_Buffer ?w = []"
    "list_all2 (entry_block C) (disk_entries v ?w) bs"
    "pw = index_all (zip (disk_entries v ?w) bs) (empty_PoTSWAL ?w)" using r by (auto simp: pots_rel_def)
  from wr obtain w1 lsn w2 where wb: "write_block L (env 0) C b ?w = (w1, Inr lsn)"
    and fl: "Flush L (env 1) w1 = (w2, Inr ())" and pw': "pw' = index_add (bnum b) lsn (pw\<lparr>PW_wal := w2\<rparr>)"
    by (auto simp: Write_def split: prod.splits sum.splits)
  from write_block_ok [OF L C w(1,2) room wb] obtain x where
    x: "all_entries v w1 = all_entries v ?w @ [x]" "wal_ok v w1" "meta_synced w1" "WALEntry_LSN x = lsn" "entry_block C x b"
    by blast
  have d: "disk_entries v w2 = disk_entries v ?w @ [x]" and w2: "wal_ok v w2" "meta_synced w2" "WAL_Buffer w2 = []"
    using flush_all [OF L x(2,3) fl] x(1) w(3) by (simp_all add: all_entries_def)
  have len: "length (disk_entries v ?w) = length bs" using w(4) by (rule list_all2_lengthD)
  have "pw' = index_all (zip (disk_entries v w2) (bs @ [b])) (empty_PoTSWAL w2)"
    using pw' index_all_wal [where ps = "zip (disk_entries v ?w) bs" and w = ?w and w' = w2] w(5) x(4) len
    by (simp add: d index_all_snoc)
  moreover have "PW_wal pw' = w2" by (simp add: pw')
  ultimately show ?thesis using w2 w(4) x(5) by (simp add: pots_rel_def d list_all2_snoc)
qed

text \<open>The blocks of a batch that are not nil.\<close>

abbreviation present :: "'a option list \<Rightarrow> 'a list" where
  "present bs \<equiv> map the (filter (\<lambda>b. b \<noteq> None) bs)"

lemma batch_loop_ok:
  assumes L: "tidwall_log L v" and C: "json_roundtrip C"
    and "wal_ok v w" and "meta_synced w" and "unat (WAL_currentLSN w) + length bs < 2 ^ 64 - 1"
    and "batch_loop L env C bs w committed = (w', Inr cs)"
  shows "\<exists>xs. all_entries v w' = all_entries v w @ xs \<and> wal_ok v w' \<and> meta_synced w' \<and>
      list_all2 (entry_block C) xs (present bs) \<and>
      cs = committed @ map (\<lambda>(x, b). (bnum b, WALEntry_LSN x)) (zip xs (present bs))"
  using assms(3-)
proof (induction bs arbitrary: env w committed)
  case (Cons ob bs)
  show ?case
  proof (cases ob)
    case None
    with Cons show ?thesis by simp
  next
    case (Some b)
    with Cons.prems(4) obtain w1 lsn where wb: "write_block L (env 0) C b w = (w1, Inr lsn)"
      and rest: "batch_loop L (\<lambda>k. env (Suc k)) C bs w1 (committed @ [(bnum b, lsn)]) = (w', Inr cs)"
      by (auto split: prod.splits sum.splits)
    have room: "WAL_currentLSN w \<noteq> MaxUint64" using Cons.prems(3) unat_max by auto
    from write_block_ok [OF L C Cons.prems(1,2) room wb] obtain x where
      x: "all_entries v w1 = all_entries v w @ [x]" "wal_ok v w1" "meta_synced w1" "WALEntry_LSN x = lsn"
        "entry_block C x b" "WAL_currentLSN w1 = WAL_currentLSN w + 1" by blast
    have "unat (WAL_currentLSN w1) + length bs < 2 ^ 64 - 1"
      using Cons.prems(3) unat_plus1 [OF room] x(6) by simp
    from Cons.IH [OF x(2,3) this rest] obtain xs where
      xs: "all_entries v w' = all_entries v w1 @ xs" "wal_ok v w'" "meta_synced w'"
        "list_all2 (entry_block C) xs (present bs)"
        "cs = (committed @ [(bnum b, lsn)]) @ map (\<lambda>(x, b). (bnum b, WALEntry_LSN x)) (zip xs (present bs))"
      by blast
    then show ?thesis using x Some by (intro exI [of _ "x # xs"]) simp
  qed
qed simp

lemma WriteBatch_ok:
  assumes L: "tidwall_log L v" and C: "json_roundtrip C" and r: "pots_rel v C pw bs"
    and room: "unat (WAL_currentLSN (PW_wal pw)) + length blocks < 2 ^ 64 - 1"
    and wr: "WriteBatch L env env' C blocks pw = (pw', None)"
  shows "pots_rel v C pw' (bs @ present blocks)"
proof (cases "blocks = []")
  case True
  with wr r show ?thesis by (simp add: WriteBatch_def)
next
  case False
  let ?w = "PW_wal pw" and ?new = "present blocks"
  have w: "wal_ok v ?w" "meta_synced ?w" "WAL_Buffer ?w = []"
    "list_all2 (entry_block C) (disk_entries v ?w) bs"
    "pw = index_all (zip (disk_entries v ?w) bs) (empty_PoTSWAL ?w)" using r by (auto simp: pots_rel_def)
  from wr False obtain w1 cs w2 where bl: "batch_loop L env C blocks ?w [] = (w1, Inr cs)"
    and fl: "Flush L env' w1 = (w2, Inr ())"
    and pw': "pw' = fold (\<lambda>(bn, lsn). index_add bn lsn) cs (pw\<lparr>PW_wal := w2\<rparr>)"
    by (auto simp: WriteBatch_def split: prod.splits sum.splits)
  from batch_loop_ok [OF L C w(1,2) room bl] obtain xs where
    xs: "all_entries v w1 = all_entries v ?w @ xs" "wal_ok v w1" "meta_synced w1" "list_all2 (entry_block C) xs ?new"
      "cs = map (\<lambda>(x, b). (bnum b, WALEntry_LSN x)) (zip xs ?new)" by auto
  have d: "disk_entries v w2 = disk_entries v ?w @ xs" and w2: "wal_ok v w2" "meta_synced w2" "WAL_Buffer w2 = []"
    using flush_all [OF L xs(2,3) fl] xs(1) w(3) by (simp_all add: all_entries_def)
  have len: "length (disk_entries v ?w) = length bs" using w(4) by (rule list_all2_lengthD)
  have "fold (\<lambda>(bn, lsn). index_add bn lsn) cs q = index_all (zip xs ?new) q" for q :: "'a PoTSWAL"
    unfolding xs(5) index_all_def fold_map by (rule fold_cong) auto
  then have "pw' = index_all (zip (disk_entries v w2) (bs @ ?new)) (empty_PoTSWAL w2)"
    using pw' index_all_wal [where ps = "zip (disk_entries v ?w) bs" and w = ?w and w' = w2] w(5) len
    by (simp add: d index_all_append)
  moreover from this have "PW_wal pw' = w2" by (simp add: index_all_sel empty_PoTSWAL_def)
  ultimately show ?thesis using w2 list_all2_appendI [OF w(4) xs(4)] by (simp add: pots_rel_def d)
qed

section \<open>Rebuilding the index\<close>

lemma run_rebuild:
  "list_all2 (entry_block C) xs bs \<Longrightarrow>
   run_handler (\<lambda>entry s. if WALEntry_Type entry = PoTS then rebuild_handler entry s else Some s) xs pw =
     Inr (index_all (zip xs bs) pw)"
  by (induction xs bs arbitrary: pw rule: list_all2_induct) (auto simp: entry_block_def rebuild_handler_def index_all_def)

lemma NewPoTSWAL_ok:
  assumes L: "tidwall_log L v" and ok: "wal_ok v w" and e: "list_all2 (entry_block C) (disk_entries v w) bs"
  shows "NewPoTSWAL L w = Inr (index_all (zip (disk_entries v w) bs) (empty_PoTSWAL w))"
proof (cases "disk_entries v w = []")
  case True
  then have "snd (v (WAL_Log w)) = []" by (simp add: disk_entries_def)
  with True show ?thesis
    by (simp add: NewPoTSWAL_def rebuildIndex_def empty_PoTSWAL_def log_first [OF L] log_last [OF L]
        last_index_def log_empty_first [OF L] index_all_def)
next
  case False
  then have ne: "snd (v (WAL_Log w)) \<noteq> []" by (simp add: disk_entries_def)
  then have "fst (v (WAL_Log w)) \<le> last_index (v (WAL_Log w))"
    by (cases "snd (v (WAL_Log w))") (simp_all add: last_index_def)
  then have "(word_of_nat (fst (v (WAL_Log w))) :: u64) \<noteq> 0"
    using log_first_pos [OF L, of "WAL_Log w"] log_last_bound [OF L, of "WAL_Log w"]
    by (simp add: word_of_nat_eq_0_iff nat_dvd_not_less)
  moreover have "ReplayEventsByType L w PoTS rebuild_handler (empty_PoTSWAL w) =
      Inr (index_all (zip (disk_entries v w) bs) (empty_PoTSWAL w))"
    unfolding ReplayEventsByType_def ReplayEvents_run [OF L ok False] by (rule run_rebuild [OF e])
  moreover have "PW_wal (empty_PoTSWAL w) = w" by (simp add: empty_PoTSWAL_def)
  ultimately show ?thesis using ne
    by (simp add: NewPoTSWAL_def rebuildIndex_def log_first [OF L] log_last [OF L])
qed

section \<open>Reading\<close>

lemma readByLSNs_entries:
  assumes L: "tidwall_log L v" and ok: "wal_ok v (PW_wal pw)"
  shows "list_all2 (entry_block C) xs bs \<Longrightarrow> set xs \<subseteq> set (all_entries v (PW_wal pw)) \<Longrightarrow>
    readByLSNs L C pw (map WALEntry_LSN xs) = Inr bs"
  by (induction xs bs rule: list_all2_induct) (auto simp: GetEvent_all_entries [OF L ok] entry_block_def)

lemma Read_ok:
  assumes L: "tidwall_log L v" and r: "pots_rel v C pw bs"
    and "0 \<le> offset" and "0 \<le> limit" and "offset + limit < 2 ^ 63"
  shows "Read L C pw offset limit = Some (Inr (take (nat limit) (drop (nat offset) bs)))"
proof -
  let ?xs = "disk_entries v (PW_wal pw)"
  have w: "wal_ok v (PW_wal pw)" "list_all2 (entry_block C) ?xs bs" "set ?xs \<subseteq> set (all_entries v (PW_wal pw))"
    and pw: "pw = index_all (zip ?xs bs) (empty_PoTSWAL (PW_wal pw))"
    using r by (auto simp: pots_rel_def all_entries_def)
  have len: "length ?xs = length bs" using w(2) by (rule list_all2_lengthD)
  have lo: "PW_lsnOrder pw = map WALEntry_LSN ?xs"
    using index_all_sel(2) [of "zip ?xs bs" "PW_wal pw"] pw len by (metis map_fst_zip map_map)
  show ?thesis
  proof (cases "offset \<ge> int (length bs)")
    case True
    then show ?thesis using lo len by (simp add: Read_def Let_def)
  next
    case False
    define e where "e = (if offset + limit > int (length bs) then int (length bs) else offset + limit)"
    have go: "go_int (offset + limit) = offset + limit" using assms(3-5) by (intro go_int_id) auto
    let ?n = "nat (e - offset)"
    have "readByLSNs L C pw (map WALEntry_LSN (take ?n (drop (nat offset) ?xs))) = Inr (take ?n (drop (nat offset) bs))"
      using w(3) by (intro readByLSNs_entries [OF L w(1)] list_all2_takeI list_all2_dropI w(2))
        (meson in_set_dropD in_set_takeD subset_iff)
    moreover have "take ?n (drop (nat offset) bs) = take (nat limit) (drop (nat offset) bs)"
      using False assms(3,4) by (auto simp: e_def nat_diff_distrib nat_add_distrib)
    moreover have "0 \<le> e - offset" using False assms(3,4) by (simp add: e_def)
    ultimately show ?thesis using False assms(3) lo len go
      by (simp add: Read_def Let_def take_map drop_map e_def [symmetric])
  qed
qed

definition latest_block :: "'b ZKBlock list \<Rightarrow> u64 \<Rightarrow> 'b ZKBlock option" where
  "latest_block bs n = find (\<lambda>b. bnum b = n) (rev bs)"

definition block_numbers :: "u64 \<Rightarrow> u64 \<Rightarrow> u64 list" where
  "block_numbers s e = map word_of_nat [unat s ..< Suc (unat e)]"

lemma block_numbers_rec: "s \<le> e \<Longrightarrow> e \<noteq> MaxUint64 \<Longrightarrow> block_numbers s e = s # block_numbers (s + 1) e"
proof -
  assume a: "s \<le> e" "e \<noteq> MaxUint64"
  then have "s \<noteq> MaxUint64" using word_order.extremum_unique by blast
  with a show ?thesis by (simp add: block_numbers_def unat_plus1 upt_conv_Cons word_le_nat_alt del: upt_Suc)
qed

lemma range_lsns_ok:
  assumes "e \<noteq> MaxUint64"
  shows "range_lsns idx s e acc = Some (acc @ present (map idx (block_numbers s e)))"
proof (induction "Suc (unat e) - unat s" arbitrary: s acc)
  case 0
  then have "\<not> s \<le> e" "block_numbers s e = []" by (auto simp: block_numbers_def word_le_nat_alt)
  then show ?case by (subst range_lsns.simps) simp
next
  case (Suc n)
  then have le: "s \<le> e" by (simp add: word_le_nat_alt)
  then have "s \<noteq> MaxUint64" using assms word_order.extremum_unique by blast
  then have "n = Suc (unat e) - unat (s + 1)" using Suc.hyps(2) by (simp add: unat_plus1)
  from Suc.hyps(1) [OF this] le show ?case
    by (subst range_lsns.simps) (simp add: block_numbers_rec [OF le assms] split: option.splits)
qed

lemma index_lookup:
  assumes r: "pots_rel v C pw bs"
  shows "case latest_block bs n of None \<Rightarrow> PW_blockIndex pw n = None
    | Some b \<Rightarrow> \<exists>x\<in>set (disk_entries v (PW_wal pw)). PW_blockIndex pw n = Some (WALEntry_LSN x) \<and> entry_block C x b"
proof -
  let ?xs = "disk_entries v (PW_wal pw)" and ?P = "\<lambda>(x, b :: 'b ZKBlock). bnum b = n"
  have e: "list_all2 (entry_block C) ?xs bs" and pw: "pw = index_all (zip ?xs bs) (empty_PoTSWAL (PW_wal pw))"
    using r by (auto simp: pots_rel_def)
  have len: "length ?xs = length bs" using e by (rule list_all2_lengthD)
  have idx: "PW_blockIndex pw n = map_option (WALEntry_LSN \<circ> fst) (find ?P (rev (zip ?xs bs)))"
    using index_all_sel(3) [of "zip ?xs bs" "PW_wal pw" n] pw by simp
  have lb: "latest_block bs n = map_option snd (find ?P (rev (zip ?xs bs)))"
    using find_zip_snd [of "rev ?xs" "rev bs" "\<lambda>b. bnum b = n"] len by (simp add: latest_block_def zip_rev)
  show ?thesis
  proof (cases "find ?P (rev (zip ?xs bs))")
    case None
    with idx lb show ?thesis by simp
  next
    case (Some p)
    then have "p \<in> set (zip ?xs bs)" by (metis find_Some_iff nth_mem set_rev)
    moreover obtain x b where p: "p = (x, b)" by (cases p)
    ultimately have "(x, b) \<in> set (zip ?xs bs)" by simp
    then have "x \<in> set ?xs" "entry_block C x b" using e set_zip_leftD by (fast, fastforce simp: list_all2_iff)
    with idx lb Some p show ?thesis by auto
  qed
qed

lemma ReadByRange_ok:
  assumes L: "tidwall_log L v" and r: "pots_rel v C pw bs" and e: "e \<noteq> MaxUint64"
  shows "ReadByRange L C pw s e = Some (Inr (present (map (latest_block bs) (block_numbers s e))))"
proof -
  have ok: "wal_ok v (PW_wal pw)" using r by (simp add: pots_rel_def)
  have "readByLSNs L C pw (present (map (PW_blockIndex pw) ns)) = Inr (present (map (latest_block bs) ns))" for ns
  proof -
    have "\<exists>xs. present (map (PW_blockIndex pw) ns) = map WALEntry_LSN xs \<and>
        list_all2 (entry_block C) xs (present (map (latest_block bs) ns)) \<and> set xs \<subseteq> set (all_entries v (PW_wal pw))"
    proof (induction ns)
      case (Cons n ns)
      then obtain xs where xs: "present (map (PW_blockIndex pw) ns) = map WALEntry_LSN xs"
        "list_all2 (entry_block C) xs (present (map (latest_block bs) ns))" "set xs \<subseteq> set (all_entries v (PW_wal pw))"
        by blast
      show ?case
      proof (cases "latest_block bs n")
        case None
        with xs index_lookup [OF r, of n] show ?thesis by auto
      next
        case (Some b)
        with index_lookup [OF r, of n] obtain x where "x \<in> set (disk_entries v (PW_wal pw))"
          "PW_blockIndex pw n = Some (WALEntry_LSN x)" "entry_block C x b" by auto
        with Some xs show ?thesis by (intro exI [of _ "x # xs"]) (simp add: all_entries_def)
      qed
    qed simp
    then show ?thesis using readByLSNs_entries [OF L ok] by fastforce
  qed
  then show ?thesis by (simp add: ReadByRange_def range_lsns_ok [OF e])
qed

section \<open>The refinement\<close>

text \<open>Successful writes and batch writes, interrupted by restarts, and the blocks they stored.\<close>

inductive pots_reach :: "'l log_ops \<Rightarrow> ('l \<Rightarrow> log_view) \<Rightarrow> 'b block_codec \<Rightarrow> 'l PoTSWAL \<Rightarrow> 'b ZKBlock list \<Rightarrow> bool"
  for L v C where
  p_fresh: "v log = (1, []) \<Longrightarrow> NewWAL log None [] b = Inr w \<Longrightarrow> NewPoTSWAL L w = Inr pw \<Longrightarrow> pots_reach L v C pw []"
| p_write: "pots_reach L v C pw bs \<Longrightarrow> WAL_currentLSN (PW_wal pw) \<noteq> MaxUint64 \<Longrightarrow>
     Write L env C (Some b) pw = (pw', None) \<Longrightarrow> pots_reach L v C pw' (bs @ [b])"
| p_batch: "pots_reach L v C pw bs \<Longrightarrow> unat (WAL_currentLSN (PW_wal pw)) + length blocks < 2 ^ 64 - 1 \<Longrightarrow>
     WriteBatch L env env' C blocks pw = (pw', None) \<Longrightarrow> pots_reach L v C pw' (bs @ present blocks)"
| p_restart: "pots_reach L v C pw bs \<Longrightarrow> reopen b (PW_wal pw) = Inr w \<Longrightarrow> NewPoTSWAL L w = Inr pw' \<Longrightarrow>
     pots_reach L v C pw' bs"

lemma pots_reach_rel:
  assumes L: "tidwall_log L v" and C: "json_roundtrip C"
  shows "pots_reach L v C pw bs \<Longrightarrow> pots_rel v C pw bs"
proof (induction rule: pots_reach.induct)
  case (p_fresh log b w pw)
  have w: "wal_ok v w" using NewWAL_fresh [where v = v and log = log, OF p_fresh(2,1)] .
  have sel: "WAL_Log w = log" "WAL_Buffer w = []" "meta_synced w"
    using p_fresh(2) by (auto simp: NewWAL_def loadLSN_def meta_synced_def)
  have d: "disk_entries v w = []" using p_fresh(1) sel(1) by (simp add: disk_entries_def)
  have "NewPoTSWAL L w = Inr (empty_PoTSWAL w)"
    using NewPoTSWAL_ok [OF L w, of C "[]"] d by (simp add: index_all_def)
  then have pw: "pw = empty_PoTSWAL w" "PW_wal pw = w"
    using p_fresh(3) by (auto simp: empty_PoTSWAL_def)
  show ?case unfolding pots_rel_def pw(2) d using w sel pw(1) by (simp add: index_all_def)
next
  case (p_write pw bs env b pw')
  then show ?case using Write_ok [OF L C] by blast
next
  case (p_batch pw bs blocks env env' pw')
  then show ?case using WriteBatch_ok [OF L C] by blast
next
  case (p_restart pw bs b w pw')
  let ?w = "PW_wal pw"
  have r: "wal_ok v ?w" "meta_synced ?w" "WAL_Buffer ?w = []" "list_all2 (entry_block C) (disk_entries v ?w) bs"
    using p_restart.IH by (auto simp: pots_rel_def)
  have s: "meta_saved ?w" using synced_saved [OF r(1-3)] .
  from reopen_ok [OF r(1) s r(3), of b] p_restart(2) have w: "wal_ok v w" "disk_entries v w = disk_entries v ?w" by auto
  from reopen_saved [OF s, of b] p_restart(2) have m: "WAL_Buffer w = []" "meta_synced w"
    using r(2) by (auto simp: meta_synced_def split: option.splits)
  have "NewPoTSWAL L w = Inr (index_all (zip (disk_entries v w) bs) (empty_PoTSWAL w))"
    using NewPoTSWAL_ok [OF L w(1)] w(2) r(4) by simp
  then have pw': "pw' = index_all (zip (disk_entries v w) bs) (empty_PoTSWAL w)" "PW_wal pw' = w"
    using p_restart(3) by (auto simp: index_all_sel) (simp add: empty_PoTSWAL_def)
  show ?case unfolding pots_rel_def pw'(2) using w m r(4) pw'(1) by simp
qed

lemma latest_block_mem: "latest_block bs n \<noteq> None \<longleftrightarrow> n \<in> bnum ` set bs"
  by (auto simp: latest_block_def find_None_iff)

text \<open>C24: Through any sequence of successful \<open>Write\<close>s and \<open>WriteBatch\<close>es and any number of restarts, the
  PoTS log behaves as the list of the blocks in the order they were stored: \<open>Read\<close> pages through it,
  \<open>ReadByRange\<close> gives for each number of the range the block stored last under it, \<open>HasBlock\<close>, \<open>Count\<close> and
  \<open>GetLatestBlockNumber\<close> agree with it, and a restart loses nothing.\<close>

theorem pots_wal_refines_list:
  assumes "tidwall_log L v" and "json_roundtrip C" and "pots_reach L v C pw bs"
  shows "(\<forall>offset limit. 0 \<le> offset \<and> 0 \<le> limit \<and> offset + limit < 2 ^ 63 \<longrightarrow>
      Read L C pw offset limit = Some (Inr (take (nat limit) (drop (nat offset) bs)))) \<and>
    (\<forall>s e. e \<noteq> MaxUint64 \<longrightarrow>
      ReadByRange L C pw s e = Some (Inr (present (map (latest_block bs) (block_numbers s e))))) \<and>
    (\<forall>n. HasBlock pw n \<longleftrightarrow> n \<in> bnum ` set bs) \<and> Count pw = word_of_nat (length bs) \<and>
    GetLatestBlockNumber pw = foldl max 0 (map bnum bs)"
proof -
  have r: "pots_rel v C pw bs" using pots_reach_rel [OF assms(1,2,3)] .
  let ?xs = "disk_entries v (PW_wal pw)"
  have pw: "pw = index_all (zip ?xs bs) (empty_PoTSWAL (PW_wal pw))" and len: "length ?xs = length bs"
    using r by (auto simp: pots_rel_def dest: list_all2_lengthD)
  have "HasBlock pw n \<longleftrightarrow> n \<in> bnum ` set bs" for n
    using index_lookup [OF r, of n] latest_block_mem [of bs n] by (auto simp: HasBlock_def split: option.splits)
  moreover have "length (PW_lsnOrder pw) = length bs"
    using index_all_sel(2) [of "zip ?xs bs" "PW_wal pw"] pw len by (metis length_map map_fst_zip)
  moreover have "PW_latestBlock pw = foldl max 0 (map bnum bs)"
    using index_all_sel(4) [of "zip ?xs bs" "PW_wal pw"] pw len by (metis map_map map_snd_zip)
  ultimately show ?thesis using Read_ok [OF assms(1) r] ReadByRange_ok [OF assms(1) r]
    by (simp add: Count_def GetLatestBlockNumber_def)
qed

definition demo_block_codec :: "unit block_codec" where
  "demo_block_codec = \<lparr>json_Marshal = (\<lambda>b. Some (JArr [enc_u64 (ZKBlock_BlockNumber b), JBytes (ZKBlock_BlockHash b)])),
     json_Unmarshal = (\<lambda>j. case j of
        JArr [n, JBytes h] \<Rightarrow> map_option (\<lambda>n. \<lparr>ZKBlock_BlockNumber = n, ZKBlock_BlockHash = h, ZKBlock_Content = ()\<rparr>) (dec_u64 n)
      | _ \<Rightarrow> None)\<rparr>"

lemma demo_block_codec_ok: "json_roundtrip demo_block_codec"
  by (simp add: json_roundtrip_def demo_block_codec_def)

theorem pots_wal_refines_list_witness:
  "\<exists>pw. pots_reach list_log norm_log demo_block_codec pw [\<lparr>ZKBlock_BlockNumber = 8, ZKBlock_BlockHash = [], ZKBlock_Content = ()\<rparr>] \<and>
     HasBlock pw 8 \<and> \<not> HasBlock pw 9 \<and> GetLatestBlockNumber pw = 8 \<and>
     Read list_log demo_block_codec pw 0 5 = Some (Inr [\<lparr>ZKBlock_BlockNumber = 8, ZKBlock_BlockHash = [], ZKBlock_Content = ()\<rparr>])"
proof -
  have n: "NewPoTSWAL list_log demo_wal = Inr (empty_PoTSWAL demo_wal)"
    using NewPoTSWAL_ok [OF tidwall_list_log wal_ok_demo, of demo_block_codec "[]"] norm_log_demo
    by (simp add: disk_entries_def demo_wal_def index_all_def)
  have r0: "pots_reach list_log norm_log demo_block_codec (empty_PoTSWAL demo_wal) []"
    by (rule pots_reach.p_fresh [where log = "(1, [])" and b = 1]) (rule norm_log_demo, rule NewWAL_demo, rule n)
  let ?b = "\<lparr>ZKBlock_BlockNumber = 8, ZKBlock_BlockHash = [], ZKBlock_Content = ()\<rparr>"
  obtain pw where w: "Write list_log (\<lambda>_. demo_env) demo_block_codec (Some ?b) (empty_PoTSWAL demo_wal) = (pw, None)"
    using write_demo_any [of PoTS "marshal_PoTSBlockEvent (fst (PoTSBlockEvent_Serialize (pots_event 8 (JArr [enc_u64 8, JBytes []]))))"]
    by (auto simp: Write_def write_block_def demo_block_codec_def empty_PoTSWAL_def PoTSBlockEvent_Serialize_def
        Let_def Flush_def flushBuffer_def)
  have "pots_reach list_log norm_log demo_block_codec pw ([] @ [?b])"
    by (rule pots_reach.p_write [OF r0 _ w]) (simp add: empty_PoTSWAL_def demo_wal_def)
  then have r: "pots_reach list_log norm_log demo_block_codec pw [?b]" by simp
  from pots_wal_refines_list [OF tidwall_list_log demo_block_codec_ok r] have
    "HasBlock pw 8 \<and> \<not> HasBlock pw 9 \<and> GetLatestBlockNumber pw = 8 \<and> Read list_log demo_block_codec pw 0 5 = Some (Inr [?b])"
    by simp
  with r show ?thesis by blast
qed

end
