(* ===== verification/FS_Bisect.thy ===== *)
theory FS_Bisect
  imports FS_Tagging FS_Merkle
begin

text \<open>
  \<open>core/protocol/router/bisection.go\<close>: the breadth-first search for the block ranges in which two Merkle trees
  differ. The server compares its tree with the client's snapshot, asks the client for finer sub-trees of the
  ranges that differ, and tags what is small enough, too deep, or cannot be compared.

  The client is a parameter: \<open>SendMerkleRequest k i\<close> is its answer to the \<open>i\<close>-th request of round \<open>k\<close>; the requests of a
  round run concurrently and their answers are stored by index. An error is its text; a panic is \<open>None\<close>.
\<close>

definition LEAF_THRESHOLD :: u32 where "LEAF_THRESHOLD = 10"
definition LAYER_THRESHOLD :: nat where "LAYER_THRESHOLD = 6"

record bisectionWorkItem =
  item_start :: u64
  item_count :: u32
  item_layer :: nat

record rangeRequest =
  rr_start :: u64
  rr_count :: u32
  rr_blockMerge :: i64

record 'n client_net =
  SendAvailabilityRequest :: "Range \<Rightarrow> string + 'n AvailabilityResponse"
  SendMerkleRequest :: "nat \<Rightarrow> nat \<Rightarrow> MerkleRequestMessage \<Rightarrow> string + MerkleMessage"

section \<open>Helpers\<close>

text \<open>\<open>helper.GetLatestBlockNumber\<close>: the end of the rightmost leaf.\<close>

fun rightmost :: "tree_node \<Rightarrow> tree_node" where
  "rightmost no_node = no_node"
| "rightmost (tree_node l r s c) = (if r = no_node then tree_node l r s c else rightmost r)"

definition GetLatestBlockNumber_tree :: "'t merkle_ops \<Rightarrow> 't \<Rightarrow> string + u64" where
  "GetLatestBlockNumber_tree M b = (case RootNode M b of Inl err \<Rightarrow> Inl err
     | Inr root \<Rightarrow> if root = no_node then Inl ''merkletree is empty''
         else let curr = rightmost root in Inr (tn_Start curr + ucast (tn_Count curr) - 1))"

definition item_end :: "u64 \<Rightarrow> u32 \<Rightarrow> u64" where
  "item_end start cnt = start + ucast cnt - 1"

definition calculateSubBlockMerge :: "u32 \<Rightarrow> i64" where
  "calculateSubBlockMerge cnt = (let bm = word_of_nat (five_percent (unat cnt)) in if bm <s 1 then 1 else bm)"

section \<open>Talking to the client\<close>

definition registerWithClient :: "'n client_net \<Rightarrow> string + string" where
  "registerWithClient N =
     (case SendAvailabilityRequest N \<lparr>Range_Start = 0, Range_End = MaxUint64\<rparr> of
        Inl err \<Rightarrow> Inl (''failed to send availability request: '' @ err)
      | Inr resp \<Rightarrow> (case AvailabilityResponse_Auth resp of
           Some a \<Rightarrow> if AvailabilityResponse_IsAvailable resp \<and> Auth_UUID a \<noteq> [] then Inr (Auth_UUID a)
             else Inl ''registration failed: client not available or no UUID received''
         | None \<Rightarrow> Inl ''registration failed: client not available or no UUID received''))"

definition merkle_request :: "string \<Rightarrow> rangeRequest \<Rightarrow> MerkleRequestMessage" where
  "merkle_request uuid req = \<lparr>MerkleRequestMessage_Request = Some \<lparr>MerkleRequest_Start = rr_start req,
       MerkleRequest_End = item_end (rr_start req) (rr_count req),
       MerkleRequest_Config = Some \<lparr>pbConfig_BlockMerge = ucast (rr_blockMerge req),
         pbConfig_ExpectedTotal = ucast (rr_count req)\<rparr>\<rparr>,
     MerkleRequestMessage_Ack = None,
     MerkleRequestMessage_Phase = Some \<lparr>Phase_PresentPhase = REQUEST_MERKLE_PHASE,
       Phase_SuccessivePhase = RESPONSE_MERKLE, Phase_Success = True, Phase_Error = [],
       Phase_Auth = Some \<lparr>Auth_UUID = uuid\<rparr>\<rparr>\<rparr>"

definition requestSubTree :: "'t merkle_ops \<Rightarrow> string \<Rightarrow> (MerkleRequestMessage \<Rightarrow> string + MerkleMessage) \<Rightarrow> rangeRequest \<Rightarrow>
    (string + 't) option" where
  "requestSubTree M uuid send req =
     (case send (merkle_request uuid req) of
        Inl err \<Rightarrow> Some (Inl (''SendMerkleRequest failed: '' @ err))
      | Inr resp \<Rightarrow>
         if (case MerkleMessage_Ack resp of None \<Rightarrow> False | Some a \<Rightarrow> \<not> Ack_Ok a)
         then Some (Inl (''target node error: '' @ Ack_Error (the (MerkleMessage_Ack resp))))
         else if MerkleMessage_Snapshot resp = None
         then Some (Inl (''target returned nil snapshot for range ['' @ show_nat (unat (rr_start req)) @ '', '' @
           show_nat (unat (item_end (rr_start req) (rr_count req))) @ '']''))
         else case ProtoToMerkleSnapshot (MerkleMessage_Snapshot resp) of
             None \<Rightarrow> None
           | Some None \<Rightarrow> Some (Inl ''failed to convert proto snapshot to domain type'')
           | Some (Some snap) \<Rightarrow> (case FromSnapshot M (Some snap) of
                Inl err \<Rightarrow> Some (Inl (''failed to reconstruct tree from snapshot: '' @ err))
              | Inr b \<Rightarrow> Some (Inr b)))"

text \<open>The batch: one answer per request, in the order of the requests; a panic of one goroutine ends the process.\<close>

definition requestSubTreesBatch :: "'t merkle_ops \<Rightarrow> string \<Rightarrow> (nat \<Rightarrow> MerkleRequestMessage \<Rightarrow> string + MerkleMessage) \<Rightarrow>
    rangeRequest list \<Rightarrow> (string + 't) list option" where
  "requestSubTreesBatch M uuid send reqs =
     those (map (\<lambda>(i, req). requestSubTree M uuid (send i) req) (enumerate 0 reqs))"

definition buildLocalSubtree :: "'t merkle_ops \<Rightarrow> 'b BlockInfo option \<Rightarrow> u64 \<Rightarrow> u32 \<Rightarrow> i64 \<Rightarrow> string + 't" where
  "buildLocalSubtree M blockInfo start cnt blockMerge = (case blockInfo of
     None \<Rightarrow> Inl ''nodeinfo or blockinfo is nil''
   | Some B \<Rightarrow> GenerateMerkleTreeWithConfig M B start (item_end start cnt)
       \<lparr>Config_BlockMerge = blockMerge, Config_ExpectedTotal = ucast cnt\<rparr>)"

section \<open>The breadth-first search\<close>

definition tag_item :: "bisectionWorkItem \<Rightarrow> Tagging \<Rightarrow> Tagging" where
  "tag_item item tag = TagRange tag (item_start item) (item_end (item_start item) (item_count item))"

text \<open>An item is tagged at once when it is small or starts above the client's height.\<close>

definition settled :: "u64 \<Rightarrow> bisectionWorkItem \<Rightarrow> bool" where
  "settled peerBlockHeight item \<longleftrightarrow> item_count item \<le> LEAF_THRESHOLD \<or> item_start item > peerBlockHeight"

definition range_text :: "bisectionWorkItem \<Rightarrow> string" where
  "range_text item = ''['' @ show_nat (unat (item_start item)) @ '', '' @
     show_nat (unat (item_end (item_start item) (item_count item))) @ '']: ''"

text \<open>The loop over the answers of one round: what is tagged, and the items of the next layer.\<close>

fun refine :: "'t merkle_ops \<Rightarrow> 'b BlockInfo option \<Rightarrow> (bisectionWorkItem \<times> (string + 't)) list \<Rightarrow> Tagging \<Rightarrow>
    bisectionWorkItem list \<Rightarrow> string + Tagging \<times> bisectionWorkItem list" where
  "refine M B [] tag nextLayer = Inr (tag, nextLayer)"
| "refine M B ((item, Inl err) # rs) tag nextLayer = refine M B rs (tag_item item tag) nextLayer"
| "refine M B ((item, Inr target) # rs) tag nextLayer =
     (case buildLocalSubtree M B (item_start item) (item_count item) (calculateSubBlockMerge (item_count item)) of
        Inl err \<Rightarrow> Inl (''failed to build local sub-tree for range '' @ range_text item @ err)
      | Inr local \<Rightarrow> (case TreeDiff M local target of
           Inl err \<Rightarrow> Inl (''sub-tree TreeDiff failed for range '' @ range_text item @ err)
         | Inr subDiffs \<Rightarrow> refine M B rs tag (nextLayer @
              map (\<lambda>(s, c). \<lparr>item_start = s, item_count = c, item_layer = item_layer item + 1\<rparr>) subDiffs)))"

lemma refine_layers:
  "refine M B rs tag next = Inr (tag', next') \<Longrightarrow> x \<in> set next' \<Longrightarrow>
   x \<in> set next \<or> (\<exists>i\<in>fst ` set rs. item_layer x = Suc (item_layer i))"
  by (induction M B rs tag "next" rule: refine.induct) (fastforce split: sum.splits)+

function bisect_layers :: "'t merkle_ops \<Rightarrow> 'b BlockInfo option \<Rightarrow> string \<Rightarrow> (nat \<Rightarrow> nat \<Rightarrow> MerkleRequestMessage \<Rightarrow> string + MerkleMessage) \<Rightarrow>
    u64 \<Rightarrow> nat \<Rightarrow> bisectionWorkItem list \<Rightarrow> Tagging \<Rightarrow> (string + Tagging) option" where
  "bisect_layers M B uuid send peerBlockHeight round currentLayer tag =
     (if currentLayer = [] then Some (Inr tag)
      else if item_layer (hd currentLayer) \<ge> LAYER_THRESHOLD then Some (Inr (fold tag_item currentLayer tag))
      else let tag1 = fold tag_item (filter (settled peerBlockHeight) currentLayer) tag;
               items = filter (\<lambda>i. \<not> settled peerBlockHeight i) currentLayer;
               reqs = map (\<lambda>i. \<lparr>rr_start = item_start i, rr_count = item_count i,
                 rr_blockMerge = calculateSubBlockMerge (item_count i)\<rparr>) items
           in if items = [] then Some (Inr tag1)
              else case requestSubTreesBatch M uuid (send round) reqs of None \<Rightarrow> None
                | Some responses \<Rightarrow> (case refine M B (zip items responses) tag1 [] of
                     Inl e \<Rightarrow> Some (Inl e)
                   | Inr (tag2, nextLayer) \<Rightarrow> bisect_layers M B uuid send peerBlockHeight (Suc round) nextLayer tag2))"
  by pat_completeness auto

text \<open>Every round moves all remaining items one layer down.\<close>

definition layers_left :: "bisectionWorkItem list \<Rightarrow> nat" where
  "layers_left l = (if l = [] then 0 else Suc LAYER_THRESHOLD - Min (item_layer ` set l))"

lemma layers_left_decreases:
  assumes cur: "cur \<noteq> []" "item_layer (hd cur) < LAYER_THRESHOLD"
    and nxt: "\<And>x. x \<in> set next \<Longrightarrow> \<exists>i\<in>set cur. item_layer x = Suc (item_layer i)"
  shows "layers_left next < layers_left cur"
proof -
  have "Min (item_layer ` set cur) \<le> item_layer (hd cur)" using cur(1) by (intro Min_le) auto
  then have m: "Min (item_layer ` set cur) < LAYER_THRESHOLD" using cur(2) by linarith
  show ?thesis
  proof (cases "next = []")
    case False
    have "Suc (Min (item_layer ` set cur)) \<le> Min (item_layer ` set next)"
    proof (rule Min.boundedI)
      fix a assume "a \<in> item_layer ` set next"
      then obtain i where "i \<in> set cur" "a = Suc (item_layer i)" using nxt by fastforce
      then show "Suc (Min (item_layer ` set cur)) \<le> a" by simp
    qed (use False in auto)
    then show ?thesis using m unfolding layers_left_def if_not_P [OF False] if_not_P [OF cur(1)] by linarith
  next
    case True
    show ?thesis using m unfolding layers_left_def if_P [OF True] if_not_P [OF cur(1)] by linarith
  qed
qed

lemma zip_filter_fst: "i \<in> fst ` set (zip (filter P xs) ys) \<Longrightarrow> i \<in> set xs"
  by (auto dest: set_zip_leftD)

termination bisect_layers
proof (relation "measure (\<lambda>(M, B, uuid, send, h, round, cur, tag). layers_left cur)", goal_cases)
  case (2 M B uuid send h round cur tag tag1 items reqs responses p tag2 nextLayer)
  then have items: "items = filter (\<lambda>i. \<not> settled h i) cur" and
    ref: "refine M B (zip items responses) tag1 [] = Inr (tag2, nextLayer)" by simp_all
  have "\<exists>i\<in>set cur. item_layer x = Suc (item_layer i)" if "x \<in> set nextLayer" for x
  proof -
    from refine_layers [OF ref that] obtain i where i: "i \<in> fst ` set (zip items responses)" "item_layer x = Suc (item_layer i)"
      by auto
    have "i \<in> set cur" by (rule zip_filter_fst [OF i(1) [unfolded items]])
    with i(2) show ?thesis by blast
  qed
  from layers_left_decreases [OF 2(1) _ this] 2(2) show ?case by simp
qed simp

declare bisect_layers.simps [simp del]

text \<open>
  \<open>dataBisect\<close>: the UUID is stored in the router by the first registration and reused afterwards. The second
  component is the result; the trees are finalised before they are compared.
\<close>

definition dataBisect :: "'t merkle_ops \<Rightarrow> 'b BlockInfo option \<Rightarrow> 'n client_net \<Rightarrow> string \<Rightarrow> 't \<Rightarrow> 't \<Rightarrow>
    string \<times> (string + HeaderSyncRequest) option" where
  "dataBisect M B N clientUUID local_tree0 target_tree0 =
     (case (if clientUUID \<noteq> [] then Inr clientUUID else registerWithClient N) of
        Inl err \<Rightarrow> (clientUUID, Some (Inl (''failed to register with client: '' @ err)))
      | Inr uuid \<Rightarrow> (uuid,
         case Finalize M local_tree0 of (local_tree, Inl err) \<Rightarrow> Some (Inl (''failed to finalize local tree: '' @ err))
         | (local_tree, Inr root_local) \<Rightarrow>
            (case Finalize M target_tree0 of (target_tree, Inl err) \<Rightarrow> Some (Inl (''failed to finalize target tree: '' @ err))
             | (target_tree, Inr root_target) \<Rightarrow>
                let request = (\<lambda>tag. \<lparr>HeaderSyncRequest_Tag = Some (Tagging_Tag tag), HeaderSyncRequest_Ack = None,
                      HeaderSyncRequest_Phase = None\<rparr>)
                in if root_local = root_target then Some (Inr (request NewTagging))
                   else case TreeDiff M local_tree target_tree of
                       Inl err \<Rightarrow> Some (Inl (''initial TreeDiff failed: '' @ err))
                     | Inr diffs \<Rightarrow>
                        if diffs = [] then Some (Inr (request NewTagging))
                        else let peerBlockHeight = (case GetLatestBlockNumber_tree M target_tree of Inl _ \<Rightarrow> MaxUint64 | Inr h \<Rightarrow> h)
                             in (case bisect_layers M B uuid (SendMerkleRequest N) peerBlockHeight 0
                                   (map (\<lambda>(s, c). \<lparr>item_start = s, item_count = c, item_layer = 0\<rparr>) diffs) NewTagging of
                                   None \<Rightarrow> None
                                 | Some (Inl e) \<Rightarrow> Some (Inl e)
                                 | Some (Inr tag) \<Rightarrow> Some (Inr (request tag))))))"

end
