(* ===== verification/FS_Router.thy ===== *)
theory FS_Router
  imports FS_Bisect FS_Checksum FS_PoTS
begin

text \<open>
  \<open>core/protocol/router/data_router.go\<close>, \<open>auth_helper.go\<close>, \<open>helper/nodeinfo_helper.go\<close> and
  \<open>core/availability/globalvar_availability.go\<close>: the server side of the protocol. A handler takes the request, the
  peer that sent it and the router's state, and returns the new state and the response.

  Code of the application and of libraries is a parameter: the token cache (\<open>types.AUTHHandler\<close>, state \<open>'a\<close>), the
  block store, the Merkle library, the rate limiter of \<open>golang.org/x/time/rate\<close> (\<open>'r\<close>), \<open>proto.Marshal\<close>, and the network
  on which the server asks the client for sub-trees. A handler that does not return, because it dereferences nil or
  because \<open>DivideTags\<close> loops, is \<open>None\<close>.
\<close>

section \<open>State and environment\<close>

record 'b Nodeinfo =
  Nodeinfo_PeerID :: bytes
  Nodeinfo_Multiaddr :: "bytes list"
  Nodeinfo_Capabilities :: "string list"
  Nodeinfo_PublicKey :: bytes
  Nodeinfo_Version :: u16
  Nodeinfo_Protocol :: string
  Nodeinfo_BlockInfo :: "'b BlockInfo option"

record 'a auth_ops =
  AddRecord :: "bytes \<Rightarrow> string \<Rightarrow> 'a \<Rightarrow> 'a \<times> string option"
  IsAUTH :: "bytes \<Rightarrow> string \<Rightarrow> 'a \<Rightarrow> 'a \<times> (string + bool)"
  ResetTTL_op :: "bytes \<Rightarrow> 'a \<Rightarrow> 'a \<times> string option"

record ('a, 'b, 'r) Datarouter =
  DR_Nodeinfo :: "'b Nodeinfo option"
  DR_clientGeneratedUUID :: string
  DR_availabilityLimiters :: "bytes \<rightharpoonup> 'r"
  DR_auth :: 'a
  DR_fastsyncready :: bool

record ('a, 'r, 't) router_env =
  env_auth :: "'a auth_ops"
  env_tree :: "'t merkle_ops"
  env_marshal :: "PriorSync_pb \<Rightarrow> string + bytes option"
  env_NewLimiter :: 'r
  env_Allow :: "'r \<Rightarrow> 'r \<times> bool"
  env_client :: "unit client_net"
  env_uuid :: string

definition NewDatarouter :: "'b Nodeinfo option \<Rightarrow> 'a \<Rightarrow> bool \<Rightarrow> ('a, 'b, 'r) Datarouter" where
  "NewDatarouter nodeinfo auth ready = \<lparr>DR_Nodeinfo = nodeinfo, DR_clientGeneratedUUID = [],
     DR_availabilityLimiters = Map.empty, DR_auth = auth, DR_fastsyncready = ready\<rparr>"

text \<open>\<open>globalvar_availability.go\<close>\<close>

definition AmIAvailable :: "('a, 'b, 'r) Datarouter \<Rightarrow> bool" where
  "AmIAvailable router = DR_fastsyncready router"

definition IAmAvailable :: "('a, 'b, 'r) Datarouter \<Rightarrow> ('a, 'b, 'r) Datarouter" where
  "IAmAvailable router = router\<lparr>DR_fastsyncready := True\<rparr>"

definition IAmNotAvailable :: "('a, 'b, 'r) Datarouter \<Rightarrow> ('a, 'b, 'r) Datarouter" where
  "IAmNotAvailable router = router\<lparr>DR_fastsyncready := False\<rparr>"

text \<open>The block store, when the router has one; reading it through a nil \<open>Nodeinfo\<close> panics.\<close>

definition block_info :: "('a, 'b, 'r) Datarouter \<Rightarrow> 'b BlockInfo option" where
  "block_info router = (case DR_Nodeinfo router of None \<Rightarrow> None | Some ni \<Rightarrow> Nodeinfo_BlockInfo ni)"

section \<open>nodeinfo_helper.go\<close>

text \<open>\<open>IDFromBytes\<close> and \<open>NewMultiaddrBytes\<close> are libp2p's parsers; a multiaddress is its bytes.\<close>

definition ToProto :: "'b Nodeinfo \<Rightarrow> NodeInfo" where
  "ToProto nf = \<lparr>NodeInfo_PeerId = Nodeinfo_PeerID nf, NodeInfo_Multiaddrs = Nodeinfo_Multiaddr nf,
     NodeInfo_Capabilities = Nodeinfo_Capabilities nf, NodeInfo_PublicKey = Nodeinfo_PublicKey nf,
     NodeInfo_Version = ucast (Nodeinfo_Version nf), NodeInfo_Protocol = Nodeinfo_Protocol nf\<rparr>"

definition empty_Nodeinfo :: "'b Nodeinfo" where
  "empty_Nodeinfo = \<lparr>Nodeinfo_PeerID = [], Nodeinfo_Multiaddr = [], Nodeinfo_Capabilities = [], Nodeinfo_PublicKey = [],
     Nodeinfo_Version = 0, Nodeinfo_Protocol = [], Nodeinfo_BlockInfo = None\<rparr>"

fun parse_multiaddrs :: "(bytes \<Rightarrow> string + bytes) \<Rightarrow> bytes list \<Rightarrow> string + bytes list" where
  "parse_multiaddrs parse [] = Inr []"
| "parse_multiaddrs parse (b # bs) = (case parse b of Inl err \<Rightarrow> Inl (''failed to parse multiaddr: '' @ err)
     | Inr ma \<Rightarrow> (case parse_multiaddrs parse bs of Inl e \<Rightarrow> Inl e | Inr mas \<Rightarrow> Inr (ma # mas)))"

definition ToNodeinfo :: "(bytes \<Rightarrow> string + bytes) \<Rightarrow> (bytes \<Rightarrow> string + bytes) \<Rightarrow> NodeInfo option \<Rightarrow> string + 'b Nodeinfo" where
  "ToNodeinfo IDFromBytes NewMultiaddrBytes nodeinfo = (case nodeinfo of None \<Rightarrow> Inr empty_Nodeinfo
     | Some pb \<Rightarrow> (case IDFromBytes (NodeInfo_PeerId pb) of Inl err \<Rightarrow> Inl (''failed to parse peer ID: '' @ err)
        | Inr peerID \<Rightarrow> (case parse_multiaddrs NewMultiaddrBytes (NodeInfo_Multiaddrs pb) of Inl err \<Rightarrow> Inl err
           | Inr multiaddrs \<Rightarrow> Inr \<lparr>Nodeinfo_PeerID = peerID, Nodeinfo_Multiaddr = multiaddrs,
               Nodeinfo_Capabilities = NodeInfo_Capabilities pb, Nodeinfo_PublicKey = NodeInfo_PublicKey pb,
               Nodeinfo_Version = ucast (NodeInfo_Version pb), Nodeinfo_Protocol = NodeInfo_Protocol pb,
               Nodeinfo_BlockInfo = None\<rparr>)))"

section \<open>auth_helper.go\<close>

definition Authenticate :: "('a, 'r, 't) router_env \<Rightarrow> Auth option \<Rightarrow> bytes \<Rightarrow> ('a, 'b, 'r) Datarouter \<Rightarrow>
    (('a, 'b, 'r) Datarouter \<times> (string + bool)) option" where
  "Authenticate E auth_req peer router = (case auth_req of
     None \<Rightarrow> Some (router, Inl ''authentication request is nil or UUID is empty'')
   | Some a \<Rightarrow>
      if Auth_UUID a = [] then Some (router, Inl ''authentication request is nil or UUID is empty'')
      else if \<not> AmIAvailable router then Some (router, Inl ''node is not available for fast sync'')
      else if block_info router = None then None
      else case IsAUTH (env_auth E) peer (Auth_UUID a) (DR_auth router) of
          (st, res) \<Rightarrow> Some (router\<lparr>DR_auth := st\<rparr>, res))"

definition ResetTTL :: "('a, 'r, 't) router_env \<Rightarrow> Auth option \<Rightarrow> bytes \<Rightarrow> ('a, 'b, 'r) Datarouter \<Rightarrow>
    (('a, 'b, 'r) Datarouter \<times> string option) option" where
  "ResetTTL E auth_req peer router = (case auth_req of
     None \<Rightarrow> Some (router, Some ''authentication request is nil or UUID is empty'')
   | Some a \<Rightarrow>
      if Auth_UUID a = [] then Some (router, Some ''authentication request is nil or UUID is empty'')
      else if block_info router = None then None
      else case ResetTTL_op (env_auth E) peer (DR_auth router) of (st, err) \<Rightarrow> Some (router\<lparr>DR_auth := st\<rparr>, err))"

definition IsRegistered :: "('a, 'b, 'r) Datarouter \<Rightarrow> bool" where
  "IsRegistered router \<longleftrightarrow> DR_clientGeneratedUUID router \<noteq> []"

definition GetClientUUID :: "('a, 'b, 'r) Datarouter \<Rightarrow> string" where
  "GetClientUUID router = DR_clientGeneratedUUID router"

definition ClearRegistration :: "('a, 'b, 'r) Datarouter \<Rightarrow> ('a, 'b, 'r) Datarouter" where
  "ClearRegistration router = router\<lparr>DR_clientGeneratedUUID := []\<rparr>"

text \<open>\<open>req.Phase.Auth == nil || req.Phase.Auth.UUID == ""\<close>\<close>

definition no_token :: "Auth option \<Rightarrow> bool" where
  "no_token auth \<longleftrightarrow> (case auth of None \<Rightarrow> True | Some a \<Rightarrow> Auth_UUID a = [])"

text \<open>
  The frame of every authenticated handler: authenticate, answer \<open>refused\<close> when that fails, otherwise run the body and
  reset the lifetime of the token when it returns (the deferred call, whose error is only logged).
\<close>

definition with_token :: "('a, 'r, 't) router_env \<Rightarrow> Auth option \<Rightarrow> bytes \<Rightarrow> 'resp \<Rightarrow>
    (('a, 'b, 'r) Datarouter \<Rightarrow> (('a, 'b, 'r) Datarouter \<times> 'resp) option) \<Rightarrow> ('a, 'b, 'r) Datarouter \<Rightarrow>
    (('a, 'b, 'r) Datarouter \<times> 'resp) option" where
  "with_token E auth peer refused body router = (case Authenticate E auth peer router of None \<Rightarrow> None
     | Some (router1, res) \<Rightarrow>
        if res \<noteq> Inr True then Some (router1, refused)
        else case body router1 of None \<Rightarrow> None
          | Some (router2, resp) \<Rightarrow> (case ResetTTL E auth peer router2 of None \<Rightarrow> None
             | Some (router3, _) \<Rightarrow> Some (router3, resp)))"

section \<open>Response parts\<close>

definition ack :: "bool \<Rightarrow> string \<Rightarrow> Ack" where
  "ack ok err = \<lparr>Ack_Ok = ok, Ack_Error = err\<rparr>"

definition phase :: "string \<Rightarrow> string \<Rightarrow> bool \<Rightarrow> string \<Rightarrow> Auth option \<Rightarrow> Phase" where
  "phase present succ ok err auth = \<lparr>Phase_PresentPhase = present, Phase_SuccessivePhase = succ, Phase_Success = ok,
     Phase_Error = err, Phase_Auth = auth\<rparr>"

definition MetadataRequired :: string where "MetadataRequired = ''metadata is required''"
definition AuthRequired :: string where "AuthRequired = ''authentication is required''"
definition AuthenticationFailed :: string where "AuthenticationFailed = ''authentication failed''"
definition ChecksumMismatch :: string where "ChecksumMismatch = ''checksum mismatch''"
definition BlockInfoNil :: string where "BlockInfoNil = ''block info is nil''"
definition RateLimitExceeded :: string where
  "RateLimitExceeded = ''status 429: rate limit exceeded: too many requests''"
definition SameBlockHeight :: string where "SameBlockHeight = ''on the same block height''"
definition SameBlockHeight_DifferentStateroot :: string where
  "SameBlockHeight_DifferentStateroot = ''on the same block height, stateroot mismatch''"
definition SameBlockHeight_DifferentBlockhash :: string where
  "SameBlockHeight_DifferentBlockhash = ''on the same block height, blockhash mismatch''"
definition BlockHeightHigher :: string where "BlockHeightHigher = ''block height is higher than the provider node''"

text \<open>\<open>fmt.Errorf("nodeinfo or blockinfo is nil")\<close>\<close>

definition no_store :: string where "no_store = ''nodeinfo or blockinfo is nil''"

section \<open>Prior sync\<close>

definition prior_msg :: "PriorSync_pb option \<Rightarrow> string \<Rightarrow> string \<Rightarrow> bool \<Rightarrow> string \<Rightarrow> Auth option \<Rightarrow> HeaderSyncRequest option \<Rightarrow>
    PriorSyncMessage" where
  "prior_msg ps present succ ok err auth headersync = \<lparr>PriorSyncMessage_Priorsync = ps,
     PriorSyncMessage_Ack = Some (ack ok err), PriorSyncMessage_Phase = Some (phase present succ ok err auth),
     PriorSyncMessage_Headersync = headersync\<rparr>"

definition sync_fail :: "PriorSync_pb \<Rightarrow> string \<Rightarrow> PriorSyncMessage" where
  "sync_fail req err = prior_msg (Some req) SYNC_REQUEST_RESPONSE FAILURE False err None None"

definition headersync_req :: "Tag option \<Rightarrow> string \<Rightarrow> HeaderSyncRequest" where
  "headersync_req tag succ = \<lparr>HeaderSyncRequest_Tag = tag, HeaderSyncRequest_Ack = Some (ack True []),
     HeaderSyncRequest_Phase = Some (phase HEADER_SYNC_REQUEST succ True [] None)\<rparr>"

definition FULL_SYNC :: "PriorSync_pb \<Rightarrow> u64 \<Rightarrow> PriorSyncMessage option" where
  "FULL_SYNC req blocknumber = (case DivideTags (PriorSync_Blocknumber req) blocknumber of None \<Rightarrow> None
     | Some tags \<Rightarrow> Some (prior_msg (Some req) FULL_SYNC_REQUEST HEADER_SYNC_REQUEST True [] None
         (Some (headersync_req (Some tags) HEADER_SYNC_RESPONSE))))"

text \<open>The checks both versions of the request start with: the checksum, then the block store.\<close>

definition check_request :: "('a, 'r, 't) router_env \<Rightarrow> ('a, 'b, 'r) Datarouter \<Rightarrow> PriorSync_pb \<Rightarrow>
    (PriorSyncMessage + 'b BlockInfo) option" where
  "check_request E router req = (case PriorSync_Metadata req of None \<Rightarrow> None
     | Some md \<Rightarrow> (case VerifyfromPB (env_marshal E) req (ucast (Metadata_Version md)) (Metadata_Checksum md) of
          Inl err \<Rightarrow> Some (Inl (sync_fail req err))
        | Inr False \<Rightarrow> Some (Inl (sync_fail req ChecksumMismatch))
        | Inr True \<Rightarrow> (case DR_Nodeinfo router of None \<Rightarrow> None
           | Some ni \<Rightarrow> (case Nodeinfo_BlockInfo ni of None \<Rightarrow> Some (Inl (sync_fail req BlockInfoNil))
              | Some B \<Rightarrow> Some (Inr B)))))"

definition SYNC_REQUEST_V2 :: "('a, 'r, 't) router_env \<Rightarrow> ('a, 'b, 'r) Datarouter \<Rightarrow> PriorSync_pb \<Rightarrow> PriorSyncMessage option" where
  "SYNC_REQUEST_V2 E router req = (case check_request E router req of None \<Rightarrow> None
     | Some (Inl msg) \<Rightarrow> Some msg
     | Some (Inr B) \<Rightarrow>
        let blockNumber = GetBlockNumber B; d = GetBlockDetails B;
            version = Metadata_Version (the (PriorSync_Metadata req))
        in if blockNumber = PriorSync_Blocknumber req
           then Some (if Details_Stateroot d \<noteq> PriorSync_Stateroot req then sync_fail req SameBlockHeight_DifferentStateroot
             else if Details_Blockhash d \<noteq> PriorSync_Blockhash req then sync_fail req SameBlockHeight_DifferentBlockhash
             else prior_msg (Some req) SYNC_REQUEST_RESPONSE FAILURE True SameBlockHeight None None)
           else if blockNumber > PriorSync_Blocknumber req
           then Some (prior_msg (Some req) SYNC_REQUEST_RESPONSE FAILURE True BlockHeightHigher None None)
           else let response = \<lparr>PriorSync_Blocknumber = blockNumber, PriorSync_Stateroot = Details_Stateroot d,
                  PriorSync_Blockhash = Details_Blockhash d, PriorSync_Metadata = Some (empty_Metadata\<lparr>Metadata_Version := version\<rparr>),
                  PriorSync_Merklesnapshot = None, PriorSync_Range = None\<rparr>
                in Some (case CreatefromPB (env_marshal E) response (ucast version) of
                     Inl err \<Rightarrow> sync_fail req err
                   | Inr checksum \<Rightarrow> prior_msg (Some (response\<lparr>PriorSync_Metadata :=
                         Some (empty_Metadata\<lparr>Metadata_Version := version, Metadata_Checksum := checksum\<rparr>)\<rparr>))
                       SYNC_REQUEST_RESPONSE HEADER_SYNC_REQUEST True [] None None))"

text \<open>The range of the comparison: the whole chain when none is given, otherwise cut at the local height.\<close>

definition clip_range :: "u64 \<Rightarrow> Range option \<Rightarrow> Range" where
  "clip_range blockNumber rng = (case rng of None \<Rightarrow> \<lparr>Range_Start = 0, Range_End = blockNumber\<rparr>
     | Some r \<Rightarrow> if Range_End r = MaxUint64 \<or> Range_End r > blockNumber then r\<lparr>Range_End := blockNumber\<rparr> else r)"

text \<open>
  The comparison of the trees. \<open>req\<close> already carries the clipped range, which the code writes into the request it
  returns; \<open>snap\<close> is the decoded snapshot, whose \<open>Config\<close> is read through a possibly nil pointer.
\<close>

definition compare_trees :: "('a, 'r, 't) router_env \<Rightarrow> 'b BlockInfo \<Rightarrow> MerkleTreeSnapshot option \<Rightarrow> 't \<Rightarrow> PriorSync_pb \<Rightarrow> Range \<Rightarrow>
    string \<Rightarrow> (string \<times> PriorSyncMessage) option" where
  "compare_trees E B snap target0 req rng uuid = (case snap of None \<Rightarrow> None
     | Some sn \<Rightarrow>
        (case GenerateMerkleTreeWithConfig (env_tree E) B (Range_Start rng) (Range_End rng) (Snapshot_Config sn) of
           Inl err \<Rightarrow> Some (uuid, sync_fail req err)
         | Inr local0 \<Rightarrow>
            (case Finalize (env_tree E) target0 of (target, Inl err) \<Rightarrow> Some (uuid, sync_fail req err)
             | (target, Inr target_root) \<Rightarrow>
                (case Finalize (env_tree E) local0 of (local, Inl err) \<Rightarrow> Some (uuid, sync_fail req err)
                 | (local, Inr local_root) \<Rightarrow>
                    if target_root = local_root
                    then Some (uuid, prior_msg (Some req) SYNC_REQUEST_RESPONSE DATA_SYNC_REQUEST True [] None
                      (Some (headersync_req None DATA_SYNC_REQUEST)))
                    else (case dataBisect (env_tree E) (Some B) (env_client E) uuid local target of
                        (uuid', None) \<Rightarrow> None
                      | (uuid', Some (Inl err)) \<Rightarrow> Some (uuid', sync_fail req err)
                      | (uuid', Some (Inr hreq)) \<Rightarrow>
                          Some (uuid', prior_msg (Some req) SYNC_REQUEST_RESPONSE HEADER_SYNC_REQUEST True [] None
                            (Some (headersync_req (HeaderSyncRequest_Tag hreq) HEADER_SYNC_RESPONSE))))))))"

definition SYNC_REQUEST :: "('a, 'r, 't) router_env \<Rightarrow> PriorSync_pb \<Rightarrow> ('a, 'b, 'r) Datarouter \<Rightarrow>
    (('a, 'b, 'r) Datarouter \<times> PriorSyncMessage) option" where
  "SYNC_REQUEST E req router = (case check_request E router req of None \<Rightarrow> None
     | Some (Inl msg) \<Rightarrow> Some (router, msg)
     | Some (Inr B) \<Rightarrow>
        let blockNumber = GetBlockNumber B
        in if PriorSync_Blocknumber req \<le> MIN_BLOCKS \<and> blockNumber - PriorSync_Blocknumber req \<ge> MIN_BLOCKS
           then map_option (Pair router) (FULL_SYNC req blockNumber)
           else case ProtoToMerkleSnapshot (PriorSync_Merklesnapshot req) of None \<Rightarrow> None
             | Some snap \<Rightarrow> (case ReconstructTree (env_tree E) snap of
                  Inl err \<Rightarrow> Some (router, sync_fail req err)
                | Inr target \<Rightarrow>
                   let rng = clip_range blockNumber (PriorSync_Range req)
                   in (case compare_trees E B snap target (req\<lparr>PriorSync_Range := Some rng\<rparr>) rng (DR_clientGeneratedUUID router) of
                        None \<Rightarrow> None
                      | Some (uuid, msg) \<Rightarrow> Some (router\<lparr>DR_clientGeneratedUUID := uuid\<rparr>, msg))))"

text \<open>\<open>Data.Phase.Auth = req.Phase.Auth\<close>, and the same for the header-sync request inside.\<close>

definition echo_auth :: "Auth option \<Rightarrow> PriorSyncMessage \<Rightarrow> PriorSyncMessage" where
  "echo_auth auth msg = msg\<lparr>PriorSyncMessage_Phase := map_option (\<lambda>p. p\<lparr>Phase_Auth := auth\<rparr>) (PriorSyncMessage_Phase msg),
     PriorSyncMessage_Headersync := map_option (\<lambda>h. h\<lparr>HeaderSyncRequest_Phase :=
       map_option (\<lambda>p. p\<lparr>Phase_Auth := auth\<rparr>) (HeaderSyncRequest_Phase h)\<rparr>) (PriorSyncMessage_Headersync msg)\<rparr>"

text \<open>
  \<open>peerInfo\<close>, parsed from the metadata, is only handed on to functions that do not read it and is left out. The branch
  for a missing phase builds its answer from \<open>req.Phase.Auth\<close> and panics.
\<close>

definition HandlePriorSync :: "('a, 'r, 't) router_env \<Rightarrow> PriorSyncMessage \<Rightarrow> bytes \<Rightarrow> ('a, 'b, 'r) Datarouter \<Rightarrow>
    (('a, 'b, 'r) Datarouter \<times> PriorSyncMessage) option" where
  "HandlePriorSync E req peer router = (case PriorSyncMessage_Priorsync req of None \<Rightarrow> None
     | Some ps \<Rightarrow> (case PriorSyncMessage_Phase req of None \<Rightarrow> None
        | Some ph \<Rightarrow>
           if PriorSync_Metadata ps = None
           then Some (router, prior_msg (Some ps) UNKNOWN UNKNOWN False MetadataRequired (Phase_Auth ph) None)
           else if no_token (Phase_Auth ph)
           then Some (router, prior_msg (Some ps) UNKNOWN UNKNOWN False AuthRequired (Phase_Auth ph) None)
           else with_token E (Phase_Auth ph) peer
             (prior_msg (Some ps) UNKNOWN FAILURE False AuthenticationFailed (Phase_Auth ph) None)
             (\<lambda>router. if Phase_PresentPhase ph = SYNC_REQUEST_PHASE
                then map_option (map_prod id (echo_auth (Phase_Auth ph))) (SYNC_REQUEST E ps router)
                else Some (router, prior_msg (Some ps) (Phase_PresentPhase ph) FAILURE False
                  (''unknown state: '' @ Phase_PresentPhase ph) (Phase_Auth ph) None)) router))"

section \<open>Merkle requests\<close>

definition merkle_msg :: "MerkleSnapshot option \<Rightarrow> string \<Rightarrow> bool \<Rightarrow> string \<Rightarrow> Auth option \<Rightarrow> MerkleMessage" where
  "merkle_msg snapshot succ ok err auth = \<lparr>MerkleMessage_Snapshot = snapshot, MerkleMessage_Ack = Some (ack ok err),
     MerkleMessage_Phase = Some (phase REQUEST_MERKLE_PHASE succ ok err auth)\<rparr>"

text \<open>The requester's configuration, or five percent of the range.\<close>

definition merkle_config :: "Range \<Rightarrow> SnapshotConfig_pb option \<Rightarrow> SnapshotConfig" where
  "merkle_config rng reqConfig =
     (let totalBlocks = Range_End rng - Range_Start rng + 1;
          default = \<lparr>Config_BlockMerge = word_of_nat (five_percent (unat totalBlocks)), Config_ExpectedTotal = totalBlocks\<rparr>
      in case reqConfig of None \<Rightarrow> default
         | Some c \<Rightarrow> if 0 <s pbConfig_BlockMerge c
             then \<lparr>Config_BlockMerge = scast (pbConfig_BlockMerge c), Config_ExpectedTotal = pbConfig_ExpectedTotal c\<rparr>
             else default)"

definition REQUEST_MERKLE :: "('a, 'r, 't) router_env \<Rightarrow> ('a, 'b, 'r) Datarouter \<Rightarrow> Range \<Rightarrow> SnapshotConfig_pb option \<Rightarrow> MerkleMessage" where
  "REQUEST_MERKLE E router rng reqConfig = (case block_info router of
     None \<Rightarrow> merkle_msg None FAILURE False no_store None
   | Some B \<Rightarrow>
      (case GenerateMerkleTreeWithConfig (env_tree E) B (Range_Start rng) (Range_End rng) (merkle_config rng reqConfig) of
         Inl err \<Rightarrow> merkle_msg None FAILURE False err None
       | Inr b \<Rightarrow> (case ToSnapshot (env_tree E) b of
            Inl err \<Rightarrow> merkle_msg None FAILURE False err None
          | Inr snapshot \<Rightarrow> merkle_msg (Some snapshot) RESPONSE_MERKLE True [] None)))"

text \<open>A missing phase panics in either of the first two branches.\<close>

definition HandleMerkle :: "('a, 'r, 't) router_env \<Rightarrow> MerkleRequestMessage option \<Rightarrow> bytes \<Rightarrow> ('a, 'b, 'r) Datarouter \<Rightarrow>
    (('a, 'b, 'r) Datarouter \<times> MerkleMessage) option" where
  "HandleMerkle E merkleReq peer router = (case merkleReq of None \<Rightarrow> None
     | Some req \<Rightarrow> (case MerkleRequestMessage_Phase req of None \<Rightarrow> None
        | Some ph \<Rightarrow> (case MerkleRequestMessage_Request req of
             None \<Rightarrow> Some (router, merkle_msg None FAILURE False ''Merkle request or range is nil'' (Phase_Auth ph))
           | Some mr \<Rightarrow>
              if no_token (Phase_Auth ph) then Some (router, merkle_msg None FAILURE False AuthRequired (Phase_Auth ph))
              else with_token E (Phase_Auth ph) peer (merkle_msg None FAILURE False AuthenticationFailed (Phase_Auth ph))
                (\<lambda>router. let msg = REQUEST_MERKLE E router \<lparr>Range_Start = MerkleRequest_Start mr, Range_End = MerkleRequest_End mr\<rparr>
                     (MerkleRequest_Config mr)
                   in Some (router, msg\<lparr>MerkleMessage_Phase :=
                        map_option (\<lambda>p. p\<lparr>Phase_Auth := Phase_Auth ph\<rparr>) (MerkleMessage_Phase msg)\<rparr>)) router)))"

section \<open>Header sync\<close>

definition header_msg :: "Header list \<Rightarrow> string \<Rightarrow> string \<Rightarrow> bool \<Rightarrow> string \<Rightarrow> Auth option \<Rightarrow> HeaderSyncResponse" where
  "header_msg hs present succ ok err auth = \<lparr>HeaderSyncResponse_Header = hs, HeaderSyncResponse_Ack = Some (ack ok err),
     HeaderSyncResponse_Phase = Some (phase present succ ok err auth)\<rparr>"

text \<open>The loop over the ranges of a tag, for headers and for bodies: the results in order, or the first error.\<close>

fun fetch_ranges :: "(u64 \<Rightarrow> u64 \<Rightarrow> string + 'x list) \<Rightarrow> RangeTag list \<Rightarrow> 'x list \<Rightarrow> string + 'x list" where
  "fetch_ranges fetch [] acc = Inr acc"
| "fetch_ranges fetch (r # rs) acc = (case fetch (RangeTag_Start r) (RangeTag_End r) of
     Inl err \<Rightarrow> Inl err | Inr xs \<Rightarrow> fetch_ranges fetch rs (acc @ xs))"

text \<open>A request without a tag panics here; the handler has excluded it.\<close>

definition HEADER_SYNC :: "('a, 'b, 'r) Datarouter \<Rightarrow> HeaderSyncRequest \<Rightarrow> HeaderSyncResponse option" where
  "HEADER_SYNC router req = (case block_info router of
     None \<Rightarrow> Some (header_msg [] HEADER_SYNC_RESPONSE FAILURE False no_store None)
   | Some B \<Rightarrow> (case HeaderSyncRequest_Tag req of None \<Rightarrow> None
      | Some tag \<Rightarrow> Some (case (case GetBlockHeaders B (Tag_BlockNumber tag) of Inl err \<Rightarrow> Inl err
            | Inr hs \<Rightarrow> fetch_ranges (GetBlockHeadersRange B) (Tag_Range tag) hs) of
          Inl err \<Rightarrow> header_msg [] HEADER_SYNC_RESPONSE FAILURE False err None
        | Inr hs \<Rightarrow> header_msg hs HEADER_SYNC_RESPONSE MERGE_REQUEST True [] None)))"

definition HandleHeaderSync :: "('a, 'r, 't) router_env \<Rightarrow> HeaderSyncRequest \<Rightarrow> bytes \<Rightarrow> ('a, 'b, 'r) Datarouter \<Rightarrow>
    (('a, 'b, 'r) Datarouter \<times> HeaderSyncResponse) option" where
  "HandleHeaderSync E req peer router = (case HeaderSyncRequest_Phase req of None \<Rightarrow> None
     | Some ph \<Rightarrow>
        if no_token (Phase_Auth ph) then Some (router, header_msg [] UNKNOWN UNKNOWN False AuthRequired (Phase_Auth ph))
        else with_token E (Phase_Auth ph) peer (header_msg [] UNKNOWN FAILURE False AuthenticationFailed (Phase_Auth ph))
          (\<lambda>router. if Phase_PresentPhase ph = HEADER_SYNC_REQUEST
             then (if HeaderSyncRequest_Tag req = None
               then Some (router, header_msg [] HEADER_SYNC_REQUEST FAILURE False ''Header sync request or range is nil'' (Phase_Auth ph))
               else case HEADER_SYNC router req of None \<Rightarrow> None
                 | Some msg \<Rightarrow> Some (router, msg\<lparr>HeaderSyncResponse_Phase :=
                     map_option (\<lambda>p. p\<lparr>Phase_Auth := Phase_Auth ph\<rparr>) (HeaderSyncResponse_Phase msg)\<rparr>))
             else Some (router, header_msg [] (Phase_PresentPhase ph) FAILURE False
               (''unknown state: '' @ Phase_PresentPhase ph) (Phase_Auth ph))) router)"

section \<open>Data sync\<close>

definition data_msg :: "'b NonHeaders list \<Rightarrow> TaggedAccounts option \<Rightarrow> string \<Rightarrow> string \<Rightarrow> bool \<Rightarrow> string \<Rightarrow> Auth option \<Rightarrow>
    'b DataSyncResponse" where
  "data_msg ns accounts present succ ok err auth = \<lparr>DataSyncResponse_Data = ns, DataSyncResponse_Version = 0,
     DataSyncResponse_Taggedaccounts = accounts, DataSyncResponse_Ack = Some (ack ok err),
     DataSyncResponse_Phase = Some (phase present succ ok err auth)\<rparr>"

text \<open>\<open>hex.EncodeToString\<close>\<close>

definition hex_digit :: "nat \<Rightarrow> char" where
  "hex_digit n = (if n < 10 then char_of (48 + n) else char_of (87 + n))"

definition EncodeToString :: "bytes \<Rightarrow> string" where
  "EncodeToString bs = concat (map (\<lambda>b. [hex_digit (unat b div 16), hex_digit (unat b mod 16)]) bs)"

definition tag_transaction :: "pbTransaction option \<Rightarrow> Tagging \<Rightarrow> Tagging" where
  "tag_transaction tx tagger = (case tx of None \<Rightarrow> tagger
     | Some t \<Rightarrow>
        let tagger1 = (if pbTransaction_From t \<noteq> [] then TagAccounts tagger (EncodeToString (pbTransaction_From t)) else tagger)
        in if pbTransaction_To t \<noteq> [] then TagAccounts tagger1 (EncodeToString (pbTransaction_To t)) else tagger1)"

definition tag_accounts :: "'b NonHeaders list \<Rightarrow> Tagging" where
  "tag_accounts ns = fold (\<lambda>n. fold tag_transaction (NonHeaders_Transactions n)) ns NewTagging"

definition DATA_SYNC :: "('a, 'b, 'r) Datarouter \<Rightarrow> DataSyncRequest \<Rightarrow> 'b DataSyncResponse" where
  "DATA_SYNC router req = (case DataSyncRequest_Tag req of
     None \<Rightarrow> data_msg [] None DATA_SYNC_RESPONSE FAILURE False ''datasync request or tag is nil'' None
   | Some tag \<Rightarrow> (case block_info router of
        None \<Rightarrow> data_msg [] None DATA_SYNC_RESPONSE FAILURE False no_store None
      | Some B \<Rightarrow> (case (case (if Tag_BlockNumber tag \<noteq> [] then GetBlockNonHeaders B (Tag_BlockNumber tag) else Inr []) of
             Inl err \<Rightarrow> Inl err
           | Inr ns \<Rightarrow> fetch_ranges (GetBlockNonHeadersRange B) (Tag_Range tag) ns) of
           Inl err \<Rightarrow> data_msg [] None DATA_SYNC_RESPONSE FAILURE False err None
         | Inr ns \<Rightarrow> data_msg ns (GetAccountTag (tag_accounts ns)) DATA_SYNC_RESPONSE MERGE_REQUEST True [] None)))"

definition HandleDataSync :: "('a, 'r, 't) router_env \<Rightarrow> DataSyncRequest \<Rightarrow> bytes \<Rightarrow> ('a, 'b, 'r) Datarouter \<Rightarrow>
    (('a, 'b, 'r) Datarouter \<times> 'b DataSyncResponse) option" where
  "HandleDataSync E req peer router = (case DataSyncRequest_Phase req of None \<Rightarrow> None
     | Some ph \<Rightarrow>
        if no_token (Phase_Auth ph) then Some (router, data_msg [] None UNKNOWN UNKNOWN False AuthRequired (Phase_Auth ph))
        else with_token E (Phase_Auth ph) peer (data_msg [] None UNKNOWN FAILURE False AuthenticationFailed (Phase_Auth ph))
          (\<lambda>router. if Phase_PresentPhase ph = DATA_SYNC_REQUEST
             then (if DataSyncRequest_Tag req = None
               then Some (router, data_msg [] None DATA_SYNC_REQUEST FAILURE False ''Data sync request or range is nil'' (Phase_Auth ph))
               else let msg = DATA_SYNC router req
                 in Some (router, msg\<lparr>DataSyncResponse_Phase :=
                     map_option (\<lambda>p. p\<lparr>Phase_Auth := Phase_Auth ph\<rparr>) (DataSyncResponse_Phase msg)\<rparr>))
             else Some (router, data_msg [] None (Phase_PresentPhase ph) FAILURE False
               (''unknown state: '' @ Phase_PresentPhase ph) (Phase_Auth ph))) router)"

section \<open>Availability\<close>

record AvailabilityRequest =
  AvailabilityRequest_Range :: "Range option"

text \<open>\<open>LoadOrStore\<close> of the peer's limiter, then one call of \<open>Allow\<close> on it.\<close>

definition getAvailabilityLimiter :: "('a, 'r, 't) router_env \<Rightarrow> bytes \<Rightarrow> ('a, 'b, 'r) Datarouter \<Rightarrow> 'r" where
  "getAvailabilityLimiter E peer router = (case DR_availabilityLimiters router peer of
     Some l \<Rightarrow> l | None \<Rightarrow> env_NewLimiter E)"

definition availability_template :: "NodeInfo option AvailabilityResponse" where
  "availability_template = \<lparr>AvailabilityResponse_IsAvailable = False,
     AvailabilityResponse_Nodeinfo = Some \<lparr>NodeInfo_PeerId = [], NodeInfo_Multiaddrs = [], NodeInfo_Capabilities = [],
       NodeInfo_PublicKey = [], NodeInfo_Version = 0, NodeInfo_Protocol = []\<rparr>,
     AvailabilityResponse_BlockMerge = 0, AvailabilityResponse_Auth = Some \<lparr>Auth_UUID = []\<rparr>,
     AvailabilityResponse_Phase = Some (phase AVAILABILITY_RESPONSE FAILURE False [] None),
     AvailabilityResponse_BlockHeight = 0\<rparr>"

definition availability_error :: "string \<Rightarrow> NodeInfo option AvailabilityResponse \<Rightarrow> NodeInfo option AvailabilityResponse" where
  "availability_error err t = t\<lparr>AvailabilityResponse_Phase :=
     map_option (\<lambda>p. p\<lparr>Phase_Error := err\<rparr>) (AvailabilityResponse_Phase t)\<rparr>"

definition HandleAvailability :: "('a, 'r, 't) router_env \<Rightarrow> AvailabilityRequest \<Rightarrow> bytes \<Rightarrow> ('a, 'b, 'r) Datarouter \<Rightarrow>
    (('a, 'b, 'r) Datarouter \<times> NodeInfo option AvailabilityResponse) option" where
  "HandleAvailability E req peer router0 = (case env_Allow E (getAvailabilityLimiter E peer router0) of
     (l, allowed) \<Rightarrow>
       let router = router0\<lparr>DR_availabilityLimiters := (DR_availabilityLimiters router0)(peer \<mapsto> l)\<rparr>
       in if \<not> allowed then Some (router, availability_error RateLimitExceeded availability_template)
          else case AvailabilityRequest_Range req of
            None \<Rightarrow> Some (router, availability_error ''range cannot be nil'' availability_template)
          | Some rng \<Rightarrow> (case DR_Nodeinfo router of None \<Rightarrow> None
             | Some ni \<Rightarrow>
                if Nodeinfo_Multiaddr ni = [] then Some (router, availability_error ''No Multiaddress to connect'' availability_template)
                else if \<not> AmIAvailable router
                then Some (router, availability_error ''Not available at this moment'' availability_template)
                else let template = availability_template\<lparr>AvailabilityResponse_Nodeinfo := Some (ToProto ni)\<rparr>;
                         blockmerge = GenerateMerkleConfig (Range_Start rng) (Range_End rng)
                  in (case Nodeinfo_BlockInfo ni of None \<Rightarrow> None
                     | Some B \<Rightarrow> (case AddRecord (env_auth E) peer (env_uuid E) (DR_auth router) of
                          (st, Some err) \<Rightarrow> Some (router\<lparr>DR_auth := st\<rparr>, availability_error err template)
                        | (st, None) \<Rightarrow> Some (router\<lparr>DR_auth := st\<rparr>, template\<lparr>
                            AvailabilityResponse_BlockMerge := ucast (Config_BlockMerge blockmerge),
                            AvailabilityResponse_BlockHeight := GetBlockNumber B,
                            AvailabilityResponse_IsAvailable := True,
                            AvailabilityResponse_Phase := Some (phase AVAILABILITY_RESPONSE SYNC_REQUEST_PHASE True [] None),
                            AvailabilityResponse_Auth := Some \<lparr>Auth_UUID = env_uuid E\<rparr>\<rparr>)))))"

section \<open>PoTS\<close>

definition pots_template :: PoTSResponse where
  "pots_template = \<lparr>PoTSResponse_Tag = None, PoTSResponse_LatestBlockNumber = MaxUint64,
     PoTSResponse_Phase = Some (phase PoTS_RESPONSE FAILURE False [] None)\<rparr>"

definition pots_refused :: "string \<Rightarrow> Auth option \<Rightarrow> PoTSResponse" where
  "pots_refused err auth = pots_template\<lparr>PoTSResponse_Phase := Some (phase PoTS_RESPONSE FAILURE False err auth)\<rparr>"

definition HandlePoTSync :: "('a, 'r, 't) router_env \<Rightarrow> PoTSRequest \<Rightarrow> bytes \<Rightarrow> ('a, 'b, 'r) Datarouter \<Rightarrow>
    (('a, 'b, 'r) Datarouter \<times> PoTSResponse) option" where
  "HandlePoTSync E req peer router = (case PoTSRequest_Phase req of
     None \<Rightarrow> Some (router, pots_refused AuthRequired None)
   | Some ph \<Rightarrow>
      if no_token (Phase_Auth ph) then Some (router, pots_refused AuthRequired None)
      else with_token E (Phase_Auth ph) peer (pots_refused AuthenticationFailed (Phase_Auth ph))
        (\<lambda>router. case block_info router of None \<Rightarrow> None
           | Some B \<Rightarrow> Some (router, case ProcessPoTSRequest (Some B) (Some req) of
               (_, Some err) \<Rightarrow> \<lparr>PoTSResponse_Tag = None, PoTSResponse_LatestBlockNumber = GetBlockNumber B,
                  PoTSResponse_Phase = Some (phase PoTS_RESPONSE FAILURE False
                    (''failed to process PoTS request: '' @ err) (Phase_Auth ph))\<rparr>
             | (response, None) \<Rightarrow> response\<lparr>PoTSResponse_Phase :=
                  map_option (\<lambda>p. p\<lparr>Phase_Auth := Phase_Auth ph\<rparr>) (PoTSResponse_Phase response)\<rparr>)) router)"

end
