(* ===== verification/FS_Bisect_Props.thy ===== *)
theory FS_Bisect_Props
  imports FS_Bisect FS_Merkle_Props
begin

text \<open>
  Correctness of the bisection: no block in which the two nodes differ is left untagged, and the block merge of a
  sub-tree is five percent of its range, rounded up exactly although it is computed in floating point.
\<close>

section \<open>The block merge of a sub-tree\<close>

lemma unat_word_small: "n < 2 ^ 63 \<Longrightarrow> unat (word_of_nat n :: i64) = n \<and> sint (word_of_nat n :: i64) = int n"
proof -
  assume n: "n < 2 ^ 63"
  then have "unat (word_of_nat n :: i64) = n" by (simp add: unat_of_nat)
  moreover have "signed_take_bit 63 (int n) = int n"
    using n by (intro signed_take_bit_int_eq_self) (auto simp: of_nat_less_iff [symmetric])
  ultimately show ?thesis by (simp add: signed_of_nat)
qed

lemma subBlockMerge_nat: "calculateSubBlockMerge c = word_of_nat (max 1 ((unat c + 19) div 20))"
proof -
  have c: "unat c < 2 ^ 32" using unsigned_less [of c] by simp
  define q where "q = (unat c + 19) div 20"
  have q: "q < 2 ^ 63" using c by (simp add: q_def)
  have "five_percent (unat c) = q" using five_percent_exact [OF c] by (simp add: q_def)
  then show ?thesis using unat_word_small [OF q]
    by (auto simp: calculateSubBlockMerge_def Let_def word_sless_alt max_def simp flip: q_def)
qed

lemma ten_leaves: "m > 10 \<Longrightarrow> 10 * ((m + 19) div 20) \<le> (m :: nat)"
  by presburger

text \<open>C29: The block merge of a sub-tree is five percent of the range rounded up and at least 1, with no rounding
  error and no overflow: it survives the conversion to the \<open>int32\<close> of the request unchanged. A range large enough to
  be refined is split into at least ten leaves.\<close>

theorem sub_block_merge_exact:
  "unat (calculateSubBlockMerge c) = max 1 ((unat c + 19) div 20) \<and>
   sint (ucast (calculateSubBlockMerge c) :: i32) = int (unat (calculateSubBlockMerge c)) \<and>
   (c \<le> LEAF_THRESHOLD \<or> 10 * unat (calculateSubBlockMerge c) \<le> unat c)"
proof -
  have c: "unat c < 2 ^ 32" using unsigned_less [of c] by simp
  define q where "q = max 1 ((unat c + 19) div 20)"
  have q: "q < 2 ^ 31" using c by (simp add: q_def)
  have "calculateSubBlockMerge c = word_of_nat q" by (simp only: subBlockMerge_nat q_def)
  then have u: "unat (calculateSubBlockMerge c) = q" using unat_word_small [of q] q by simp
  have "signed_take_bit 31 (int q) = int q"
    using q by (intro signed_take_bit_int_eq_self) (auto simp: of_nat_less_iff [symmetric])
  moreover have "uint (calculateSubBlockMerge c) = int q" using u by (metis uint_nat)
  ultimately have "sint (ucast (calculateSubBlockMerge c) :: i32) = int q" by (simp add: signed_ucast_eq)
  moreover have "c \<le> LEAF_THRESHOLD \<or> 10 * q \<le> unat c"
  proof (cases "c \<le> LEAF_THRESHOLD")
    case False
    then have "unat c > 10" by (simp add: LEAF_THRESHOLD_def word_le_nat_alt)
    then have "10 * ((unat c + 19) div 20) \<le> unat c" by (rule ten_leaves)
    with \<open>unat c > 10\<close> show ?thesis unfolding q_def by simp
  qed simp
  ultimately show ?thesis using u by (simp add: q_def)
qed

section \<open>Nothing that differs is missed\<close>

text \<open>
  What the search relies on. \<open>diff_complete\<close>: for trees over heights below \<open>MaxUint64\<close>, \<open>TreeDiff\<close> returns every range in
  which they differ, as non-empty ranges of such heights. \<open>stores\<close>: the local store yields the same chain of leaves for every range.
  \<open>honest_client\<close>: a sub-tree the client sends commits to its own leaves of the requested range.
\<close>

definition proper_range :: "u64 \<Rightarrow> u32 \<Rightarrow> bool" where
  "proper_range s c \<longleftrightarrow> 0 < unat c \<and> unat s + unat c < 2 ^ 64"

definition diff_complete :: "'t merkle_ops \<Rightarrow> ('t \<Rightarrow> (u64 \<rightharpoonup> bytes) \<Rightarrow> bool) \<Rightarrow> bool" where
  "diff_complete M commits \<longleftrightarrow> (\<forall>a b f g ds. commits a f \<longrightarrow> commits b g \<longrightarrow> f MaxUint64 = None \<longrightarrow> g MaxUint64 = None \<longrightarrow>
     TreeDiff M a b = Inr ds \<longrightarrow>
     (\<forall>n. f n \<noteq> g n \<longrightarrow> (\<exists>(s, c)\<in>set ds. unat s \<le> unat n \<and> unat n < unat s + unat c)) \<and>
     (\<forall>(s, c)\<in>set ds. proper_range s c))"

definition on_range :: "(u64 \<rightharpoonup> bytes) \<Rightarrow> u64 \<Rightarrow> u64 \<Rightarrow> u64 \<rightharpoonup> bytes" where
  "on_range f s e n = (if s \<le> n \<and> n \<le> e then f n else None)"

definition stores :: "'b BlockInfo \<Rightarrow> (u64 \<Rightarrow> bytes) \<Rightarrow> bool" where
  "stores B chain \<longleftrightarrow> (\<forall>s e. s \<le> e \<longrightarrow> iterator_ok B s e \<and>
     chain_leaves (iterator_blocks B s e) s e = on_range (Some \<circ> chain) s e)"

definition honest_client :: "'t merkle_ops \<Rightarrow> ('t \<Rightarrow> (u64 \<rightharpoonup> bytes) \<Rightarrow> bool) \<Rightarrow> (nat \<Rightarrow> nat \<Rightarrow> MerkleRequestMessage \<Rightarrow> string + MerkleMessage) \<Rightarrow>
    (u64 \<rightharpoonup> bytes) \<Rightarrow> bool" where
  "honest_client M commits send remote \<longleftrightarrow> (\<forall>k i uuid req t. requestSubTree M uuid (send k i) req = Some (Inr t) \<longrightarrow>
     commits t (on_range remote (rr_start req) (item_end (rr_start req) (rr_count req))))"

definition item_blocks :: "bisectionWorkItem \<Rightarrow> u64 set" where
  "item_blocks i = {item_start i .. item_end (item_start i) (item_count i)}"

definition proper_item :: "bisectionWorkItem \<Rightarrow> bool" where
  "proper_item i \<longleftrightarrow> proper_range (item_start i) (item_count i)"

lemma item_end_proper:
  assumes "proper_range s c"
  shows "unat (item_end s c) = unat s + unat c - 1" "item_end s c \<noteq> MaxUint64" "s \<le> item_end s c"
proof -
  have "unat c < 2 ^ 32" using unsigned_less [of c] by simp
  then have "unat c < 2 ^ 64" by simp
  then have u: "unat (ucast c :: u64) = unat c" by (simp add: unsigned_ucast_eq take_bit_nat_eq_self)
  then have sc: "unat (s + ucast c) = unat s + unat c"
    using assms by (simp add: proper_range_def unat_plus_if_size word_size)
  then have "1 \<le> s + ucast c" using assms by (simp add: proper_range_def word_le_nat_alt)
  then show e: "unat (item_end s c) = unat s + unat c - 1" unfolding item_end_def by (simp add: unat_diff_le sc)
  then show "item_end s c \<noteq> MaxUint64" using assms unat_max by (auto simp: proper_range_def)
  have "unat s \<le> unat (item_end s c)" using e assms unfolding proper_range_def by linarith
  then show "s \<le> item_end s c" by (simp add: word_le_nat_alt)
qed

lemma mem_item_blocks:
  "proper_item i \<Longrightarrow> n \<in> item_blocks i \<longleftrightarrow> unat (item_start i) \<le> unat n \<and> unat n < unat (item_start i) + unat (item_count i)"
  using item_end_proper [of "item_start i" "item_count i"]
  by (auto simp: proper_item_def item_blocks_def word_le_nat_alt proper_range_def)

lemma tagging_tag_item [simp]: "tagging_blocks (tag_item i t) = tagging_blocks t \<union> item_blocks i"
  by (simp add: tag_item_def item_blocks_def)

lemma tagging_fold_items: "tagging_blocks (fold tag_item is t) = tagging_blocks t \<union> (\<Union>i\<in>set is. item_blocks i)"
  by (induction "is" arbitrary: t) auto

lemma those_list_all2: "those (map f xs) = Some ys \<Longrightarrow> list_all2 (\<lambda>x y. f x = Some y) xs ys"
  by (induction xs arbitrary: ys) (auto split: option.splits)

lemma on_range_max: "e \<noteq> MaxUint64 \<Longrightarrow> on_range f s e MaxUint64 = None"
  using word_order.extremum_unique [of e] by (auto simp: on_range_def)

text \<open>The local sub-tree of an item commits to the local chain on it.\<close>

lemma local_subtree_commits:
  assumes "merkle_law M commits" "stores B chain" "proper_item i"
    and "buildLocalSubtree M (Some B) (item_start i) (item_count i) bm = Inr t"
  shows "commits t (on_range (Some \<circ> chain) (item_start i) (item_end (item_start i) (item_count i)))"
proof -
  note e = item_end_proper [OF assms(3) [unfolded proper_item_def]]
  have "build_tree M B \<lparr>Config_BlockMerge = bm, Config_ExpectedTotal = item_end (item_start i) (item_count i) - item_start i + 1\<rparr>
      (item_start i) (item_end (item_start i) (item_count i)) = Inr t"
    using assms(4) e by (simp add: buildLocalSubtree_def GenerateMerkleTreeWithConfig_def Let_def not_less [symmetric])
  from build_tree_commits [OF assms(1) _ e(2,3) this] show ?thesis using assms(2) e(3) by (simp add: stores_def)
qed

text \<open>
  One round: the tag only grows, the next items are proper, and a differing block of an item is tagged or in one of
  the next items.
\<close>

lemma refine_covers:
  assumes L: "merkle_law M commits" "diff_complete M commits" "stores B chain"
  shows "refine M (Some B) rs tag next = Inr (tag', next') \<Longrightarrow>
    (\<And>i t. (i, Inr t) \<in> set rs \<Longrightarrow> commits t (on_range remote (item_start i) (item_end (item_start i) (item_count i)))) \<Longrightarrow>
    (\<And>i. i \<in> fst ` set rs \<union> set next \<Longrightarrow> proper_item i) \<Longrightarrow>
    tagging_blocks tag \<subseteq> tagging_blocks tag' \<and> set next \<subseteq> set next' \<and> (\<forall>x\<in>set next'. proper_item x) \<and>
    (\<forall>i\<in>fst ` set rs. \<forall>n\<in>item_blocks i. Some (chain n) \<noteq> remote n \<longrightarrow>
       n \<in> tagging_blocks tag' \<or> (\<exists>x\<in>set next'. n \<in> item_blocks x))"
proof (induction rs arbitrary: tag "next")
  case Nil
  then show ?case by simp
next
  case (Cons r rs)
  obtain i a where r: "r = (i, a)" by (cases r)
  have i: "proper_item i" using Cons.prems(3) [of i] r by simp
  show ?case
  proof (cases a)
    case (Inl err)
    from Cons.IH [of "tag_item i tag" "next"] Cons.prems show ?thesis by (auto simp: r Inl)
  next
    case (Inr t)
    from Cons.prems(1) obtain l ds where l: "buildLocalSubtree M (Some B) (item_start i) (item_count i)
        (calculateSubBlockMerge (item_count i)) = Inr l" and ds: "TreeDiff M l t = Inr ds"
      and rest: "refine M (Some B) rs tag (next @
        map (\<lambda>(s, c). \<lparr>item_start = s, item_count = c, item_layer = item_layer i + 1\<rparr>) ds) = Inr (tag', next')"
      by (auto simp: r Inr split: sum.splits)
    let ?new = "map (\<lambda>(s, c). \<lparr>item_start = s, item_count = c, item_layer = item_layer i + 1\<rparr>) ds"
    have t: "commits t (on_range remote (item_start i) (item_end (item_start i) (item_count i)))"
      using Cons.prems(2) r Inr by simp
    note e = item_end_proper(2) [OF i [unfolded proper_item_def]]
    note D = L(2) [unfolded diff_complete_def, rule_format, OF local_subtree_commits [OF L(1,3) i l] t on_range_max [OF e]
        on_range_max [OF e] ds]
    have new: "proper_item x" if "x \<in> set ?new" for x using D that by (auto simp: proper_item_def)
    have cover: "\<exists>x\<in>set ?new. n \<in> item_blocks x" if n: "n \<in> item_blocks i" "Some (chain n) \<noteq> remote n" for n
    proof -
      have "on_range (Some \<circ> chain) (item_start i) (item_end (item_start i) (item_count i)) n \<noteq>
          on_range remote (item_start i) (item_end (item_start i) (item_count i)) n"
        using n by (simp add: on_range_def item_blocks_def)
      with D obtain s c where sc: "(s, c) \<in> set ds" "unat s \<le> unat n" "unat n < unat s + unat c" by blast
      let ?x = "\<lparr>item_start = s, item_count = c, item_layer = item_layer i + 1\<rparr>"
      have x: "?x \<in> set ?new" using sc(1) by force
      with sc new [OF x] have "n \<in> item_blocks ?x" by (simp add: mem_item_blocks)
      with x show ?thesis by blast
    qed
    have ih: "tagging_blocks tag \<subseteq> tagging_blocks tag' \<and> set (next @ ?new) \<subseteq> set next' \<and> (\<forall>x\<in>set next'. proper_item x) \<and>
      (\<forall>i\<in>fst ` set rs. \<forall>n\<in>item_blocks i. Some (chain n) \<noteq> remote n \<longrightarrow>
         n \<in> tagging_blocks tag' \<or> (\<exists>x\<in>set next'. n \<in> item_blocks x))"
    proof (rule Cons.IH [OF rest])
      show "proper_item x" if "x \<in> fst ` set rs \<union> set (next @ ?new)" for x
        using that new Cons.prems(3) [of x] r by (auto simp del: set_map)
    qed (use Cons.prems(2) r in auto)
    have "n \<in> tagging_blocks tag' \<or> (\<exists>x\<in>set next'. n \<in> item_blocks x)"
      if as: "j \<in> fst ` set (r # rs)" "n \<in> item_blocks j" "Some (chain n) \<noteq> remote n" for j n
    proof (cases "j = i")
      case True
      then obtain x where "x \<in> set ?new" "n \<in> item_blocks x" using cover as by blast
      moreover have "set ?new \<subseteq> set next'" using ih by simp
      ultimately show ?thesis by blast
    next
      case False
      then have "j \<in> fst ` set rs" using as(1) r by auto
      then show ?thesis using ih as by blast
    qed
    moreover have "set next \<subseteq> set next'" using ih by simp
    ultimately show ?thesis using ih by blast
  qed
qed

lemma batch_commits:
  assumes H: "honest_client M commits send remote"
    and b: "requestSubTreesBatch M uuid (send round) (map (\<lambda>i. \<lparr>rr_start = item_start i, rr_count = item_count i,
      rr_blockMerge = calculateSubBlockMerge (item_count i)\<rparr>) items) = Some responses"
  shows "length responses = length items"
    and "(i, Inr t) \<in> set (zip items responses) \<Longrightarrow> commits t (on_range remote (item_start i) (item_end (item_start i) (item_count i)))"
proof -
  let ?req = "\<lambda>i. \<lparr>rr_start = item_start i, rr_count = item_count i, rr_blockMerge = calculateSubBlockMerge (item_count i)\<rparr>"
  from those_list_all2 [OF b [unfolded requestSubTreesBatch_def]]
  have l: "length responses = length items"
    and nth: "k < length items \<Longrightarrow> requestSubTree M uuid (send round k) (?req (items ! k)) = Some (responses ! k)" for k
    by (auto simp: list_all2_conv_all_nth nth_enumerate_eq)
  show "length responses = length items" by (rule l)
  assume "(i, Inr t) \<in> set (zip items responses)"
  then obtain k where k: "k < length items" "items ! k = i" "responses ! k = Inr t" by (auto simp: set_zip)
  from nth [OF k(1)] have "requestSubTree M uuid (send round k) (?req i) = Some (Inr t)" by (simp add: k)
  with H have "commits t (on_range remote (rr_start (?req i)) (item_end (rr_start (?req i)) (rr_count (?req i))))"
    unfolding honest_client_def by blast
  then show "commits t (on_range remote (item_start i) (item_end (item_start i) (item_count i)))" by simp
qed

lemma bisect_covers:
  assumes L: "merkle_law M commits" "diff_complete M commits" "stores B chain" "honest_client M commits send remote"
  shows "bisect_layers M (Some B) uuid send h round cur tag = Some (Inr tag') \<Longrightarrow> (\<And>i. i \<in> set cur \<Longrightarrow> proper_item i) \<Longrightarrow>
    tagging_blocks tag \<subseteq> tagging_blocks tag' \<and>
    (\<forall>i\<in>set cur. \<forall>n\<in>item_blocks i. Some (chain n) \<noteq> remote n \<longrightarrow> n \<in> tagging_blocks tag')"
proof (induction "layers_left cur" arbitrary: round cur tag rule: less_induct)
  case less
  show ?case
  proof (cases "cur = [] \<or> item_layer (hd cur) \<ge> LAYER_THRESHOLD")
    case True
    then have "tag' = fold tag_item cur tag"
      using less.prems(1) by (subst (asm) bisect_layers.simps) (auto split: if_splits)
    then show ?thesis by (auto simp: tagging_fold_items)
  next
    case False
    define items where "items = filter (\<lambda>i. \<not> settled h i) cur"
    define tag1 where "tag1 = fold tag_item (filter (settled h) cur) tag"
    have t1: "tagging_blocks tag1 = tagging_blocks tag \<union> (\<Union>i\<in>set (filter (settled h) cur). item_blocks i)"
      by (simp only: tag1_def tagging_fold_items)
    show ?thesis
    proof (cases "items = []")
      case True
      then have "tag' = tag1" "\<forall>i\<in>set cur. settled h i" using less.prems(1) False
        by (auto simp: bisect_layers.simps [of M _ _ _ _ _ cur] Let_def items_def tag1_def filter_empty_conv)
      then show ?thesis using t1 by auto
    next
      case ne: False
      from less.prems(1) False ne obtain responses tag2 nxt where
        b: "requestSubTreesBatch M uuid (send round) (map (\<lambda>i. \<lparr>rr_start = item_start i, rr_count = item_count i,
          rr_blockMerge = calculateSubBlockMerge (item_count i)\<rparr>) items) = Some responses"
        and ref: "refine M (Some B) (zip items responses) tag1 [] = Inr (tag2, nxt)"
        and rec: "bisect_layers M (Some B) uuid send h (Suc round) nxt tag2 = Some (Inr tag')"
        by (auto simp: bisect_layers.simps [of M _ _ _ _ _ cur] Let_def items_def [symmetric] tag1_def [symmetric]
            split: option.splits sum.splits)
      note bc = batch_commits [OF L(4) b]
      have items: "fst ` set (zip items responses) = set items" using bc(1) by (metis list.set_map map_fst_zip)
      have pr: "i \<in> fst ` set (zip items responses) \<union> set [] \<Longrightarrow> proper_item i" for i
        unfolding items using less.prems(2) by (auto simp: items_def)
      note R = refine_covers [OF L(1,2,3) ref bc(2) pr]
      have "layers_left nxt < layers_left cur"
      proof (rule layers_left_decreases)
        fix x assume "x \<in> set nxt"
        from refine_layers [OF ref this] show "\<exists>i\<in>set cur. item_layer x = Suc (item_layer i)"
          unfolding items by (auto simp: items_def)
      qed (use False in auto)
      from less.hyps [OF this rec] R have I: "tagging_blocks tag2 \<subseteq> tagging_blocks tag' \<and>
        (\<forall>i\<in>set nxt. \<forall>n\<in>item_blocks i. Some (chain n) \<noteq> remote n \<longrightarrow> n \<in> tagging_blocks tag')" by blast
      have "n \<in> tagging_blocks tag'" if i: "i \<in> set cur" "n \<in> item_blocks i" "Some (chain n) \<noteq> remote n" for i n
      proof (cases "settled h i")
        case True
        then have "n \<in> tagging_blocks tag1" using i t1 by auto
        then show ?thesis using R I by blast
      next
        case False
        then have "i \<in> set items" using i by (simp add: items_def)
        then show ?thesis using R I i unfolding items by blast
      qed
      moreover have "tagging_blocks tag \<subseteq> tagging_blocks tag'" using R I t1 by blast
      ultimately show ?thesis by blast
    qed
  qed
qed

text \<open>C17: When the roots of two trees differ and \<open>dataBisect\<close> returns a tag, every block in which the trees and the two
  nodes' chains differ is in the tag, however the search went: ranges the client did not serve, ranges above its height
  and ranges still open after six layers are tagged as a whole.\<close>

theorem bisection_misses_nothing:
  assumes "merkle_law M commits" "diff_complete M commits" "stores B chain"
    and "honest_client M commits (SendMerkleRequest N) remote"
    and "commits l f" "commits t g" "f MaxUint64 = None" "g MaxUint64 = None"
    and "Finalize M l = (l', Inr rl)" "Finalize M t = (t', Inr rt)" "rl \<noteq> rt"
    and "dataBisect M (Some B) N uuid l t = (uuid', Some (Inr req))"
  shows "\<exists>tag. HeaderSyncRequest_Tag req = Some tag \<and>
    (\<forall>n. f n \<noteq> g n \<longrightarrow> Some (chain n) \<noteq> remote n \<longrightarrow> n \<in> tag_blocks tag)"
proof -
  from assms(9-12) obtain ds where ds: "TreeDiff M l' t' = Inr ds"
    by (auto simp: dataBisect_def Let_def split: sum.splits if_splits)
  note D = assms(2) [unfolded diff_complete_def, rule_format, OF merkle_lawD(3) [OF assms(1,5,9)]
      merkle_lawD(3) [OF assms(1,6,10)] assms(7,8) ds]
  let ?items = "map (\<lambda>(s, c). \<lparr>item_start = s, item_count = c, item_layer = 0\<rparr>) ds"
  have "\<exists>tag. HeaderSyncRequest_Tag req = Some (Tagging_Tag tag) \<and>
      (ds = [] \<or> (\<exists>u h. bisect_layers M (Some B) u (SendMerkleRequest N) h 0 ?items NewTagging = Some (Inr tag)))"
    using assms(9-12) ds by (auto simp: dataBisect_def Let_def split: sum.splits if_splits option.splits) blast+
  then obtain tag where tag: "HeaderSyncRequest_Tag req = Some (Tagging_Tag tag)"
    "ds = [] \<or> (\<exists>u h. bisect_layers M (Some B) u (SendMerkleRequest N) h 0 ?items NewTagging = Some (Inr tag))" by blast
  have pr: "proper_item i" if "i \<in> set ?items" for i using D that by (auto simp: proper_item_def)
  have "n \<in> tag_blocks (Tagging_Tag tag)" if n: "f n \<noteq> g n" "Some (chain n) \<noteq> remote n" for n
  proof -
    from D n(1) obtain s c where sc: "(s, c) \<in> set ds" "unat s \<le> unat n" "unat n < unat s + unat c" by blast
    let ?i = "\<lparr>item_start = s, item_count = c, item_layer = 0\<rparr>"
    have i: "?i \<in> set ?items" using sc(1) by force
    have "n \<in> item_blocks ?i" using sc pr [OF i] by (simp add: mem_item_blocks)
    moreover from tag(2) sc(1) obtain u h where
      "bisect_layers M (Some B) u (SendMerkleRequest N) h 0 ?items NewTagging = Some (Inr tag)" by auto
    ultimately show ?thesis using bisect_covers [OF assms(1-4) _ pr] i n(2) unfolding tagging_blocks_def by blast
  qed
  with tag(1) show ?thesis by blast
qed

definition demo_client :: "unit client_net" where
  "demo_client = \<lparr>SendAvailabilityRequest = (\<lambda>_. Inl ''offline''), SendMerkleRequest = (\<lambda>_ _ _. Inl ''offline'')\<rparr>"

lemma leaf_tree_diff: "diff_complete leaf_tree leaf_commits"
proof -
  have "\<exists>(s, c)\<in>set (leaf_diff a b). unat s \<le> unat n \<and> unat n < unat s + unat c"
    if "map_of a MaxUint64 = None" "map_of b MaxUint64 = None" "map_of a n \<noteq> map_of b n" for a b n
  proof -
    have "n \<in> dom (map_of a) \<union> dom (map_of b)" using that(3) by (auto simp: domIff)
    then have "n \<in> fst ` set (a @ b)" by (simp add: dom_map_of_conv_image_fst image_Un)
    moreover have "n \<noteq> MaxUint64" using that by auto
    ultimately have "(n, 1) \<in> set (leaf_diff a b)" using that(3) by (auto simp: leaf_diff_def)
    then show ?thesis by (rule bexI [rotated]) simp
  qed
  moreover have "proper_range s c" if "(s, c) \<in> set (leaf_diff a b)" for a b s c
  proof -
    from that have "s \<noteq> MaxUint64" "c = 1" by (auto simp: leaf_diff_def)
    then have "unat s + 1 < 2 ^ 64" using unat_plus1 [of s] unat_lt [of "s + 1"] by simp
    then show ?thesis using \<open>c = 1\<close> by (simp add: proper_range_def)
  qed
  ultimately show ?thesis
    by (auto simp: diff_complete_def leaf_tree_def leaf_commits_def)
qed

definition demo_chain :: "u64 \<Rightarrow> bytes" where
  "demo_chain = leaf_at [demo_zk 3, demo_zk 5]"

lemma demo_stores: "stores demo_store demo_chain"
proof -
  have "chain_leaves (iterator_blocks demo_store s e) s e = on_range (Some \<circ> demo_chain) s e" for s e
    by (auto simp: fun_eq_iff chain_leaves_def on_range_def demo_chain_def leaf_at_def iterator_blocks_def demo_store_def demo_zk_def)
  then show ?thesis by (simp add: stores_def demo_iterator_ok)
qed

theorem bisection_misses_nothing_witness:
  "\<exists>req tag. dataBisect leaf_tree (Some demo_store) demo_client ''u'' [(5, replicate 32 5)] [] = (''u'', Some (Inr req)) \<and>
     HeaderSyncRequest_Tag req = Some tag \<and> 5 \<in> tag_blocks tag"
proof -
  have h: "honest_client leaf_tree leaf_commits (SendMerkleRequest demo_client) Map.empty"
    by (simp add: honest_client_def requestSubTree_def demo_client_def)
  obtain req where r: "dataBisect leaf_tree (Some demo_store) demo_client ''u'' [(5, replicate 32 5)] [] = (''u'', Some (Inr req))"
    by (simp add: dataBisect_def leaf_tree_def leaf_diff_def Let_def GetLatestBlockNumber_tree_def bisect_layers.simps
        LAYER_THRESHOLD_def settled_def LEAF_THRESHOLD_def)
  have F: "Finalize leaf_tree [(5, replicate 32 5)] = ([(5, replicate 32 5)], Inr (replicate 32 5))"
    "Finalize leaf_tree [] = ([], Inr [])" by (simp_all add: leaf_tree_def)
  have c: "leaf_commits [(5, replicate 32 5)] (Map.empty(5 \<mapsto> replicate 32 5))" "leaf_commits [] Map.empty"
    by (simp_all add: leaf_commits_def)
  from bisection_misses_nothing [OF leaf_tree_law(1) leaf_tree_diff demo_stores h c _ _ F _ r] r show ?thesis by auto
qed

end
