(* ===== verification/FS_Router_Props.thy ===== *)
theory FS_Router_Props
  imports FS_Router FS_Bisect_Props
begin

text \<open>
  Correctness of the server. No handler serves data to a request whose token the cache does not accept, and such a
  request changes nothing but the cache. Every response is well formed: acknowledgement and phase agree, the token is
  echoed, and a failure carries no data. A data-sync answer holds the bodies of the tag and tags exactly the accounts
  of their transactions.
\<close>

section \<open>The contract of an authenticated service\<close>

text \<open>
  A service over states \<open>'s\<close>: whatever it serves it serves to a valid token, and without one it changes at most what
  \<open>quiet\<close> allows.
\<close>

fun session :: "('req \<Rightarrow> 's \<Rightarrow> ('s \<times> 'resp) option) \<Rightarrow> 'req list \<Rightarrow> 's \<Rightarrow> ('s \<times> 'resp list) option" where
  "session handle [] s = Some (s, [])"
| "session handle (req # reqs) s = (case handle req s of None \<Rightarrow> None
     | Some (s1, resp) \<Rightarrow> (case session handle reqs s1 of None \<Rightarrow> None | Some (s2, resps) \<Rightarrow> Some (s2, resp # resps)))"

locale token_service =
  fixes handle :: "'req \<Rightarrow> 's \<Rightarrow> ('s \<times> 'resp) option"
    and token :: "'req \<Rightarrow> Auth option"
    and valid :: "Auth \<Rightarrow> 's \<Rightarrow> bool"
    and quiet :: "'s \<Rightarrow> 's \<Rightarrow> bool"
    and served :: "'resp \<Rightarrow> bool"
  assumes needs_token: "handle req s = Some (s', resp) \<Longrightarrow> served resp \<Longrightarrow> \<exists>a. token req = Some a \<and> valid a s"
    and stays_quiet: "handle req s = Some (s', resp) \<Longrightarrow> \<not> (\<exists>a. token req = Some a \<and> valid a s) \<Longrightarrow> quiet s s'"
    and quiet_refl: "quiet s s"
    and quiet_trans: "quiet s s' \<Longrightarrow> quiet s' s'' \<Longrightarrow> quiet s s''"
begin

lemma intruder_session:
  assumes "session handle reqs s = Some (s', resps)"
    and "\<And>s1 req a. quiet s s1 \<Longrightarrow> req \<in> set reqs \<Longrightarrow> token req = Some a \<Longrightarrow> \<not> valid a s1"
  shows "quiet s s' \<and> (\<forall>resp\<in>set resps. \<not> served resp)"
  using assms
proof (induction reqs arbitrary: s resps)
  case Nil
  then show ?case by (simp add: quiet_refl)
next
  case (Cons req reqs)
  from Cons.prems(1) obtain s1 resp rs where h: "handle req s = Some (s1, resp)"
    and r: "session handle reqs s1 = Some (s', rs)" "resps = resp # rs" by (auto split: option.splits)
  have no: "\<not> (\<exists>a. token req = Some a \<and> valid a s)" using Cons.prems(2) [OF quiet_refl] by auto
  note q = stays_quiet [OF h no]
  have "quiet s1 s' \<and> (\<forall>resp\<in>set rs. \<not> served resp)"
    by (rule Cons.IH [OF r(1)]) (use Cons.prems(2) quiet_trans [OF q] in auto)
  then show ?case using quiet_trans [OF q] needs_token [OF h] no r(2) by auto
qed

end

section \<open>The authenticated handlers as one service\<close>

datatype service_request =
    ReqPrior PriorSyncMessage
  | ReqMerkle "MerkleRequestMessage option"
  | ReqHeader HeaderSyncRequest
  | ReqData DataSyncRequest
  | ReqPoTS PoTSRequest

datatype 'b service_response =
    RespPrior PriorSyncMessage
  | RespMerkle MerkleMessage
  | RespHeader HeaderSyncResponse
  | RespData "'b DataSyncResponse"
  | RespPoTS PoTSResponse

fun serve :: "('a, 'r, 't) router_env \<Rightarrow> bytes \<Rightarrow> service_request \<Rightarrow> ('a, 'b, 'r) Datarouter \<Rightarrow>
    (('a, 'b, 'r) Datarouter \<times> 'b service_response) option" where
  "serve E peer (ReqPrior m) s = map_option (map_prod id RespPrior) (HandlePriorSync E m peer s)"
| "serve E peer (ReqMerkle m) s = map_option (map_prod id RespMerkle) (HandleMerkle E m peer s)"
| "serve E peer (ReqHeader m) s = map_option (map_prod id RespHeader) (HandleHeaderSync E m peer s)"
| "serve E peer (ReqData m) s = map_option (map_prod id RespData) (HandleDataSync E m peer s)"
| "serve E peer (ReqPoTS m) s = map_option (map_prod id RespPoTS) (HandlePoTSync E m peer s)"

definition auth_of :: "Phase option \<Rightarrow> Auth option" where
  "auth_of ph = (case ph of None \<Rightarrow> None | Some p \<Rightarrow> Phase_Auth p)"

fun request_token :: "service_request \<Rightarrow> Auth option" where
  "request_token (ReqPrior m) = auth_of (PriorSyncMessage_Phase m)"
| "request_token (ReqMerkle m) = (case m of None \<Rightarrow> None | Some r \<Rightarrow> auth_of (MerkleRequestMessage_Phase r))"
| "request_token (ReqHeader m) = auth_of (HeaderSyncRequest_Phase m)"
| "request_token (ReqData m) = auth_of (DataSyncRequest_Phase m)"
| "request_token (ReqPoTS m) = auth_of (PoTSRequest_Phase m)"

text \<open>The token is accepted now: the node is available and its cache knows the token for this peer.\<close>

definition token_valid :: "('a, 'r, 't) router_env \<Rightarrow> bytes \<Rightarrow> Auth \<Rightarrow> ('a, 'b, 'r) Datarouter \<Rightarrow> bool" where
  "token_valid E peer a s \<longleftrightarrow> Auth_UUID a \<noteq> [] \<and> AmIAvailable s \<and>
     snd (IsAUTH (env_auth E) peer (Auth_UUID a) (DR_auth s)) = Inr True"

text \<open>The states a cache goes through when it only looks up tokens of one peer.\<close>

definition lookups :: "'a auth_ops \<Rightarrow> bytes \<Rightarrow> 'a \<Rightarrow> 'a \<Rightarrow> bool" where
  "lookups A peer = (\<lambda>st st'. \<exists>uuid. st' = fst (IsAUTH A peer uuid st))\<^sup>*\<^sup>*"

definition only_cache :: "('a, 'r, 't) router_env \<Rightarrow> bytes \<Rightarrow> ('a, 'b, 'r) Datarouter \<Rightarrow> ('a, 'b, 'r) Datarouter \<Rightarrow> bool" where
  "only_cache E peer s s' \<longleftrightarrow> (\<exists>st. lookups (env_auth E) peer (DR_auth s) st \<and> s' = s\<lparr>DR_auth := st\<rparr>)"

text \<open>What a response gives away: a success, or any payload.\<close>

definition succeeded :: "Phase option \<Rightarrow> bool" where
  "succeeded ph \<longleftrightarrow> (case ph of None \<Rightarrow> False | Some p \<Rightarrow> Phase_Success p)"

fun serves :: "'b service_response \<Rightarrow> bool" where
  "serves (RespPrior m) = (succeeded (PriorSyncMessage_Phase m) \<or> PriorSyncMessage_Headersync m \<noteq> None)"
| "serves (RespMerkle m) = (succeeded (MerkleMessage_Phase m) \<or> MerkleMessage_Snapshot m \<noteq> None)"
| "serves (RespHeader m) = (succeeded (HeaderSyncResponse_Phase m) \<or> HeaderSyncResponse_Header m \<noteq> [])"
| "serves (RespData m) = (succeeded (DataSyncResponse_Phase m) \<or> DataSyncResponse_Data m \<noteq> [] \<or>
     DataSyncResponse_Taggedaccounts m \<noteq> None)"
| "serves (RespPoTS m) = (succeeded (PoTSResponse_Phase m) \<or> PoTSResponse_Tag m \<noteq> None)"

lemmas response_parts = prior_msg_def merkle_msg_def header_msg_def data_msg_def pots_refused_def pots_template_def
  ack_def phase_def

lemma only_cache_refl: "only_cache E peer s s"
  by (auto simp: only_cache_def lookups_def intro!: exI [of _ "DR_auth s"])

lemma only_cache_lookup: "IsAUTH (env_auth E) peer uuid (DR_auth s) = (st, res) \<Longrightarrow> only_cache E peer s (s\<lparr>DR_auth := st\<rparr>)"
  by (auto simp: only_cache_def lookups_def intro!: r_into_rtranclp exI [of _ st] exI [of _ uuid])

lemma only_cache_trans:
  assumes "only_cache E peer s s'" "only_cache E peer s' s''"
  shows "only_cache E peer s s''"
proof -
  from assms(1) obtain st where st: "lookups (env_auth E) peer (DR_auth s) st" "s' = s\<lparr>DR_auth := st\<rparr>"
    by (auto simp: only_cache_def)
  from assms(2) obtain st' where st': "lookups (env_auth E) peer st st'" "s'' = s\<lparr>DR_auth := st'\<rparr>"
    by (auto simp: only_cache_def st(2))
  have "lookups (env_auth E) peer (DR_auth s) st'" using st(1) st'(1) unfolding lookups_def by (rule rtranclp_trans)
  with st'(2) show ?thesis by (auto simp: only_cache_def)
qed

text \<open>The frame of the handlers: a refusal that leaves all but the cache alone, or the body under a valid token.\<close>

lemma with_token_cases:
  assumes "with_token E auth peer refused body s = Some (s', resp)"
  obtains (refused) "resp = refused" "only_cache E peer s s'"
  | (body) a st s2 st' where "auth = Some a" "token_valid E peer a s" "body (s\<lparr>DR_auth := st\<rparr>) = Some (s2, resp)"
      "s' = s2\<lparr>DR_auth := st'\<rparr>"
proof -
  from assms obtain s1 res where a: "Authenticate E auth peer s = Some (s1, res)" by (auto simp: with_token_def split: option.splits)
  then have s1: "only_cache E peer s s1" by (auto simp: Authenticate_def only_cache_refl intro: only_cache_lookup split: option.splits if_splits prod.splits)
  show ?thesis
  proof (cases "res = Inr True")
    case False
    then show ?thesis using assms a s1 by (intro refused) (auto simp: with_token_def)
  next
    case True
    from a True obtain t st where t: "auth = Some t" "token_valid E peer t s" "s1 = s\<lparr>DR_auth := st\<rparr>"
      by (auto simp: Authenticate_def token_valid_def split: option.splits if_splits prod.splits)
    from assms a True obtain s2 r where "body s1 = Some (s2, resp)" "ResetTTL E auth peer s2 = Some (s', r)"
      by (auto simp: with_token_def split: option.splits)
    moreover from this(2) t(2) have "\<exists>st'. s' = s2\<lparr>DR_auth := st'\<rparr>"
      by (auto simp: ResetTTL_def t(1) token_valid_def split: if_splits prod.splits)
    ultimately show ?thesis using t body by blast
  qed
qed

definition token_accepted :: "('a, 'r, 't) router_env \<Rightarrow> bytes \<Rightarrow> Auth option \<Rightarrow> ('a, 'b, 'r) Datarouter \<Rightarrow> bool" where
  "token_accepted E peer auth s \<longleftrightarrow> (\<exists>a. auth = Some a \<and> token_valid E peer a s)"

lemma with_token_accepted:
  "with_token E auth peer refused body s = Some (s', resp) \<Longrightarrow> token_accepted E peer auth s \<or> resp = refused \<and> only_cache E peer s s'"
  by (erule with_token_cases) (auto simp: token_accepted_def)

lemma HandlePriorSync_law:
  assumes "HandlePriorSync E m peer s = Some (s', resp)"
  shows "token_accepted E peer (auth_of (PriorSyncMessage_Phase m)) s \<or> \<not> serves (RespPrior resp) \<and> only_cache E peer s s'"
proof -
  from assms obtain ps ph where p: "PriorSyncMessage_Priorsync m = Some ps" "PriorSyncMessage_Phase m = Some ph"
    by (auto simp: HandlePriorSync_def split: option.splits)
  show ?thesis
  proof (cases "PriorSync_Metadata ps = None \<or> no_token (Phase_Auth ph)")
    case True
    then show ?thesis using assms p
      by (auto simp: HandlePriorSync_def response_parts succeeded_def only_cache_refl split: if_splits)
  next
    case False
    from assms p False with_token_accepted show ?thesis
      by (fastforce simp: HandlePriorSync_def response_parts succeeded_def auth_of_def)
  qed
qed

lemma HandleMerkle_law:
  assumes "HandleMerkle E m peer s = Some (s', resp)"
  shows "token_accepted E peer (request_token (ReqMerkle m)) s \<or> \<not> serves (RespMerkle resp) \<and> only_cache E peer s s'"
proof -
  from assms obtain req ph where p: "m = Some req" "MerkleRequestMessage_Phase req = Some ph"
    by (auto simp: HandleMerkle_def split: option.splits)
  show ?thesis
  proof (cases "MerkleRequestMessage_Request req = None \<or> no_token (Phase_Auth ph)")
    case True
    then show ?thesis using assms p
      by (auto simp: HandleMerkle_def response_parts succeeded_def only_cache_refl split: if_splits option.splits)
  next
    case False
    then obtain mr where "MerkleRequestMessage_Request req = Some mr" "\<not> no_token (Phase_Auth ph)" by auto
    with assms p with_token_accepted show ?thesis
      by (fastforce simp: HandleMerkle_def response_parts succeeded_def auth_of_def)
  qed
qed

lemma HandleHeaderSync_law:
  assumes "HandleHeaderSync E m peer s = Some (s', resp)"
  shows "token_accepted E peer (auth_of (HeaderSyncRequest_Phase m)) s \<or> \<not> serves (RespHeader resp) \<and> only_cache E peer s s'"
proof -
  from assms obtain ph where p: "HeaderSyncRequest_Phase m = Some ph" by (auto simp: HandleHeaderSync_def split: option.splits)
  show ?thesis
  proof (cases "no_token (Phase_Auth ph)")
    case True
    then show ?thesis using assms p by (auto simp: HandleHeaderSync_def response_parts succeeded_def only_cache_refl)
  next
    case False
    with assms p with_token_accepted show ?thesis
      by (fastforce simp: HandleHeaderSync_def response_parts succeeded_def auth_of_def)
  qed
qed

lemma HandleDataSync_law:
  assumes "HandleDataSync E m peer s = Some (s', resp)"
  shows "token_accepted E peer (auth_of (DataSyncRequest_Phase m)) s \<or> \<not> serves (RespData resp) \<and> only_cache E peer s s'"
proof -
  from assms obtain ph where p: "DataSyncRequest_Phase m = Some ph" by (auto simp: HandleDataSync_def split: option.splits)
  show ?thesis
  proof (cases "no_token (Phase_Auth ph)")
    case True
    then show ?thesis using assms p by (auto simp: HandleDataSync_def response_parts succeeded_def only_cache_refl)
  next
    case False
    with assms p with_token_accepted show ?thesis
      by (fastforce simp: HandleDataSync_def response_parts succeeded_def auth_of_def)
  qed
qed

lemma HandlePoTSync_law:
  assumes "HandlePoTSync E m peer s = Some (s', resp)"
  shows "token_accepted E peer (auth_of (PoTSRequest_Phase m)) s \<or> \<not> serves (RespPoTS resp) \<and> only_cache E peer s s'"
proof (cases "PoTSRequest_Phase m")
  case None
  then show ?thesis using assms by (auto simp: HandlePoTSync_def response_parts succeeded_def only_cache_refl)
next
  case (Some ph)
  show ?thesis
  proof (cases "no_token (Phase_Auth ph)")
    case True
    then show ?thesis using assms Some by (auto simp: HandlePoTSync_def response_parts succeeded_def only_cache_refl)
  next
    case False
    with assms Some with_token_accepted show ?thesis
      by (fastforce simp: HandlePoTSync_def response_parts succeeded_def auth_of_def)
  qed
qed

lemma serve_law:
  "serve E peer req s = Some (s', resp) \<Longrightarrow> token_accepted E peer (request_token req) s \<or> \<not> serves resp \<and> only_cache E peer s s'"
  by (cases req) (auto dest: HandlePriorSync_law HandleMerkle_law HandleHeaderSync_law HandleDataSync_law HandlePoTSync_law
      simp del: serves.simps)

interpretation router: token_service "serve E peer" request_token "token_valid E peer" "only_cache E peer" serves
proof
  show "\<exists>a. request_token req = Some a \<and> token_valid E peer a s"
    if "serve E peer req s = Some (s', resp)" "serves resp" for req s s' resp
    using serve_law [OF that(1)] that(2) by (simp add: token_accepted_def)
  show "only_cache E peer s s'"
    if "serve E peer req s = Some (s', resp)" "\<not> (\<exists>a. request_token req = Some a \<and> token_valid E peer a s)" for req s s' resp
    using serve_law [OF that(1)] that(2) by (simp add: token_accepted_def)
qed (auto simp: only_cache_refl intro: only_cache_trans)

section \<open>Well-formed responses\<close>

definition agree :: "Ack option \<Rightarrow> Phase option \<Rightarrow> Auth option \<Rightarrow> bool" where
  "agree ak ph auth \<longleftrightarrow> (\<exists>a p. ak = Some a \<and> ph = Some p \<and> Ack_Ok a = Phase_Success p \<and> Ack_Error a = Phase_Error p \<and>
     Phase_Auth p = auth)"

fun response_wf :: "Auth option \<Rightarrow> 'b service_response \<Rightarrow> bool" where
  "response_wf auth (RespPrior m) = (agree (PriorSyncMessage_Ack m) (PriorSyncMessage_Phase m) auth \<and>
     (PriorSyncMessage_Headersync m \<noteq> None \<longrightarrow> succeeded (PriorSyncMessage_Phase m)) \<and>
     (\<forall>h. PriorSyncMessage_Headersync m = Some h \<longrightarrow> agree (HeaderSyncRequest_Ack h) (HeaderSyncRequest_Phase h) auth))"
| "response_wf auth (RespMerkle m) = (agree (MerkleMessage_Ack m) (MerkleMessage_Phase m) auth \<and>
     (succeeded (MerkleMessage_Phase m) \<longleftrightarrow> MerkleMessage_Snapshot m \<noteq> None))"
| "response_wf auth (RespHeader m) = (agree (HeaderSyncResponse_Ack m) (HeaderSyncResponse_Phase m) auth \<and>
     (succeeded (HeaderSyncResponse_Phase m) \<or> HeaderSyncResponse_Header m = []))"
| "response_wf auth (RespData m) = (agree (DataSyncResponse_Ack m) (DataSyncResponse_Phase m) auth \<and>
     (succeeded (DataSyncResponse_Phase m) \<longleftrightarrow> DataSyncResponse_Taggedaccounts m \<noteq> None) \<and>
     (succeeded (DataSyncResponse_Phase m) \<or> DataSyncResponse_Data m = []))"
| "response_wf auth (RespPoTS m) = ((\<exists>p. PoTSResponse_Phase m = Some p \<and> Phase_PresentPhase p = PoTS_RESPONSE \<and>
       (Phase_Auth p = auth \<or> \<not> Phase_Success p \<and> Phase_Auth p = None)) \<and>
     (succeeded (PoTSResponse_Phase m) \<longleftrightarrow> PoTSResponse_Tag m \<noteq> None))"

text \<open>The message of \<open>SYNC_REQUEST\<close> before the token is echoed into it.\<close>

definition sync_wf :: "PriorSyncMessage \<Rightarrow> bool" where
  "sync_wf m \<longleftrightarrow> agree (PriorSyncMessage_Ack m) (PriorSyncMessage_Phase m) None \<and>
     (PriorSyncMessage_Headersync m \<noteq> None \<longrightarrow> succeeded (PriorSyncMessage_Phase m)) \<and>
     (\<forall>h. PriorSyncMessage_Headersync m = Some h \<longrightarrow> agree (HeaderSyncRequest_Ack h) (HeaderSyncRequest_Phase h) None)"

lemmas agree_simps = agree_def succeeded_def response_parts

lemma sync_wf_msg: "sync_wf (prior_msg ps present succ True err None (Some (headersync_req tag succ')))"
  "sync_wf (prior_msg ps present succ ok err None None)"
  by (auto simp: sync_wf_def agree_simps headersync_req_def)

lemma sync_wf_fail: "sync_wf (sync_fail req err)"
  by (simp add: sync_fail_def sync_wf_msg)

lemma compare_trees_wf: "compare_trees E B snap t req rng uuid = Some (u, m) \<Longrightarrow> sync_wf m"
  by (auto simp: compare_trees_def sync_wf_msg sync_wf_fail split: option.splits sum.splits prod.splits if_splits)

lemma check_request_wf: "check_request E s req = Some (Inl m) \<Longrightarrow> sync_wf m"
  by (auto simp: check_request_def sync_wf_fail split: option.splits sum.splits bool.splits)

lemma SYNC_REQUEST_wf: "SYNC_REQUEST E ps s = Some (s', m) \<Longrightarrow> sync_wf m"
  by (auto simp: SYNC_REQUEST_def Let_def FULL_SYNC_def sync_wf_msg sync_wf_fail
      split: option.splits sum.splits if_splits dest: check_request_wf compare_trees_wf)

lemma echo_auth_wf: "sync_wf m \<Longrightarrow> response_wf auth (RespPrior (echo_auth auth m))"
  by (auto simp: sync_wf_def echo_auth_def agree_def succeeded_def)

lemma HandlePriorSync_wf:
  assumes "HandlePriorSync E m peer s = Some (s', resp)"
  shows "response_wf (auth_of (PriorSyncMessage_Phase m)) (RespPrior resp)"
proof -
  from assms obtain ps ph where p: "PriorSyncMessage_Priorsync m = Some ps" "PriorSyncMessage_Phase m = Some ph"
    by (auto simp: HandlePriorSync_def split: option.splits)
  show ?thesis
  proof (cases "PriorSync_Metadata ps = None \<or> no_token (Phase_Auth ph)")
    case True
    then show ?thesis using assms p by (auto simp: HandlePriorSync_def agree_simps auth_of_def split: if_splits)
  next
    case False
    let ?fail = "\<lambda>present err. prior_msg (Some ps) present FAILURE False err (Phase_Auth ph) None"
    have fail: "response_wf (Phase_Auth ph) (RespPrior (?fail present err))" for present err by (simp add: agree_simps)
    have auth: "auth_of (PriorSyncMessage_Phase m) = Phase_Auth ph" by (simp add: p auth_of_def)
    let ?body = "\<lambda>router. if Phase_PresentPhase ph = SYNC_REQUEST_PHASE
                then map_option (map_prod id (echo_auth (Phase_Auth ph))) (SYNC_REQUEST E ps router)
                else Some (router, ?fail (Phase_PresentPhase ph) (''unknown state: '' @ Phase_PresentPhase ph))"
    have "with_token E (Phase_Auth ph) peer (?fail UNKNOWN AuthenticationFailed) ?body s = Some (s', resp)"
      using assms False by (auto simp: HandlePriorSync_def p)
    then show ?thesis
    proof (cases rule: with_token_cases)
      case refused
      then show ?thesis using fail auth by simp
    next
      case (body a st s2 st')
      show ?thesis
      proof (cases "Phase_PresentPhase ph = SYNC_REQUEST_PHASE")
        case True
        with body(3) obtain msg where "SYNC_REQUEST E ps (s\<lparr>DR_auth := st\<rparr>) = Some (s2, msg)" "resp = echo_auth (Phase_Auth ph) msg"
          by auto
        then show ?thesis using echo_auth_wf [OF SYNC_REQUEST_wf] auth by simp
      next
        case False
        then show ?thesis using body(3) fail auth by (auto simp del: response_wf.simps)
      qed
    qed
  qed
qed

lemma HandleMerkle_wf:
  assumes "HandleMerkle E m peer s = Some (s', resp)"
  shows "response_wf (request_token (ReqMerkle m)) (RespMerkle resp)"
proof -
  from assms obtain req ph where p: "m = Some req" "MerkleRequestMessage_Phase req = Some ph"
    by (auto simp: HandleMerkle_def split: option.splits)
  show ?thesis using assms
    by (auto simp: HandleMerkle_def p agree_simps auth_of_def REQUEST_MERKLE_def Let_def elim!: with_token_cases
        split: option.splits if_splits sum.splits)
qed

lemma HandleHeaderSync_wf:
  assumes "HandleHeaderSync E m peer s = Some (s', resp)"
  shows "response_wf (auth_of (HeaderSyncRequest_Phase m)) (RespHeader resp)"
  using assms
  by (auto simp: HandleHeaderSync_def agree_simps auth_of_def HEADER_SYNC_def elim!: with_token_cases
      split: option.splits if_splits sum.splits)

text \<open>The accounts a response tags, and those its transactions name.\<close>

definition response_accounts :: "TaggedAccounts option \<Rightarrow> string set" where
  "response_accounts at = {k. \<exists>t m. at = Some t \<and> TaggedAccounts_Accounts t = Some m \<and> m k = Some True}"

fun tx_parties :: "pbTransaction option \<Rightarrow> bytes set" where
  "tx_parties None = {}"
| "tx_parties (Some t) = {pbTransaction_From t, pbTransaction_To t} - {[]}"

definition body_parties :: "'b NonHeaders list \<Rightarrow> bytes set" where
  "body_parties ns = (\<Union>n\<in>set ns. \<Union>tx\<in>set (NonHeaders_Transactions n). tx_parties tx)"

lemma AccountTag_tag_transaction:
  "Tagging_AccountTag t \<noteq> None \<Longrightarrow> Tagging_AccountTag (tag_transaction tx t) \<noteq> None \<and>
     tagged (tag_transaction tx t) = tagged t \<union> EncodeToString ` tx_parties tx"
  by (cases tx) (auto simp: tag_transaction_def Let_def simp del: not_None_eq)

lemma AccountTag_fold:
  assumes "\<And>x t. Tagging_AccountTag t \<noteq> None \<Longrightarrow> Tagging_AccountTag (f x t) \<noteq> None \<and> tagged (f x t) = tagged t \<union> g x"
  shows "Tagging_AccountTag t \<noteq> None \<Longrightarrow> Tagging_AccountTag (fold f xs t) \<noteq> None \<and>
    tagged (fold f xs t) = tagged t \<union> (\<Union>x\<in>set xs. g x)"
proof (induction xs arbitrary: t)
  case (Cons x xs)
  note a = assms [OF Cons.prems, of x]
  from Cons.IH [of "f x t"] a show ?case by (simp add: Un_assoc)
qed simp

lemma tag_accounts_exact:
  "Tagging_AccountTag (tag_accounts ns) \<noteq> None \<and> tagged (tag_accounts ns) = EncodeToString ` body_parties ns"
proof -
  have "Tagging_AccountTag (tag_accounts ns) \<noteq> None \<and> tagged (tag_accounts ns) = tagged NewTagging \<union>
      (\<Union>n\<in>set ns. \<Union>tx\<in>set (NonHeaders_Transactions n). EncodeToString ` tx_parties tx)"
    unfolding tag_accounts_def
    by (intro AccountTag_fold AccountTag_tag_transaction) (auto simp: NewTagging_def)
  then show ?thesis by (auto simp: body_parties_def)
qed

lemma response_accounts_tag: "response_accounts (GetAccountTag (tag_accounts ns)) = EncodeToString ` body_parties ns"
proof -
  have "response_accounts (Tagging_AccountTag t) = tagged t" for t
    by (cases "Tagging_AccountTag t"; cases "TaggedAccounts_Accounts (the (Tagging_AccountTag t))")
      (auto simp: response_accounts_def tagged_def GetAccount_def split: option.splits)
  then show ?thesis using conjunct2 [OF tag_accounts_exact, of ns] by (simp add: GetAccountTag_def)
qed

lemma inj_hex_digit: "m < 16 \<Longrightarrow> n < 16 \<Longrightarrow> hex_digit m = hex_digit n \<longleftrightarrow> m = n"
  by (auto simp: hex_digit_def char_of_eq_iff take_bit_eq_mod split: if_splits)

lemma inj_EncodeToString: "inj EncodeToString"
proof (rule injI)
  fix xs ys :: bytes
  assume "EncodeToString xs = EncodeToString ys"
  then show "xs = ys"
  proof (induction xs arbitrary: ys)
    case Nil
    then show ?case by (cases ys) (auto simp: EncodeToString_def)
  next
    case (Cons x xs)
    then obtain y zs where y: "ys = y # zs" by (cases ys) (auto simp: EncodeToString_def)
    have b: "unat b div 16 < 16" for b :: "8 word" using unsigned_less [of b, where 'a = nat] by simp
    have "unat x div 16 = unat y div 16" "unat x mod 16 = unat y mod 16" "xs = zs"
      using Cons by (auto simp: y EncodeToString_def inj_hex_digit b)
    then have "unat x = unat y" by (metis div_mult_mod_eq)
    with \<open>xs = zs\<close> y show ?case by (simp add: word_unat_eq_iff)
  qed
qed

definition fetched_numbers :: "'b BlockInfo \<Rightarrow> u64 list \<Rightarrow> string + 'b NonHeaders list" where
  "fetched_numbers B bs = (if bs \<noteq> [] then GetBlockNonHeaders B bs else Inr [])"

lemma fetch_ranges_Inr:
  "fetch_ranges f rs acc = Inr ns \<Longrightarrow>
     \<exists>nss. list_all2 (\<lambda>r ms. f (RangeTag_Start r) (RangeTag_End r) = Inr ms) rs nss \<and> ns = acc @ concat nss"
  by (induction rs arbitrary: acc) (fastforce split: sum.splits simp: list_all2_Cons1)+

lemma fetch_ranges_Inl: "fetch_ranges f rs acc = Inl err \<Longrightarrow> \<exists>r\<in>set rs. f (RangeTag_Start r) (RangeTag_End r) = Inl err"
  by (induction rs arbitrary: acc) (fastforce split: sum.splits)+

lemma token_validE:
  assumes "token_valid E peer a s" "block_info s = Some B"
  obtains st where "Authenticate E (Some a) peer s = Some (s\<lparr>DR_auth := st\<rparr>, Inr True)" "\<not> no_token (Some a)"
  using assms by (cases "IsAUTH (env_auth E) peer (Auth_UUID a) (DR_auth s)")
    (auto simp: token_valid_def Authenticate_def no_token_def)

lemma block_info_auth [simp]: "block_info (s\<lparr>DR_auth := st\<rparr>) = block_info s"
  by (simp add: block_info_def)

lemma HandleDataSync_served:
  assumes "DataSyncRequest_Phase req = Some ph" "Phase_PresentPhase ph = DATA_SYNC_REQUEST" "DataSyncRequest_Tag req = Some tag"
    and "Phase_Auth ph = Some a" "token_valid E peer a s" "block_info s = Some B"
  obtains s' resp where "HandleDataSync E req peer s = Some (s', resp)"
    "resp = (DATA_SYNC s req)\<lparr>DataSyncResponse_Phase :=
      map_option (\<lambda>p. p\<lparr>Phase_Auth := Some a\<rparr>) (DataSyncResponse_Phase (DATA_SYNC s req))\<rparr>"
proof -
  obtain st where st: "Authenticate E (Some a) peer s = Some (s\<lparr>DR_auth := st\<rparr>, Inr True)" "\<not> no_token (Some a)"
    using assms(5,6) by (rule token_validE)
  have d: "DATA_SYNC (s\<lparr>DR_auth := st\<rparr>) req = DATA_SYNC s req" by (simp add: DATA_SYNC_def assms)
  obtain s' r where "ResetTTL E (Some a) peer (s\<lparr>DR_auth := st\<rparr>) = Some (s', r)"
    using st(2) by (cases "ResetTTL_op (env_auth E) peer st") (auto simp: ResetTTL_def assms no_token_def)
  then show thesis using st d by (intro that) (auto simp: HandleDataSync_def assms with_token_def Let_def)
qed

lemma HandleDataSync_wf:
  assumes "HandleDataSync E m peer s = Some (s', resp)"
  shows "response_wf (auth_of (DataSyncRequest_Phase m)) (RespData resp)"
  using assms
  by (auto simp: HandleDataSync_def agree_simps auth_of_def DATA_SYNC_def GetAccountTag_def Let_def
        conjunct1 [OF tag_accounts_exact, simplified] elim!: with_token_cases
      split: option.splits if_splits sum.splits)

lemma HandlePoTSync_wf:
  assumes "HandlePoTSync E m peer s = Some (s', resp)"
  shows "response_wf (auth_of (PoTSRequest_Phase m)) (RespPoTS resp)"
  using assms
  by (auto simp: HandlePoTSync_def agree_simps auth_of_def ProcessPoTSRequest_def pots_builder Let_def elim!: with_token_cases
      split: option.splits if_splits sum.splits prod.splits)

lemma serve_wf: "serve E peer req s = Some (s', resp) \<Longrightarrow> response_wf (request_token req) resp"
  by (cases req) (auto dest: HandlePriorSync_wf HandleMerkle_wf HandleHeaderSync_wf HandleDataSync_wf HandlePoTSync_wf
      simp del: response_wf.simps)

section \<open>A concrete server\<close>

text \<open>The token cache of the witnesses: one token per peer, without expiry.\<close>

definition demo_auth :: "(bytes \<rightharpoonup> string) auth_ops" where
  "demo_auth = \<lparr>AddRecord = (\<lambda>peer uuid st. (st(peer \<mapsto> uuid), None)),
     IsAUTH = (\<lambda>peer uuid st. (st, Inr (st peer = Some uuid))), ResetTTL_op = (\<lambda>peer st. (st, None))\<rparr>"

definition demo_server_env :: "(bytes \<rightharpoonup> string, nat, (u64 \<times> bytes) list) router_env" where
  "demo_server_env = \<lparr>env_auth = demo_auth, env_tree = leaf_tree, env_marshal = (\<lambda>_. Inr (Some [])), env_NewLimiter = 5,
     env_Allow = (\<lambda>n. (n - 1, 0 < n)), env_client = demo_client, env_uuid = ''u''\<rparr>"

definition demo_body :: "u64 \<Rightarrow> unit NonHeaders" where
  "demo_body n = \<lparr>NonHeaders_BlockNumber = n,
     NonHeaders_Transactions = [Some \<lparr>pbTransaction_From = [10], pbTransaction_To = []\<rparr>, None], NonHeaders_Body = ()\<rparr>"

definition demo_bodies :: "unit BlockInfo" where
  "demo_bodies = demo_store\<lparr>GetBlockNonHeaders := (\<lambda>ns. Inr (map demo_body ns)),
     GetBlockNonHeadersRange := (\<lambda>a b. Inr [demo_body a])\<rparr>"

definition demo_router :: "(bytes \<rightharpoonup> string, unit, nat) Datarouter" where
  "demo_router = NewDatarouter (Some (empty_Nodeinfo\<lparr>Nodeinfo_BlockInfo := Some demo_bodies\<rparr>)) [[1] \<mapsto> ''t''] True"

definition demo_phase :: "string \<Rightarrow> string \<Rightarrow> Phase" where
  "demo_phase present uuid = phase present [] True [] (Some \<lparr>Auth_UUID = uuid\<rparr>)"

definition demo_data_request :: "string \<Rightarrow> DataSyncRequest" where
  "demo_data_request uuid = \<lparr>DataSyncRequest_Tag = Some \<lparr>Tag_BlockNumber = [3],
       Tag_Range = [\<lparr>RangeTag_Start = 5, RangeTag_End = 5\<rparr>]\<rparr>, DataSyncRequest_Version = 0, DataSyncRequest_Ack = None,
     DataSyncRequest_Phase = Some (demo_phase DATA_SYNC_REQUEST uuid)\<rparr>"

lemmas demo_server = demo_auth_def demo_server_env_def demo_router_def demo_phase_def demo_data_request_def NewDatarouter_def
  empty_Nodeinfo_def block_info_def AmIAvailable_def phase_def

lemma demo_lookups: "lookups demo_auth peer st st' \<Longrightarrow> st' = st"
  unfolding lookups_def by (induction rule: rtranclp_induct) (auto simp: demo_auth_def)

lemma demo_token: "token_valid demo_server_env [1] \<lparr>Auth_UUID = ''t''\<rparr> demo_router"
  by (simp add: token_valid_def demo_server)

section \<open>Properties\<close>

text \<open>C15: In a session of any number of requests none of whose tokens the cache accepts, in the state it is in or in one
  that lookups lead to, no handler serves anything: no response is a success or carries a payload, and the
  router is unchanged except for the lookups the cache has recorded.\<close>

theorem no_service_without_token:
  assumes "session (serve E peer) reqs s = Some (s', resps)"
    and "\<And>st req a. lookups (env_auth E) peer (DR_auth s) st \<Longrightarrow> req \<in> set reqs \<Longrightarrow> request_token req = Some a \<Longrightarrow>
      snd (IsAUTH (env_auth E) peer (Auth_UUID a) st) \<noteq> Inr True"
  shows "(\<exists>st. lookups (env_auth E) peer (DR_auth s) st \<and> s' = s\<lparr>DR_auth := st\<rparr>) \<and> (\<forall>resp\<in>set resps. \<not> serves resp)"
proof -
  have "only_cache E peer s s' \<and> (\<forall>resp\<in>set resps. \<not> serves resp)"
    using assms by (intro router.intruder_session) (auto simp: only_cache_def token_valid_def)
  then show ?thesis by (simp add: only_cache_def)
qed

theorem no_service_without_token_witness:
  "\<exists>resps. session (serve demo_server_env [2]) [ReqData (demo_data_request ''t''),
       ReqPoTS \<lparr>PoTSRequest_Blocks = [], PoTSRequest_LatestBlockNumber = 0, PoTSRequest_Phase = None\<rparr>] demo_router =
     Some (demo_router, resps) \<and> length resps = 2 \<and> (\<forall>resp\<in>set resps. \<not> serves resp)"
proof -
  obtain resps where r: "session (serve demo_server_env [2]) [ReqData (demo_data_request ''t''),
       ReqPoTS \<lparr>PoTSRequest_Blocks = [], PoTSRequest_LatestBlockNumber = 0, PoTSRequest_Phase = None\<rparr>] demo_router =
     Some (demo_router, resps)" "length resps = 2"
    by (simp add: HandleDataSync_def HandlePoTSync_def with_token_def Authenticate_def no_token_def demo_server)
  have "\<forall>resp\<in>set resps. \<not> serves resp"
  proof (rule conjunct2 [OF no_service_without_token [OF r(1)]])
    fix st req a
    assume "lookups (env_auth demo_server_env) [2] (DR_auth demo_router) st"
    then have "st = [[1] \<mapsto> ''t'']" using demo_lookups by (fastforce simp: demo_server_env_def demo_router_def NewDatarouter_def)
    then show "snd (IsAUTH (env_auth demo_server_env) [2] (Auth_UUID a) st) \<noteq> Inr True" by (simp add: demo_server_env_def demo_auth_def)
  qed
  with r show ?thesis by blast
qed

text \<open>C26: Every response is well formed, on success and on failure: acknowledgement and phase carry the same status and
  the same error text, the token of the request is echoed, a Merkle or PoTS answer carries its snapshot or tag
  exactly when it is a success, and no failure carries headers, bodies, tagged accounts or a header-sync request.\<close>

theorem responses_well_formed:
  assumes "serve E peer req s = Some (s', resp)"
  shows "response_wf (request_token req) resp"
  using assms by (rule serve_wf)

theorem responses_well_formed_witness:
  "\<exists>s' resp. serve demo_server_env [1] (ReqData (demo_data_request ''t'')) demo_router = Some (s', resp) \<and>
     response_wf (Some \<lparr>Auth_UUID = ''t''\<rparr>) resp"
proof -
  obtain s' resp where r: "serve demo_server_env [1] (ReqData (demo_data_request ''t'')) demo_router = Some (s', resp)"
    by (simp add: HandleDataSync_def with_token_def Authenticate_def ResetTTL_def no_token_def demo_server Let_def)
  moreover from responses_well_formed [OF r] have "response_wf (Some \<lparr>Auth_UUID = ''t''\<rparr>) resp"
    by (simp add: auth_of_def demo_server del: response_wf.simps)
  ultimately show ?thesis by blast
qed

text \<open>C27: With a valid token and a tag, a data-sync request is always answered. The answer is a success exactly when every
  fetch of the store succeeds, and then it holds the bodies of the numbered blocks followed by those of the
  ranges, in the order of the tag, and an account is tagged exactly when it is the sender or receiver of one of
  their transactions.\<close>

theorem served_data_exact:
  assumes "DataSyncRequest_Phase req = Some ph" "Phase_PresentPhase ph = DATA_SYNC_REQUEST" "DataSyncRequest_Tag req = Some tag"
    and "Phase_Auth ph = Some a" "token_valid E peer a s" "block_info s = Some B"
  shows "\<exists>s' resp. HandleDataSync E req peer s = Some (s', resp) \<and>
    (if succeeded (DataSyncResponse_Phase resp)
     then \<exists>ns nss. fetched_numbers B (Tag_BlockNumber tag) = Inr ns \<and>
       list_all2 (\<lambda>r ms. GetBlockNonHeadersRange B (RangeTag_Start r) (RangeTag_End r) = Inr ms) (Tag_Range tag) nss \<and>
       DataSyncResponse_Data resp = ns @ concat nss \<and>
       (\<forall>acc. EncodeToString acc \<in> response_accounts (DataSyncResponse_Taggedaccounts resp) \<longleftrightarrow>
          acc \<in> body_parties (DataSyncResponse_Data resp))
     else isl (fetched_numbers B (Tag_BlockNumber tag)) \<or>
       (\<exists>r\<in>set (Tag_Range tag). isl (GetBlockNonHeadersRange B (RangeTag_Start r) (RangeTag_End r))))"
proof -
  let ?fetched = "case fetched_numbers B (Tag_BlockNumber tag) of Inl err \<Rightarrow> Inl err
    | Inr ns \<Rightarrow> fetch_ranges (GetBlockNonHeadersRange B) (Tag_Range tag) ns"
  obtain s' resp where h: "HandleDataSync E req peer s = Some (s', resp)"
    and r: "resp = (DATA_SYNC s req)\<lparr>DataSyncResponse_Phase :=
      map_option (\<lambda>p. p\<lparr>Phase_Auth := Some a\<rparr>) (DataSyncResponse_Phase (DATA_SYNC s req))\<rparr>"
    using assms by (rule HandleDataSync_served)
  have d: "DATA_SYNC s req = (case ?fetched of Inl err \<Rightarrow> data_msg [] None DATA_SYNC_RESPONSE FAILURE False err None
     | Inr ns \<Rightarrow> data_msg ns (GetAccountTag (tag_accounts ns)) DATA_SYNC_RESPONSE MERGE_REQUEST True [] None)"
    by (simp add: DATA_SYNC_def assms fetched_numbers_def)
  show ?thesis
  proof (cases ?fetched)
    case (Inl err)
    then show ?thesis using h r d fetch_ranges_Inl
      by (auto simp: agree_simps isl_def split: sum.splits) blast
  next
    case (Inr ns)
    then show ?thesis using h r d fetch_ranges_Inr
      by (fastforce simp: agree_simps response_accounts_tag inj_image_mem_iff [OF inj_EncodeToString] split: sum.splits)
  qed
qed

theorem served_data_exact_witness:
  "\<exists>s' resp. HandleDataSync demo_server_env (demo_data_request ''t'') [1] demo_router = Some (s', resp) \<and>
     DataSyncResponse_Data resp = [demo_body 3, demo_body 5] \<and>
     ''0a'' \<in> response_accounts (DataSyncResponse_Taggedaccounts resp)"
proof -
  obtain s' resp where r: "HandleDataSync demo_server_env (demo_data_request ''t'') [1] demo_router = Some (s', resp)"
      "succeeded (DataSyncResponse_Phase resp)"
    by (simp add: HandleDataSync_def with_token_def Authenticate_def ResetTTL_def no_token_def demo_server DATA_SYNC_def
      demo_bodies_def Let_def data_msg_def succeeded_def)
  have "block_info demo_router = Some demo_bodies" by (simp add: demo_server)
  from served_data_exact [OF _ _ _ _ demo_token this, of "demo_data_request ''t''" "demo_phase DATA_SYNC_REQUEST ''t''"
      "\<lparr>Tag_BlockNumber = [3], Tag_Range = [\<lparr>RangeTag_Start = 5, RangeTag_End = 5\<rparr>]\<rparr>"] r
  obtain ns nss where n: "fetched_numbers demo_bodies [3] = Inr ns"
      "list_all2 (\<lambda>r ms. GetBlockNonHeadersRange demo_bodies (RangeTag_Start r) (RangeTag_End r) = Inr ms)
         [\<lparr>RangeTag_Start = 5, RangeTag_End = 5\<rparr>] nss" "DataSyncResponse_Data resp = ns @ concat nss"
    and acc: "\<forall>acc. EncodeToString acc \<in> response_accounts (DataSyncResponse_Taggedaccounts resp) \<longleftrightarrow>
          acc \<in> body_parties (DataSyncResponse_Data resp)"
    by (auto simp: demo_data_request_def demo_phase_def phase_def)
  from n have d: "DataSyncResponse_Data resp = [demo_body 3, demo_body 5]"
    by (auto simp: fetched_numbers_def demo_bodies_def list_all2_Cons1)
  then have "[10] \<in> body_parties (DataSyncResponse_Data resp)" by (simp add: body_parties_def demo_body_def)
  with acc d have "DataSyncResponse_Data resp = [demo_body 3, demo_body 5] \<and>
      EncodeToString [10] \<in> response_accounts (DataSyncResponse_Taggedaccounts resp)" by blast
  moreover have "EncodeToString [10] = ''0a''" by code_simp
  ultimately show ?thesis using r by auto
qed

end
