(* ===== verification/FS_Stream.thy ===== *)
theory FS_Stream
  imports FS_Types
begin

text \<open>
  \<open>internal/pbstream/pbstream.go\<close>: length-delimited messages on a byte stream, with the parts of \<open>bufio\<close>, \<open>io\<close> and
  \<open>encoding/binary\<close> it uses.

  The read side of a network stream is the list of the pieces in which its bytes will arrive, none of them empty, and
  the error that follows them (the end of the stream, a deadline, a reset). \<open>ReadDelimited\<close> makes a buffered reader of
  its own at every call, and what that reader holds when the call returns is gone. The encoding of the messages is a
  parameter. \<open>make\<close> panics for a length above the largest \<open>int\<close>: then the result is \<open>None\<close>.
\<close>

unbundle bit_operations_syntax

section \<open>Streams\<close>

record rstream =
  rs_chunks :: "bytes list"
  rs_end :: string

definition stream_Read :: "nat \<Rightarrow> rstream \<Rightarrow> rstream \<times> (string + bytes)" where
  "stream_Read n s = (case rs_chunks s of [] \<Rightarrow> (s, Inl (rs_end s))
     | c # cs \<Rightarrow> if length c \<le> n then (s\<lparr>rs_chunks := cs\<rparr>, Inr c)
         else (s\<lparr>rs_chunks := drop n c # cs\<rparr>, Inr (take n c)))"

section \<open>bufio.Reader\<close>

record reader =
  rd_buf :: bytes
  rd_src :: rstream

definition NewReader :: "rstream \<Rightarrow> reader" where
  "NewReader s = \<lparr>rd_buf = [], rd_src = s\<rparr>"

definition bufio_size :: nat where "bufio_size = 4096"

definition ErrNoProgress :: string where "ErrNoProgress = ''multiple Read calls return no data or error''"

text \<open>Fill the empty buffer with one read.\<close>

definition fill :: "reader \<Rightarrow> reader \<times> string option" where
  "fill r = (case stream_Read bufio_size (rd_src r) of (s, Inl e) \<Rightarrow> (r\<lparr>rd_src := s\<rparr>, Some e)
     | (s, Inr bs) \<Rightarrow> (\<lparr>rd_buf = bs, rd_src = s\<rparr>, if bs = [] then Some ErrNoProgress else None))"

definition ReadByte :: "reader \<Rightarrow> reader \<times> (string + 8 word)" where
  "ReadByte r = (case (if rd_buf r = [] then fill r else (r, None)) of
     (r', Some e) \<Rightarrow> (r', Inl e)
   | (r', None) \<Rightarrow> (r'\<lparr>rd_buf := tl (rd_buf r')\<rparr>, Inr (hd (rd_buf r'))))"

text \<open>\<open>Read\<close> into a slice of length \<open>l > 0\<close>: a large slice is read into directly when the buffer is empty.\<close>

definition reader_Read :: "nat \<Rightarrow> reader \<Rightarrow> reader \<times> (string + bytes)" where
  "reader_Read l r =
     (if rd_buf r \<noteq> [] then (r\<lparr>rd_buf := drop l (rd_buf r)\<rparr>, Inr (take l (rd_buf r)))
      else if bufio_size \<le> l
      then (case stream_Read l (rd_src r) of (s, Inl e) \<Rightarrow> (r\<lparr>rd_src := s\<rparr>, Inl e)
         | (s, Inr bs) \<Rightarrow> (r\<lparr>rd_src := s\<rparr>, if bs = [] then Inl ErrNoProgress else Inr bs))
      else (case fill r of (r', Some e) \<Rightarrow> (r', Inl e)
         | (r', None) \<Rightarrow> (r'\<lparr>rd_buf := drop l (rd_buf r')\<rparr>, Inr (take l (rd_buf r')))))"

lemma stream_Read_cases:
  assumes "stream_Read n s = (s', res)" "0 < n"
  obtains e where "res = Inl e" "s' = s"
  | bs where "res = Inr bs" "length bs \<le> n" "bs @ concat (rs_chunks s') = concat (rs_chunks s)"
  using assms by (auto simp: stream_Read_def split: list.splits if_splits)

lemma fill_None: "fill r = (r', None) \<Longrightarrow> rd_buf r' \<noteq> [] \<and> rd_buf r' @ concat (rs_chunks (rd_src r')) = concat (rs_chunks (rd_src r))"
  by (auto simp: fill_def bufio_size_def split: prod.splits sum.splits if_splits elim!: stream_Read_cases)

lemma reader_Read_Inr:
  assumes "reader_Read l r = (r', Inr bs)" "0 < l"
  shows "bs \<noteq> [] \<and> length bs \<le> l \<and> bs @ rd_buf r' @ concat (rs_chunks (rd_src r')) = rd_buf r @ concat (rs_chunks (rd_src r))"
proof -
  consider "rd_buf r \<noteq> []" | "rd_buf r = []" "bufio_size \<le> l" | r1 where "rd_buf r = []" "\<not> bufio_size \<le> l" "fill r = (r1, None)"
    using assms(1) by (cases "fill r") (auto simp: reader_Read_def split: if_splits option.splits)
  then show ?thesis
  proof cases
    case 3
    with fill_None [OF 3(3)] assms show ?thesis
      by (auto simp: reader_Read_def append_assoc [symmetric] simp del: append_assoc)
  qed (use assms in \<open>auto simp: reader_Read_def split: prod.splits sum.splits if_splits elim!: stream_Read_cases\<close>)
qed

section \<open>io.ReadFull\<close>

definition at_end :: "bool \<Rightarrow> string \<Rightarrow> string" where
  "at_end some e = (if some \<and> e = ''EOF'' then ''unexpected EOF'' else e)"

function read_full :: "nat \<Rightarrow> bool \<Rightarrow> reader \<Rightarrow> reader \<times> (string + bytes)" where
  "read_full l some r =
     (if l = 0 then (r, Inr [])
      else case reader_Read l r of (r', Inl e) \<Rightarrow> (r', Inl (at_end some e))
        | (r', Inr bs) \<Rightarrow> (case read_full (l - length bs) True r' of (r'', Inl e) \<Rightarrow> (r'', Inl e)
            | (r'', Inr cs) \<Rightarrow> (r'', Inr (bs @ cs))))"
  by pat_completeness auto

termination read_full
  by (relation "measure (\<lambda>(l, some, r). l)") (auto dest!: reader_Read_Inr [OF sym])

declare read_full.simps [simp del]

section \<open>encoding/binary\<close>

function PutUvarint :: "u64 \<Rightarrow> bytes" where
  "PutUvarint x = (if x \<ge> 0x80 then (ucast x OR 0x80) # PutUvarint (drop_bit 7 x) else [ucast x])"
  by pat_completeness auto

lemma unat_drop_bit7: "unat (drop_bit 7 (x :: u64)) = unat x div 128"
  by (simp add: drop_bit_eq_div unat_div)

termination PutUvarint
  by (relation "measure unat") (simp_all add: unat_drop_bit7 word_le_nat_alt)

declare PutUvarint.simps [simp del]

definition ErrOverflow :: string where "ErrOverflow = ''binary: varint overflows a 64-bit integer''"

text \<open>\<open>ReadUvarint\<close>, with \<open>left\<close> of its ten bytes to go, the value so far and the next shift.\<close>

fun read_uvarint :: "nat \<Rightarrow> u64 \<Rightarrow> nat \<Rightarrow> reader \<Rightarrow> reader \<times> (string + u64)" where
  "read_uvarint 0 x s r = (r, Inl ErrOverflow)"
| "read_uvarint (Suc left) x s r = (case ReadByte r of (r', Inl e) \<Rightarrow> (r', Inl (at_end (left < 9) e))
     | (r', Inr b) \<Rightarrow>
        if b < 0x80 then (r', if left = 0 \<and> b > 1 then Inl ErrOverflow else Inr (x OR push_bit s (ucast b)))
        else read_uvarint left (x OR push_bit s (ucast (b AND 0x7f))) (s + 7) r')"

definition ReadUvarint :: "reader \<Rightarrow> reader \<times> (string + u64)" where
  "ReadUvarint = read_uvarint 10 0 0"

section \<open>pbstream.go\<close>

record 'm codec =
  Marshal :: "'m \<Rightarrow> string + bytes"
  Unmarshal :: "bytes \<Rightarrow> string + 'm"

text \<open>The two writes of a frame, through a writer over states \<open>'w\<close>.\<close>

definition WriteDelimited :: "'m codec \<Rightarrow> (bytes \<Rightarrow> 'w \<Rightarrow> 'w \<times> string option) \<Rightarrow> 'm \<Rightarrow> 'w \<Rightarrow> 'w \<times> string option" where
  "WriteDelimited C W msg w = (case Marshal C msg of Inl e \<Rightarrow> (w, Some (''marshal: '' @ e))
     | Inr b \<Rightarrow> (case W (PutUvarint (word_of_nat (length b))) w of
          (w1, Some e) \<Rightarrow> (w1, Some (''write len: '' @ e))
        | (w1, None) \<Rightarrow> (case W b w1 of
             (w2, Some e) \<Rightarrow> (w2, Some (''write msg: '' @ e))
           | (w2, None) \<Rightarrow> (w2, None))))"

definition ReadDelimited :: "'m codec \<Rightarrow> rstream \<Rightarrow> (rstream \<times> (string + 'm)) option" where
  "ReadDelimited C s = (case ReadUvarint (NewReader s) of
     (r, Inl e) \<Rightarrow> Some (rd_src r, Inl (''read len: '' @ e))
   | (r, Inr l) \<Rightarrow>
      if l = 0 then Some (rd_src r, Inl ''invalid length 0'')
      else if 2 ^ 63 \<le> unat l then None
      else (case read_full (unat l) False r of
          (r', Inl e) \<Rightarrow> Some (rd_src r', Inl (''read msg: '' @ e))
        | (r', Inr buf) \<Rightarrow> (case Unmarshal C buf of
             Inl e \<Rightarrow> Some (rd_src r', Inl (''unmarshal: '' @ e))
           | Inr m \<Rightarrow> Some (rd_src r', Inr m))))"

section \<open>Reading a frame\<close>

text \<open>The bytes \<open>fr\<close> to come end where a piece of the stream ends; the pieces after it are \<open>cs\<close>.\<close>

definition framed :: "reader \<Rightarrow> bytes \<Rightarrow> rstream \<Rightarrow> bool" where
  "framed r fr rest \<longleftrightarrow> (\<exists>ws. rd_buf r @ concat ws = fr \<and> [] \<notin> set ws \<and> rd_src r = rest\<lparr>rs_chunks := ws @ rs_chunks rest\<rparr>)"

lemma framed_Nil: "framed r [] rest \<Longrightarrow> rd_buf r = [] \<and> rd_src r = rest"
proof -
  assume "framed r [] rest"
  then obtain ws where ws: "rd_buf r = []" "concat ws = []" "[] \<notin> set ws" "rd_src r = rest\<lparr>rs_chunks := ws @ rs_chunks rest\<rparr>"
    by (auto simp: framed_def)
  then have "ws = []" by (cases ws) auto
  with ws show ?thesis by simp
qed

text \<open>A read of at most \<open>n\<close> bytes stays within the frame.\<close>

lemma stream_Read_framed:
  assumes "0 < n" "ws \<noteq> []" "[] \<notin> set ws"
  shows "\<exists>ws' bs. stream_Read n (rest\<lparr>rs_chunks := ws @ cs\<rparr>) = (rest\<lparr>rs_chunks := ws' @ cs\<rparr>, Inr bs) \<and>
    bs @ concat ws' = concat ws \<and> [] \<notin> set ws' \<and> bs \<noteq> [] \<and> length bs \<le> n"
proof -
  from assms obtain w ws1 where w: "ws = w # ws1" "w \<noteq> []" "[] \<notin> set ws1" by (cases ws) auto
  show ?thesis
  proof (cases "length w \<le> n")
    case True
    then show ?thesis using w by (intro exI [of _ ws1] exI [of _ w]) (simp add: stream_Read_def)
  next
    case False
    then show ?thesis using w assms(1) by (intro exI [of _ "drop n w # ws1"] exI [of _ "take n w"]) (auto simp: stream_Read_def)
  qed
qed

lemma framed_fill:
  assumes "framed r fr rest" "fr \<noteq> []" "rd_buf r = []"
  shows "\<exists>r'. fill r = (r', None) \<and> framed r' fr rest \<and> rd_buf r' \<noteq> []"
proof -
  from assms obtain ws where ws: "concat ws = fr" "[] \<notin> set ws" "rd_src r = rest\<lparr>rs_chunks := ws @ rs_chunks rest\<rparr>"
    by (auto simp: framed_def)
  moreover have "ws \<noteq> []" using assms(2) ws(1) by auto
  ultimately obtain ws' bs where
    "stream_Read bufio_size (rd_src r) = (rest\<lparr>rs_chunks := ws' @ rs_chunks rest\<rparr>, Inr bs)"
    "bs @ concat ws' = fr" "[] \<notin> set ws'" "bs \<noteq> []"
    using stream_Read_framed [of bufio_size ws "rs_chunks rest" rest] by (auto simp: bufio_size_def)
  then show ?thesis by (auto simp: fill_def framed_def)
qed

lemma framed_drop:
  assumes "framed r (bs @ fr) rest" "rd_buf r = bs @ buf"
  shows "framed (r\<lparr>rd_buf := buf\<rparr>) fr rest"
  using assms by (auto simp: framed_def)

lemma framed_ReadByte:
  assumes "framed r (b # fr) rest"
  shows "\<exists>r'. ReadByte r = (r', Inr b) \<and> framed r' fr rest"
proof -
  obtain r1 where r1: "(if rd_buf r = [] then fill r else (r, None)) = (r1, None)" "framed r1 (b # fr) rest" "rd_buf r1 \<noteq> []"
    using framed_fill [OF assms] assms by (cases "rd_buf r = []") auto
  then obtain buf where buf: "rd_buf r1 = b # buf" by (cases "rd_buf r1") (auto simp: framed_def)
  with r1 framed_drop [of r1 "[b]" fr rest buf] show ?thesis by (auto simp: ReadByte_def)
qed

lemma framed_reader_Read:
  assumes "framed r fr rest" "0 < l" "l \<le> length fr"
  shows "\<exists>r' bs fr'. reader_Read l r = (r', Inr bs) \<and> fr = bs @ fr' \<and> bs \<noteq> [] \<and> length bs \<le> l \<and> framed r' fr' rest"
proof -
  have take: "\<exists>r' bs fr'. (r1\<lparr>rd_buf := drop l (rd_buf r1)\<rparr>, Inr (take l (rd_buf r1)) :: string + bytes) = (r', Inr bs) \<and>
      fr = bs @ fr' \<and> bs \<noteq> [] \<and> length bs \<le> l \<and> framed r' fr' rest"
    if "framed r1 fr rest" "rd_buf r1 \<noteq> []" for r1
  proof -
    from that(1) obtain ws where ws: "rd_buf r1 @ concat ws = fr" by (auto simp: framed_def)
    then have "fr = take l (rd_buf r1) @ drop l (rd_buf r1) @ concat ws" by (metis append_assoc append_take_drop_id)
    moreover from framed_drop [of r1 "take l (rd_buf r1)" _ rest "drop l (rd_buf r1)"] that(1) this
    have "framed (r1\<lparr>rd_buf := drop l (rd_buf r1)\<rparr>) (drop l (rd_buf r1) @ concat ws) rest" by simp
    ultimately show ?thesis using that(2) assms(2) by auto
  qed
  have fr: "fr \<noteq> []" using assms(2,3) by auto
  consider "rd_buf r \<noteq> []" | "rd_buf r = []" "bufio_size \<le> l" | "rd_buf r = []" "\<not> bufio_size \<le> l" by blast
  then show ?thesis
  proof cases
    case 1
    with take [OF assms(1)] show ?thesis by (simp add: reader_Read_def)
  next
    case 2
    from assms(1) 2 obtain ws where ws: "concat ws = fr" "[] \<notin> set ws" "rd_src r = rest\<lparr>rs_chunks := ws @ rs_chunks rest\<rparr>"
      by (auto simp: framed_def)
    moreover have "ws \<noteq> []" using fr ws(1) by auto
    ultimately obtain ws' bs where "stream_Read l (rd_src r) = (rest\<lparr>rs_chunks := ws' @ rs_chunks rest\<rparr>, Inr bs)"
      "bs @ concat ws' = fr" "[] \<notin> set ws'" "bs \<noteq> []" "length bs \<le> l"
      using stream_Read_framed [of l ws "rs_chunks rest" rest] assms(2) by auto
    then show ?thesis using 2 by (auto simp: reader_Read_def framed_def)
  next
    case 3
    with framed_fill [OF assms(1) fr] obtain r1 where "fill r = (r1, None)" "framed r1 fr rest" "rd_buf r1 \<noteq> []" by blast
    with take [OF this(2,3)] 3 show ?thesis by (simp add: reader_Read_def)
  qed
qed

lemma framed_read_full:
  "framed r (xs @ fr) rest \<Longrightarrow> \<exists>r'. read_full (length xs) some r = (r', Inr xs) \<and> framed r' fr rest"
proof (induction "length xs" arbitrary: xs some r rule: less_induct)
  case less
  show ?case
  proof (cases "xs = []")
    case True
    then show ?thesis using less.prems by (simp add: read_full.simps)
  next
    case False
    with framed_reader_Read [OF less.prems, of "length xs"] obtain r' bs fr' where
      b: "reader_Read (length xs) r = (r', Inr bs)" "xs @ fr = bs @ fr'" "bs \<noteq> []" "length bs \<le> length xs" "framed r' fr' rest"
      by auto
    have "take (length bs) (xs @ fr) = bs" "drop (length bs) (xs @ fr) = fr'" by (simp_all add: b(2))
    then have xs: "xs = bs @ drop (length bs) xs" "fr' = drop (length bs) xs @ fr"
      using b(4) by (simp_all, metis append_take_drop_id)
    have l: "length (drop (length bs) xs) < length xs" using b(3) False by simp
    from less.hyps [OF l, of r' True] b(5) xs(2) obtain r'' where
      "read_full (length (drop (length bs) xs)) True r' = (r'', Inr (drop (length bs) xs))" "framed r'' fr rest" by auto
    then show ?thesis using b(1) xs(1) False by (subst read_full.simps) (auto split: prod.splits)
  qed
qed

section \<open>Lengths survive\<close>

lemma ucast_low: "y < 0x80 \<Longrightarrow> (ucast y :: 8 word) < 0x80 \<and> ucast (ucast y :: 8 word) = (y :: u64)"
proof -
  assume y: "y < 0x80"
  then have "unat y < 128" by (simp add: word_less_nat_alt)
  then have "unat (ucast y :: 8 word) = unat y" by (simp add: unsigned_ucast_eq take_bit_eq_mod unat_mod)
  with y show ?thesis by (simp add: word_less_nat_alt word_eq_iff_unsigned [where 'a = nat] unsigned_ucast_eq take_bit_eq_mod unat_mod)
qed

lemma high_byte: "\<not> ucast y OR 0x80 < (0x80 :: 8 word)"
proof -
  have "take_bit 7 (ucast y OR 0x80 :: 8 word) \<noteq> ucast y OR 0x80"
  proof
    assume "take_bit 7 (ucast y OR 0x80 :: 8 word) = ucast y OR 0x80"
    then have "bit (take_bit 7 (ucast y OR 0x80 :: 8 word)) 7 = bit (ucast y OR 0x80 :: 8 word) 7" by simp
    moreover have "(0x80 :: 8 word) = push_bit 7 1" by simp
    ultimately show False by (simp add: bit_simps del: push_bit_of_1)
  qed
  then show ?thesis using less_mask_eq [of "ucast y OR 0x80 :: 8 word" 7] by (auto simp: take_bit_eq_mask)
qed

lemma seven_bits:
  "(x OR push_bit s (ucast ((ucast y OR 0x80 :: 8 word) AND 0x7f))) OR push_bit (s + 7) (drop_bit 7 y) = x OR push_bit s (y :: u64)"
proof (rule bit_word_eqI)
  fix n
  assume "n < LENGTH(64)"
  have m: "(0x7f :: 8 word) = mask 7" "(0x80 :: 8 word) = push_bit 7 1" by (simp_all add: mask_eq_exp_minus_1)
  show "bit ((x OR push_bit s (ucast ((ucast y OR 0x80 :: 8 word) AND 0x7f))) OR push_bit (s + 7) (drop_bit 7 y)) n =
    bit (x OR push_bit s y) n"
    unfolding m by (cases "n < s + 7") (auto simp: bit_simps simp del: push_bit_of_1)
qed

lemma framed_read_uvarint:
  "framed r (PutUvarint y @ fr) rest \<Longrightarrow> left \<le> 9 \<Longrightarrow> s = 7 * (9 - left) \<Longrightarrow> unat y < 2 ^ (64 - s) \<Longrightarrow>
   \<exists>r'. read_uvarint (Suc left) x s r = (r', Inr (x OR push_bit s y)) \<and> framed r' fr rest"
proof (induction y arbitrary: r x s left rule: PutUvarint.induct)
  case (1 y)
  show ?case
  proof (cases "y \<ge> 0x80")
    case False
    then have y: "y < 0x80" by simp
    have P: "PutUvarint y = [ucast y]" using False by (subst PutUvarint.simps) simp
    from framed_ReadByte [of r "ucast y" fr rest] 1(2) P obtain r' where r': "ReadByte r = (r', Inr (ucast y))" "framed r' fr rest"
      by auto
    have "\<not> (left = 0 \<and> (ucast y :: 8 word) > 1)"
    proof
      assume l: "left = 0 \<and> (ucast y :: 8 word) > 1"
      then have "unat y < 2" using 1(4,5) by simp
      then have "unat (ucast y :: 8 word) < 2" by (simp add: unsigned_ucast_eq take_bit_eq_mod unat_mod)
      with l show False by (simp add: word_less_nat_alt)
    qed
    then show ?thesis using r' ucast_low [OF y] by auto
  next
    case True
    have P: "PutUvarint y = (ucast y OR 0x80) # PutUvarint (drop_bit 7 y)" using True by (subst PutUvarint.simps) simp
    from framed_ReadByte [of r "ucast y OR 0x80" "PutUvarint (drop_bit 7 y) @ fr" rest] 1(2) P obtain r' where
      r': "ReadByte r = (r', Inr (ucast y OR 0x80))" "framed r' (PutUvarint (drop_bit 7 y) @ fr) rest" by auto
    have "unat y \<ge> 128" using True by (simp add: word_le_nat_alt)
    then have "left \<noteq> 0" using 1(4,5) by (intro notI) simp
    then obtain left' where l: "left = Suc left'" by (cases left) auto
    have s: "s + 7 = 7 * (9 - left')" "s + 7 \<le> 63" using 1(3,4) l by auto
    have "(2 :: nat) ^ (64 - s) = 128 * 2 ^ (64 - (s + 7))" using s(2) power_add [of "2 :: nat" 7 "64 - (s + 7)"] by simp
    then have y: "unat (drop_bit 7 y) < 2 ^ (64 - (s + 7))" using 1(5) by (simp add: unat_drop_bit7 less_mult_imp_div_less mult.commute)
    have "left' \<le> 9" using 1(3) l by simp
    from 1(1) [OF True r'(2) this s(1) y, of "x OR push_bit s (ucast ((ucast y OR 0x80 :: 8 word) AND 0x7f))", unfolded seven_bits]
    obtain r'' where "read_uvarint (Suc left') (x OR push_bit s (ucast ((ucast y OR 0x80 :: 8 word) AND 0x7f))) (s + 7) r' =
        (r'', Inr (x OR push_bit s y))" "framed r'' fr rest" by blast
    moreover have "read_uvarint (Suc left) x s r =
        read_uvarint left (x OR push_bit s (ucast ((ucast y OR 0x80 :: 8 word) AND 0x7f))) (s + 7) r'"
      using r'(1) high_byte [of y] by (simp only: read_uvarint.simps prod.case sum.case if_False)
    ultimately show ?thesis unfolding l by (simp only:) blast
  qed
qed

definition frame :: "bytes \<Rightarrow> bytes" where
  "frame b = PutUvarint (word_of_nat (length b)) @ b"

lemma framed_ReadDelimited:
  assumes "framed (NewReader s) (frame b @ fr) rest" "b \<noteq> []" "length b < 2 ^ 63"
  shows "\<exists>r. framed r fr rest \<and> ReadDelimited C s = Some (rd_src r, map_sum ((@) ''unmarshal: '') id (Unmarshal C b)) \<and>
    (\<exists>r1. ReadUvarint (NewReader s) = (r1, Inr (word_of_nat (length b))) \<and> read_full (length b) False r1 = (r, Inr b))"
proof -
  let ?l = "word_of_nat (length b) :: u64"
  have l: "unat ?l = length b" using assms(3) by (simp add: unsigned_of_nat take_bit_nat_eq_self)
  obtain r1 where r1: "ReadUvarint (NewReader s) = (r1, Inr ?l)" "framed r1 (b @ fr) rest"
    using framed_read_uvarint [of "NewReader s" ?l "b @ fr" rest 9 0 0] assms(1) l assms(3)
    by (auto simp: frame_def ReadUvarint_def)
  obtain r where r: "read_full (length b) False r1 = (r, Inr b)" "framed r fr rest" using framed_read_full [OF r1(2)] by blast
  have "?l \<noteq> 0" using l assms(2) by auto
  then show ?thesis using r1 r l assms(3) by (auto simp: ReadDelimited_def not_le split: sum.splits)
qed

section \<open>Every message consumes the stream\<close>

definition pending :: "rstream \<Rightarrow> nat" where
  "pending s = length (concat (rs_chunks s))"

lemma stream_Read_pending: "stream_Read n s = (s', res) \<Longrightarrow> pending s' \<le> pending s"
  by (auto simp: stream_Read_def pending_def split: list.splits if_splits)

lemma fill_pending:
  "fill r = (r', e) \<Longrightarrow> pending (rd_src r') \<le> pending (rd_src r) \<and> (e = None \<longrightarrow> pending (rd_src r') < pending (rd_src r))"
  by (auto simp: fill_def pending_def stream_Read_def bufio_size_def split: list.splits if_splits prod.splits)

lemma ReadByte_pending:
  "ReadByte r = (r', res) \<Longrightarrow> pending (rd_src r') \<le> pending (rd_src r) \<and>
     (rd_buf r = [] \<longrightarrow> \<not> isl res \<longrightarrow> pending (rd_src r') < pending (rd_src r))"
  by (cases "fill r") (auto simp: ReadByte_def dest!: fill_pending split: if_splits option.splits)

lemma reader_Read_pending: "reader_Read l r = (r', res) \<Longrightarrow> pending (rd_src r') \<le> pending (rd_src r)"
  by (cases "fill r") (auto simp: reader_Read_def dest!: fill_pending stream_Read_pending split: if_splits option.splits prod.splits sum.splits)

lemma read_full_pending: "read_full l some r = (r', res) \<Longrightarrow> pending (rd_src r') \<le> pending (rd_src r)"
proof (induction l some r arbitrary: r' res rule: read_full.induct)
  case (1 l some r)
  obtain r1 res1 where r1: "reader_Read l r = (r1, res1)" by fastforce
  note le = reader_Read_pending [OF r1]
  show ?case
  proof (cases "l = 0 \<or> isl res1")
    case True
    with 1(2) r1 le show ?thesis by (subst (asm) read_full.simps) (auto split: if_splits sum.splits)
  next
    case False
    then obtain bs where bs: "res1 = Inr bs" by (cases res1) auto
    obtain r2 res2 where r2: "read_full (l - length bs) True r1 = (r2, res2)" by fastforce
    have "pending (rd_src r2) \<le> pending (rd_src r1)" using 1(1) [OF _ r1 [symmetric] bs r2] False by simp
    moreover from 1(2) False have "r' = r2" by (subst (asm) read_full.simps) (auto simp: r1 bs r2 split: sum.splits)
    ultimately show ?thesis using le by simp
  qed
qed

lemma read_uvarint_pending: "read_uvarint left x s r = (r', res) \<Longrightarrow> pending (rd_src r') \<le> pending (rd_src r)"
  by (induction left x s r rule: read_uvarint.induct)
    (force split: if_splits prod.splits sum.splits dest: ReadByte_pending intro: le_trans)+

text \<open>A length was read, so a piece of the stream was.\<close>

lemma ReadUvarint_pending:
  assumes "ReadUvarint (NewReader s) = (r, Inr l)"
  shows "\<exists>r1 b. ReadByte (NewReader s) = (r1, Inr b) \<and> pending (rd_src r) \<le> pending (rd_src r1) \<and> pending (rd_src r1) < pending s"
proof -
  obtain r1 res where b: "ReadByte (NewReader s) = (r1, res)" by fastforce
  from assms have u: "read_uvarint (Suc 9) 0 0 (NewReader s) = (r, Inr l)" by (simp add: ReadUvarint_def)
  obtain c where c: "res = Inr c"
  proof (cases res)
    case (Inl a)
    with u b have False by (simp only: read_uvarint.simps prod.case sum.case) simp
    then show ?thesis ..
  qed
  with u b have "pending (rd_src r) \<le> pending (rd_src r1)"
    by (auto simp only: read_uvarint.simps prod.case sum.case split: if_splits dest: read_uvarint_pending)
  with ReadByte_pending [OF b] b c show ?thesis by (auto simp: NewReader_def)
qed

lemma ReadDelimited_pending: "ReadDelimited C s = Some (s', Inr m) \<Longrightarrow> pending s' < pending s"
  by (auto simp: ReadDelimited_def split: prod.splits sum.splits if_splits dest!: ReadUvarint_pending read_full_pending)

section \<open>Properties\<close>

lemma concat_writes: "WriteDelimited C (\<lambda>b w. (w @ [b], None)) m w = (w', None) \<Longrightarrow>
    \<exists>b. Marshal C m = Inr b \<and> w' = w @ [PutUvarint (word_of_nat (length b)), b] \<and> concat w' = concat w @ frame b"
  by (auto simp: WriteDelimited_def frame_def split: sum.splits)

lemma framed_new: "concat ps = fr \<Longrightarrow> [] \<notin> set ps \<Longrightarrow>
    framed (NewReader (rest\<lparr>rs_chunks := ps @ rs_chunks rest\<rparr>)) fr rest"
  by (auto simp: framed_def NewReader_def)

lemma ReadDelimited_frame:
  assumes "Unmarshal C b = Inr m" "b \<noteq> []" "length b < 2 ^ 63" "concat ps = frame b" "[] \<notin> set ps"
  shows "ReadDelimited C (rest\<lparr>rs_chunks := ps @ rs_chunks rest\<rparr>) = Some (rest, Inr m)"
proof -
  from assms(4) have "concat ps = frame b @ []" by simp
  from framed_ReadDelimited [OF framed_new [OF this assms(5), of rest] assms(2,3), of C] assms(1) obtain r where
    "framed r [] rest" "ReadDelimited C (rest\<lparr>rs_chunks := ps @ rs_chunks rest\<rparr>) = Some (rd_src r, Inr m)" by auto
  with framed_Nil show ?thesis by auto
qed

text \<open>C32: A message that \<open>WriteDelimited\<close> wrote is read back by \<open>ReadDelimited\<close> however the network cuts its frame into
  pieces, and the rest of the stream is left as it is, provided that no piece reaches beyond the frame, the encoding is
  not empty and is one that \<open>Unmarshal\<close> decodes.\<close>

theorem delimited_roundtrip:
  assumes "WriteDelimited C (\<lambda>b w. (w @ [b], None)) m [] = (ws, None)"
    and "\<And>b. Marshal C m = Inr b \<Longrightarrow> Unmarshal C b = Inr m \<and> b \<noteq> [] \<and> length b < 2 ^ 63"
    and "concat ps = concat ws" "[] \<notin> set ps"
  shows "ReadDelimited C (rest\<lparr>rs_chunks := ps @ rs_chunks rest\<rparr>) = Some (rest, Inr m)"
proof -
  from concat_writes [OF assms(1)] obtain b where b: "Marshal C m = Inr b" "concat ps = frame b" by (auto simp: assms(3))
  from assms(2) [OF b(1)] show ?thesis by (intro ReadDelimited_frame [OF _ _ _ b(2) assms(4)]) auto
qed

text \<open>A codec for the witnesses: a message is its bytes.\<close>

definition byte_codec :: "bytes codec" where
  "byte_codec = \<lparr>Marshal = Inr, Unmarshal = Inr\<rparr>"

theorem delimited_roundtrip_witness:
  "ReadDelimited byte_codec \<lparr>rs_chunks = [[2], [7], [8], [1, 9]], rs_end = ''EOF''\<rparr> =
     Some (\<lparr>rs_chunks = [[1, 9]], rs_end = ''EOF''\<rparr>, Inr [7, 8])"
proof -
  have w: "WriteDelimited byte_codec (\<lambda>b w. (w @ [b], None)) [7, 8] [] = ([[2], [7, 8]], None)"
    by (simp add: WriteDelimited_def byte_codec_def PutUvarint.simps)
  show ?thesis
    using delimited_roundtrip [OF w, of "[[2], [7], [8]]" "\<lparr>rs_chunks = [[1, 9]], rs_end = ''EOF''\<rparr>"]
    by (simp add: byte_codec_def)
qed

text \<open>C33: When two messages written one after the other arrive in one piece, the first is read and the second is lost: its
  bytes were in the buffer of the reader that \<open>ReadDelimited\<close> drops. Whatever the first call leaves of the stream, the
  next call reports the error that ends it.\<close>

theorem coalesced_frame_lost:
  assumes "WriteDelimited C (\<lambda>b w. (w @ [b], None)) m1 [] = (ws1, None)"
    and "WriteDelimited C (\<lambda>b w. (w @ [b], None)) m2 ws1 = (ws, None)"
    and "\<And>b. Marshal C m1 = Inr b \<Longrightarrow> Unmarshal C b = Inr m1 \<and> b \<noteq> []"
    and "length (concat ws) \<le> 4096"
  shows "ReadDelimited C \<lparr>rs_chunks = [concat ws], rs_end = e\<rparr> = Some (\<lparr>rs_chunks = [], rs_end = e\<rparr>, Inr m1) \<and>
    ReadDelimited C \<lparr>rs_chunks = [], rs_end = e\<rparr> = Some (\<lparr>rs_chunks = [], rs_end = e\<rparr>, Inl (''read len: '' @ e))"
proof -
  let ?e = "\<lparr>rs_chunks = [], rs_end = e\<rparr>" and ?s = "\<lparr>rs_chunks = [concat ws], rs_end = e\<rparr>"
  from concat_writes [OF assms(1)] obtain b1 where b1: "Marshal C m1 = Inr b1" "concat ws1 = frame b1" by auto
  from concat_writes [OF assms(2)] obtain b2 where ws: "concat ws = frame b1 @ frame b2" by (auto simp: b1)
  note c = assms(3) [OF b1(1)]
  have "length b1 \<le> length (frame b1)" by (simp add: frame_def)
  then have l: "length b1 < 2 ^ 63" using assms(4) ws by simp
  have "framed (NewReader ?s) (frame b1 @ frame b2) ?e"
    using framed_new [of "[concat ws]" "frame b1 @ frame b2" ?e] ws c by (auto simp: frame_def)
  from framed_ReadDelimited [OF this _ l, of C] c obtain r r1 where
    r: "framed r (frame b2) ?e" "ReadDelimited C ?s = Some (rd_src r, Inr m1)"
    "ReadUvarint (NewReader ?s) = (r1, Inr (word_of_nat (length b1)))" "read_full (length b1) False r1 = (r, Inr b1)" by auto
  have "pending (rd_src r1) = 0"
  proof -
    from ReadUvarint_pending [OF r(3)] obtain r0 x where "ReadByte (NewReader ?s) = (r0, Inr x)"
      "pending (rd_src r1) \<le> pending (rd_src r0)" by blast
    moreover from this(1) assms(4) have "pending (rd_src r0) = 0"
      by (auto simp: ReadByte_def NewReader_def fill_def stream_Read_def bufio_size_def pending_def split: if_splits)
    ultimately show ?thesis by simp
  qed
  with read_full_pending [OF r(4)] have "pending (rd_src r) = 0" by simp
  moreover from r(1) obtain ps where ps: "[] \<notin> set ps" "rd_src r = \<lparr>rs_chunks = ps, rs_end = e\<rparr>" by (auto simp: framed_def)
  ultimately have "ps = []" by (cases ps) (auto simp: pending_def)
  with ps(2) r(2) show ?thesis
    by (simp add: ReadDelimited_def ReadUvarint_def NewReader_def ReadByte_def fill_def stream_Read_def at_end_def
        numeral_eq_Suc)
qed

theorem coalesced_frame_lost_witness:
  "ReadDelimited byte_codec \<lparr>rs_chunks = [[1, 7, 1, 8]], rs_end = ''EOF''\<rparr> = Some (\<lparr>rs_chunks = [], rs_end = ''EOF''\<rparr>, Inr [7]) \<and>
   ReadDelimited byte_codec \<lparr>rs_chunks = [], rs_end = ''EOF''\<rparr> = Some (\<lparr>rs_chunks = [], rs_end = ''EOF''\<rparr>, Inl ''read len: EOF'')"
proof -
  have w: "WriteDelimited byte_codec (\<lambda>b w. (w @ [b], None)) [7] [] = ([[1], [7]], None)"
    "WriteDelimited byte_codec (\<lambda>b w. (w @ [b], None)) [8] [[1], [7]] = ([[1], [7], [1], [8]], None)"
    by (simp_all add: WriteDelimited_def byte_codec_def PutUvarint.simps word_le_nat_alt)
  show ?thesis using coalesced_frame_lost [OF w, of "''EOF''"] by (simp add: byte_codec_def)
qed

end
