(* ===== verification/FS_Messaging.thy ===== *)
theory FS_Messaging
  imports FS_Stream
begin

text \<open>
  \<open>common/messaging/utils.go\<close> and \<open>messaging.go\<close>: the choice of a transport address, and the request-response
  exchanges over a libp2p stream, with and without heartbeats.

  libp2p is a parameter, the record \<open>host\<close>: which protocols an address names, whether a peer can be reached at an
  address, which of the offered protocols it negotiates, whether a write is taken, and the pieces of the answer that
  arrive after the last of the writes made so far. A deadline that passes is an error of the stream. The message types of
  the envelopes are the parameter \<open>'m\<close>, their encodings are codecs. \<open>proto.Merge\<close> into the empty response of the
  callers is the response received. A call that does not return is \<open>None\<close>.
\<close>

section \<open>utils.go\<close>

text \<open>\<open>strings.Contains\<close>\<close>

fun Contains :: "string \<Rightarrow> string \<Rightarrow> bool" where
  "Contains [] t = (t = [])"
| "Contains (c # s) t = (take (length t) (c # s) = t \<or> Contains s t)"

record host =
  host_protocols :: "bytes \<Rightarrow> string list"
  host_String :: "bytes \<Rightarrow> string"
  host_Connect :: "bytes \<Rightarrow> bytes \<Rightarrow> string option"
  host_NewStream :: "bytes \<Rightarrow> string list \<Rightarrow> string + string"
  host_SetWriteDeadline :: "string option"
  host_SetReadDeadline :: "string option"
  host_Write :: "bytes list \<Rightarrow> bytes \<Rightarrow> string option"
  host_answer :: "string \<Rightarrow> bytes list \<Rightarrow> bytes list"
  host_end :: "string \<Rightarrow> bytes list \<Rightarrow> string"

definition HasProtocol :: "host \<Rightarrow> bytes \<Rightarrow> string \<Rightarrow> bool" where
  "HasProtocol H addr protocol \<longleftrightarrow> list_ex (\<lambda>p. Contains (ToLower p) (ToLower protocol)) (host_protocols H addr)"

definition FilterByTransport :: "host \<Rightarrow> bytes list \<Rightarrow> string \<Rightarrow> bytes list" where
  "FilterByTransport H addrs transport = filter (\<lambda>addr. HasProtocol H addr transport) addrs"

definition SelectTransportAddr :: "host \<Rightarrow> bytes list \<Rightarrow> u16 \<Rightarrow> string + bytes" where
  "SelectTransportAddr H addrs version0 =
     (if addrs = [] then Inl ''no addresses provided''
      else let version = (if version0 = 0 then 1 else version0);
               tcpAddrs = FilterByTransport H addrs ''tcp''; quicAddrs = FilterByTransport H addrs ''quic''
      in if version = 1
         then (case tcpAddrs of [] \<Rightarrow> Inl ''V1 requires TCP transport, but no TCP addresses found'' | a # _ \<Rightarrow> Inr a)
         else (case quicAddrs of q # _ \<Rightarrow> Inr q
           | [] \<Rightarrow> (case tcpAddrs of a # _ \<Rightarrow> Inr a | [] \<Rightarrow> Inl ''no suitable transport found (tried QUIC and TCP)'')))"

definition SelectTransportAddrWithFallback :: "host \<Rightarrow> bytes list \<Rightarrow> u16 \<Rightarrow> string + bytes \<times> bytes option" where
  "SelectTransportAddrWithFallback H addrs version0 =
     (if addrs = [] then Inl ''no addresses provided''
      else let version = (if version0 = 0 then 1 else version0);
               tcpAddrs = FilterByTransport H addrs ''tcp''; quicAddrs = FilterByTransport H addrs ''quic''
      in if version = 1
         then (case tcpAddrs of [] \<Rightarrow> Inl ''V1 requires TCP transport, but no TCP addresses found'' | a # _ \<Rightarrow> Inr (a, None))
         else (case quicAddrs of q # _ \<Rightarrow> Inr (q, case tcpAddrs of a # _ \<Rightarrow> Some a | [] \<Rightarrow> None)
           | [] \<Rightarrow> (case tcpAddrs of a # _ \<Rightarrow> Inr (a, None)
               | [] \<Rightarrow> Inl ''no suitable transport found (tried QUIC and TCP)'')))"

text \<open>The helper with the fallback chooses the same primary address.\<close>

lemma SelectTransportAddr_primary:
  "SelectTransportAddr H addrs v = map_sum id fst (SelectTransportAddrWithFallback H addrs v)"
  by (simp add: SelectTransportAddr_def SelectTransportAddrWithFallback_def Let_def split: list.splits)

text \<open>\<open>peer.AddrInfo\<close>\<close>

record AddrInfo =
  AddrInfo_ID :: bytes
  AddrInfo_Addrs :: "bytes list"

text \<open>\<open>ParseMultiaddrs\<close>: \<open>split\<close> is \<open>peer.AddrInfoFromP2pAddr\<close>; a nil address is skipped.\<close>

fun parse_addrs :: "host \<Rightarrow> (bytes \<Rightarrow> string + AddrInfo) \<Rightarrow> bytes option list \<Rightarrow> AddrInfo option \<Rightarrow> string + AddrInfo option" where
  "parse_addrs H split [] final = Inr final"
| "parse_addrs H split (None # parts) final = parse_addrs H split parts final"
| "parse_addrs H split (Some part # parts) final = (case split part of
     Inl err \<Rightarrow> Inl (''failed to extract peer info from '' @ [CHR 39] @ host_String H part @ [CHR 39] @ '': '' @ err)
   | Inr info \<Rightarrow> (case final of None \<Rightarrow> parse_addrs H split parts (Some info)
      | Some f \<Rightarrow> if AddrInfo_ID f \<noteq> AddrInfo_ID info
          then Inl (''peer ID mismatch: expected '' @ host_String H (AddrInfo_ID f) @ '', got '' @
            host_String H (AddrInfo_ID info) @ '' in address '' @ [CHR 39] @ host_String H part @ [CHR 39])
          else parse_addrs H split parts (Some (f\<lparr>AddrInfo_Addrs := AddrInfo_Addrs f @ AddrInfo_Addrs info\<rparr>))))"

definition ParseMultiaddrs :: "host \<Rightarrow> (bytes \<Rightarrow> string + AddrInfo) \<Rightarrow> bytes option list \<Rightarrow> string + AddrInfo" where
  "ParseMultiaddrs H split addrs = (if addrs = [] then Inl ''no addresses provided''
     else case parse_addrs H split addrs None of Inl e \<Rightarrow> Inl e
       | Inr final \<Rightarrow> (case final of None \<Rightarrow> Inl ''no valid addresses found''
          | Some f \<Rightarrow> if AddrInfo_Addrs f = [] then Inl ''no valid addresses found'' else Inr f))"

section \<open>Connections\<close>

text \<open>An open stream: its protocol, what was written to it, and what is still to be read.\<close>

record conn =
  conn_Protocol :: string
  conn_written :: "bytes list"
  conn_in :: rstream

definition stream_Write :: "host \<Rightarrow> bytes \<Rightarrow> conn \<Rightarrow> conn \<times> string option" where
  "stream_Write H b c = (case host_Write H (conn_written c) b of Some e \<Rightarrow> (c, Some e)
     | None \<Rightarrow> let ws = conn_written c @ [b]
         in (\<lparr>conn_Protocol = conn_Protocol c, conn_written = ws,
              conn_in = \<lparr>rs_chunks = rs_chunks (conn_in c) @ host_answer H (conn_Protocol c) ws,
                rs_end = host_end H (conn_Protocol c) ws\<rparr>\<rparr>, None))"

text \<open>The connection to the primary address and, from version 2 on, to the fallback.\<close>

definition connect :: "host \<Rightarrow> u16 \<Rightarrow> AddrInfo \<Rightarrow> string option" where
  "connect H version info = (case SelectTransportAddrWithFallback H (AddrInfo_Addrs info) version of
     Inl e \<Rightarrow> Some (''transport selection failed: '' @ e)
   | Inr (primary, fallback) \<Rightarrow> (case host_Connect H (AddrInfo_ID info) primary of None \<Rightarrow> None
      | Some e \<Rightarrow>
         let failed = Some (''failed to connect to peer '' @ host_String H (AddrInfo_ID info) @ '' at ['' @
               host_String H primary @ '']: '' @ e)
         in if 2 \<le> version
            then (case fallback of None \<Rightarrow> failed
              | Some fb \<Rightarrow> (case host_Connect H (AddrInfo_ID info) fb of None \<Rightarrow> None
                 | Some e' \<Rightarrow> Some (''failed to connect (QUIC and TCP fallback) to peer '' @
                     host_String H (AddrInfo_ID info) @ '': '' @ e')))
            else failed))"

text \<open>The common start of every exchange: checks, connection, stream and the request. \<open>what\<close> names the stream in the error.\<close>

definition open_stream :: "host option \<Rightarrow> u16 \<Rightarrow> AddrInfo \<Rightarrow> string list \<Rightarrow> string \<Rightarrow> string + host \<times> conn" where
  "open_stream h version info protocols what = (case h of None \<Rightarrow> Inl ''host is nil''
     | Some H \<Rightarrow>
        if AddrInfo_Addrs info = [] then Inl ''peer has no addresses''
        else case connect H version info of Some e \<Rightarrow> Inl e
          | None \<Rightarrow> (case host_NewStream H (AddrInfo_ID info) protocols of Inl e \<Rightarrow> Inl (what @ e)
             | Inr p \<Rightarrow> Inr (H, \<lparr>conn_Protocol = p, conn_written = [],
                 conn_in = \<lparr>rs_chunks = host_answer H p [], rs_end = host_end H p []\<rparr>\<rparr>)))"

definition write_request :: "host \<Rightarrow> 'req codec \<Rightarrow> 'req \<Rightarrow> conn \<Rightarrow> string + conn" where
  "write_request H C req c = (case host_SetWriteDeadline H of Some e \<Rightarrow> Inl (''failed to set write deadline: '' @ e)
     | None \<Rightarrow> (case WriteDelimited C (stream_Write H) req c of (_, Some e) \<Rightarrow> Inl (''failed to write request: '' @ e)
        | (c', None) \<Rightarrow> Inr c'))"

definition open_request :: "host option \<Rightarrow> u16 \<Rightarrow> AddrInfo \<Rightarrow> string list \<Rightarrow> string \<Rightarrow> 'req codec \<Rightarrow> 'req \<Rightarrow> string + host \<times> conn" where
  "open_request h version info protocols what C req = (case open_stream h version info protocols what of Inl e \<Rightarrow> Inl e
     | Inr (H, c) \<Rightarrow> (case write_request H C req c of Inl e \<Rightarrow> Inl e | Inr c' \<Rightarrow> Inr (H, c')))"

section \<open>One request, one response\<close>

definition SendProtoDelimited :: "host option \<Rightarrow> u16 \<Rightarrow> AddrInfo \<Rightarrow> string \<Rightarrow> 'req codec \<Rightarrow> 'resp codec \<Rightarrow> 'req \<Rightarrow>
    (string + 'resp) option" where
  "SendProtoDelimited h version info protocol C D req =
     (case open_request h version info [protocol] ''failed to create stream: '' C req of Inl e \<Rightarrow> Some (Inl e)
      | Inr (H, c) \<Rightarrow> (case host_SetReadDeadline H of Some e \<Rightarrow> Some (Inl (''failed to set read deadline: '' @ e))
         | None \<Rightarrow> (case ReadDelimited D (conn_in c) of None \<Rightarrow> None
            | Some (_, Inl e) \<Rightarrow> Some (Inl (''failed to read response: '' @ e))
            | Some (_, Inr m) \<Rightarrow> Some (Inr m))))"

section \<open>Heartbeats\<close>

text \<open>The \<open>oneof\<close> of a stream envelope; the timestamp of a heartbeat is not read.\<close>

datatype 'm envelope = EnvHeartbeat i64 | EnvResponse "'m option" | EnvUnset

text \<open>The callbacks of \<open>streamConfig\<close>; \<open>isFinal\<close> is nil in every use, the first response ends the exchange.\<close>

record ('e, 'm) streamConfig =
  cfg_codec :: "'e codec"
  cfg_isHeartbeat :: "'e \<Rightarrow> bool"
  cfg_mergeResponse :: "'e \<Rightarrow> string + 'm"

function heartbeat_loop :: "('e, 'm) streamConfig \<Rightarrow> host \<Rightarrow> rstream \<Rightarrow> (string + 'm) option" where
  "heartbeat_loop cfg H s = (case host_SetReadDeadline H of Some e \<Rightarrow> Some (Inl (''failed to set read deadline: '' @ e))
     | None \<Rightarrow> (case ReadDelimited (cfg_codec cfg) s of None \<Rightarrow> None
        | Some (s', Inl e) \<Rightarrow> Some (Inl (''failed to read stream message: '' @ e))
        | Some (s', Inr envelope) \<Rightarrow>
           if cfg_isHeartbeat cfg envelope then heartbeat_loop cfg H s' else Some (cfg_mergeResponse cfg envelope)))"
  by pat_completeness auto

termination heartbeat_loop
  by (relation "measure (\<lambda>(cfg, H, s). pending s)") (auto dest: ReadDelimited_pending)

declare heartbeat_loop.simps [simp del]

definition sendProtoDelimitedWithHeartbeatGeneric :: "host option \<Rightarrow> u16 \<Rightarrow> AddrInfo \<Rightarrow> string \<Rightarrow> 'req codec \<Rightarrow>
    ('e, 'm) streamConfig \<Rightarrow> 'req \<Rightarrow> (string + 'm) option" where
  "sendProtoDelimitedWithHeartbeatGeneric h version info protocol C cfg req =
     (case open_request h version info [protocol] ''failed to create stream: '' C req of Inl e \<Rightarrow> Some (Inl e)
      | Inr (H, c) \<Rightarrow> heartbeat_loop cfg H (conn_in c))"

text \<open>The configuration shared by the prior-sync, data-sync and PoTS streams; \<open>resp0\<close> is the response passed in.\<close>

definition envelope_config :: "'m envelope codec \<Rightarrow> 'm \<Rightarrow> ('m envelope, 'm) streamConfig" where
  "envelope_config D resp0 = \<lparr>cfg_codec = D,
     cfg_isHeartbeat = (\<lambda>e. case e of EnvHeartbeat _ \<Rightarrow> True | _ \<Rightarrow> False),
     cfg_mergeResponse = (\<lambda>e. case e of EnvResponse (Some m) \<Rightarrow> Inr m | EnvResponse None \<Rightarrow> Inr resp0
        | _ \<Rightarrow> Inl ''unexpected StreamMessage payload type: <nil>'')\<rparr>"

definition SendProtoDelimitedWithHeartbeat :: "host option \<Rightarrow> u16 \<Rightarrow> AddrInfo \<Rightarrow> string \<Rightarrow> 'req codec \<Rightarrow> 'm envelope codec \<Rightarrow> 'm \<Rightarrow>
    'req \<Rightarrow> (string + 'm) option" where
  "SendProtoDelimitedWithHeartbeat h version info protocol C D resp0 req =
     sendProtoDelimitedWithHeartbeatGeneric h version info protocol C (envelope_config D resp0) req"

definition SendDataSyncProtoDelimitedWithHeartbeat :: "host option \<Rightarrow> u16 \<Rightarrow> AddrInfo \<Rightarrow> string \<Rightarrow> 'req codec \<Rightarrow>
    'm envelope codec \<Rightarrow> 'm \<Rightarrow> 'req \<Rightarrow> (string + 'm) option" where
  "SendDataSyncProtoDelimitedWithHeartbeat h version info protocol C D resp0 req =
     sendProtoDelimitedWithHeartbeatGeneric h version info protocol C (envelope_config D resp0) req"

definition SendPoTSProtoDelimitedWithHeartbeat :: "host option \<Rightarrow> u16 \<Rightarrow> AddrInfo \<Rightarrow> string \<Rightarrow> 'req codec \<Rightarrow>
    'm envelope codec \<Rightarrow> 'm \<Rightarrow> 'req \<Rightarrow> (string + 'm) option" where
  "SendPoTSProtoDelimitedWithHeartbeat h version info protocol C D resp0 req =
     sendProtoDelimitedWithHeartbeatGeneric h version info protocol C (envelope_config D resp0) req"

section \<open>Header sync: two wire formats\<close>

definition HeaderSyncProtocolV2 :: string where "HeaderSyncProtocolV2 = ''/fastsync/v2/headersync''"

text \<open>The negotiated protocol decides how the answer is read: an envelope with heartbeats, or one bare response.\<close>

definition SendHeaderSyncProtoDelimitedWithHeartbeat :: "host option \<Rightarrow> u16 \<Rightarrow> AddrInfo \<Rightarrow> string \<Rightarrow> 'req codec \<Rightarrow>
    'm envelope codec \<Rightarrow> 'm codec \<Rightarrow> 'm \<Rightarrow> 'req \<Rightarrow> (string + 'm) option" where
  "SendHeaderSyncProtoDelimitedWithHeartbeat h version info protocol C D bare resp0 req =
     (case open_request h version info [HeaderSyncProtocolV2, protocol] ''failed to create header-sync stream: '' C req of
        Inl e \<Rightarrow> Some (Inl e)
      | Inr (H, c) \<Rightarrow>
         if conn_Protocol c \<noteq> HeaderSyncProtocolV2
         then (case host_SetReadDeadline H of Some e \<Rightarrow> Some (Inl (''failed to set read deadline: '' @ e))
           | None \<Rightarrow> (case ReadDelimited bare (conn_in c) of None \<Rightarrow> None
              | Some (_, Inl e) \<Rightarrow> Some (Inl (''failed to read legacy (v1) header-sync response: '' @ e))
              | Some (_, Inr m) \<Rightarrow> Some (Inr m)))
         else heartbeat_loop \<lparr>cfg_codec = D, cfg_isHeartbeat = (\<lambda>e. case e of EnvHeartbeat _ \<Rightarrow> True | _ \<Rightarrow> False),
              cfg_mergeResponse = (\<lambda>e. case e of EnvResponse (Some m) \<Rightarrow> Inr m | EnvResponse None \<Rightarrow> Inr resp0
                | _ \<Rightarrow> Inl ''unexpected HeaderSyncStreamMessage payload type: <nil>'')\<rparr> H (conn_in c))"

end
