(* ===== verification/FS_Comm.thy ===== *)
theory FS_Comm
  imports FS_Router FS_Messaging
begin

text \<open>
  \<open>core/protocol/communication/communication.go\<close>, the client side of the protocol, and \<open>core/sync/sync_protocols.go\<close>,
  the stream handlers of the server: what is read from a stream, handed to the data router, and written back, with the
  heartbeats of the long-running requests. The account streams are in \<open>FS_AccountsWire\<close>.

  A stream handler takes the router's state, what arrives on the stream and a writer, and returns the new state and the
  state of the writer. The ticks that happen while the router computes, and those after its answer, are lists of
  timestamps: the schedule is arbitrary. The encodings of the messages are the record \<open>wire\<close>.
\<close>

section \<open>Messages\<close>

definition PriorSyncProtocol :: string where "PriorSyncProtocol = ''/fastsync/v1/priorsync''"
definition AvailabilityProtocol :: string where "AvailabilityProtocol = ''/fastsync/v1/availability''"
definition MerkleProtocol :: string where "MerkleProtocol = ''/fastsync/v1/merkle''"
definition HeaderSyncProtocol :: string where "HeaderSyncProtocol = ''/fastsync/v1/headersync''"
definition DataSyncProtocol :: string where "DataSyncProtocol = ''/fastsync/v1/datasync''"
definition PoTSProtocol :: string where "PoTSProtocol = ''/fastsync/v1/pots''"

record 'b wire =
  wire_prior :: "PriorSyncMessage codec"
  wire_prior_env :: "PriorSyncMessage envelope codec"
  wire_merkle_req :: "MerkleRequestMessage codec"
  wire_merkle :: "MerkleMessage codec"
  wire_header_req :: "HeaderSyncRequest codec"
  wire_header :: "HeaderSyncResponse codec"
  wire_header_env :: "HeaderSyncResponse envelope codec"
  wire_data_req :: "DataSyncRequest codec"
  wire_data_env :: "'b DataSyncResponse envelope codec"
  wire_avail_req :: "AvailabilityRequest codec"
  wire_avail :: "NodeInfo option AvailabilityResponse codec"
  wire_pots_req :: "PoTSRequest codec"
  wire_pots_env :: "PoTSResponse envelope codec"

text \<open>The zero responses passed to the heartbeat senders.\<close>

definition empty_PriorSyncMessage :: PriorSyncMessage where
  "empty_PriorSyncMessage = \<lparr>PriorSyncMessage_Priorsync = None, PriorSyncMessage_Ack = None, PriorSyncMessage_Phase = None,
     PriorSyncMessage_Headersync = None\<rparr>"

definition empty_HeaderSyncResponse :: HeaderSyncResponse where
  "empty_HeaderSyncResponse = \<lparr>HeaderSyncResponse_Header = [], HeaderSyncResponse_Ack = None, HeaderSyncResponse_Phase = None\<rparr>"

definition empty_DataSyncResponse :: "'b DataSyncResponse" where
  "empty_DataSyncResponse = \<lparr>DataSyncResponse_Data = [], DataSyncResponse_Version = 0, DataSyncResponse_Taggedaccounts = None,
     DataSyncResponse_Ack = None, DataSyncResponse_Phase = None\<rparr>"

definition empty_PoTSResponse :: PoTSResponse where
  "empty_PoTSResponse = \<lparr>PoTSResponse_Tag = None, PoTSResponse_LatestBlockNumber = 0, PoTSResponse_Phase = None\<rparr>"

section \<open>communication.go\<close>

record communication =
  comm_host :: "host option"
  comm_protocolVersion :: u16

definition NewCommunication :: "host option \<Rightarrow> u16 \<Rightarrow> communication" where
  "NewCommunication host protocolVersion = \<lparr>comm_host = host, comm_protocolVersion = protocolVersion\<rparr>"

definition addr_info :: "'x Nodeinfo \<Rightarrow> AddrInfo" where
  "addr_info peer = \<lparr>AddrInfo_ID = Nodeinfo_PeerID peer, AddrInfo_Addrs = Nodeinfo_Multiaddr peer\<rparr>"

text \<open>The request that is sent for \<open>data\<close>: its checksum and version, the snapshot of the caller, and the phase of a sync
  request. The getters of a missing message give zero values.\<close>

definition prior_request :: "MerkleSnapshot \<Rightarrow> PriorSyncMessage \<Rightarrow> PriorSyncMessage" where
  "prior_request snapshot data =
     (let ps = (case PriorSyncMessage_Priorsync data of Some p \<Rightarrow> p
           | None \<Rightarrow> \<lparr>PriorSync_Blocknumber = 0, PriorSync_Stateroot = [], PriorSync_Blockhash = [], PriorSync_Metadata = None,
               PriorSync_Merklesnapshot = None, PriorSync_Range = None\<rparr>);
          md = (case PriorSync_Metadata ps of Some m \<Rightarrow> m | None \<Rightarrow> empty_Metadata);
          ph = (case PriorSyncMessage_Phase data of Some p \<Rightarrow> p | None \<Rightarrow> empty_Phase)
      in \<lparr>PriorSyncMessage_Priorsync = Some \<lparr>PriorSync_Blocknumber = PriorSync_Blocknumber ps,
             PriorSync_Stateroot = PriorSync_Stateroot ps, PriorSync_Blockhash = PriorSync_Blockhash ps,
             PriorSync_Metadata = Some (empty_Metadata\<lparr>Metadata_Checksum := Metadata_Checksum md, Metadata_Version := Metadata_Version md\<rparr>),
             PriorSync_Merklesnapshot = Some snapshot,
             PriorSync_Range = map_option (\<lambda>r. \<lparr>Range_Start = Range_Start r, Range_End = Range_End r\<rparr>) (PriorSync_Range ps)\<rparr>,
           PriorSyncMessage_Ack = None,
           PriorSyncMessage_Phase = Some (ph\<lparr>Phase_PresentPhase := SYNC_REQUEST_PHASE,
             Phase_SuccessivePhase := SYNC_REQUEST_RESPONSE, Phase_Success := True\<rparr>),
           PriorSyncMessage_Headersync = None\<rparr>)"

definition SendPriorSync :: "communication \<Rightarrow> 'b wire \<Rightarrow> MerkleSnapshot option \<Rightarrow> 'x Nodeinfo \<Rightarrow> PriorSyncMessage \<Rightarrow>
    (string + PriorSyncMessage) option" where
  "SendPriorSync c Wr merkle_snapshot peer data =
     (if comm_host c = None then Some (Inl ''host is nil'')
      else case merkle_snapshot of None \<Rightarrow> Some (Inl ''merkle is nil'')
      | Some snapshot \<Rightarrow>
         (case SendProtoDelimitedWithHeartbeat (comm_host c) (comm_protocolVersion c) (addr_info peer) PriorSyncProtocol
             (wire_prior Wr) (wire_prior_env Wr) empty_PriorSyncMessage (prior_request snapshot data) of
            None \<Rightarrow> None
          | Some (Inl e) \<Rightarrow> Some (Inl (''failed to send priorsync: '' @ e))
          | Some (Inr resp) \<Rightarrow> Some (case PriorSyncMessage_Ack resp of None \<Rightarrow> Inl ''no acknowledgment received''
              | Some a \<Rightarrow> if Ack_Ok a then Inr resp else Inl (''sync failed: '' @ Ack_Error a))))"

definition relabel :: "string \<Rightarrow> (string + 'm) option \<Rightarrow> (string + 'm) option" where
  "relabel what = map_option (map_sum ((@) what) id)"

definition SendMerkleRequest_comm :: "communication \<Rightarrow> 'b wire \<Rightarrow> 'x Nodeinfo \<Rightarrow> MerkleRequestMessage \<Rightarrow> (string + MerkleMessage) option" where
  "SendMerkleRequest_comm c Wr peer req = (if comm_host c = None then Some (Inl ''host is nil'')
     else relabel ''failed to send merkle request: '' (SendProtoDelimited (comm_host c) (comm_protocolVersion c) (addr_info peer)
       MerkleProtocol (wire_merkle_req Wr) (wire_merkle Wr) req))"

definition SendHeaderSyncRequest :: "communication \<Rightarrow> 'b wire \<Rightarrow> 'x Nodeinfo \<Rightarrow> HeaderSyncRequest \<Rightarrow> (string + HeaderSyncResponse) option" where
  "SendHeaderSyncRequest c Wr peer req = (if comm_host c = None then Some (Inl ''host is nil'')
     else relabel ''failed to send header sync request: '' (SendHeaderSyncProtoDelimitedWithHeartbeat (comm_host c)
       (comm_protocolVersion c) (addr_info peer) HeaderSyncProtocol (wire_header_req Wr) (wire_header_env Wr) (wire_header Wr)
       empty_HeaderSyncResponse req))"

definition SendDataSyncRequest :: "communication \<Rightarrow> 'b wire \<Rightarrow> 'x Nodeinfo \<Rightarrow> DataSyncRequest \<Rightarrow> (string + 'b DataSyncResponse) option" where
  "SendDataSyncRequest c Wr peer req = (if comm_host c = None then Some (Inl ''host is nil'')
     else relabel ''failed to send data sync request: '' (SendDataSyncProtoDelimitedWithHeartbeat (comm_host c)
       (comm_protocolVersion c) (addr_info peer) DataSyncProtocol (wire_data_req Wr) (wire_data_env Wr) empty_DataSyncResponse req))"

definition SendAvailabilityRequest_comm :: "communication \<Rightarrow> 'b wire \<Rightarrow> 'x Nodeinfo \<Rightarrow> AvailabilityRequest \<Rightarrow>
    (string + NodeInfo option AvailabilityResponse) option" where
  "SendAvailabilityRequest_comm c Wr peer req = (if comm_host c = None then Some (Inl ''host is nil'')
     else relabel ''failed to send availability request: '' (SendProtoDelimited (comm_host c) (comm_protocolVersion c)
       (addr_info peer) AvailabilityProtocol (wire_avail_req Wr) (wire_avail Wr) req))"

definition SendPoTSRequest :: "communication \<Rightarrow> 'b wire \<Rightarrow> 'x Nodeinfo \<Rightarrow> PoTSRequest \<Rightarrow> (string + PoTSResponse) option" where
  "SendPoTSRequest c Wr peer req = (if comm_host c = None then Some (Inl ''host is nil'')
     else relabel ''failed to send pots request: '' (SendPoTSProtoDelimitedWithHeartbeat (comm_host c) (comm_protocolVersion c)
       (addr_info peer) PoTSProtocol (wire_pots_req Wr) (wire_pots_env Wr) empty_PoTSResponse req))"

section \<open>sync_protocols.go\<close>

text \<open>A handler without heartbeats; \<open>cancelled\<close> says that the context was cancelled before it started.\<close>

definition plain_handler :: "'req codec \<Rightarrow> 'resp codec \<Rightarrow> (bytes \<Rightarrow> 'w \<Rightarrow> 'w \<times> string option) \<Rightarrow>
    ('req \<Rightarrow> 's \<Rightarrow> ('s \<times> 'resp) option) \<Rightarrow> bool \<Rightarrow> rstream \<Rightarrow> 's \<Rightarrow> 'w \<Rightarrow> ('s \<times> 'w) option" where
  "plain_handler C D W handle cancelled str s w =
     (if cancelled then Some (s, w)
      else case ReadDelimited C str of None \<Rightarrow> None
        | Some (_, Inl _) \<Rightarrow> Some (s, w)
        | Some (_, Inr req) \<Rightarrow> (case handle req s of None \<Rightarrow> None
           | Some (s', resp) \<Rightarrow> Some (s', fst (WriteDelimited D W resp w))))"

text \<open>The goroutine that writes the heartbeats stops at the first write that fails; the flag says that it still runs.\<close>

fun beat :: "'m envelope codec \<Rightarrow> (bytes \<Rightarrow> 'w \<Rightarrow> 'w \<times> string option) \<Rightarrow> i64 list \<Rightarrow> 'w \<Rightarrow> 'w \<times> bool" where
  "beat D W [] w = (w, True)"
| "beat D W (t # ts) w = (case WriteDelimited D W (EnvHeartbeat t) w of (w', Some _) \<Rightarrow> (w', False) | (w', None) \<Rightarrow> beat D W ts w')"

text \<open>A failed heartbeat also cancels the context of the router; its handlers are modelled without cancellation.\<close>

definition heartbeat_handler :: "'req codec \<Rightarrow> 'resp envelope codec \<Rightarrow> (bytes \<Rightarrow> 'w \<Rightarrow> 'w \<times> string option) \<Rightarrow>
    ('req \<Rightarrow> 's \<Rightarrow> ('s \<times> 'resp) option) \<Rightarrow> i64 list \<Rightarrow> i64 list \<Rightarrow> bool \<Rightarrow> rstream \<Rightarrow> 's \<Rightarrow> 'w \<Rightarrow> ('s \<times> 'w) option" where
  "heartbeat_handler C D W handle beats late cancelled str s w =
     (if cancelled then Some (s, w)
      else case ReadDelimited C str of None \<Rightarrow> None
        | Some (_, Inl _) \<Rightarrow> Some (s, w)
        | Some (_, Inr req) \<Rightarrow> (case handle req s of None \<Rightarrow> None
           | Some (s', resp) \<Rightarrow> (let (w1, running) = beat D W beats w;
                w2 = fst (WriteDelimited D W (EnvResponse (Some resp)) w1)
              in Some (s', if running then fst (beat D W late w2) else w2))))"

definition HandleAvailability_stream :: "('a, 'r, 't) router_env \<Rightarrow> 'y wire \<Rightarrow> (bytes \<Rightarrow> 'w \<Rightarrow> 'w \<times> string option) \<Rightarrow> bytes \<Rightarrow>
    bool \<Rightarrow> rstream \<Rightarrow> ('a, 'b, 'r) Datarouter \<Rightarrow> 'w \<Rightarrow> (('a, 'b, 'r) Datarouter \<times> 'w) option" where
  "HandleAvailability_stream E Wr W peer = plain_handler (wire_avail_req Wr) (wire_avail Wr) W (\<lambda>req. HandleAvailability E req peer)"

definition HandlePriorSync_stream :: "('a, 'r, 't) router_env \<Rightarrow> 'y wire \<Rightarrow> (bytes \<Rightarrow> 'w \<Rightarrow> 'w \<times> string option) \<Rightarrow> bytes \<Rightarrow>
    i64 list \<Rightarrow> i64 list \<Rightarrow> bool \<Rightarrow> rstream \<Rightarrow> ('a, 'b, 'r) Datarouter \<Rightarrow> 'w \<Rightarrow> (('a, 'b, 'r) Datarouter \<times> 'w) option" where
  "HandlePriorSync_stream E Wr W peer = heartbeat_handler (wire_prior Wr) (wire_prior_env Wr) W (\<lambda>req. HandlePriorSync E req peer)"

definition HandleMerkle_stream :: "('a, 'r, 't) router_env \<Rightarrow> 'y wire \<Rightarrow> (bytes \<Rightarrow> 'w \<Rightarrow> 'w \<times> string option) \<Rightarrow> bytes \<Rightarrow>
    bool \<Rightarrow> rstream \<Rightarrow> ('a, 'b, 'r) Datarouter \<Rightarrow> 'w \<Rightarrow> (('a, 'b, 'r) Datarouter \<times> 'w) option" where
  "HandleMerkle_stream E Wr W peer = plain_handler (wire_merkle_req Wr) (wire_merkle Wr) W (\<lambda>req. HandleMerkle E (Some req) peer)"

text \<open>The two handlers of header sync: the envelope protocol and the bare one.\<close>

definition HandleHeaderSync_stream :: "('a, 'r, 't) router_env \<Rightarrow> 'y wire \<Rightarrow> (bytes \<Rightarrow> 'w \<Rightarrow> 'w \<times> string option) \<Rightarrow> bytes \<Rightarrow>
    i64 list \<Rightarrow> i64 list \<Rightarrow> bool \<Rightarrow> rstream \<Rightarrow> ('a, 'b, 'r) Datarouter \<Rightarrow> 'w \<Rightarrow> (('a, 'b, 'r) Datarouter \<times> 'w) option" where
  "HandleHeaderSync_stream E Wr W peer =
     heartbeat_handler (wire_header_req Wr) (wire_header_env Wr) W (\<lambda>req. HandleHeaderSync E req peer)"

definition HandleHeaderSync_v1_stream :: "('a, 'r, 't) router_env \<Rightarrow> 'y wire \<Rightarrow> (bytes \<Rightarrow> 'w \<Rightarrow> 'w \<times> string option) \<Rightarrow> bytes \<Rightarrow>
    bool \<Rightarrow> rstream \<Rightarrow> ('a, 'b, 'r) Datarouter \<Rightarrow> 'w \<Rightarrow> (('a, 'b, 'r) Datarouter \<times> 'w) option" where
  "HandleHeaderSync_v1_stream E Wr W peer = plain_handler (wire_header_req Wr) (wire_header Wr) W (\<lambda>req. HandleHeaderSync E req peer)"

definition HandleDataSync_stream :: "('a, 'r, 't) router_env \<Rightarrow> 'b wire \<Rightarrow> (bytes \<Rightarrow> 'w \<Rightarrow> 'w \<times> string option) \<Rightarrow> bytes \<Rightarrow>
    i64 list \<Rightarrow> i64 list \<Rightarrow> bool \<Rightarrow> rstream \<Rightarrow> ('a, 'b, 'r) Datarouter \<Rightarrow> 'w \<Rightarrow> (('a, 'b, 'r) Datarouter \<times> 'w) option" where
  "HandleDataSync_stream E Wr W peer = heartbeat_handler (wire_data_req Wr) (wire_data_env Wr) W (\<lambda>req. HandleDataSync E req peer)"

definition HandlePoTSSync_stream :: "('a, 'r, 't) router_env \<Rightarrow> 'y wire \<Rightarrow> (bytes \<Rightarrow> 'w \<Rightarrow> 'w \<times> string option) \<Rightarrow> bytes \<Rightarrow>
    i64 list \<Rightarrow> i64 list \<Rightarrow> bool \<Rightarrow> rstream \<Rightarrow> ('a, 'b, 'r) Datarouter \<Rightarrow> 'w \<Rightarrow> (('a, 'b, 'r) Datarouter \<times> 'w) option" where
  "HandlePoTSSync_stream E Wr W peer = heartbeat_handler (wire_pots_req Wr) (wire_pots_env Wr) W (\<lambda>req. HandlePoTSync E req peer)"

end
