(* ===== verification/FS_Wire_Props.thy ===== *)
theory FS_Wire_Props
  imports FS_Comm FS_Router_Props FS_HeaderSync
begin

text \<open>
  Client and server together. A prior-sync request that the client sends reaches the server's handler unchanged, the
  heartbeats in between are skipped, and the client returns the router's answer; the checksum the client computes is the
  one the server checks; and the client reads the answer as a confirmation exactly when the trees have the same root.
\<close>

section \<open>An exchange with heartbeats\<close>

definition good_codec :: "'m codec \<Rightarrow> bool" where
  "good_codec C \<longleftrightarrow> (\<forall>m b. Marshal C m = Inr b \<longrightarrow> Unmarshal C b = Inr m \<and> b \<noteq> [] \<and> length b < 2 ^ 63)"

text \<open>The writer of an intact connection records the writes.\<close>

definition net_write :: "bytes \<Rightarrow> bytes list \<Rightarrow> bytes list \<times> string option" where
  "net_write b w = (w @ [b], None)"

text \<open>The pieces \<open>ps\<close> deliver the written frames, each a length and a body, with no piece shared by two frames.\<close>

fun aligned :: "bytes list \<Rightarrow> bytes list \<Rightarrow> bool" where
  "aligned ps [] = (ps = [])"
| "aligned ps [l] = False"
| "aligned ps (l # b # ws) = (\<exists>n\<le>length ps. concat (take n ps) = l @ b \<and> [] \<notin> set (take n ps) \<and> aligned (drop n ps) ws)"

definition frame_writes :: "'m codec \<Rightarrow> 'm \<Rightarrow> bytes list" where
  "frame_writes C m = (case Marshal C m of Inl _ \<Rightarrow> [] | Inr b \<Rightarrow> [PutUvarint (word_of_nat (length b)), b])"

lemma WriteDelimited_net: "\<not> isl (Marshal C m) \<Longrightarrow> WriteDelimited C net_write m w = (w @ frame_writes C m, None)"
  by (cases "Marshal C m") (auto simp: WriteDelimited_def net_write_def frame_writes_def)

lemma beat_net: "\<forall>t\<in>set ts. \<not> isl (Marshal D (EnvHeartbeat t)) \<Longrightarrow>
    beat D net_write ts w = (w @ concat (map (\<lambda>t. frame_writes D (EnvHeartbeat t)) ts), True)"
  by (induction ts arbitrary: w) (simp_all add: WriteDelimited_net)

lemma ReadDelimited_aligned:
  assumes "good_codec C" "\<not> isl (Marshal C m)" "aligned ps (frame_writes C m @ ws)"
  shows "\<exists>ps'. aligned ps' ws \<and> ReadDelimited C \<lparr>rs_chunks = ps, rs_end = e\<rparr> = Some (\<lparr>rs_chunks = ps', rs_end = e\<rparr>, Inr m)"
proof -
  from assms(2) obtain b where b: "Marshal C m = Inr b" by (cases "Marshal C m") auto
  with assms(3) obtain n where n: "concat (take n ps) = frame b" "[] \<notin> set (take n ps)" "aligned (drop n ps) ws"
    by (auto simp: frame_writes_def frame_def)
  from assms(1) b have c: "Unmarshal C b = Inr m" "b \<noteq> []" "length b < 2 ^ 63" by (auto simp: good_codec_def)
  from ReadDelimited_frame [OF c n(1,2), of "\<lparr>rs_chunks = drop n ps, rs_end = e\<rparr>"] n(3) show ?thesis by auto
qed

lemma heartbeat_loop_aligned:
  assumes D: "good_codec D" "\<not> isl (Marshal D (EnvResponse (Some m)))" and H: "host_SetReadDeadline H = None"
  shows "\<forall>t\<in>set ts. \<not> isl (Marshal D (EnvHeartbeat t)) \<Longrightarrow> aligned ps (concat (map (\<lambda>t. frame_writes D (EnvHeartbeat t)) ts) @ frame_writes D (EnvResponse (Some m)) @ ws) \<Longrightarrow>
    heartbeat_loop (envelope_config D m0) H \<lparr>rs_chunks = ps, rs_end = e\<rparr> = Some (Inr m)"
proof (induction ts arbitrary: ps)
  case Nil
  with ReadDelimited_aligned [OF D, of ps ws e] H show ?case
    by (subst heartbeat_loop.simps) (auto simp: envelope_config_def)
next
  case (Cons t ts)
  with ReadDelimited_aligned [OF D(1), of "EnvHeartbeat t" ps _ e] obtain ps' where
    "aligned ps' (concat (map (\<lambda>t. frame_writes D (EnvHeartbeat t)) ts) @ frame_writes D (EnvResponse (Some m)) @ ws)"
    "ReadDelimited D \<lparr>rs_chunks = ps, rs_end = e\<rparr> = Some (\<lparr>rs_chunks = ps', rs_end = e\<rparr>, Inr (EnvHeartbeat t))" by fastforce
  with Cons.IH Cons.prems(1) H show ?case by (subst heartbeat_loop.simps) (simp add: envelope_config_def)
qed

text \<open>A peer that can be reached on a protocol, over a connection that takes every write.\<close>

definition reaches :: "host \<Rightarrow> u16 \<Rightarrow> AddrInfo \<Rightarrow> string list \<Rightarrow> string \<Rightarrow> bool" where
  "reaches H v info offered p \<longleftrightarrow> AddrInfo_Addrs info \<noteq> [] \<and> connect H v info = None \<and>
     host_NewStream H (AddrInfo_ID info) offered = Inr p \<and> host_SetWriteDeadline H = None \<and> host_SetReadDeadline H = None \<and>
     (\<forall>ws b. host_Write H ws b = None)"

definition all_answers :: "host \<Rightarrow> string \<Rightarrow> bytes list \<Rightarrow> bytes list" where
  "all_answers H p ws = concat (map (\<lambda>n. host_answer H p (take n ws)) [0 ..< Suc (length ws)])"

lemma open_request_reaches:
  assumes "reaches H v info [p] p" "\<not> isl (Marshal C req)"
  shows "open_request (Some H) v info [p] what C req = Inr (H, \<lparr>conn_Protocol = p, conn_written = frame_writes C req,
    conn_in = \<lparr>rs_chunks = all_answers H p (frame_writes C req), rs_end = host_end H p (frame_writes C req)\<rparr>\<rparr>)"
proof -
  from assms(2) obtain b where b: "Marshal C req = Inr b" by (cases "Marshal C req") auto
  show ?thesis using assms(1) b
    by (simp add: reaches_def open_request_def open_stream_def write_request_def WriteDelimited_def stream_Write_def Let_def
        frame_writes_def all_answers_def upt_rec)
qed

text \<open>One exchange: what the client gets is what the handler answered, whatever heartbeats were sent before and after.\<close>

lemma heartbeat_exchange:
  assumes "reaches H v info [p] p" "good_codec C" "good_codec D" "Marshal C req = Inr q"
    and "\<forall>t\<in>set (beats @ late). \<not> isl (Marshal D (EnvHeartbeat t))"
    and "\<forall>s' resp. handle req s = Some (s', resp) \<longrightarrow> \<not> isl (Marshal D (EnvResponse (Some resp)))"
    and "concat (rs_chunks str) = frame q" "[] \<notin> set (rs_chunks str)"
    and "heartbeat_handler C D net_write handle beats late False str s [] = Some (s', out)"
    and "aligned (all_answers H p (frame_writes C req)) out"
  shows "\<exists>resp. handle req s = Some (s', resp) \<and>
    sendProtoDelimitedWithHeartbeatGeneric (Some H) v info p C (envelope_config D m0) req = Some (Inr resp)"
proof -
  have c: "Unmarshal C q = Inr req" "q \<noteq> []" "length q < 2 ^ 63" using assms(2,4) by (auto simp: good_codec_def)
  have "ReadDelimited C str = Some (str\<lparr>rs_chunks := []\<rparr>, Inr req)"
    using ReadDelimited_frame [OF c assms(7,8), of "str\<lparr>rs_chunks := []\<rparr>"] by simp
  with assms(9) obtain resp where resp: "handle req s = Some (s', resp)" and
    out: "out = fst (beat D net_write late (fst (WriteDelimited D net_write (EnvResponse (Some resp)) (fst (beat D net_write beats [])))))"
    using assms(5) by (auto simp: heartbeat_handler_def beat_net split: option.splits)
  note R = assms(6) [rule_format, OF resp]
  have "out = concat (map (\<lambda>t. frame_writes D (EnvHeartbeat t)) beats) @ frame_writes D (EnvResponse (Some resp)) @
      concat (map (\<lambda>t. frame_writes D (EnvHeartbeat t)) late)"
    using assms(5) by (simp add: out WriteDelimited_net [OF R] beat_net)
  with assms(10) have al: "aligned (all_answers H p (frame_writes C req)) (concat (map (\<lambda>t. frame_writes D (EnvHeartbeat t)) beats) @
      frame_writes D (EnvResponse (Some resp)) @ concat (map (\<lambda>t. frame_writes D (EnvHeartbeat t)) late))" by simp
  have "host_SetReadDeadline H = None" using assms(1) by (simp add: reaches_def)
  from heartbeat_loop_aligned [OF assms(3) R this _ al] open_request_reaches [OF assms(1), of C req] assms(4,5) resp
  show ?thesis by (simp add: sendProtoDelimitedWithHeartbeatGeneric_def)
qed

section \<open>The checksum across the wire\<close>

text \<open>The prior-sync data the server gets from a client at \<open>d\<close>.\<close>

definition sent_prior :: "MerkleSnapshot \<Rightarrow> PriorSync_details \<Rightarrow> Range \<Rightarrow> bytes \<Rightarrow> PriorSync_pb" where
  "sent_prior snapshot d rng c = \<lparr>PriorSync_Blocknumber = Details_Blocknumber d, PriorSync_Stateroot = Details_Stateroot d,
     PriorSync_Blockhash = Details_Blockhash d,
     PriorSync_Metadata = Some (empty_Metadata\<lparr>Metadata_Checksum := c, Metadata_Version := ucast (Details_Version d)\<rparr>),
     PriorSync_Merklesnapshot = Some snapshot, PriorSync_Range = Some rng\<rparr>"

lemma version_roundtrip: "ucast (ucast (v :: u16) :: u32) = v"
  by (rule bit_word_eqI) (auto simp: bit_simps)

text \<open>Neither the snapshot nor the metadata is part of what is hashed, so the checksum of the message holds for the request.\<close>

lemma buildPriorSyncMsg_fields:
  assumes "buildPriorSyncMsg marshal d rng (Some a) = Inr data"
  shows "\<exists>c. CreatefromPB marshal (sent_prior snapshot d rng c) (Details_Version d) = Inr c \<and>
    PriorSyncMessage_Priorsync (prior_request snapshot data) = Some (sent_prior snapshot d rng c) \<and>
    PriorSyncMessage_Phase (prior_request snapshot data) = Some (phase SYNC_REQUEST_PHASE SYNC_REQUEST_RESPONSE True [] (Some a))"
  using assms
  by (auto simp: buildPriorSyncMsg_def Let_def CreatefromPB_def sent_prior_def prior_request_def phase_def empty_Phase_def
      split: sum.splits if_splits)

text \<open>With a token and above the range of the full sync, the handler is the comparison of the trees.\<close>

lemma prior_sync_compares:
  assumes "buildPriorSyncMsg (env_marshal E) d rng (Some a) = Inr data" "token_valid E client a s" "block_info s = Some B"
    and "MIN_BLOCKS < Details_Blocknumber d" "ProtoToMerkleSnapshot (Some snapshot) = Some (Some sn)"
    and "FromSnapshot (env_tree E) (Some sn) = Inr target" "clip_range (GetBlockNumber B) (Some rng) = rng'"
  obtains ps st where "HandlePriorSync E (prior_request snapshot data) client s =
    (case compare_trees E B (Some sn) target ps rng' (DR_clientGeneratedUUID s) of None \<Rightarrow> None
     | Some (uuid, msg) \<Rightarrow> Some (s\<lparr>DR_auth := st, DR_clientGeneratedUUID := uuid\<rparr>, echo_auth (Some a) msg))"
proof -
  let ?req = "prior_request snapshot data"
  from buildPriorSyncMsg_fields [OF assms(1)] obtain c where
    c: "CreatefromPB (env_marshal E) (sent_prior snapshot d rng c) (Details_Version d) = Inr c"
    and req: "PriorSyncMessage_Priorsync ?req = Some (sent_prior snapshot d rng c)"
      "PriorSyncMessage_Phase ?req = Some (phase SYNC_REQUEST_PHASE SYNC_REQUEST_RESPONSE True [] (Some a))"
    by blast
  let ?P = "sent_prior snapshot d rng c"
  obtain st where st: "Authenticate E (Some a) client s = Some (s\<lparr>DR_auth := st\<rparr>, Inr True)" "\<not> no_token (Some a)"
    using assms(2,3) by (rule token_validE)
  have chk: "check_request E (s\<lparr>DR_auth := st\<rparr>) ?P = Some (Inr B)"
    using c assms(3) by (auto simp: check_request_def VerifyfromPB_iff sent_prior_def version_roundtrip block_info_def split: option.splits)
  have sel: "\<not> PriorSync_Blocknumber ?P \<le> MIN_BLOCKS" "PriorSync_Merklesnapshot ?P = Some snapshot" "PriorSync_Range ?P = Some rng"
    using assms(4) by (simp_all add: sent_prior_def not_le)
  have rec: "ReconstructTree (env_tree E) (Some sn) = Inr target" by (simp add: ReconstructTree_def assms(6))
  let ?ps = "?P\<lparr>PriorSync_Range := Some rng'\<rparr>"
  have S: "SYNC_REQUEST E ?P (s\<lparr>DR_auth := st\<rparr>) = (case compare_trees E B (Some sn) target ?ps rng' (DR_clientGeneratedUUID s) of
      None \<Rightarrow> None | Some (uuid, msg) \<Rightarrow> Some (s\<lparr>DR_auth := st, DR_clientGeneratedUUID := uuid\<rparr>, msg))"
    by (simp add: SYNC_REQUEST_def chk Let_def sel assms(5,7) rec)
  obtain st' e where ttl: "ResetTTL_op (env_auth E) client st = (st', e)" by fastforce
  have "HandlePriorSync E ?req client s = (case compare_trees E B (Some sn) target ?ps rng' (DR_clientGeneratedUUID s) of None \<Rightarrow> None
     | Some (uuid, msg) \<Rightarrow> Some (s\<lparr>DR_auth := st', DR_clientGeneratedUUID := uuid\<rparr>, echo_auth (Some a) msg))"
  proof -
    have md: "PriorSync_Metadata ?P \<noteq> None" by (simp add: sent_prior_def)
    show ?thesis
      using st(2) assms(3) md
      by (cases "compare_trees E B (Some sn) target ?ps rng' (DR_clientGeneratedUUID s)")
        (auto simp: HandlePriorSync_def req phase_def st(1) with_token_def S ResetTTL_def ttl no_token_def block_info_def
          split: option.splits)
  qed
  then show thesis by (rule that)
qed

section \<open>Properties\<close>

text \<open>C31: A prior-sync exchange is transparent, as long as no piece of the network spans two frames. When the peer can be reached, the frames arrive without a piece that spans two of
  them, and the codecs decode what they encode, the server's router handles exactly the request the client built for its
  data and snapshot, and the client returns the router's answer if it is acknowledged and its error text if not,
  however many heartbeats the server sent before and after the answer.\<close>

theorem prior_sync_over_the_wire:
  assumes "reaches H v (addr_info node) [PriorSyncProtocol] PriorSyncProtocol"
    and "good_codec (wire_prior Wr)" "good_codec (wire_prior_env Wr)"
    and "Marshal (wire_prior Wr) (prior_request snapshot data) = Inr q"
    and "\<And>t. t \<in> set (beats @ late) \<Longrightarrow> \<not> isl (Marshal (wire_prior_env Wr) (EnvHeartbeat t))"
    and "\<And>s' resp. HandlePriorSync E (prior_request snapshot data) client s = Some (s', resp) \<Longrightarrow>
      \<not> isl (Marshal (wire_prior_env Wr) (EnvResponse (Some resp)))"
    and "concat (rs_chunks str) = frame q" "[] \<notin> set (rs_chunks str)"
    and "HandlePriorSync_stream E Wr net_write client beats late False str s [] = Some (s', out)"
    and "aligned (all_answers H PriorSyncProtocol (frame_writes (wire_prior Wr) (prior_request snapshot data))) out"
  shows "\<exists>resp a. HandlePriorSync E (prior_request snapshot data) client s = Some (s', resp) \<and> PriorSyncMessage_Ack resp = Some a \<and>
    SendPriorSync (NewCommunication (Some H) v) Wr (Some snapshot) node data =
      Some (if Ack_Ok a then Inr resp else Inl (''sync failed: '' @ Ack_Error a))"
proof -
  have ok: "\<forall>t\<in>set (beats @ late). \<not> isl (Marshal (wire_prior_env Wr) (EnvHeartbeat t))"
    "\<forall>s' resp. HandlePriorSync E (prior_request snapshot data) client s = Some (s', resp) \<longrightarrow>
       \<not> isl (Marshal (wire_prior_env Wr) (EnvResponse (Some resp)))" using assms(5,6) by blast+
  from heartbeat_exchange [OF assms(1-4) ok assms(7,8) assms(9) [unfolded HandlePriorSync_stream_def] assms(10),
      where ?m0.0 = empty_PriorSyncMessage]
  obtain resp where r: "HandlePriorSync E (prior_request snapshot data) client s = Some (s', resp)"
    "sendProtoDelimitedWithHeartbeatGeneric (Some H) v (addr_info node) PriorSyncProtocol (wire_prior Wr)
       (envelope_config (wire_prior_env Wr) empty_PriorSyncMessage) (prior_request snapshot data) = Some (Inr resp)" by blast
  moreover from HandlePriorSync_wf [OF r(1)] obtain a where "PriorSyncMessage_Ack resp = Some a" by (auto simp: agree_def)
  ultimately show ?thesis by (simp add: SendPriorSync_def NewCommunication_def SendProtoDelimitedWithHeartbeat_def)
qed

text \<open>C30: The confirmation is exact. For a message built by \<open>buildPriorSyncMsg\<close> and a token the server accepts, above the
  range of the full sync, the server accepts the client's checksum and compares the client's tree with its own over the
  clipped range; the client then reads the answer as a match exactly when the two roots are equal, as a divergence
  with the tag of the bisection when they differ, and gets no success when the bisection fails.\<close>

theorem confirmation_iff_same_root:
  assumes "buildPriorSyncMsg (env_marshal E) d rng (Some a) = Inr data" "token_valid E client a s" "block_info s = Some B"
    and "MIN_BLOCKS < Details_Blocknumber d" "ProtoToMerkleSnapshot (Some snapshot) = Some (Some sn)"
    and "FromSnapshot (env_tree E) (Some sn) = Inr target"
    and "clip_range (GetBlockNumber B) (Some rng) = rng'"
    and "GenerateMerkleTreeWithConfig (env_tree E) B (Range_Start rng') (Range_End rng') (Snapshot_Config sn) = Inr local"
    and "Finalize (env_tree E) target = (target', Inr target_root)" "Finalize (env_tree E) local = (local', Inr local_root)"
    and "HandlePriorSync E (prior_request snapshot data) client s = Some (s', resp)"
  shows "if target_root = local_root then interpretSyncResponse resp = Inr (None, True)
    else (\<exists>uuid hreq. dataBisect (env_tree E) (Some B) (env_client E) (DR_clientGeneratedUUID s) local' target' = (uuid, Some (Inr hreq)) \<and>
        interpretSyncResponse resp = Inr (HeaderSyncRequest_Tag hreq, False)) \<or>
      (\<exists>ack. PriorSyncMessage_Ack resp = Some ack \<and> \<not> Ack_Ok ack)"
proof -
  obtain ps st where "HandlePriorSync E (prior_request snapshot data) client s =
    (case compare_trees E B (Some sn) target ps rng' (DR_clientGeneratedUUID s) of None \<Rightarrow> None
     | Some (uuid, msg) \<Rightarrow> Some (s\<lparr>DR_auth := st, DR_clientGeneratedUUID := uuid\<rparr>, echo_auth (Some a) msg))"
    using assms(1-7) by (rule prior_sync_compares)
  with assms(11) obtain uuid msg where cmp: "compare_trees E B (Some sn) target ps rng' (DR_clientGeneratedUUID s) = Some (uuid, msg)"
    and resp: "resp = echo_auth (Some a) msg" by (auto split: option.splits)
  show ?thesis
  proof (cases "target_root = local_root")
    case True
    with cmp assms(8-10) have "msg = prior_msg (Some ps) SYNC_REQUEST_RESPONSE DATA_SYNC_REQUEST True [] None
        (Some (headersync_req None DATA_SYNC_REQUEST))" by (simp add: compare_trees_def)
    with True show ?thesis
      by (simp add: resp interpretSyncResponse_def echo_auth_def prior_msg_def phase_def headersync_req_def)
  next
    case False
    obtain u r where b: "dataBisect (env_tree E) (Some B) (env_client E) (DR_clientGeneratedUUID s) local' target' = (u, r)" by fastforce
    with False cmp assms(8-10) obtain x where x: "r = Some x" by (cases r) (auto simp: compare_trees_def)
    show ?thesis
    proof (cases x)
      case (Inl err)
      with False cmp assms(8-10) b x have "msg = sync_fail ps err" by (simp add: compare_trees_def)
      with False show ?thesis by (simp add: resp echo_auth_def sync_fail_def prior_msg_def ack_def)
    next
      case (Inr hreq)
      with False cmp assms(8-10) b x have m: "msg = prior_msg (Some ps) SYNC_REQUEST_RESPONSE HEADER_SYNC_REQUEST True [] None
          (Some (headersync_req (HeaderSyncRequest_Tag hreq) HEADER_SYNC_RESPONSE))" by (simp add: compare_trees_def)
      have "HEADER_SYNC_REQUEST \<noteq> DATA_SYNC_REQUEST" by (simp add: HEADER_SYNC_REQUEST_def DATA_SYNC_REQUEST_def)
      then have "interpretSyncResponse resp = Inr (HeaderSyncRequest_Tag hreq, False)"
        by (simp add: resp m interpretSyncResponse_def echo_auth_def prior_msg_def phase_def headersync_req_def split: option.splits)
      with False b x Inr show ?thesis by simp
    qed
  qed
qed

definition demo_details :: PriorSync_details where
  "demo_details = \<lparr>Details_Blocknumber = 501, Details_Stateroot = [], Details_Blockhash = [], Details_Range = None, Details_Version = 1\<rparr>"

definition demo_range :: Range where "demo_range = \<lparr>Range_Start = 3, Range_End = 3\<rparr>"

definition demo_leaf :: "(u64 \<times> bytes) list" where "demo_leaf = [(3, replicate 32 3)]"

definition demo_pb_snapshot :: MerkleSnapshot where
  "demo_pb_snapshot = the (MerkleSnapshotToProto (Some (leaf_snapshot demo_leaf)))"

lemma demo_snapshot_decodes:
  "ProtoToMerkleSnapshot (Some demo_pb_snapshot) = Some (Some (leaf_snapshot demo_leaf))"
  "FromSnapshot (env_tree demo_server_env) (Some (leaf_snapshot demo_leaf)) = Inr demo_leaf"
  by (simp_all add: demo_pb_snapshot_def MerkleSnapshotToProto_def ProtoToMerkleSnapshot_def leaf_snapshot_def demo_leaf_def
      snapshotNodesToProto_def protoToSnapshotNodes_def demo_server_env_def leaf_tree_def heights_def)

lemma demo_local:
  "GenerateMerkleTreeWithConfig (env_tree demo_server_env) demo_bodies 3 3 cfg = Inr demo_leaf"
  by (simp add: demo_server_env_def leaf_tree_def GenerateMerkleTreeWithConfig_def build_tree_def demo_bodies_def demo_store_def
      demo_zk_def demo_leaf_def push_trailing_def heights_def)

text \<open>The client and the server of the demonstration have the same tree of one block.\<close>

lemma demo_exchange:
  obtains data s' resp where
    "buildPriorSyncMsg (env_marshal demo_server_env) demo_details demo_range (Some \<lparr>Auth_UUID = ''t''\<rparr>) = Inr data"
    "HandlePriorSync demo_server_env (prior_request demo_pb_snapshot data) [1] demo_router = Some (s', resp)"
    "block_info demo_router = Some demo_bodies" "MIN_BLOCKS < Details_Blocknumber demo_details"
    "clip_range (GetBlockNumber demo_bodies) (Some demo_range) = demo_range"
    "GenerateMerkleTreeWithConfig (env_tree demo_server_env) demo_bodies (Range_Start demo_range) (Range_End demo_range)
       (Snapshot_Config (leaf_snapshot demo_leaf)) = Inr demo_leaf"
    "Finalize (env_tree demo_server_env) demo_leaf = (demo_leaf, Inr (concat (map snd demo_leaf)))"
proof -
  let ?E = "demo_server_env" and ?a = "\<lparr>Auth_UUID = ''t''\<rparr>"
  obtain data where data: "buildPriorSyncMsg (env_marshal ?E) demo_details demo_range (Some ?a) = Inr data"
    by (simp add: buildPriorSyncMsg_def CreatefromPB_def checksum_Create_def check_version_def demo_details_def demo_server_env_def)
  have B: "block_info demo_router = Some demo_bodies" by (simp add: demo_server)
  have m: "MIN_BLOCKS < Details_Blocknumber demo_details" by (simp add: MIN_BLOCKS_def demo_details_def)
  have r: "clip_range (GetBlockNumber demo_bodies) (Some demo_range) = demo_range"
    by (simp add: clip_range_def demo_range_def demo_bodies_def demo_store_def)
  have loc: "GenerateMerkleTreeWithConfig (env_tree ?E) demo_bodies (Range_Start demo_range) (Range_End demo_range)
      (Snapshot_Config (leaf_snapshot demo_leaf)) = Inr demo_leaf" by (simp add: demo_range_def demo_local)
  have fin: "Finalize (env_tree ?E) demo_leaf = (demo_leaf, Inr (concat (map snd demo_leaf)))"
    by (simp add: demo_server_env_def leaf_tree_def)
  obtain ps st where h: "HandlePriorSync ?E (prior_request demo_pb_snapshot data) [1] demo_router =
    (case compare_trees ?E demo_bodies (Some (leaf_snapshot demo_leaf)) demo_leaf ps demo_range (DR_clientGeneratedUUID demo_router) of
       None \<Rightarrow> None
     | Some (uuid, msg) \<Rightarrow> Some (demo_router\<lparr>DR_auth := st, DR_clientGeneratedUUID := uuid\<rparr>, echo_auth (Some ?a) msg))"
    using data demo_token B m demo_snapshot_decodes r by (rule prior_sync_compares)
  then obtain s' resp where "HandlePriorSync ?E (prior_request demo_pb_snapshot data) [1] demo_router = Some (s', resp)"
    by (simp add: compare_trees_def loc fin)
  with data show thesis using B m r loc fin by (rule that)
qed

theorem confirmation_iff_same_root_witness:
  "\<exists>data s' resp. buildPriorSyncMsg (env_marshal demo_server_env) demo_details demo_range (Some \<lparr>Auth_UUID = ''t''\<rparr>) = Inr data \<and>
     HandlePriorSync demo_server_env (prior_request demo_pb_snapshot data) [1] demo_router = Some (s', resp) \<and>
     interpretSyncResponse resp = Inr (None, True)"
proof (rule demo_exchange)
  fix data s' resp
  assume x: "buildPriorSyncMsg (env_marshal demo_server_env) demo_details demo_range (Some \<lparr>Auth_UUID = ''t''\<rparr>) = Inr data"
    "HandlePriorSync demo_server_env (prior_request demo_pb_snapshot data) [1] demo_router = Some (s', resp)"
    "block_info demo_router = Some demo_bodies" "MIN_BLOCKS < Details_Blocknumber demo_details"
    "clip_range (GetBlockNumber demo_bodies) (Some demo_range) = demo_range"
    "GenerateMerkleTreeWithConfig (env_tree demo_server_env) demo_bodies (Range_Start demo_range) (Range_End demo_range)
       (Snapshot_Config (leaf_snapshot demo_leaf)) = Inr demo_leaf"
    "Finalize (env_tree demo_server_env) demo_leaf = (demo_leaf, Inr (concat (map snd demo_leaf)))"
  from confirmation_iff_same_root [OF x(1) demo_token x(3,4) demo_snapshot_decodes x(5,6,7) x(7) x(2)] x(1,2) show ?thesis by auto
qed

text \<open>A codec that knows the messages of a table, and a peer that answers the two writes of a frame with what \<open>pieces\<close> says.\<close>

definition table_codec :: "('m \<times> bytes) list \<Rightarrow> 'm codec" where
  "table_codec tbl = \<lparr>Marshal = (\<lambda>m. case map_of tbl m of None \<Rightarrow> Inl ''unknown message'' | Some b \<Rightarrow> Inr b),
     Unmarshal = (\<lambda>b. case map_of (map prod.swap tbl) b of None \<Rightarrow> Inl ''unknown bytes'' | Some m \<Rightarrow> Inr m)\<rparr>"

definition demo_host :: "bytes list \<Rightarrow> host" where
  "demo_host pieces = \<lparr>host_protocols = (\<lambda>_. [''tcp'']), host_String = (\<lambda>_. []), host_Connect = (\<lambda>_ _. None),
     host_NewStream = (\<lambda>_ ps. Inr (hd ps)), host_SetWriteDeadline = None, host_SetReadDeadline = None,
     host_Write = (\<lambda>_ _. None), host_answer = (\<lambda>_ ws. if length ws = 2 then pieces else []), host_end = (\<lambda>_ _. ''EOF'')\<rparr>"

definition demo_wire :: "PriorSyncMessage \<Rightarrow> PriorSyncMessage \<Rightarrow> unit wire" where
  "demo_wire req resp = \<lparr>wire_prior = table_codec [(req, [3])],
     wire_prior_env = table_codec [(EnvHeartbeat 0, [1]), (EnvResponse (Some resp), [2])],
     wire_merkle_req = table_codec [], wire_merkle = table_codec [], wire_header_req = table_codec [], wire_header = table_codec [],
     wire_header_env = table_codec [], wire_data_req = table_codec [], wire_data_env = table_codec [],
     wire_avail_req = table_codec [], wire_avail = table_codec [], wire_pots_req = table_codec [], wire_pots_env = table_codec []\<rparr>"

definition demo_node :: "unit Nodeinfo" where
  "demo_node = empty_Nodeinfo\<lparr>Nodeinfo_PeerID := [9], Nodeinfo_Multiaddr := [[4]]\<rparr>"

lemma Contains_refl: "Contains s s"
  by (cases s) simp_all

lemma demo_connect: "connect (demo_host ps) 1 (addr_info demo_node) = None"
  by (simp add: connect_def SelectTransportAddrWithFallback_def Let_def FilterByTransport_def HasProtocol_def addr_info_def demo_node_def
      demo_host_def Contains_refl)

lemma demo_codecs: "good_codec (wire_prior (demo_wire req resp))" "good_codec (wire_prior_env (demo_wire req resp))"
  by (auto simp: good_codec_def demo_wire_def table_codec_def split: if_splits option.splits)

theorem prior_sync_over_the_wire_witness:
  "\<exists>data s' resp a. PriorSyncMessage_Ack resp = Some a \<and>
     HandlePriorSync demo_server_env (prior_request demo_pb_snapshot data) [1] demo_router = Some (s', resp) \<and>
     SendPriorSync (NewCommunication (Some (demo_host [[1], [1], [1], [2]])) 1) (demo_wire (prior_request demo_pb_snapshot data) resp)
       (Some demo_pb_snapshot) demo_node data = Some (if Ack_Ok a then Inr resp else Inl (''sync failed: '' @ Ack_Error a))"
proof (rule demo_exchange)
  fix data s' resp
  assume h: "HandlePriorSync demo_server_env (prior_request demo_pb_snapshot data) [1] demo_router = Some (s', resp)"
  let ?req = "prior_request demo_pb_snapshot data"
  let ?H = "demo_host [[1], [1], [1], [2]]" and ?W = "demo_wire ?req resp" and ?str = "\<lparr>rs_chunks = [[1], [3]], rs_end = ''EOF''\<rparr>"
  have one: "PutUvarint 1 = [1]" by (simp add: PutUvarint.simps word_le_nat_alt)
  have H: "reaches ?H 1 (addr_info demo_node) [PriorSyncProtocol] PriorSyncProtocol"
    using demo_connect by (simp add: reaches_def) (simp add: demo_host_def addr_info_def demo_node_def)
  have m: "Marshal (wire_prior ?W) ?req = Inr [3]" by (simp add: demo_wire_def table_codec_def)
  have D: "Marshal (wire_prior_env ?W) (EnvHeartbeat 0) = Inr [1]" "Marshal (wire_prior_env ?W) (EnvResponse (Some resp)) = Inr [2]"
    by (simp_all add: demo_wire_def table_codec_def)
  have str: "ReadDelimited (wire_prior ?W) ?str = Some (\<lparr>rs_chunks = [], rs_end = ''EOF''\<rparr>, Inr ?req)"
    using ReadDelimited_frame [of "wire_prior ?W" "[3]" ?req "[[1], [3]]" "\<lparr>rs_chunks = [], rs_end = ''EOF''\<rparr>"]
    by (simp add: frame_def one demo_wire_def table_codec_def)
  have srv: "HandlePriorSync_stream demo_server_env ?W net_write [1] [0] [] False ?str demo_router [] = Some (s', [[1], [1], [1], [2]])"
    by (simp add: HandlePriorSync_stream_def heartbeat_handler_def str h WriteDelimited_def D net_write_def one)
  have al: "aligned (all_answers ?H PriorSyncProtocol (frame_writes (wire_prior ?W) ?req)) [[1], [1], [1], [2]]"
  proof -
    have "all_answers ?H PriorSyncProtocol (frame_writes (wire_prior ?W) ?req) = [[1], [1], [1], [2]]"
      by (simp add: all_answers_def frame_writes_def m one demo_host_def upt_rec)
    moreover have "aligned [[1], [1], [1], [2]] [[1], [1], [1], [2]]"
      by simp (rule exI [of _ 2], simp, rule exI [of _ 2], simp)
    ultimately show ?thesis by simp
  qed
  have "\<not> isl (Marshal (wire_prior_env ?W) (EnvHeartbeat t))" if "t \<in> set ([0] @ [])" for t using that D by simp
  moreover have "\<not> isl (Marshal (wire_prior_env ?W) (EnvResponse (Some r)))" if "HandlePriorSync demo_server_env ?req [1] demo_router = Some (s2, r)" for s2 r
    using that h D by simp
  ultimately show ?thesis
    using prior_sync_over_the_wire [OF H demo_codecs m _ _ _ _ srv al] h one by (fastforce simp add: frame_def simp del: if_split)
qed

end
