(* ===== verification/FS_Dispatch.thy ===== *)
theory FS_Dispatch
  imports FS_Prelude
begin

text \<open>
  \<open>core/protocol/router/helper/accounts/dispatcher\<close> and \<open>accounts_tag.go\<close>: the session of an account sync on the server.
  The diff stage finds the nonces that the client lacks and pushes them in pages into a buffered channel; dispatch workers
  fetch the accounts of a page, send them on a stream to the client and wait for its acknowledgement; a page that fails is
  queued again until its retries are used up, then it is dead-lettered.

  The goroutines are processes over one shared state; \<open>session_step\<close> is the executable step function, one step per channel
  operation, atomic access or call-back. What the scheduler and the environment decide is the event. The account table,
  the iterator and the radix tree of the client's nonces are parameters.
\<close>

section \<open>Constants and configuration\<close>

definition NumDiffParents :: nat where "NumDiffParents = 30"
definition NumDiffChildren :: nat where "NumDiffChildren = 10"
definition ParentMemoryWindow :: nat where "ParentMemoryWindow = 10000"
definition ChildWindow :: nat where "ChildWindow = 1000"
definition FullSyncThresholdPct :: u64 where "FullSyncThresholdPct = 6"
definition NonceBufferPauseThreshold :: int where "NonceBufferPauseThreshold = 200000"
definition NonceBufferResumePct :: int where "NonceBufferResumePct = 80"
definition NoncePageSize :: nat where "NoncePageSize = 3000"
definition DispatchWorkers :: int where "DispatchWorkers = 10"
definition DispatchMaxRetries :: int where "DispatchMaxRetries = 3"

record DispatcherConfig =
  Cfg_DispatchWorkers :: int
  Cfg_NonceBufferPauseThreshold :: int
  Cfg_NonceBufferResumePct :: int
  Cfg_NoncePageSize :: int
  Cfg_DispatchMaxRetries :: int
  Cfg_DispatchACKTimeout :: int

definition Default :: DispatcherConfig where
  "Default = \<lparr>Cfg_DispatchWorkers = DispatchWorkers, Cfg_NonceBufferPauseThreshold = NonceBufferPauseThreshold,
     Cfg_NonceBufferResumePct = NonceBufferResumePct, Cfg_NoncePageSize = int NoncePageSize,
     Cfg_DispatchMaxRetries = DispatchMaxRetries, Cfg_DispatchACKTimeout = 10 * 1000000000\<rparr>"

text \<open>The call-backs are always given, so only the numbers are checked.\<close>

definition validateDispatcherConfig :: "DispatcherConfig \<Rightarrow> string option" where
  "validateDispatcherConfig cfg =
     (if Cfg_DispatchWorkers cfg \<le> 0 then Some ''dispatcher: DispatchWorkers must be > 0''
      else if Cfg_NonceBufferPauseThreshold cfg \<le> 0 then Some ''dispatcher: NonceBufferPauseThreshold must be > 0''
      else if Cfg_NonceBufferResumePct cfg \<le> 0 \<or> 100 \<le> Cfg_NonceBufferResumePct cfg
        then Some ''dispatcher: NonceBufferResumePct must be in (0,100)''
      else if Cfg_NoncePageSize cfg \<le> 0 then Some ''dispatcher: NoncePageSize must be > 0''
      else if Cfg_NonceBufferPauseThreshold cfg < Cfg_NoncePageSize cfg
        then Some ''dispatcher: NoncePageSize cannot exceed NonceBufferPauseThreshold''
      else if Cfg_DispatchMaxRetries cfg < 0 then Some ''dispatcher: DispatchMaxRetries must be >= 0''
      else if Cfg_DispatchACKTimeout cfg \<le> 0 then Some ''dispatcher: DispatchACKTimeout must be > 0''
      else None)"

section \<open>The dispatcher\<close>

record noncePage =
  Page_Nonces :: "u64 list"
  Page_Retries :: int
  Page_PageIndex :: u32

record DeadLetterPage =
  Dead_Nonces :: "u64 list"
  Dead_RetryCount :: int
  Dead_FailureHint :: string

text \<open>\<open>AD_waiters\<close> is the notify list of \<open>pauseCond\<close>: the diff goroutines asleep in \<open>Wait\<close>.\<close>

record AccountDispatcher =
  AD_cfg :: DispatcherConfig
  AD_nonceChan :: "noncePage list"
  AD_chanCap :: nat
  AD_done :: bool
  AD_inputClosed :: bool
  AD_inflight :: int
  AD_waiters :: "nat list"
  AD_nonceBufferCount :: int
  AD_pageSequence :: u32
  AD_deliveredPages :: u32
  AD_deliveredAccounts :: u64
  AD_deadLetters :: "DeadLetterPage list"

record DispatchSummary =
  Summary_DeliveredPages :: u32
  Summary_DeliveredAccounts :: u64
  Summary_PermanentFailedPages :: u32
  Summary_PermanentFailedAccounts :: u64
  Summary_DeadLetters :: "DeadLetterPage list"

definition chan_cap :: "DispatcherConfig \<Rightarrow> nat" where
  "chan_cap cfg = nat ((Cfg_NonceBufferPauseThreshold cfg + int NumDiffParents * Cfg_NoncePageSize cfg + Cfg_NoncePageSize cfg - 1)
     div Cfg_NoncePageSize cfg)"

definition NewDispatcher :: "DispatcherConfig \<Rightarrow> string + AccountDispatcher" where
  "NewDispatcher cfg = (case validateDispatcherConfig cfg of Some e \<Rightarrow> Inl e
     | None \<Rightarrow> Inr \<lparr>AD_cfg = cfg, AD_nonceChan = [], AD_chanCap = chan_cap cfg, AD_done = False, AD_inputClosed = False,
         AD_inflight = 0, AD_waiters = [], AD_nonceBufferCount = 0, AD_pageSequence = 0, AD_deliveredPages = 0,
         AD_deliveredAccounts = 0, AD_deadLetters = []\<rparr>)"

definition tryCloseDone :: "AccountDispatcher \<Rightarrow> AccountDispatcher" where
  "tryCloseDone d = (if AD_inputClosed d \<and> AD_inflight d = 0 then d\<lparr>AD_done := True\<rparr> else d)"

definition CloseInput :: "AccountDispatcher \<Rightarrow> AccountDispatcher" where
  "CloseInput d = (tryCloseDone (d\<lparr>AD_inputClosed := True\<rparr>))\<lparr>AD_waiters := []\<rparr>"

definition resumeThreshold :: "DispatcherConfig \<Rightarrow> int" where
  "resumeThreshold cfg = Cfg_NonceBufferPauseThreshold cfg * Cfg_NonceBufferResumePct cfg div 100"

definition broadcastResume :: "int \<Rightarrow> AccountDispatcher \<Rightarrow> AccountDispatcher" where
  "broadcastResume currentCount d = (if currentCount < resumeThreshold (AD_cfg d) then d\<lparr>AD_waiters := []\<rparr> else d)"

definition recordDeadLetter :: "noncePage \<Rightarrow> string \<Rightarrow> AccountDispatcher \<Rightarrow> AccountDispatcher" where
  "recordDeadLetter page hint d = d\<lparr>AD_deadLetters := AD_deadLetters d @
     [\<lparr>Dead_Nonces = Page_Nonces page, Dead_RetryCount = Page_Retries page, Dead_FailureHint = hint\<rparr>]\<rparr>"

text \<open>The send on \<open>nonceChan\<close>, when there is room, and the receive from it.\<close>

definition chan_send :: "noncePage \<Rightarrow> AccountDispatcher \<Rightarrow> AccountDispatcher option" where
  "chan_send page d = (if length (AD_nonceChan d) < AD_chanCap d
     then Some (d\<lparr>AD_nonceChan := AD_nonceChan d @ [page]\<rparr>) else None)"

definition chan_recv :: "AccountDispatcher \<Rightarrow> (noncePage \<times> AccountDispatcher) option" where
  "chan_recv d = (case AD_nonceChan d of [] \<Rightarrow> None | p # ps \<Rightarrow> Some (p, d\<lparr>AD_nonceChan := ps\<rparr>))"

definition add_count :: "int \<Rightarrow> AccountDispatcher \<Rightarrow> AccountDispatcher" where
  "add_count n d = d\<lparr>AD_nonceBufferCount := AD_nonceBufferCount d + n\<rparr>"

definition add_inflight :: "int \<Rightarrow> AccountDispatcher \<Rightarrow> AccountDispatcher" where
  "add_inflight n d = d\<lparr>AD_inflight := AD_inflight d + n\<rparr>"

lemmas dispatcher_defs = tryCloseDone_def CloseInput_def broadcastResume_def recordDeadLetter_def chan_send_def chan_recv_def
  add_count_def add_inflight_def

section \<open>Dispatch workers\<close>

text \<open>
  Where a worker stands: at its \<open>select\<close>, with a page it received, in \<open>processPage\<close> before and after the index is
  assigned, waiting for the client, in \<open>handleFailure\<close> before its decision, blocked on the re-queue, after it, about to
  dead-letter, and at the two steps that finalise a page. The flag says that it holds an open stream.
\<close>

datatype 'acc worker = WIdle bool | WPage noncePage | WProcess noncePage | WFetch noncePage | WSend noncePage "'acc list"
  | WFail noncePage string bool | WRequeue noncePage string bool | WRecount int bool | WDead noncePage string bool
  | WFinish bool | WTry bool | WExited

text \<open>What the environment decides: whether the stream opens, the table answers, the client acknowledges, and whether the
  last attempt of \<open>OnDeadLetter\<close> succeeds. \<open>Tau\<close> is every other step, \<open>Leave\<close> the branch of the context or of \<open>done\<close>.\<close>

datatype wevent = Tau | Leave | Opens | OpenFails string | Fetched | FetchFails string | Acked | NotAcked string | Recovered bool

text \<open>The effect a step has on the client.\<close>

datatype effect = NoEffect | AckedPage noncePage | RecoveredPage noncePage

definition assign_index :: "noncePage \<Rightarrow> AccountDispatcher \<Rightarrow> noncePage \<times> AccountDispatcher" where
  "assign_index page d = (if Page_PageIndex page = 0
     then (let n = AD_pageSequence d + 1 in (page\<lparr>Page_PageIndex := n\<rparr>, d\<lparr>AD_pageSequence := n\<rparr>)) else (page, d))"

definition dead_hint :: "noncePage \<Rightarrow> string \<Rightarrow> string" where
  "dead_hint page err = ''after '' @ show_int (Page_Retries page) @ '' retries: '' @ err"

definition dispatchWorker :: "(u64 list \<Rightarrow> 'acc list) \<Rightarrow> bool \<Rightarrow> wevent \<Rightarrow> 'acc worker \<Rightarrow> AccountDispatcher \<Rightarrow>
    ('acc worker \<times> AccountDispatcher \<times> effect) option" where
  "dispatchWorker fetch cancelled ev w d = (case w of
     WIdle st \<Rightarrow> (case ev of
         Leave \<Rightarrow> if AD_done d \<or> cancelled then Some (WExited, d, NoEffect) else None
       | Tau \<Rightarrow> (case chan_recv d of None \<Rightarrow> None
          | Some (page, d') \<Rightarrow> Some (if st then WProcess page else WPage page, d', NoEffect))
       | _ \<Rightarrow> None)
   | WPage page \<Rightarrow> (case ev of
         Opens \<Rightarrow> Some (WProcess page, d, NoEffect)
       | OpenFails e \<Rightarrow> Some (WFail page (''open dispatch stream: '' @ e) False, d, NoEffect)
       | _ \<Rightarrow> None)
   | WProcess page \<Rightarrow> (case ev of
         Tau \<Rightarrow> (let d1 = add_count (- int (length (Page_Nonces page))) d;
                    (page', d2) = assign_index page (broadcastResume (AD_nonceBufferCount d1) d1)
                in Some (WFetch page', d2, NoEffect))
       | _ \<Rightarrow> None)
   | WFetch page \<Rightarrow> (case ev of
         Fetched \<Rightarrow> Some (WSend page (fetch (Page_Nonces page)), d, NoEffect)
       | FetchFails e \<Rightarrow> Some (WFail page e True, d, NoEffect)
       | _ \<Rightarrow> None)
   | WSend page accounts \<Rightarrow> (case ev of
         Acked \<Rightarrow> Some (WFinish True, d\<lparr>AD_deliveredPages := AD_deliveredPages d + 1,
             AD_deliveredAccounts := AD_deliveredAccounts d + word_of_nat (length accounts)\<rparr>, AckedPage page)
       | NotAcked e \<Rightarrow> Some (WFail page e False, d, NoEffect)
       | _ \<Rightarrow> None)
   | WFail page e st \<Rightarrow> (case ev of
         Tau \<Rightarrow> if Page_Retries page < Cfg_DispatchMaxRetries (AD_cfg d)
           then Some (WRequeue (page\<lparr>Page_Retries := Page_Retries page + 1\<rparr>) e st, d, NoEffect)
           else Some (WDead page e st, d, NoEffect)
       | _ \<Rightarrow> None)
   | WRequeue page e st \<Rightarrow> (case ev of
         Tau \<Rightarrow> (case chan_send page d of None \<Rightarrow> None
            | Some d' \<Rightarrow> Some (WRecount (int (length (Page_Nonces page))) st, d', NoEffect))
       | Leave \<Rightarrow> if cancelled then Some (WDead page e st, d, NoEffect) else None
       | _ \<Rightarrow> None)
   | WRecount n st \<Rightarrow> (case ev of Tau \<Rightarrow> Some (WIdle st, add_count n d, NoEffect) | _ \<Rightarrow> None)
   | WDead page e st \<Rightarrow> (case ev of
         Recovered ok \<Rightarrow> Some (WFinish st, recordDeadLetter page (dead_hint page e) d,
           if ok then RecoveredPage page else NoEffect)
       | _ \<Rightarrow> None)
   | WFinish st \<Rightarrow> (case ev of Tau \<Rightarrow> Some (WTry st, add_inflight (- 1) d, NoEffect) | _ \<Rightarrow> None)
   | WTry st \<Rightarrow> (case ev of Tau \<Rightarrow> Some (WIdle st, tryCloseDone d, NoEffect) | _ \<Rightarrow> None)
   | WExited \<Rightarrow> None)"

section \<open>The diff stage\<close>

text \<open>The order in which the children append their slices to the result is arbitrary; a slice beyond the batch is empty.\<close>

definition child_slice :: "u64 list \<Rightarrow> nat \<Rightarrow> u64 list" where
  "child_slice batch i = take ChildWindow (drop (i * ChildWindow) batch)"

definition processWithChildren :: "(u64 \<Rightarrow> bool) \<Rightarrow> u64 list \<Rightarrow> nat list \<Rightarrow> u64 list option" where
  "processWithChildren contains batch order =
     (if sort order = [0 ..< min NumDiffChildren (length batch)]
      then Some (concat (map (\<lambda>i. filter (\<lambda>n. \<not> contains n) (child_slice batch i)) order)) else None)"

text \<open>
  A producer of pages, a parent of \<open>diffWithGRO\<close> or the loop of \<open>collectAll\<close>: at the gate \<open>WaitForBatchStart\<close>, in its
  locked loop, asleep in \<open>Wait\<close>, before the next batch, with nonces to flush, blocked in \<open>EnqueueNonces\<close>, before the
  count of a page it sent is added, and returned. What follows the flush is in the \<open>after\<close>.
\<close>

datatype after = Continue | Finish | Abandon string

datatype parent = PGate "u64 list" | PLoop "u64 list" | PAsleep "u64 list" | PPull "u64 list" | PPush "u64 list" after
  | PSend "u64 list" "u64 list" after | PCount int "u64 list" after | PDone "string option"

definition after_flush :: "u64 list \<Rightarrow> after \<Rightarrow> parent" where
  "after_flush rest x = (case x of Continue \<Rightarrow> PPush rest Continue | Finish \<Rightarrow> PDone None | Abandon e \<Rightarrow> PDone (Some e))"

text \<open>The result when \<open>EnqueueNonces\<close> fails with \<open>err\<close>: the caller that abandons its work ignores it.\<close>

definition enqueue_failed :: "bool \<Rightarrow> string \<Rightarrow> after \<Rightarrow> parent" where
  "enqueue_failed full err x = PDone (Some (case x of Abandon e \<Rightarrow> e
     | Continue \<Rightarrow> if full then ''enqueue full-sync page: '' @ err else err
     | Finish \<Rightarrow> if full then ''enqueue full-sync final page: '' @ err else err))"

definition ctx_err :: string where "ctx_err = ''context canceled''"

text \<open>The start of \<open>EnqueueNonces\<close> for a page, which is not empty.\<close>

definition EnqueueNonces :: "bool \<Rightarrow> u64 list \<Rightarrow> u64 list \<Rightarrow> after \<Rightarrow> AccountDispatcher \<Rightarrow> parent \<times> AccountDispatcher" where
  "EnqueueNonces full nonces rest x d =
     (if AD_inputClosed d then (enqueue_failed full ''dispatcher: EnqueueNonces called after CloseInput'' x, d)
      else (PSend nonces rest x, add_inflight 1 d))"

definition new_page :: "u64 list \<Rightarrow> noncePage" where
  "new_page nonces = \<lparr>Page_Nonces = nonces, Page_Retries = 0, Page_PageIndex = 0\<rparr>"

text \<open>Leaving the gate because the context is cancelled: a parent still flushes what it has, \<open>collectAll\<close> does not.\<close>

definition gate_cancelled :: "bool \<Rightarrow> u64 list \<Rightarrow> parent" where
  "gate_cancelled full l = (if full then PDone (Some ctx_err) else PPush l (Abandon ctx_err))"

text \<open>The steps of a producer apart from the pull: \<open>Tau\<close> is the next step, \<open>Leave\<close> the branch of the cancelled context.\<close>

definition producer_step :: "bool \<Rightarrow> bool \<Rightarrow> nat \<Rightarrow> wevent \<Rightarrow> parent \<Rightarrow> AccountDispatcher \<Rightarrow> (parent \<times> AccountDispatcher) option" where
  "producer_step full cancelled i ev p d = (case p of
     PGate l \<Rightarrow> (case ev of
         Tau \<Rightarrow> Some (if AD_nonceBufferCount d < Cfg_NonceBufferPauseThreshold (AD_cfg d) then PPull l else PLoop l, d)
       | Leave \<Rightarrow> if full \<and> cancelled then Some (PDone (Some ctx_err), d) else None
       | _ \<Rightarrow> None)
   | PLoop l \<Rightarrow> (case ev of
         Tau \<Rightarrow> if cancelled then Some (gate_cancelled full l, d)
           else if Cfg_NonceBufferPauseThreshold (AD_cfg d) \<le> AD_nonceBufferCount d
           then Some (PAsleep l, d\<lparr>AD_waiters := AD_waiters d @ [i]\<rparr>)
           else Some (PPull l, d)
       | _ \<Rightarrow> None)
   | PAsleep l \<Rightarrow> (case ev of
         Tau \<Rightarrow> if i \<in> set (AD_waiters d) then None else Some (PLoop l, d)
       | Leave \<Rightarrow> if cancelled then Some (PAsleep l, d\<lparr>AD_waiters := []\<rparr>) else None
       | _ \<Rightarrow> None)
   | PPull l \<Rightarrow> (case ev of
         Leave \<Rightarrow> if cancelled \<and> \<not> full then Some (PPush l (Abandon ctx_err), d) else None
       | _ \<Rightarrow> None)
   | PPush l x \<Rightarrow> (case ev of
         Tau \<Rightarrow> Some (case x of
             Continue \<Rightarrow> if NoncePageSize \<le> length l then EnqueueNonces full (take NoncePageSize l) (drop NoncePageSize l) x d
               else (PGate l, d)
           | _ \<Rightarrow> if l = [] then (after_flush [] x, d) else EnqueueNonces full l [] x d)
       | _ \<Rightarrow> None)
   | PSend nonces rest x \<Rightarrow> (case ev of
         Tau \<Rightarrow> (case chan_send (new_page nonces) d of None \<Rightarrow> None
            | Some d' \<Rightarrow> Some (PCount (int (length nonces)) rest x, d'))
       | Leave \<Rightarrow> if cancelled then Some (enqueue_failed full (''dispatcher: enqueue cancelled: '' @ ctx_err) x,
             tryCloseDone (add_inflight (- 1) d)) else None
       | _ \<Rightarrow> None)
   | PCount n rest x \<Rightarrow> (case ev of Tau \<Rightarrow> Some (after_flush rest x, add_count n d) | _ \<Rightarrow> None)
   | PDone r \<Rightarrow> None)"

section \<open>The session\<close>

record 'acc session =
  S_full :: bool
  S_parents_n :: nat
  S_workers_n :: nat
  S_disp :: AccountDispatcher
  S_parents :: "nat \<Rightarrow> parent"
  S_workers :: "nat \<Rightarrow> 'acc worker"
  S_iter :: "u64 list list"
  S_workChan :: "u64 list list"
  S_closed :: bool
  S_iterErr :: "string option"
  S_cancelled :: bool
  S_acked :: "noncePage list"
  S_recovered :: "noncePage list"

text \<open>The events of a session: a dispatch worker, a producer, the pull of a batch with the order of its children, the goroutine
  that reads the iterator into \<open>workChan\<close>, a failure of the iterator, the return of the diff stage, and the cancellation of
  the session's context.\<close>

datatype event = Worker nat wevent | Parent nat wevent | Pull nat "nat list" | Feed | FeedStops | IterFails nat string
  | Join | Cancel

definition client_effect :: "effect \<Rightarrow> 'acc session \<Rightarrow> 'acc session" where
  "client_effect eff s = (case eff of NoEffect \<Rightarrow> s | AckedPage p \<Rightarrow> s\<lparr>S_acked := S_acked s @ [p]\<rparr>
     | RecoveredPage p \<Rightarrow> s\<lparr>S_recovered := S_recovered s @ [p]\<rparr>)"

definition worker_step :: "(u64 list \<Rightarrow> 'acc list) \<Rightarrow> nat \<Rightarrow> wevent \<Rightarrow> 'acc session \<Rightarrow> 'acc session option" where
  "worker_step fetch j ev s = (if j < S_workers_n s
     then (case dispatchWorker fetch (S_cancelled s) ev (S_workers s j) (S_disp s) of None \<Rightarrow> None
       | Some (w, d, eff) \<Rightarrow> Some (client_effect eff (s\<lparr>S_workers := (S_workers s)(j := w), S_disp := d\<rparr>)))
     else None)"

definition parent_step :: "nat \<Rightarrow> wevent \<Rightarrow> 'acc session \<Rightarrow> 'acc session option" where
  "parent_step i ev s = (if i < S_parents_n s
     then (case producer_step (S_full s) (S_cancelled s) i ev (S_parents s i) (S_disp s) of None \<Rightarrow> None
       | Some (p, d) \<Rightarrow> Some (s\<lparr>S_parents := (S_parents s)(i := p), S_disp := d\<rparr>))
     else None)"

text \<open>\<open>NextBatch\<close>: an empty batch is the end.\<close>

definition next_batch :: "u64 list list \<Rightarrow> (u64 list \<times> u64 list list) option" where
  "next_batch it = (case it of [] \<Rightarrow> None | b # bs \<Rightarrow> if b = [] then None else Some (b, bs))"

text \<open>\<open>collectAll\<close> takes its batches from the iterator and filters nothing; a parent takes them from \<open>workChan\<close>.\<close>

definition pull_step :: "(u64 \<Rightarrow> bool) \<Rightarrow> nat \<Rightarrow> nat list \<Rightarrow> 'acc session \<Rightarrow> 'acc session option" where
  "pull_step contains i order s = (if i < S_parents_n s
     then (case S_parents s i of
         PPull l \<Rightarrow>
           if S_full s
           then (case next_batch (S_iter s) of None \<Rightarrow> Some (s\<lparr>S_parents := (S_parents s)(i := PPush l Finish)\<rparr>)
             | Some (b, bs) \<Rightarrow> Some (s\<lparr>S_parents := (S_parents s)(i := PPush (l @ b) Continue), S_iter := bs\<rparr>))
           else (case S_workChan s of
               [] \<Rightarrow> if S_closed s then Some (s\<lparr>S_parents := (S_parents s)(i := PPush l Finish)\<rparr>) else None
             | b # bs \<Rightarrow> (case processWithChildren contains b order of None \<Rightarrow> None
                 | Some missing \<Rightarrow> Some (s\<lparr>S_parents := (S_parents s)(i := PPush (l @ missing) Continue), S_workChan := bs\<rparr>)))
       | _ \<Rightarrow> None)
     else None)"

text \<open>The goroutine that feeds \<open>workChan\<close>, whose capacity is the number of parents.\<close>

definition feed_step :: "'acc session \<Rightarrow> 'acc session option" where
  "feed_step s = (if S_full s \<or> S_closed s then None else case next_batch (S_iter s) of
       None \<Rightarrow> Some (s\<lparr>S_closed := True\<rparr>)
     | Some (b, bs) \<Rightarrow> if length (S_workChan s) < S_parents_n s then Some (s\<lparr>S_iter := bs, S_workChan := S_workChan s @ [b]\<rparr>) else None)"

definition iter_fails :: "nat \<Rightarrow> string \<Rightarrow> 'acc session \<Rightarrow> 'acc session option" where
  "iter_fails i e s =
     (if S_full s
      then (case S_parents s i of
          PPull l \<Rightarrow> if i < S_parents_n s
            then Some (s\<lparr>S_parents := (S_parents s)(i := PDone (Some (''iterator: '' @ e))), S_iterErr := Some e\<rparr>) else None
        | _ \<Rightarrow> None)
      else if S_closed s then None else Some (s\<lparr>S_closed := True, S_iterErr := Some e\<rparr>))"

definition parents_done :: "'acc session \<Rightarrow> bool" where
  "parents_done s \<longleftrightarrow> list_all (\<lambda>i. case S_parents s i of PDone _ \<Rightarrow> True | _ \<Rightarrow> False) [0 ..< S_parents_n s]"

text \<open>The result of the diff stage: in a full sync that of the loop, else the iterator's error or that of the first parent.\<close>

definition parent_errors :: "'acc session \<Rightarrow> (nat \<times> string) list" where
  "parent_errors s = concat (map (\<lambda>i. case S_parents s i of PDone (Some e) \<Rightarrow> [(i, e)] | _ \<Rightarrow> []) [0 ..< S_parents_n s])"

definition diff_error :: "'acc session \<Rightarrow> string option" where
  "diff_error s =
     (if S_full s then (case parent_errors s of [] \<Rightarrow> None | (i, e) # _ \<Rightarrow> Some (''accounts diff: full sync collect: '' @ e))
      else map_option ((@) ''accounts diff: diff computation: '')
        (case S_iterErr s of Some e \<Rightarrow> Some (''iterator: '' @ e)
         | None \<Rightarrow> (case parent_errors s of [] \<Rightarrow> None | (i, e) # _ \<Rightarrow> Some (''parent '' @ show_nat i @ '': '' @ e))))"

definition session_step :: "(u64 list \<Rightarrow> 'acc list) \<Rightarrow> (u64 \<Rightarrow> bool) \<Rightarrow> event \<Rightarrow> 'acc session \<Rightarrow> 'acc session option" where
  "session_step fetch contains ev s = (case ev of
     Worker j e \<Rightarrow> worker_step fetch j e s
   | Parent i e \<Rightarrow> parent_step i e s
   | Pull i order \<Rightarrow> pull_step contains i order s
   | Feed \<Rightarrow> feed_step s
   | FeedStops \<Rightarrow> if S_cancelled s \<and> \<not> S_full s \<and> \<not> S_closed s then Some (s\<lparr>S_closed := True\<rparr>) else None
   | IterFails i e \<Rightarrow> iter_fails i e s
   | Join \<Rightarrow> if parents_done s \<and> \<not> AD_inputClosed (S_disp s) then Some (s\<lparr>S_disp := CloseInput (S_disp s)\<rparr>) else None
   | Cancel \<Rightarrow> Some (s\<lparr>S_cancelled := True\<rparr>))"

fun run_session :: "(u64 list \<Rightarrow> 'acc list) \<Rightarrow> (u64 \<Rightarrow> bool) \<Rightarrow> event list \<Rightarrow> 'acc session \<Rightarrow> 'acc session option" where
  "run_session fetch contains [] s = Some s"
| "run_session fetch contains (ev # evs) s = (case session_step fetch contains ev s of None \<Rightarrow> None
     | Some s' \<Rightarrow> run_session fetch contains evs s')"

text \<open>The choice between the full sync and the diff, the number of producers, and the start.\<close>

definition is_full_sync :: "u64 \<Rightarrow> u64 \<Rightarrow> bool" where
  "is_full_sync clientTotalKeys serverTotal \<longleftrightarrow> clientTotalKeys * 100 < serverTotal * FullSyncThresholdPct"

definition session_start :: "DispatcherConfig \<Rightarrow> u64 \<Rightarrow> u64 \<Rightarrow> u64 list list \<Rightarrow> string + 'acc session" where
  "session_start cfg clientTotalKeys serverTotal batches = (case NewDispatcher cfg of Inl e \<Rightarrow> Inl e
     | Inr d \<Rightarrow> let full = is_full_sync clientTotalKeys serverTotal in Inr
        \<lparr>S_full = full, S_parents_n = (if full then 1 else min NumDiffParents (unat serverTotal)),
          S_workers_n = nat (Cfg_DispatchWorkers cfg), S_disp = d, S_parents = (\<lambda>_. PGate []), S_workers = (\<lambda>_. WIdle False),
          S_iter = batches, S_workChan = [], S_closed = False, S_iterErr = None, S_cancelled = False, S_acked = [],
          S_recovered = []\<rparr>)"

text \<open>\<open>Run\<close> returns once every worker has.\<close>

definition run_summary :: "'acc session \<Rightarrow> DispatchSummary option" where
  "run_summary s = (if list_all (\<lambda>j. case S_workers s j of WExited \<Rightarrow> True | _ \<Rightarrow> False) [0 ..< S_workers_n s]
     then let d = S_disp s in Some \<lparr>Summary_DeliveredPages = AD_deliveredPages d, Summary_DeliveredAccounts = AD_deliveredAccounts d,
       Summary_PermanentFailedPages = word_of_nat (length (AD_deadLetters d)),
       Summary_PermanentFailedAccounts = sum_list (map (\<lambda>dl. word_of_nat (length (Dead_Nonces dl))) (AD_deadLetters d)),
       Summary_DeadLetters = AD_deadLetters d\<rparr>
     else None)"

end
