(* ===== verification/FS_Accounts.thy ===== *)
theory FS_Accounts
  imports FS_HeaderSync FS_Router FS_Dispatch
begin

text \<open>
  The account sync apart from its session: the messages of \<open>common/proto/accounts\<close>, the conversions and helpers of
  \<open>router/helper/accounts\<close>, the handlers of \<open>data_router.go\<close>, and the client's writer \<open>client_helper.go\<close>.

  The radix tree library \<open>JMDN_Merkletree/art\<close>, the account table, the JSON and struct conversions of metadata, and the
  write-ahead log of the client with its buffer are parameters. The account table's answers may fail; in a session these
  failures are events. \<open>ACCOUNTS_SYNC\<close> takes the schedule of its session, a list of events, and is \<open>None\<close> on a list that
  does not end it.
\<close>

section \<open>Constants\<close>

definition MAX_ACCOUNT_NONCES :: nat where "MAX_ACCOUNT_NONCES = 100000"
definition ACCOUNTS_SYNC_REQUEST :: string where "ACCOUNTS_SYNC_REQUEST = ''state:accountssync:accountssyncrequest''"
definition ACCOUNTS_SYNC_RESPONSE :: string where "ACCOUNTS_SYNC_RESPONSE = ''state:accountssync:accountssyncresponse''"
definition ACCOUNTS_SYNC_REQUEST_ACCOUNTS :: string where
  "ACCOUNTS_SYNC_REQUEST_ACCOUNTS = ''state:accountssync:accountssyncrequest:accounts''"
definition ACCOUNTS_SYNC_REQUEST_ACCOUNTS_RESPONSE :: string where
  "ACCOUNTS_SYNC_REQUEST_ACCOUNTS_RESPONSE = ''state:accountssync:accountssyncrequest:accounts:response''"
definition AccountsSyncRequestNil :: string where "AccountsSyncRequestNil = ''accounts sync request is nil''"
definition AccountsSyncArtNil :: string where "AccountsSyncArtNil = ''accounts sync art is nil''"

section \<open>Accounts and messages\<close>

text \<open>\<open>types.Account\<close>, with metadata of type \<open>'md\<close>, and the account of the messages, with a struct of type \<open>'st\<close>.\<close>

record 'md Account =
  Account_DIDAddress :: string
  Account_Address :: bytes
  Account_Balance :: string
  Account_Nonce :: u64
  Account_TxNonce :: u64
  Account_TxCountSent :: u64
  Account_AccountType :: string
  Account_CreatedAt :: i64
  Account_UpdatedAt :: i64
  Account_Metadata :: 'md

record 'st pbAccount =
  pbAccount_DidAddress :: string
  pbAccount_Address :: bytes
  pbAccount_Balance :: string
  pbAccount_Nonce :: u64
  pbAccount_AccountType :: string
  pbAccount_CreatedAt :: i64
  pbAccount_UpdatedAt :: i64
  pbAccount_TxNonce :: u64
  pbAccount_TxCountSent :: u64
  pbAccount_Metadata :: "'st option"

record Checksum_pb =
  Checksum_Checksum :: bytes
  Checksum_Version :: i32

record AccountNonceSyncRequest =
  NonceReq_Art :: bytes
  NonceReq_TotalKeys :: u64
  NonceReq_KeysRange :: "RangeTag option"
  NonceReq_BatchIndex :: u32
  NonceReq_IsLast :: bool
  NonceReq_Phase :: "Phase option"
  NonceReq_Checksum :: "Checksum_pb option"

text \<open>The address set of a fetch request, in the order in which the server ranges over the map.\<close>

record AccountSyncRequestAccounts =
  FetchReq_Addresses :: "string list"
  FetchReq_Phase :: "Phase option"

record AccountBatchAck =
  BatchAck_BatchIndex :: u32
  BatchAck_Ack :: "Ack option"

record 'st AccountSyncResponse =
  AccountsResp_Accounts :: "'st pbAccount list"
  AccountsResp_PageIndex :: u32
  AccountsResp_Ack :: "Ack option"
  AccountsResp_Phase :: "Phase option"

record AccountSyncEndOfStream =
  End_TotalPages :: u32
  End_TotalAccounts :: u64
  End_Ack :: "Ack option"
  End_Phase :: "Phase option"

text \<open>The \<open>oneof\<close> of the server's messages.\<close>

datatype 'st AccountSyncServerMessage = BatchAckMsg AccountBatchAck | HeartbeatMsg i64
  | ResponseMsg "'st AccountSyncResponse" | EndMsg AccountSyncEndOfStream | NoPayload

text \<open>\<open>GetAck().GetOk()\<close> and \<open>GetAck().GetError()\<close>\<close>

definition ack_ok :: "Ack option \<Rightarrow> bool" where
  "ack_ok a = (case a of None \<Rightarrow> False | Some x \<Rightarrow> Ack_Ok x)"

definition ack_error :: "Ack option \<Rightarrow> string" where
  "ack_error a = (case a of None \<Rightarrow> [] | Some x \<Rightarrow> Ack_Error x)"

section \<open>accounts_errors.go\<close>

definition ErrEndOfStream :: "string \<Rightarrow> 'st AccountSyncServerMessage" where
  "ErrEndOfStream msg = EndMsg \<lparr>End_TotalPages = 0, End_TotalAccounts = 0, End_Ack = Some (ack False msg),
     End_Phase = Some (phase ACCOUNTS_SYNC_RESPONSE FAILURE False msg None)\<rparr>"

definition BatchAck :: "u32 \<Rightarrow> 'st AccountSyncServerMessage" where
  "BatchAck batchIndex = BatchAckMsg \<lparr>BatchAck_BatchIndex = batchIndex, BatchAck_Ack = Some (ack True [])\<rparr>"

definition ErrBatchAck :: "u32 \<Rightarrow> string \<Rightarrow> 'st AccountSyncServerMessage" where
  "ErrBatchAck batchIndex msg = BatchAckMsg \<lparr>BatchAck_BatchIndex = batchIndex, BatchAck_Ack = Some (ack False msg)\<rparr>"

definition DiffReady :: "'st pbAccount list \<Rightarrow> 'st AccountSyncServerMessage" where
  "DiffReady missing = EndMsg \<lparr>End_TotalPages = 0, End_TotalAccounts = word_of_nat (length missing),
     End_Ack = Some (ack True []), End_Phase = Some (phase ACCOUNTS_SYNC_RESPONSE ACCOUNTS_SYNC_RESPONSE True [] None)\<rparr>"

section \<open>Conversions\<close>

text \<open>Metadata: whether it is empty, the zero value, \<open>json.Marshal\<close> followed by \<open>UnmarshalJSON\<close> into a struct, and \<open>AsMap\<close>.\<close>

record ('md, 'st) meta_ops =
  meta_empty :: "'md \<Rightarrow> bool"
  meta_nil :: 'md
  meta_ToStruct :: "'md \<Rightarrow> 'st option"
  meta_AsMap :: "'st \<Rightarrow> 'md"

text \<open>\<open>common.BytesToAddress\<close> of go-ethereum: the last twenty bytes, padded with zeros on the left.\<close>

definition BytesToAddress :: "bytes \<Rightarrow> bytes" where
  "BytesToAddress b = (let t = drop (length b - 20) b in replicate (20 - length t) 0 @ t)"

definition bare_account :: "'md Account \<Rightarrow> 'st pbAccount" where
  "bare_account acc = \<lparr>pbAccount_DidAddress = Account_DIDAddress acc, pbAccount_Address = Account_Address acc,
     pbAccount_Balance = ''0'', pbAccount_Nonce = Account_Nonce acc, pbAccount_AccountType = Account_AccountType acc,
     pbAccount_CreatedAt = Account_CreatedAt acc, pbAccount_UpdatedAt = Account_UpdatedAt acc, pbAccount_TxNonce = 0,
     pbAccount_TxCountSent = 0, pbAccount_Metadata = None\<rparr>"

fun ToProtoAccounts :: "('md, 'st) meta_ops \<Rightarrow> 'md Account option list \<Rightarrow> 'st pbAccount list" where
  "ToProtoAccounts M [] = []"
| "ToProtoAccounts M (None # accs) = ToProtoAccounts M accs"
| "ToProtoAccounts M (Some acc # accs) = (bare_account acc)\<lparr>pbAccount_Metadata :=
     if meta_empty M (Account_Metadata acc) then None else meta_ToStruct M (Account_Metadata acc)\<rparr> # ToProtoAccounts M accs"

fun ProtoToAccounts :: "('md, 'st) meta_ops \<Rightarrow> 'st pbAccount option list \<Rightarrow> 'md Account list" where
  "ProtoToAccounts M [] = []"
| "ProtoToAccounts M (None # as) = ProtoToAccounts M as"
| "ProtoToAccounts M (Some a # as) = \<lparr>Account_DIDAddress = pbAccount_DidAddress a,
     Account_Address = BytesToAddress (pbAccount_Address a), Account_Balance = pbAccount_Balance a,
     Account_Nonce = pbAccount_Nonce a, Account_TxNonce = 0, Account_TxCountSent = 0,
     Account_AccountType = pbAccount_AccountType a, Account_CreatedAt = pbAccount_CreatedAt a,
     Account_UpdatedAt = pbAccount_UpdatedAt a,
     Account_Metadata = (case pbAccount_Metadata a of None \<Rightarrow> meta_nil M | Some m \<Rightarrow> meta_AsMap M m)\<rparr> # ProtoToAccounts M as"

text \<open>\<open>missing\<close> is the map's values in the order of the loop.\<close>

definition ConvertMissingToProto :: "'md Account option list \<Rightarrow> 'st pbAccount list" where
  "ConvertMissingToProto missing = map (\<lambda>a. bare_account (the a)) (filter (\<lambda>a. a \<noteq> None) missing)"

section \<open>accounts_sync_helpers.go\<close>

text \<open>Trees over nonces, in memory (\<open>'t\<close>) and swapped to disk (\<open>'w\<close>).\<close>

record ('t, 'w) art_ops =
  art_New :: 't
  art_Insert :: "u64 \<Rightarrow> 't \<Rightarrow> 't"
  art_Encode :: "'t \<Rightarrow> bytes"
  art_Decode :: "bytes \<Rightarrow> string + 't"
  sw_Merge :: "'t \<Rightarrow> 'w \<Rightarrow> 'w \<times> string option"
  sw_Close :: "'w \<Rightarrow> 'w \<times> string option"
  sw_Contains :: "'w \<Rightarrow> u64 \<Rightarrow> bool"

definition LockedART_Merge :: "('t, 'w) art_ops \<Rightarrow> bytes \<Rightarrow> 'w \<Rightarrow> 'w \<times> string option" where
  "LockedART_Merge A encoded l = (case art_Decode A encoded of Inl e \<Rightarrow> (l, Some (''art decode: '' @ e))
     | Inr chunk \<Rightarrow> (case sw_Merge A chunk l of (l', Some e) \<Rightarrow> (l', Some (''art merge: '' @ e)) | (l', None) \<Rightarrow> (l', None)))"

definition LockedART_Close :: "('t, 'w) art_ops \<Rightarrow> 'w \<Rightarrow> 'w \<times> string option" where
  "LockedART_Close A l = sw_Close A l"

definition ChecksumVersion_String :: "i32 \<Rightarrow> string" where
  "ChecksumVersion_String v = (if v = 0 then ''CHECKSUM_VERSION_UNSPECIFIED'' else if v = 1 then ''CRC32''
     else if v = 2 then ''SHA256'' else show_int (sint v))"

text \<open>The bytes are never nil here, \<open>ACCOUNTS_SYNC\<close> has excluded it.\<close>

definition ARTChecksumValid :: "bytes \<Rightarrow> Checksum_pb option \<Rightarrow> string + bool" where
  "ARTChecksumValid art_bytes checksum_object = (case checksum_object of
     None \<Rightarrow> Inl (NilData @ '', checksum object is nil or checksum is empty'')
   | Some c \<Rightarrow> if Checksum_Checksum c = [] then Inl (NilData @ '', checksum object is nil or checksum is empty'')
       else if Checksum_Version c = 1 then checksum_Verify (Some art_bytes) 1 (Checksum_Checksum c)
       else if Checksum_Version c = 2 then checksum_Verify (Some art_bytes) 2 (Checksum_Checksum c)
       else Inl (UnsupportedChecksumVersion @ '', unsupported checksum version: '' @ ChecksumVersion_String (Checksum_Version c)))"

text \<open>\<open>common/checksum/checksum_accountsync\<close>\<close>

definition CreateProto :: "bytes \<Rightarrow> u16 \<Rightarrow> string + Checksum_pb" where
  "CreateProto artBytes version = (case checksum_Create (Some artBytes) version of Inl e \<Rightarrow> Inl e
     | Inr cs \<Rightarrow> Inr \<lparr>Checksum_Checksum = cs, Checksum_Version = ucast version\<rparr>)"

section \<open>accounts_fetch_helper.go\<close>

text \<open>The last part of \<open>strings.Split(addr, ":")\<close>\<close>

definition last_part :: "string \<Rightarrow> string" where
  "last_part addr = rev (takeWhile ((\<noteq>) (CHR '':'')) (rev addr))"

definition lookupKeyForFetch :: "string \<Rightarrow> string" where
  "lookupKeyForFetch addr = (if HasPrefix addr ''did:'' then last_part addr else addr)"

text \<open>The account table of the server.\<close>

record 'md acct_store =
  TotalAccounts :: "string + u64"
  NonceBatches :: "u64 list list"
  GetAccountsByNonces :: "u64 list \<Rightarrow> 'md Account option list"
  GetAccountByAddress :: "string \<Rightarrow> string + 'md Account option"

definition fetch_address :: "'md acct_store \<Rightarrow> string \<Rightarrow> 'st pbAccount list" where
  "fetch_address St addr = (case GetAccountByAddress St (lookupKeyForFetch addr) of
     Inr (Some acc) \<Rightarrow> [bare_account acc] | _ \<Rightarrow> [])"

definition FetchAccountsByAddresses :: "'md acct_store \<Rightarrow> string list \<Rightarrow> string + 'st pbAccount list" where
  "FetchAccountsByAddresses St addresses = Inr (concat (map (fetch_address St) addresses))"

section \<open>data_router.go\<close>

text \<open>The session on the server, run to its end: the diff stage has returned and closed the input, and every worker has
  returned.\<close>

definition run_to_end :: "(u64 list \<Rightarrow> 'acc list) \<Rightarrow> (u64 \<Rightarrow> bool) \<Rightarrow> event list \<Rightarrow> 'acc session \<Rightarrow>
    ('acc session \<times> DispatchSummary) option" where
  "run_to_end fetch contains evs s0 = (case run_session fetch contains evs s0 of None \<Rightarrow> None
     | Some s \<Rightarrow> (case run_summary s of None \<Rightarrow> None
        | Some r \<Rightarrow> if AD_inputClosed (S_disp s) then Some (s, r) else None))"

definition diff_failed :: "string \<Rightarrow> 'st AccountSyncServerMessage" where
  "diff_failed e = ErrEndOfStream (''diff computation: '' @ e)"

definition diff_done :: "DispatchSummary \<Rightarrow> Auth option \<Rightarrow> 'st AccountSyncServerMessage" where
  "diff_done r auth = EndMsg \<lparr>End_TotalPages = Summary_DeliveredPages r, End_TotalAccounts = Summary_DeliveredAccounts r,
     End_Ack = Some (ack True []), End_Phase = Some (phase ACCOUNTS_SYNC_RESPONSE ACCOUNTS_SYNC_RESPONSE True [] auth)\<rparr>"

text \<open>The result: the session's tree, the session that ran if one did, and the message.\<close>

type_synonym ('w, 'md, 'st) sync_result = "'w \<times> 'md Account option session option \<times> 'st AccountSyncServerMessage"

definition run_diff :: "('t, 'w) art_ops \<Rightarrow> 'md acct_store \<Rightarrow> event list \<Rightarrow> u64 \<Rightarrow> Auth option \<Rightarrow> 'w \<Rightarrow> ('w, 'md, 'st) sync_result option" where
  "run_diff A St evs totalKeys auth l = (case TotalAccounts St of
     Inl e \<Rightarrow> Some (l, None, diff_failed (''accounts diff: server total: '' @ e))
   | Inr serverTotal \<Rightarrow> (case session_start Default totalKeys serverTotal (NonceBatches St) of
        Inl e \<Rightarrow> Some (l, None, ErrEndOfStream (''dispatcher init: '' @ e))
      | Inr s0 \<Rightarrow> (case run_to_end (GetAccountsByNonces St) (sw_Contains A l) evs s0 of None \<Rightarrow> None
         | Some (s, r) \<Rightarrow> Some (l, Some s, case diff_error s of Some e \<Rightarrow> diff_failed e | None \<Rightarrow> diff_done r auth))))"

definition ACCOUNTS_SYNC :: "('t, 'w) art_ops \<Rightarrow> 'md acct_store \<Rightarrow> event list \<Rightarrow> AccountNonceSyncRequest \<Rightarrow> Auth option \<Rightarrow> 'w \<Rightarrow>
    ('w, 'md, 'st) sync_result option" where
  "ACCOUNTS_SYNC A St evs req auth l =
     (if NonceReq_Art req = [] then Some (l, None, ErrEndOfStream AccountsSyncArtNil)
      else case ARTChecksumValid (NonceReq_Art req) (NonceReq_Checksum req) of
          Inl e \<Rightarrow> Some (l, None, ErrEndOfStream e)
        | Inr False \<Rightarrow> Some (l, None, ErrEndOfStream ''ART checksum mismatch'')
        | Inr True \<Rightarrow> (case LockedART_Merge A (NonceReq_Art req) l of
             (l1, Some e) \<Rightarrow> Some (l1, None, ErrEndOfStream e)
           | (l1, None) \<Rightarrow>
              if \<not> NonceReq_IsLast req then Some (l1, None, BatchAck (NonceReq_BatchIndex req))
              else (case LockedART_Close A l1 of
                  (l2, Some e) \<Rightarrow> Some (l2, None, ErrEndOfStream e)
                | (l2, None) \<Rightarrow> run_diff A St evs (NonceReq_TotalKeys req) auth l2)))"

definition HandleAccountsSync :: "('a, 'r, 'tt) router_env \<Rightarrow> ('t, 'w) art_ops \<Rightarrow> 'md acct_store \<Rightarrow> event list \<Rightarrow>
    AccountNonceSyncRequest \<Rightarrow> bytes \<Rightarrow> 'w \<Rightarrow> ('a, 'b, 'r) Datarouter \<Rightarrow>
    (('a, 'b, 'r) Datarouter \<times> ('w, 'md, 'st) sync_result) option" where
  "HandleAccountsSync E A St evs req peer l router = (case NonceReq_Phase req of
     None \<Rightarrow> Some (router, l, None, ErrEndOfStream AuthRequired)
   | Some ph \<Rightarrow>
      if no_token (Phase_Auth ph) then Some (router, l, None, ErrEndOfStream AuthRequired)
      else with_token E (Phase_Auth ph) peer (l, None, ErrEndOfStream AuthenticationFailed)
        (\<lambda>router. if Phase_PresentPhase ph = ACCOUNTS_SYNC_REQUEST
           then if NonceReq_KeysRange req = None then Some (router, l, None, ErrEndOfStream AccountsSyncRequestNil)
             else map_option (Pair router) (ACCOUNTS_SYNC A St evs req (Phase_Auth ph) l)
           else Some (router, l, None, ErrEndOfStream (''unknown state: '' @ Phase_PresentPhase ph))) router)"

definition accounts_msg :: "'st pbAccount list \<Rightarrow> string \<Rightarrow> string \<Rightarrow> bool \<Rightarrow> string \<Rightarrow> Auth option \<Rightarrow> 'st AccountSyncResponse" where
  "accounts_msg accs present succ ok err auth = \<lparr>AccountsResp_Accounts = accs, AccountsResp_PageIndex = 0,
     AccountsResp_Ack = Some (ack ok err), AccountsResp_Phase = Some (phase present succ ok err auth)\<rparr>"

definition HandleAccountsFetch :: "('a, 'r, 'tt) router_env \<Rightarrow> 'md acct_store \<Rightarrow> AccountSyncRequestAccounts \<Rightarrow> bytes \<Rightarrow>
    ('a, 'b, 'r) Datarouter \<Rightarrow> (('a, 'b, 'r) Datarouter \<times> 'st AccountSyncResponse) option" where
  "HandleAccountsFetch E St req peer router = (case FetchReq_Phase req of
     None \<Rightarrow> Some (router, accounts_msg [] ACCOUNTS_SYNC_REQUEST_ACCOUNTS FAILURE False AuthRequired None)
   | Some ph \<Rightarrow>
      if no_token (Phase_Auth ph)
      then Some (router, accounts_msg [] ACCOUNTS_SYNC_REQUEST_ACCOUNTS FAILURE False AuthRequired None)
      else with_token E (Phase_Auth ph) peer
        (accounts_msg [] ACCOUNTS_SYNC_REQUEST_ACCOUNTS FAILURE False AuthenticationFailed (Phase_Auth ph))
        (\<lambda>router. Some (router, if Phase_PresentPhase ph = ACCOUNTS_SYNC_REQUEST_ACCOUNTS
           then (case FetchAccountsByAddresses St (FetchReq_Addresses req) of
               Inl e \<Rightarrow> accounts_msg [] ACCOUNTS_SYNC_REQUEST_ACCOUNTS FAILURE False e (Phase_Auth ph)
             | Inr accs \<Rightarrow> accounts_msg accs ACCOUNTS_SYNC_REQUEST_ACCOUNTS_RESPONSE SUCCESS True [] (Phase_Auth ph))
           else accounts_msg [] (Phase_PresentPhase ph) FAILURE False (''unknown state: '' @ Phase_PresentPhase ph) (Phase_Auth ph)))
        router)"

section \<open>client_helper.go\<close>

text \<open>The client's log buffer, if it has a log, with \<open>AddToBufferWAL\<close> and \<open>AddCheckpointToBuffer\<close>, and its account table.\<close>

record ('md, 'st, 'q, 'd) client_ops =
  cl_AddToBufferWAL :: "'st AccountSyncResponse ProtoEvent \<Rightarrow> 'q \<Rightarrow> 'q \<times> string option"
  cl_AddCheckpoint :: "'q \<Rightarrow> 'q"
  cl_WriteAccounts :: "'md Account list \<Rightarrow> 'd \<Rightarrow> 'd \<times> string option"

record ('q, 'd) client_state =
  CS_WAL :: "'q option"
  CS_DB :: 'd

definition account_event :: "'st pbAccount list \<Rightarrow> 'st AccountSyncResponse ProtoEvent" where
  "account_event accs = \<lparr>ProtoEvent_Base = empty_BaseEvent\<lparr>BaseEvent_Operation := OpAppend\<rparr>,
     ProtoEvent_Message = Some \<lparr>AccountsResp_Accounts = accs, AccountsResp_PageIndex = 0, AccountsResp_Ack = None,
       AccountsResp_Phase = None\<rparr>, ProtoEvent_ProtoData = []\<rparr>"

definition enqueue_event :: "('md, 'st, 'q, 'd) client_ops \<Rightarrow> 'st AccountSyncResponse ProtoEvent \<Rightarrow> ('q, 'd) client_state \<Rightarrow>
    ('q, 'd) client_state \<times> string option" where
  "enqueue_event C ev s = (case CS_WAL s of None \<Rightarrow> (s, None)
     | Some q \<Rightarrow> (case cl_AddToBufferWAL C ev q of (q', err) \<Rightarrow> (s\<lparr>CS_WAL := Some q'\<rparr>, err)))"

definition WriteAccounts :: "('md, 'st) meta_ops \<Rightarrow> ('md, 'st, 'q, 'd) client_ops \<Rightarrow> 'st pbAccount list \<Rightarrow> ('q, 'd) client_state \<Rightarrow>
    ('q, 'd) client_state \<times> string option" where
  "WriteAccounts M C pbs s =
     (if pbs = [] then (s, Some ''no accounts to write'')
      else let accounts = ProtoToAccounts M (map Some pbs)
      in if accounts = [] then (s, Some ''no accounts to write'')
      else case enqueue_event C (account_event pbs) s of
          (s1, Some e) \<Rightarrow> (s1, Some (''accountsync client: async WAL enqueue failed: '' @ e))
        | (s1, None) \<Rightarrow> (case cl_WriteAccounts C accounts (CS_DB s1) of
             (db, Some e) \<Rightarrow> (s1\<lparr>CS_DB := db\<rparr>, Some (''accountsync client: DB write failed: '' @ e))
           | (db, None) \<Rightarrow> (s1\<lparr>CS_DB := db, CS_WAL := map_option (cl_AddCheckpoint C) (CS_WAL s1)\<rparr>, None)))"

definition WriteAccountsBatch :: "('md, 'st) meta_ops \<Rightarrow> ('md, 'st, 'q, 'd) client_ops \<Rightarrow> 'st pbAccount list \<Rightarrow> ('q, 'd) client_state \<Rightarrow>
    ('q, 'd) client_state \<times> string option" where
  "WriteAccountsBatch M C accounts s = (if accounts = [] then (s, None) else WriteAccounts M C accounts s)"

end
