(* ===== verification/FS_AccountsWire.thy ===== *)
theory FS_AccountsWire
  imports FS_Accounts FS_Comm
begin

text \<open>
  The account streams: \<open>messaging.go\<close> from \<open>ReadAccountsSyncServerMessageSkippingHeartbeats\<close> on, the account calls of
  \<open>communication.go\<close>, the handlers of \<open>sync_protocols.go\<close> for the upload of nonces, the pages and the targeted fetch, and
  the call-backs of \<open>DispatcherCallbacks.go\<close>. The encodings of the messages are the record \<open>acc_wire\<close>.
\<close>

definition AccountsSyncProtocol :: string where "AccountsSyncProtocol = ''/fastsync/v1/accountssync''"
definition AccountsSyncDataProtocol :: string where "AccountsSyncDataProtocol = ''/fastsync/v1/accountssync/data''"
definition AccountsSyncFetchProtocol :: string where "AccountsSyncFetchProtocol = ''/fastsync/v1/accountssync/fetch''"

record 'st acc_wire =
  aw_chunk :: "AccountNonceSyncRequest codec"
  aw_msg :: "'st AccountSyncServerMessage codec"
  aw_fetch :: "AccountSyncRequestAccounts codec"
  aw_accounts :: "'st AccountSyncResponse codec"

section \<open>messaging.go\<close>

function ReadAccountsSyncServerMessageSkippingHeartbeats :: "'st acc_wire \<Rightarrow> host \<Rightarrow> rstream \<Rightarrow>
    (rstream \<times> (string + 'st AccountSyncServerMessage)) option" where
  "ReadAccountsSyncServerMessageSkippingHeartbeats Wr H str = (case host_SetReadDeadline H of
     Some e \<Rightarrow> Some (str, Inl (''accounts sync: set read deadline: '' @ e))
   | None \<Rightarrow> (case ReadDelimited (aw_msg Wr) str of None \<Rightarrow> None
      | Some (str', Inl e) \<Rightarrow> Some (str', Inl (''accounts sync: read frame: '' @ e))
      | Some (str', Inr msg) \<Rightarrow> (case msg of
           HeartbeatMsg _ \<Rightarrow> ReadAccountsSyncServerMessageSkippingHeartbeats Wr H str'
         | _ \<Rightarrow> Some (str', Inr msg))))"
  by pat_completeness auto

termination ReadAccountsSyncServerMessageSkippingHeartbeats
  by (relation "measure (\<lambda>(Wr, H, str). pending str)") (auto dest: ReadDelimited_pending)

declare ReadAccountsSyncServerMessageSkippingHeartbeats.simps [simp del]

lemma Read_skip_pending:
  "ReadAccountsSyncServerMessageSkippingHeartbeats Wr H str = Some (str', Inr msg) \<Longrightarrow> pending str' < pending str"
proof (induction Wr H str rule: ReadAccountsSyncServerMessageSkippingHeartbeats.induct)
  case (1 Wr H str)
  from 1(2) obtain s1 m where m: "host_SetReadDeadline H = None" "ReadDelimited (aw_msg Wr) str = Some (s1, Inr m)"
    by (subst (asm) ReadAccountsSyncServerMessageSkippingHeartbeats.simps) (auto split: option.splits sum.splits)
  note p = ReadDelimited_pending [OF m(2)]
  show ?case
  proof (cases "\<exists>t. m = HeartbeatMsg t")
    case True
    then obtain t where t: "m = HeartbeatMsg t" by blast
    with 1(2) m have "ReadAccountsSyncServerMessageSkippingHeartbeats Wr H s1 = Some (str', Inr msg)"
      by (simp add: ReadAccountsSyncServerMessageSkippingHeartbeats.simps [of Wr H str])
    from 1(1) [OF m(1,2) refl refl t this] p show ?thesis by simp
  next
    case False
    with 1(2) m have "str' = s1"
      by (subst (asm) ReadAccountsSyncServerMessageSkippingHeartbeats.simps) (cases m; simp)
    with p show ?thesis by simp
  qed
qed

text \<open>\<open>%T\<close> of the payload\<close>

definition payload_type :: "'st AccountSyncServerMessage \<Rightarrow> string" where
  "payload_type msg = (case msg of BatchAckMsg _ \<Rightarrow> ''*accounts.AccountSyncServerMessage_BatchAck''
     | HeartbeatMsg _ \<Rightarrow> ''*accounts.AccountSyncServerMessage_Heartbeat''
     | ResponseMsg _ \<Rightarrow> ''*accounts.AccountSyncServerMessage_Response''
     | EndMsg _ \<Rightarrow> ''*accounts.AccountSyncServerMessage_End'' | NoPayload \<Rightarrow> ''<nil>'')"

text \<open>The call-backs, over a state \<open>'h\<close>; each may abort the exchange.\<close>

record ('st, 'h) AccountSyncHandlers =
  OnBatchAck :: "AccountBatchAck \<Rightarrow> 'h \<Rightarrow> 'h \<times> string option"
  OnResponse :: "'st AccountSyncResponse \<Rightarrow> 'h \<Rightarrow> 'h \<times> string option"
  OnEnd :: "AccountSyncEndOfStream \<Rightarrow> 'h \<Rightarrow> 'h \<times> string option"

text \<open>The loop after the final chunk.\<close>

function await_end :: "'st acc_wire \<Rightarrow> host \<Rightarrow> ('st, 'h) AccountSyncHandlers \<Rightarrow> rstream \<Rightarrow> 'h \<Rightarrow> ('h \<times> string option) option" where
  "await_end Wr H hs str h = (case ReadAccountsSyncServerMessageSkippingHeartbeats Wr H str of None \<Rightarrow> None
     | Some (_, Inl e) \<Rightarrow> Some (h, Some (''accountsync: read final response: '' @ e))
     | Some (str', Inr msg) \<Rightarrow> (case msg of
          BatchAckMsg a \<Rightarrow> (case OnBatchAck hs a h of (h', Some e) \<Rightarrow> Some (h', Some e) | (h', None) \<Rightarrow> await_end Wr H hs str' h')
        | ResponseMsg r \<Rightarrow> (case OnResponse hs r h of (h', Some e) \<Rightarrow> Some (h', Some e) | (h', None) \<Rightarrow> await_end Wr H hs str' h')
        | EndMsg eos \<Rightarrow> Some (OnEnd hs eos h)
        | _ \<Rightarrow> Some (h, Some (''accountsync: unexpected frame type '' @ payload_type msg @ '' after final chunk''))))"
  by pat_completeness auto

termination await_end
  by (relation "measure (\<lambda>(Wr, H, hs, str, h). pending str)") (auto dest: Read_skip_pending)

declare await_end.simps [simp del]

text \<open>The loop over the chunks. The result counts the chunks that were taken from the channel.\<close>

fun send_chunks :: "'st acc_wire \<Rightarrow> host \<Rightarrow> ('st, 'h) AccountSyncHandlers \<Rightarrow> AccountNonceSyncRequest list \<Rightarrow> nat \<Rightarrow> conn \<Rightarrow> 'h \<Rightarrow>
    (nat \<times> 'h \<times> string option) option" where
  "send_chunks Wr H hs [] k c h = Some (k, h, Some ''accountsync: chunks channel closed without a final chunk'')"
| "send_chunks Wr H hs (chunk # chunks) k c h = (case host_SetWriteDeadline H of
     Some e \<Rightarrow> Some (Suc k, h, Some (''accountsync: set write deadline: '' @ e))
   | None \<Rightarrow> (case WriteDelimited (aw_chunk Wr) (stream_Write H) chunk c of
        (c1, Some e) \<Rightarrow> Some (Suc k, h, Some (''accountsync: write chunk '' @ show_nat (unat (NonceReq_BatchIndex chunk)) @ '': '' @ e))
      | (c1, None) \<Rightarrow>
         if \<not> NonceReq_IsLast chunk
         then (case ReadAccountsSyncServerMessageSkippingHeartbeats Wr H (conn_in c1) of None \<Rightarrow> None
            | Some (_, Inl e) \<Rightarrow> Some (Suc k, h, Some (''accountsync: read ack for chunk '' @
                show_nat (unat (NonceReq_BatchIndex chunk)) @ '': '' @ e))
            | Some (str, Inr msg) \<Rightarrow> (case msg of
                 BatchAckMsg a \<Rightarrow> (case OnBatchAck hs a h of (h', Some e) \<Rightarrow> Some (Suc k, h', Some e)
                    | (h', None) \<Rightarrow> send_chunks Wr H hs chunks (Suc k) (c1\<lparr>conn_in := str\<rparr>) h')
               | _ \<Rightarrow> Some (Suc k, h, Some (''accountsync: expected BatchAck for chunk '' @
                   show_nat (unat (NonceReq_BatchIndex chunk)) @ '', got '' @ payload_type msg))))
         else map_option (Pair (Suc k)) (await_end Wr H hs (conn_in c1) h)))"

definition SendAccountsSyncAllChunksWithHeartbeat :: "host option \<Rightarrow> u16 \<Rightarrow> AddrInfo \<Rightarrow> string \<Rightarrow> 'st acc_wire \<Rightarrow>
    ('st, 'h) AccountSyncHandlers \<Rightarrow> AccountNonceSyncRequest list \<Rightarrow> 'h \<Rightarrow> (nat \<times> 'h \<times> string option) option" where
  "SendAccountsSyncAllChunksWithHeartbeat h version info protocol Wr hs chunks st =
     (case open_stream h version info [protocol] ''failed to create stream: '' of Inl e \<Rightarrow> Some (0, st, Some e)
      | Inr (H, c) \<Rightarrow> send_chunks Wr H hs chunks 0 c st)"

text \<open>The text of a failed connection names no address here.\<close>

definition connect_data :: "host \<Rightarrow> u16 \<Rightarrow> AddrInfo \<Rightarrow> string option" where
  "connect_data H version info = (case SelectTransportAddrWithFallback H (AddrInfo_Addrs info) version of
     Inl e \<Rightarrow> Some (''transport selection failed: '' @ e)
   | Inr (primary, fallback) \<Rightarrow> (case host_Connect H (AddrInfo_ID info) primary of None \<Rightarrow> None
      | Some e \<Rightarrow>
         let failed = Some (''failed to connect to peer '' @ host_String H (AddrInfo_ID info) @ '': '' @ e)
         in if 2 \<le> version
            then (case fallback of None \<Rightarrow> failed
              | Some fb \<Rightarrow> (case host_Connect H (AddrInfo_ID info) fb of None \<Rightarrow> None
                 | Some e' \<Rightarrow> Some (''failed to connect (QUIC and TCP fallback) to peer '' @
                     host_String H (AddrInfo_ID info) @ '': '' @ e')))
            else failed))"

definition OpenAccountsSyncDataStream :: "host option \<Rightarrow> u16 \<Rightarrow> AddrInfo \<Rightarrow> string + host \<times> conn" where
  "OpenAccountsSyncDataStream h version info = (case h of None \<Rightarrow> Inl ''host is nil''
     | Some H \<Rightarrow>
        if AddrInfo_Addrs info = [] then Inl ''peer has no addresses''
        else case connect_data H version info of Some e \<Rightarrow> Inl e
          | None \<Rightarrow> (case host_NewStream H (AddrInfo_ID info) [AccountsSyncDataProtocol] of
               Inl e \<Rightarrow> Inl (''open AccountsSyncDataProtocol stream: '' @ e)
             | Inr p \<Rightarrow> Inr (H, \<lparr>conn_Protocol = p, conn_written = [],
                 conn_in = \<lparr>rs_chunks = host_answer H p [], rs_end = host_end H p []\<rparr>\<rparr>)))"

definition WriteAccountPageAndReadACK :: "'st acc_wire \<Rightarrow> host \<Rightarrow> conn \<Rightarrow> 'st AccountSyncServerMessage \<Rightarrow>
    (conn \<times> (string + 'st AccountSyncServerMessage)) option" where
  "WriteAccountPageAndReadACK Wr H c msg = (case host_SetWriteDeadline H of
     Some e \<Rightarrow> Some (c, Inl (''set write deadline: '' @ e))
   | None \<Rightarrow> (case WriteDelimited (aw_msg Wr) (stream_Write H) msg c of
        (c1, Some e) \<Rightarrow> Some (c1, Inl (''write account page: '' @ e))
      | (c1, None) \<Rightarrow> (case host_SetReadDeadline H of Some e \<Rightarrow> Some (c1, Inl (''set read deadline: '' @ e))
         | None \<Rightarrow> (case ReadDelimited (aw_msg Wr) (conn_in c1) of None \<Rightarrow> None
            | Some (str, Inl e) \<Rightarrow> Some (c1\<lparr>conn_in := str\<rparr>, Inl (''read account page ACK: '' @ e))
            | Some (str, Inr reply) \<Rightarrow> Some (c1\<lparr>conn_in := str\<rparr>, Inr reply)))))"

section \<open>communication.go\<close>

definition StreamAllAccountSyncChunks :: "communication \<Rightarrow> 'st acc_wire \<Rightarrow> 'x Nodeinfo \<Rightarrow> ('st, 'h) AccountSyncHandlers \<Rightarrow>
    AccountNonceSyncRequest list \<Rightarrow> 'h \<Rightarrow> (nat \<times> 'h \<times> string option) option" where
  "StreamAllAccountSyncChunks c Wr peer hs chunks st = (if comm_host c = None then Some (0, st, Some ''host is nil'')
     else SendAccountsSyncAllChunksWithHeartbeat (comm_host c) (comm_protocolVersion c) (addr_info peer) AccountsSyncProtocol
       Wr hs chunks st)"

definition StreamAccounts :: "communication \<Rightarrow> 'st acc_wire \<Rightarrow> 'x Nodeinfo \<Rightarrow> 'st AccountSyncServerMessage \<Rightarrow>
    (string + 'st AccountSyncServerMessage) option" where
  "StreamAccounts c Wr peer resp = (if comm_host c = None then Some (Inl ''host is nil'')
     else relabel ''stream accounts to client failed: '' (SendProtoDelimited (comm_host c) (comm_protocolVersion c)
       (addr_info peer) AccountsSyncDataProtocol (aw_msg Wr) (aw_msg Wr) resp))"

definition FetchAccounts_comm :: "communication \<Rightarrow> 'st acc_wire \<Rightarrow> 'x Nodeinfo \<Rightarrow> AccountSyncRequestAccounts \<Rightarrow>
    (string + 'st AccountSyncResponse) option" where
  "FetchAccounts_comm c Wr peer req = (if comm_host c = None then Some (Inl ''host is nil'')
     else relabel ''failed to send accounts fetch request: '' (SendProtoDelimited (comm_host c) (comm_protocolVersion c)
       (addr_info peer) AccountsSyncFetchProtocol (aw_fetch Wr) (aw_accounts Wr) req))"

definition OpenAccountsDataStream :: "communication \<Rightarrow> 'x Nodeinfo \<Rightarrow> string + host \<times> conn" where
  "OpenAccountsDataStream c peer = (if comm_host c = None then Inl ''host is nil''
     else OpenAccountsSyncDataStream (comm_host c) (comm_protocolVersion c) (addr_info peer))"

definition SendAccountPageOnStream :: "'st acc_wire \<Rightarrow> host \<Rightarrow> conn \<Rightarrow> 'st AccountSyncServerMessage \<Rightarrow>
    (conn \<times> (string + 'st AccountSyncServerMessage)) option" where
  "SendAccountPageOnStream Wr H c msg = WriteAccountPageAndReadACK Wr H c msg"

section \<open>DispatcherCallbacks.go\<close>

definition page_message :: "('md, 'st) meta_ops \<Rightarrow> Auth option \<Rightarrow> u32 \<Rightarrow> 'md Account option list \<Rightarrow> 'st AccountSyncServerMessage" where
  "page_message M auth pageIndex accounts = ResponseMsg \<lparr>AccountsResp_Accounts = ToProtoAccounts M accounts,
     AccountsResp_PageIndex = pageIndex, AccountsResp_Ack = Some (ack True []),
     AccountsResp_Phase = Some (phase ACCOUNTS_SYNC_RESPONSE ACCOUNTS_SYNC_RESPONSE True [] auth)\<rparr>"

definition check_page_ack :: "u32 \<Rightarrow> 'st AccountSyncServerMessage \<Rightarrow> string option" where
  "check_page_ack pageIndex reply = (case reply of
     BatchAckMsg a \<Rightarrow> if ack_ok (BatchAck_Ack a) then None
       else Some (''accountsync client rejected page '' @ show_nat (unat pageIndex) @ '': '' @ ack_error (BatchAck_Ack a))
   | _ \<Rightarrow> Some (''accountsync send page '' @ show_nat (unat pageIndex) @ '': unexpected response type '' @ payload_type reply))"

definition buildSendPageOnStream :: "('md, 'st) meta_ops \<Rightarrow> 'st acc_wire \<Rightarrow> Auth option \<Rightarrow> host \<Rightarrow> conn \<Rightarrow> u32 \<Rightarrow> 'md Account option list \<Rightarrow>
    (conn \<times> string option) option" where
  "buildSendPageOnStream M Wr auth H c pageIndex accounts =
     (case SendAccountPageOnStream Wr H c (page_message M auth pageIndex accounts) of None \<Rightarrow> None
      | Some (c', Inl e) \<Rightarrow> Some (c', Some (''accountsync send page '' @ show_nat (unat pageIndex) @ '': '' @ e))
      | Some (c', Inr reply) \<Rightarrow> Some (c', check_page_ack pageIndex reply))"

text \<open>The last attempt for a dead page, whose accounts are fetched again; the flag says that it was acknowledged.\<close>

definition buildOnDeadLetter :: "('md, 'st) meta_ops \<Rightarrow> 'st acc_wire \<Rightarrow> communication \<Rightarrow> 'x Nodeinfo \<Rightarrow> Auth option \<Rightarrow>
    (u64 list \<Rightarrow> string + 'md Account option list) \<Rightarrow> DeadLetterPage \<Rightarrow> bool option" where
  "buildOnDeadLetter M Wr comm remote auth fetch dead = (case fetch (Dead_Nonces dead) of Inl _ \<Rightarrow> Some False
     | Inr accounts \<Rightarrow> (case OpenAccountsDataStream comm remote of Inl _ \<Rightarrow> Some False
        | Inr (H, c) \<Rightarrow> (case buildSendPageOnStream M Wr auth H c 0 accounts of None \<Rightarrow> None
           | Some (_, e) \<Rightarrow> Some (e = None))))"

section \<open>sync_protocols.go\<close>

text \<open>The upload is refused, but its chunks are read to the last one.\<close>

function drainAndRejectAccountsSync :: "'st acc_wire \<Rightarrow> (bytes \<Rightarrow> 'w \<Rightarrow> 'w \<times> string option) \<Rightarrow> string \<Rightarrow> rstream \<Rightarrow> 'w \<Rightarrow> 'w option" where
  "drainAndRejectAccountsSync Wr W errMsg str w = (case ReadDelimited (aw_chunk Wr) str of None \<Rightarrow> None
     | Some (_, Inl _) \<Rightarrow> Some w
     | Some (str', Inr req) \<Rightarrow>
        if NonceReq_IsLast req
        then Some (fst (WriteDelimited (aw_msg Wr) W (EndMsg \<lparr>End_TotalPages = 0, End_TotalAccounts = 0,
          End_Ack = Some (ack False errMsg), End_Phase = None\<rparr>) w))
        else drainAndRejectAccountsSync Wr W errMsg str' (fst (WriteDelimited (aw_msg Wr) W
          (BatchAckMsg \<lparr>BatchAck_BatchIndex = 0, BatchAck_Ack = Some (ack True [])\<rparr>) w)))"
  by pat_completeness auto

termination drainAndRejectAccountsSync
  by (relation "measure (\<lambda>(Wr, W, e, str, w). pending str)") (auto dest: ReadDelimited_pending)

declare drainAndRejectAccountsSync.simps [simp del]

text \<open>The heartbeat goroutine lives as long as the stream and stops at its first failed write. The ticks before the answer to
  the \<open>k\<close>-th frame are \<open>beats k\<close>; the cancellation of the context by a failed heartbeat is not modelled.\<close>

fun account_beat :: "'st acc_wire \<Rightarrow> (bytes \<Rightarrow> 'w \<Rightarrow> 'w \<times> string option) \<Rightarrow> i64 list \<Rightarrow> bool \<Rightarrow> 'w \<Rightarrow> 'w \<times> bool" where
  "account_beat Wr W ts False w = (w, False)"
| "account_beat Wr W [] True w = (w, True)"
| "account_beat Wr W (t # ts) True w = (case WriteDelimited (aw_msg Wr) W (HeartbeatMsg t) w of
     (w', Some _) \<Rightarrow> (w', False) | (w', None) \<Rightarrow> account_beat Wr W ts True w')"

text \<open>What the upload leaves: the router, the session's tree, the account session if one ran, and the writer.\<close>

type_synonym ('s, 'l, 'x, 'w) upload_result = "'s \<times> 'l \<times> 'x option \<times> 'w"

function upload_loop :: "'st acc_wire \<Rightarrow> (bytes \<Rightarrow> 'w \<Rightarrow> 'w \<times> string option) \<Rightarrow>
    (AccountNonceSyncRequest \<Rightarrow> 'l \<Rightarrow> 's \<Rightarrow> ('s \<times> 'l \<times> 'x option \<times> 'st AccountSyncServerMessage) option) \<Rightarrow> (nat \<Rightarrow> i64 list) \<Rightarrow>
    nat \<Rightarrow> bool \<Rightarrow> rstream \<Rightarrow> 'l \<Rightarrow> 's \<Rightarrow> 'w \<Rightarrow> ('s, 'l, 'x, 'w) upload_result option" where
  "upload_loop Wr W handle beats k running str l s w = (case ReadDelimited (aw_chunk Wr) str of None \<Rightarrow> None
     | Some (_, Inl _) \<Rightarrow> Some (s, l, None, w)
     | Some (str', Inr req) \<Rightarrow> (case handle req l s of None \<Rightarrow> None
        | Some (s', l', x, result) \<Rightarrow> (case account_beat Wr W (beats k) running w of
             (w1, running') \<Rightarrow> (case result of
                BatchAckMsg _ \<Rightarrow> (case WriteDelimited (aw_msg Wr) W result w1 of
                    (w2, Some _) \<Rightarrow> Some (s', l', x, w2)
                  | (w2, None) \<Rightarrow> upload_loop Wr W handle beats (Suc k) running' str' l' s' w2)
              | EndMsg _ \<Rightarrow> Some (s', l', x, fst (WriteDelimited (aw_msg Wr) W result w1))
              | _ \<Rightarrow> Some (s', l', x, w1)))))"
  by pat_completeness auto

termination upload_loop
  by (relation "measure (\<lambda>(Wr, W, handle, beats, k, running, str, l, s, w). pending str)") (auto dest: ReadDelimited_pending)

declare upload_loop.simps [simp del]

text \<open>\<open>setup\<close> is the session's empty tree, or the text of the failure to make its directory or file.\<close>

definition HandleAccountsSync_stream :: "('a, 'r, 'tt) router_env \<Rightarrow> ('t, 'l) art_ops \<Rightarrow> 'md acct_store \<Rightarrow> event list \<Rightarrow> 'st acc_wire \<Rightarrow>
    (bytes \<Rightarrow> 'w \<Rightarrow> 'w \<times> string option) \<Rightarrow> bytes \<Rightarrow> (nat \<Rightarrow> i64 list) \<Rightarrow> string + 'l \<Rightarrow> bool \<Rightarrow> rstream \<Rightarrow> ('a, 'b, 'r) Datarouter \<Rightarrow> 'w \<Rightarrow>
    (('a, 'b, 'r) Datarouter \<times> 'md Account option session option \<times> 'w) option" where
  "HandleAccountsSync_stream E A St evs Wr W peer beats setup cancelled str s w = (case setup of
     Inl e \<Rightarrow> map_option (\<lambda>w'. (s, None, w')) (drainAndRejectAccountsSync Wr W e str w)
   | Inr l \<Rightarrow> if cancelled then Some (s, None, w)
       else map_option (\<lambda>(s', _, x, w'). (s', x, w'))
         (upload_loop Wr W (\<lambda>req l s. HandleAccountsSync E A St evs req peer l s) beats 0 True str l s w))"

text \<open>A page on the client: it is written before it is acknowledged.\<close>

definition handle_page :: "('md, 'st) meta_ops \<Rightarrow> ('md, 'st, 'q, 'd) client_ops \<Rightarrow> 'st AccountSyncServerMessage \<Rightarrow> ('q, 'd) client_state \<Rightarrow>
    ('q, 'd) client_state \<times> 'st AccountSyncServerMessage" where
  "handle_page M C page s = (case page of
     ResponseMsg resp \<Rightarrow> (case WriteAccountsBatch M C (AccountsResp_Accounts resp) s of
         (s', Some e) \<Rightarrow> (s', ErrBatchAck (AccountsResp_PageIndex resp) e)
       | (s', None) \<Rightarrow> (s', BatchAck (AccountsResp_PageIndex resp)))
   | _ \<Rightarrow> (s, BatchAckMsg \<lparr>BatchAck_BatchIndex = 0, BatchAck_Ack = Some (ack False ''expected Response payload'')\<rparr>))"

function data_loop :: "('md, 'st) meta_ops \<Rightarrow> ('md, 'st, 'q, 'd) client_ops \<Rightarrow> 'st acc_wire \<Rightarrow> (bytes \<Rightarrow> 'w \<Rightarrow> 'w \<times> string option) \<Rightarrow>
    rstream \<Rightarrow> ('q, 'd) client_state \<Rightarrow> 'w \<Rightarrow> (('q, 'd) client_state \<times> 'w) option" where
  "data_loop M C Wr W str s w = (case ReadDelimited (aw_msg Wr) str of None \<Rightarrow> None
     | Some (_, Inl _) \<Rightarrow> Some (s, w)
     | Some (str', Inr page) \<Rightarrow> (case handle_page M C page s of
          (s', reply) \<Rightarrow> data_loop M C Wr W str' s' (fst (WriteDelimited (aw_msg Wr) W reply w))))"
  by pat_completeness auto

termination data_loop
  by (relation "measure (\<lambda>(M, C, Wr, W, str, s, w). pending str)") (auto dest: ReadDelimited_pending)

declare data_loop.simps [simp del]

definition HandleAccountsSyncData :: "('md, 'st) meta_ops \<Rightarrow> ('md, 'st, 'q, 'd) client_ops \<Rightarrow> 'st acc_wire \<Rightarrow>
    (bytes \<Rightarrow> 'w \<Rightarrow> 'w \<times> string option) \<Rightarrow> bool \<Rightarrow> rstream \<Rightarrow> ('q, 'd) client_state \<Rightarrow> 'w \<Rightarrow> (('q, 'd) client_state \<times> 'w) option" where
  "HandleAccountsSyncData M C Wr W cancelled str s w = (if cancelled then Some (s, w) else data_loop M C Wr W str s w)"

definition HandleAccountsFetch_stream :: "('a, 'r, 'tt) router_env \<Rightarrow> 'md acct_store \<Rightarrow> 'st acc_wire \<Rightarrow>
    (bytes \<Rightarrow> 'w \<Rightarrow> 'w \<times> string option) \<Rightarrow> bytes \<Rightarrow> bool \<Rightarrow> rstream \<Rightarrow> ('a, 'b, 'r) Datarouter \<Rightarrow> 'w \<Rightarrow>
    (('a, 'b, 'r) Datarouter \<times> 'w) option" where
  "HandleAccountsFetch_stream E St Wr W peer = plain_handler (aw_fetch Wr) (aw_accounts Wr) W (\<lambda>req. HandleAccountsFetch E St req peer)"

end
