(* ===== verification/FS_AccountsClient.thy ===== *)
theory FS_AccountsClient
  imports FS_AccountsWire "HOL-Library.Signed_Division"
begin

text \<open>
  \<open>core/accountsync/accountsync.go\<close>, the client of the account sync: the pipeline that cuts the local nonces into chunks,
  the upload, and the targeted fetch.

  The iterator over the local accounts is the list of its batches, an error among them ends it. The encode workers finish
  in any order: \<open>arrivals\<close> is the order in which their results reach the reorder buffer. The context of the sync is not
  cancelled from outside.
\<close>

definition encodeWorkers :: nat where "encodeWorkers = 4"

section \<open>Chunks\<close>

text \<open>The tree of a batch, and the smallest and the largest nonce as the loop computes them.\<close>

definition chunk_tree :: "('t, 'w) art_ops \<Rightarrow> u64 list \<Rightarrow> 't" where
  "chunk_tree A nonces = fold (art_Insert A) nonces (art_New A)"

definition nonce_range :: "u64 list \<Rightarrow> RangeTag" where
  "nonce_range nonces = (case fold (\<lambda>n (i, lo, hi). (Suc i, if i = 0 \<or> n < lo then n else lo, if hi < n then n else hi)) nonces (0, 0, 0) of
     (i, lo, hi) \<Rightarrow> \<lparr>RangeTag_Start = lo, RangeTag_End = hi\<rparr>)"

definition makeChunk :: "('t, 'w) art_ops \<Rightarrow> u64 list \<Rightarrow> u32 \<Rightarrow> u64 \<Rightarrow> bool \<Rightarrow> Auth option \<Rightarrow> string + AccountNonceSyncRequest" where
  "makeChunk A nonces batchIndex totalKeys isLast auth =
     (let encoded = art_Encode A (chunk_tree A nonces)
      in case CreateProto encoded 1 of
          Inl e \<Rightarrow> Inl (''makeChunk '' @ show_nat (unat batchIndex) @ '': checksum: '' @ e)
        | Inr cs \<Rightarrow> Inr \<lparr>NonceReq_Art = encoded, NonceReq_TotalKeys = totalKeys, NonceReq_KeysRange = Some (nonce_range nonces),
            NonceReq_BatchIndex = batchIndex, NonceReq_IsLast = isLast,
            NonceReq_Phase = Some (phase ACCOUNTS_SYNC_REQUEST ACCOUNTS_SYNC_REQUEST False [] auth), NonceReq_Checksum = Some cs\<rparr>)"

text \<open>The producer: the batches before the end or the error of the iterator.\<close>

fun chunk_jobs :: "(string + u64 list) list \<Rightarrow> u64 list list \<times> string option" where
  "chunk_jobs [] = ([], None)"
| "chunk_jobs (Inl e # it) = ([], Some (''buildChunks: iterator: '' @ e))"
| "chunk_jobs (Inr batch # it) = (if batch = [] then ([], None) else case chunk_jobs it of (jobs, e) \<Rightarrow> (batch # jobs, e))"

definition num_batches :: "u64 \<Rightarrow> u32" where
  "num_batches totalKeys = word_of_int (sint (totalKeys + word_of_nat MAX_ACCOUNT_NONCES - 1) sdiv int MAX_ACCOUNT_NONCES)"

definition encode_job :: "('t, 'w) art_ops \<Rightarrow> u64 \<Rightarrow> Auth option \<Rightarrow> u64 list list \<Rightarrow> nat \<Rightarrow> u32 \<times> (string + AccountNonceSyncRequest)" where
  "encode_job A totalKeys auth jobs i = (let idx = word_of_nat i
     in (idx, makeChunk A (jobs ! i) idx totalKeys (idx = num_batches totalKeys - 1) auth))"

text \<open>The reorder buffer: the chunks that become ready, and its loop over the results.\<close>

function ready_chunks :: "(u32 \<rightharpoonup> 'c) \<Rightarrow> u32 \<Rightarrow> 'c list \<times> (u32 \<rightharpoonup> 'c) \<times> u32" where
  "ready_chunks held nextExpected = (case held nextExpected of None \<Rightarrow> ([], held, nextExpected)
     | Some req \<Rightarrow> (case ready_chunks (held(nextExpected := None)) (nextExpected + 1) of
          (out, held', next') \<Rightarrow> (req # out, held', next')))"
  by pat_completeness auto

termination ready_chunks
proof (relation "measure (\<lambda>(p, n). card (dom p))")
  fix p :: "u32 \<rightharpoonup> 'c" and n :: u32 and r
  assume "p n = Some r"
  then have "card (dom p - {n}) < card (dom p)" by (intro psubset_card_mono) auto
  then show "((p(n := None), n + 1), p, n) \<in> measure (\<lambda>(p, n). card (dom p))" by simp
qed simp

declare ready_chunks.simps [simp del]

fun reorder_results :: "(u32 \<times> (string + 'c)) list \<Rightarrow> (u32 \<rightharpoonup> 'c) \<Rightarrow> u32 \<Rightarrow> 'c list \<times> string option" where
  "reorder_results [] held nextExpected = ([], None)"
| "reorder_results ((i, Inl e) # rs) held nextExpected = ([], Some e)"
| "reorder_results ((i, Inr req) # rs) held nextExpected = (case ready_chunks (held(i \<mapsto> req)) nextExpected of
     (out, held', next') \<Rightarrow> (case reorder_results rs held' next' of (rest, e) \<Rightarrow> (out @ rest, e)))"

text \<open>The chunks sent to \<open>out\<close> and the error of the pipeline; an order of arrival that is not one of the jobs is none.\<close>

definition buildChunks :: "('t, 'w) art_ops \<Rightarrow> string + u64 \<Rightarrow> (string + u64 list) list \<Rightarrow> nat list \<Rightarrow> Auth option \<Rightarrow>
    (AccountNonceSyncRequest list \<times> string option) option" where
  "buildChunks A keyCount it arrivals auth = (case keyCount of Inl e \<Rightarrow> Some ([], Some (''buildChunks: total accounts: '' @ e))
     | Inr totalKeys \<Rightarrow>
        if totalKeys = 0
        then Some (case makeChunk A [] 0 0 True auth of Inl e \<Rightarrow> ([], Some e) | Inr req \<Rightarrow> ([req], None))
        else (case chunk_jobs it of (jobs, perr) \<Rightarrow>
          if sort arrivals \<noteq> [0 ..< length jobs] then None
          else Some (case reorder_results (map (encode_job A totalKeys auth jobs) arrivals) Map.empty 0 of
              (out, Some e) \<Rightarrow> (out, Some e) | (out, None) \<Rightarrow> (out, perr))))"

section \<open>The upload\<close>

record AccountSync =
  AS_Comm :: "communication option"
  AS_ServerAuth :: "Auth option"

definition NewAccountSync :: AccountSync where
  "NewAccountSync = \<lparr>AS_Comm = None, AS_ServerAuth = None\<rparr>"

definition SetSyncVars_as :: "host option \<Rightarrow> u16 \<Rightarrow> AccountSync \<Rightarrow> AccountSync" where
  "SetSyncVars_as node protocolVersion as = as\<lparr>AS_Comm := Some (NewCommunication node protocolVersion)\<rparr>"

definition Close_as :: "AccountSync \<Rightarrow> AccountSync" where
  "Close_as as = \<lparr>AS_Comm = None, AS_ServerAuth = None\<rparr>"

text \<open>The handlers; the state is \<open>totalAccounts\<close>.\<close>

definition upload_handlers :: "('st, u64) AccountSyncHandlers" where
  "upload_handlers = \<lparr>
     OnBatchAck = (\<lambda>a t. (t, if ack_ok (BatchAck_Ack a) then None
        else Some (''accountsync: server rejected chunk: '' @ ack_error (BatchAck_Ack a)))),
     OnResponse = (\<lambda>_ t. (t, None)),
     OnEnd = (\<lambda>eos t. if ack_ok (End_Ack eos) then (End_TotalAccounts eos, None)
        else (t, Some (''accountsync server error: '' @ ack_error (End_Ack eos))))\<rparr>"

definition call_first :: string where
  "call_first = [CHR 0xE2, CHR 0x80, CHR 0x94] @ '' call SetSyncVars first''"

definition check_remote :: "string \<Rightarrow> AccountSync \<Rightarrow> NodeInfo option AvailabilityResponse option \<Rightarrow> string + NodeInfo \<times> Auth \<times> communication" where
  "check_remote what as remote = (case remote of None \<Rightarrow> Inl (what @ '': remote is nil'')
     | Some r \<Rightarrow> (case AvailabilityResponse_Nodeinfo r of None \<Rightarrow> Inl (what @ '': remote is nil'')
        | Some ni \<Rightarrow> (case AvailabilityResponse_Auth r of None \<Rightarrow> Inl (what @ '': remote has no auth UUID'')
           | Some a \<Rightarrow> if Auth_UUID a = [] then Inl (what @ '': remote has no auth UUID'')
               else (case AS_Comm as of None \<Rightarrow> Inl (what @ '': communicator not set '' @ call_first) | Some c \<Rightarrow> Inr (ni, a, c)))))"

text \<open>
  After the stream has ended the sync waits for the error of the pipeline. The pipeline is blocked when more chunks are
  left than fit into the channel, whose capacity is the number of workers: then the sync does not return.
\<close>

definition AccountSync_AccountSync :: "(bytes \<Rightarrow> string + bytes) \<Rightarrow> (bytes \<Rightarrow> string + bytes) \<Rightarrow> ('t, 'w) art_ops \<Rightarrow> 'st acc_wire \<Rightarrow>
    string + u64 \<Rightarrow> (string + u64 list) list \<Rightarrow> nat list \<Rightarrow> NodeInfo option AvailabilityResponse option \<Rightarrow> AccountSync \<Rightarrow>
    (AccountSync \<times> (string + u64)) option" where
  "AccountSync_AccountSync idb nmb A Wr keyCount it arrivals remote as = (case check_remote ''accountsync'' as remote of
     Inl e \<Rightarrow> Some (as, Inl e)
   | Inr (ni, auth, comm) \<Rightarrow> let as1 = as\<lparr>AS_ServerAuth := Some auth\<rparr>
     in case (ToNodeinfo idb nmb (Some ni) :: string + unit Nodeinfo) of Inl e \<Rightarrow> Some (as1, Inl (''accountsync: parse remote nodeinfo: '' @ e))
      | Inr peer \<Rightarrow> (case buildChunks A keyCount it arrivals (Some auth) of None \<Rightarrow> None
         | Some (chunks, berr) \<Rightarrow> (case StreamAllAccountSyncChunks comm Wr peer upload_handlers chunks 0 of None \<Rightarrow> None
            | Some (k, _, Some e) \<Rightarrow> Some (as1, Inl (''accountsync: stream: '' @ e))
            | Some (k, totalAccounts, None) \<Rightarrow>
               if encodeWorkers < length chunks - k then None
               else Some (as1, case berr of Some e \<Rightarrow> Inl (''accountsync: chunk pipeline: '' @ e) | None \<Rightarrow> Inr totalAccounts))))"

section \<open>The targeted fetch\<close>

definition fetch_request :: "string list \<Rightarrow> Auth \<Rightarrow> AccountSyncRequestAccounts" where
  "fetch_request addresses auth = \<lparr>FetchReq_Addresses = addresses,
     FetchReq_Phase = Some (phase ACCOUNTS_SYNC_REQUEST_ACCOUNTS ACCOUNTS_SYNC_REQUEST_ACCOUNTS False [] (Some auth))\<rparr>"

definition FetchAccounts :: "(bytes \<Rightarrow> string + bytes) \<Rightarrow> (bytes \<Rightarrow> string + bytes) \<Rightarrow> 'st acc_wire \<Rightarrow>
    NodeInfo option AvailabilityResponse option \<Rightarrow> string list \<Rightarrow> AccountSync \<Rightarrow> (string + 'st AccountSyncResponse) option" where
  "FetchAccounts idb nmb Wr remote addresses as = (case check_remote ''accountsfetch'' as remote of
     Inl e \<Rightarrow> Some (Inl e)
   | Inr (ni, auth, comm) \<Rightarrow>
      if addresses = []
      then Some (Inr \<lparr>AccountsResp_Accounts = [], AccountsResp_PageIndex = 0, AccountsResp_Ack = None, AccountsResp_Phase = None\<rparr>)
      else (case (ToNodeinfo idb nmb (Some ni) :: string + unit Nodeinfo) of Inl e \<Rightarrow> Some (Inl (''accountsfetch: parse remote nodeinfo: '' @ e))
         | Inr peer \<Rightarrow> (case FetchAccounts_comm comm Wr peer (fetch_request addresses auth) of None \<Rightarrow> None
            | Some (Inl e) \<Rightarrow> Some (Inl (''accountsfetch: '' @ e))
            | Some (Inr resp) \<Rightarrow> Some (if ack_ok (AccountsResp_Ack resp) then Inr resp
                else Inl (''accountsfetch: server error: '' @ ack_error (AccountsResp_Ack resp))))))"

end
