(* ===== verification/FS_Dispatch_Facts.thy ===== *)
theory FS_Dispatch_Facts
  imports FS_Dispatch
begin

text \<open>
  The invariant of an account session: the counters agree with where the pages are, no nonce is lost or duplicated between
  the iterator, the producers, the channel, the workers, the client and the dead letters, and the reported numbers are
  those of the acknowledged pages.
\<close>

section \<open>Weights\<close>

text \<open>A weight of nonces, extended to pages and to the states of the processes. A process holds a page that is counted in
  \<open>inflight\<close> but is not in the channel.\<close>

definition nw :: "(u64 \<Rightarrow> int) \<Rightarrow> u64 list \<Rightarrow> int" where
  "nw \<phi> l = sum_list (map \<phi> l)"

definition weight_w :: "(u64 \<Rightarrow> int) \<Rightarrow> 'acc worker \<Rightarrow> int" where
  "weight_w \<phi> w = (case w of WPage p \<Rightarrow> nw \<phi> (Page_Nonces p) | WProcess p \<Rightarrow> nw \<phi> (Page_Nonces p)
     | WFetch p \<Rightarrow> nw \<phi> (Page_Nonces p) | WSend p _ \<Rightarrow> nw \<phi> (Page_Nonces p) | WFail p _ _ \<Rightarrow> nw \<phi> (Page_Nonces p)
     | WRequeue p _ _ \<Rightarrow> nw \<phi> (Page_Nonces p) | WDead p _ _ \<Rightarrow> nw \<phi> (Page_Nonces p) | _ \<Rightarrow> 0)"

definition weight_p :: "(u64 \<Rightarrow> int) \<Rightarrow> parent \<Rightarrow> int" where
  "weight_p \<phi> p = (case p of PGate l \<Rightarrow> nw \<phi> l | PLoop l \<Rightarrow> nw \<phi> l | PAsleep l \<Rightarrow> nw \<phi> l | PPull l \<Rightarrow> nw \<phi> l
     | PPush l _ \<Rightarrow> nw \<phi> l | PSend l r _ \<Rightarrow> nw \<phi> l + nw \<phi> r | PCount _ r _ \<Rightarrow> nw \<phi> r | PDone _ \<Rightarrow> 0)"

definition holds_w :: "'acc worker \<Rightarrow> int" where
  "holds_w w = (case w of WIdle _ \<Rightarrow> 0 | WRecount _ _ \<Rightarrow> 0 | WTry _ \<Rightarrow> 0 | WExited \<Rightarrow> 0 | _ \<Rightarrow> 1)"

definition holds_p :: "parent \<Rightarrow> int" where
  "holds_p p = (case p of PSend _ _ _ \<Rightarrow> 1 | _ \<Rightarrow> 0)"

definition pages_w :: "(u64 \<Rightarrow> int) \<Rightarrow> noncePage list \<Rightarrow> int" where
  "pages_w \<phi> ps = sum_list (map (\<lambda>p. nw \<phi> (Page_Nonces p)) ps)"

definition dead_w :: "(u64 \<Rightarrow> int) \<Rightarrow> DeadLetterPage list \<Rightarrow> int" where
  "dead_w \<phi> ds = sum_list (map (\<lambda>p. nw \<phi> (Dead_Nonces p)) ds)"

definition effect_w :: "(u64 \<Rightarrow> int) \<Rightarrow> effect \<Rightarrow> int" where
  "effect_w \<phi> e = (case e of AckedPage p \<Rightarrow> nw \<phi> (Page_Nonces p) | _ \<Rightarrow> 0)"

lemma nw_simps [simp]: "nw \<phi> [] = 0" "nw \<phi> (n # l) = \<phi> n + nw \<phi> l" "nw \<phi> (l @ l') = nw \<phi> l + nw \<phi> l'"
  by (simp_all add: nw_def)

lemma pages_w_simps [simp]: "pages_w \<phi> [] = 0" "pages_w \<phi> (p # ps) = nw \<phi> (Page_Nonces p) + pages_w \<phi> ps"
  "pages_w \<phi> (ps @ qs) = pages_w \<phi> ps + pages_w \<phi> qs"
  by (simp_all add: pages_w_def)

lemma dead_w_simps [simp]: "dead_w \<phi> [] = 0" "dead_w \<phi> (p # ps) = nw \<phi> (Dead_Nonces p) + dead_w \<phi> ps"
  "dead_w \<phi> (ps @ qs) = dead_w \<phi> ps + dead_w \<phi> qs"
  by (simp_all add: dead_w_def)

lemma nw_split: "nw \<phi> (take k l) + nw \<phi> (drop k l) = nw \<phi> l"
  by (metis append_take_drop_id nw_simps(3))

lemma sum_upd: "j < (n :: nat) \<Longrightarrow> (\<Sum>i<n. f ((g(j := x)) i)) = (\<Sum>i<n. f (g i)) - f (g j) + (f x :: int)"
proof -
  assume j: "j < n"
  have "(\<Sum>i\<in>{..<n} - {j}. f ((g(j := x)) i)) = (\<Sum>i\<in>{..<n} - {j}. f (g i))" by (rule sum.cong) auto
  with j show ?thesis by (simp add: sum.remove [of "{..<n}" j] del: fun_upd_apply) simp
qed

lemmas weights = weight_w_def weight_p_def holds_w_def holds_p_def effect_w_def

section \<open>One step of a process\<close>

lemma worker_local:
  assumes "dispatchWorker fetch c ev w d = Some (w', d', eff)"
  shows "AD_cfg d' = AD_cfg d" "AD_chanCap d' = AD_chanCap d" "AD_inputClosed d' = AD_inputClosed d"
    "int (length (AD_nonceChan d')) + holds_w w' - AD_inflight d' = int (length (AD_nonceChan d)) + holds_w w - AD_inflight d"
    "pages_w \<phi> (AD_nonceChan d') + weight_w \<phi> w' + effect_w \<phi> eff + dead_w \<phi> (AD_deadLetters d') =
       pages_w \<phi> (AD_nonceChan d) + weight_w \<phi> w + dead_w \<phi> (AD_deadLetters d)"
    "AD_done d \<longrightarrow> AD_done d'" "AD_done d' \<and> \<not> AD_done d \<longrightarrow> AD_inputClosed d \<and> AD_inflight d = 0 \<and> AD_inflight d' = 0"
    "w' = WExited \<longrightarrow> AD_done d \<or> c"
  using assms
  by (cases w; cases ev; auto simp: dispatchWorker_def dispatcher_defs weights assign_index_def Let_def
      split: if_splits list.splits)+

lemma producer_local:
  assumes "producer_step full c i ev p d = Some (p', d')"
  shows "AD_cfg d' = AD_cfg d" "AD_chanCap d' = AD_chanCap d" "AD_inputClosed d' = AD_inputClosed d"
    "AD_deadLetters d' = AD_deadLetters d" "AD_deliveredPages d' = AD_deliveredPages d"
    "AD_deliveredAccounts d' = AD_deliveredAccounts d"
    "int (length (AD_nonceChan d')) + holds_p p' - AD_inflight d' = int (length (AD_nonceChan d)) + holds_p p - AD_inflight d"
    "AD_done d \<longrightarrow> AD_done d'" "AD_done d' \<and> \<not> AD_done d \<longrightarrow> AD_inputClosed d \<and> AD_inflight d' = 0"
    "\<forall>r. p \<noteq> PDone r"
  using assms
  by (cases p; cases ev; auto simp: producer_step_def dispatcher_defs holds_p_def EnqueueNonces_def after_flush_def gate_cancelled_def
      enqueue_failed_def split: if_splits after.splits)+

text \<open>A page sent on the way out is the last one.\<close>

definition parent_ok :: "parent \<Rightarrow> bool" where
  "parent_ok p = (case p of PSend _ r x \<Rightarrow> x \<noteq> Continue \<longrightarrow> r = [] | PCount _ r x \<Rightarrow> x \<noteq> Continue \<longrightarrow> r = [] | _ \<Rightarrow> True)"

lemma producer_ok: "producer_step full c i ev p d = Some (p', d') \<Longrightarrow> parent_ok p \<Longrightarrow> parent_ok p'"
  by (cases p; cases ev; auto simp: producer_step_def dispatcher_defs parent_ok_def EnqueueNonces_def after_flush_def gate_cancelled_def
      enqueue_failed_def split: if_splits after.splits)

lemma producer_weight:
  assumes "producer_step full c i ev p d = Some (p', d')" "\<not> c" "\<not> AD_inputClosed d" "parent_ok p"
  shows "pages_w \<phi> (AD_nonceChan d') + weight_p \<phi> p' = pages_w \<phi> (AD_nonceChan d) + weight_p \<phi> p"
  using assms
  by (cases p; cases ev; auto simp: producer_step_def dispatcher_defs weight_p_def EnqueueNonces_def after_flush_def gate_cancelled_def
      new_page_def nw_split parent_ok_def split: if_splits after.splits)

text \<open>How far a producer is from its return: \<open>at_end\<close> says that it has seen the end of its source, \<open>clean\<close> that it has not failed.\<close>

definition at_end_p :: "parent \<Rightarrow> bool" where
  "at_end_p p = (case p of PPush _ Finish \<Rightarrow> True | PSend _ _ Finish \<Rightarrow> True | PCount _ _ Finish \<Rightarrow> True | PDone None \<Rightarrow> True | _ \<Rightarrow> False)"

definition clean_p :: "parent \<Rightarrow> bool" where
  "clean_p p = (case p of PPush _ (Abandon _) \<Rightarrow> False | PSend _ _ (Abandon _) \<Rightarrow> False | PCount _ _ (Abandon _) \<Rightarrow> False
     | PDone (Some _) \<Rightarrow> False | _ \<Rightarrow> True)"

lemma producer_clean:
  assumes "producer_step full c i ev p d = Some (p', d')" "\<not> c" "\<not> AD_inputClosed d" "clean_p p"
  shows "clean_p p'"
  using assms
  by (cases p; cases ev; auto simp: producer_step_def dispatcher_defs clean_p_def EnqueueNonces_def after_flush_def
      split: if_splits after.splits)

lemma producer_at_end:
  assumes "producer_step full c i ev p d = Some (p', d')" "at_end_p p'"
  shows "at_end_p p"
  using assms
  by (cases p; cases ev; auto simp: producer_step_def dispatcher_defs at_end_p_def EnqueueNonces_def after_flush_def gate_cancelled_def
      enqueue_failed_def split: if_splits after.splits)

section \<open>Children\<close>

lemma child_slices: "concat (map (child_slice b) [0 ..< k]) = take (k * ChildWindow) b"
proof (induction k)
  case (Suc k)
  then show ?case by (simp add: child_slice_def take_add [symmetric] add.commute)
qed simp

lemma processWithChildren_mset:
  assumes "processWithChildren contains b order = Some missing" "length b \<le> ParentMemoryWindow"
  shows "mset missing = mset (filter (\<lambda>n. \<not> contains n) b)"
proof -
  from assms(1) have o: "sort order = [0 ..< min NumDiffChildren (length b)]"
    and m: "missing = concat (map (\<lambda>i. filter (\<lambda>n. \<not> contains n) (child_slice b i)) order)"
    by (auto simp: processWithChildren_def split: if_splits)
  have "mset order = mset [0 ..< min NumDiffChildren (length b)]" by (metis mset_sort o)
  moreover have "mset (concat (map f xs)) = (\<Sum>i\<in>#mset xs. mset (f i))" for f :: "nat \<Rightarrow> u64 list" and xs
    by (induction xs) auto
  ultimately have "mset missing = mset (concat (map (\<lambda>i. filter (\<lambda>n. \<not> contains n) (child_slice b i)) [0 ..< min NumDiffChildren (length b)]))"
    by (simp add: m)
  also have "concat (map (\<lambda>i. filter (\<lambda>n. \<not> contains n) (child_slice b i)) [0 ..< min NumDiffChildren (length b)]) =
      filter (\<lambda>n. \<not> contains n) (concat (map (child_slice b) [0 ..< min NumDiffChildren (length b)]))"
    by (simp add: filter_concat comp_def)
  also have "concat (map (child_slice b) [0 ..< min NumDiffChildren (length b)]) = b"
    using assms(2) by (simp add: child_slices NumDiffChildren_def ChildWindow_def ParentMemoryWindow_def min_def)
  finally show ?thesis .
qed

lemma nw_mset: "mset l = mset l' \<Longrightarrow> nw \<phi> l = nw \<phi> l'"
  by (simp add: nw_def) (metis mset_map sum_mset_sum_list)

lemma nw_filter: "nw \<phi> (filter P l) = nw (\<lambda>n. if P n then \<phi> n else 0) l"
  by (induction l) simp_all

section \<open>The invariant of a session\<close>

definition src_w :: "(u64 \<Rightarrow> int) \<Rightarrow> (u64 \<Rightarrow> bool) \<Rightarrow> 'acc session \<Rightarrow> int" where
  "src_w \<phi> contains s = (let \<psi> = (\<lambda>n. if S_full s \<or> \<not> contains n then \<phi> n else 0)
     in nw \<psi> (concat (S_iter s)) + nw \<psi> (concat (S_workChan s)))"

definition total_w :: "(u64 \<Rightarrow> int) \<Rightarrow> (u64 \<Rightarrow> bool) \<Rightarrow> 'acc session \<Rightarrow> int" where
  "total_w \<phi> contains s = src_w \<phi> contains s + (\<Sum>i<S_parents_n s. weight_p \<phi> (S_parents s i)) +
     pages_w \<phi> (AD_nonceChan (S_disp s)) + (\<Sum>j<S_workers_n s. weight_w \<phi> (S_workers s j)) +
     pages_w \<phi> (S_acked s) + dead_w \<phi> (AD_deadLetters (S_disp s))"

definition batches_ok :: "u64 list list \<Rightarrow> bool" where
  "batches_ok bs \<longleftrightarrow> (\<forall>b\<in>set bs. b \<noteq> [] \<and> length b \<le> ParentMemoryWindow)"

text \<open>The counters and the channel.\<close>

definition counted :: "'acc session \<Rightarrow> bool" where
  "counted s \<longleftrightarrow> AD_inflight (S_disp s) = int (length (AD_nonceChan (S_disp s))) +
       (\<Sum>i<S_parents_n s. holds_p (S_parents s i)) + (\<Sum>j<S_workers_n s. holds_w (S_workers s j)) \<and>
     (AD_done (S_disp s) \<longrightarrow> AD_inputClosed (S_disp s) \<and> AD_inflight (S_disp s) = 0) \<and>
     (AD_inputClosed (S_disp s) \<longrightarrow> (\<forall>i<S_parents_n s. \<exists>r. S_parents s i = PDone r)) \<and>
     (\<forall>j<S_workers_n s. S_workers s j = WExited \<longrightarrow> AD_done (S_disp s) \<or> S_cancelled s)"

text \<open>The source of batches and the producers.\<close>

definition sourced :: "'acc session \<Rightarrow> bool" where
  "sourced s \<longleftrightarrow> batches_ok (S_iter s) \<and> batches_ok (S_workChan s) \<and>
     (\<forall>i<S_parents_n s. parent_ok (S_parents s i) \<and> (at_end_p (S_parents s i) \<longrightarrow>
        (if S_full s then S_iter s = [] else S_workChan s = [] \<and> S_closed s))) \<and>
     (S_full s \<longrightarrow> S_workChan s = []) \<and>
     (S_closed s \<and> \<not> S_full s \<and> \<not> S_cancelled s \<and> S_iterErr s = None \<longrightarrow> S_iter s = [])"

definition conserved :: "(u64 \<Rightarrow> bool) \<Rightarrow> ((u64 \<Rightarrow> int) \<Rightarrow> int) \<Rightarrow> 'acc session \<Rightarrow> bool" where
  "conserved contains K s \<longleftrightarrow> (\<not> S_cancelled s \<and> S_iterErr s = None \<longrightarrow>
     (\<forall>i<S_parents_n s. clean_p (S_parents s i)) \<and> (\<forall>\<phi>. total_w \<phi> contains s = K \<phi>))"

text \<open>The counters of what was delivered.\<close>

definition reported :: "(u64 list \<Rightarrow> 'acc list) \<Rightarrow> 'acc session \<Rightarrow> bool" where
  "reported fetch s \<longleftrightarrow> AD_deliveredPages (S_disp s) = word_of_nat (length (S_acked s)) \<and>
     AD_deliveredAccounts (S_disp s) = word_of_nat (length (concat (map (\<lambda>p. fetch (Page_Nonces p)) (S_acked s)))) \<and>
     (\<forall>j<S_workers_n s. case S_workers s j of WSend p a \<Rightarrow> a = fetch (Page_Nonces p) | _ \<Rightarrow> True)"

definition session_inv :: "(u64 list \<Rightarrow> 'acc list) \<Rightarrow> (u64 \<Rightarrow> bool) \<Rightarrow> ((u64 \<Rightarrow> int) \<Rightarrow> int) \<Rightarrow> 'acc session \<Rightarrow> bool" where
  "session_inv fetch contains K s \<longleftrightarrow> counted s \<and> sourced s \<and> conserved contains K s \<and> reported fetch s"

lemma client_effect_simps [simp]:
  "S_full (client_effect eff s) = S_full s" "S_parents_n (client_effect eff s) = S_parents_n s"
  "S_workers_n (client_effect eff s) = S_workers_n s" "S_disp (client_effect eff s) = S_disp s"
  "S_parents (client_effect eff s) = S_parents s" "S_workers (client_effect eff s) = S_workers s"
  "S_iter (client_effect eff s) = S_iter s" "S_workChan (client_effect eff s) = S_workChan s"
  "S_closed (client_effect eff s) = S_closed s" "S_iterErr (client_effect eff s) = S_iterErr s"
  "S_cancelled (client_effect eff s) = S_cancelled s"
  "S_acked (client_effect eff s) = S_acked s @ (case eff of AckedPage p \<Rightarrow> [p] | _ \<Rightarrow> [])"
  "pages_w \<phi> (case eff of AckedPage p \<Rightarrow> [p] | _ \<Rightarrow> []) = effect_w \<phi> eff"
  by (simp_all add: client_effect_def effect_w_def split: effect.splits)

lemma worker_step_cases:
  assumes "worker_step fetch j ev s = Some s'"
  obtains w d eff where "j < S_workers_n s" "dispatchWorker fetch (S_cancelled s) ev (S_workers s j) (S_disp s) = Some (w, d, eff)"
    "s' = client_effect eff (s\<lparr>S_workers := (S_workers s)(j := w), S_disp := d\<rparr>)"
  using assms by (auto simp: worker_step_def split: if_splits option.splits)

lemma parent_step_cases:
  assumes "parent_step i ev s = Some s'"
  obtains p d where "i < S_parents_n s"
    "producer_step (S_full s) (S_cancelled s) i ev (S_parents s i) (S_disp s) = Some (p, d)"
    "s' = s\<lparr>S_parents := (S_parents s)(i := p), S_disp := d\<rparr>"
  using assms by (auto simp: parent_step_def split: if_splits option.splits)

text \<open>After the input is closed, no step of a producer is possible.\<close>

lemma closed_no_producer:
  assumes "counted s" "producer_step full c i ev (S_parents s i) d = Some (p, d')" "i < S_parents_n s"
  shows "\<not> AD_inputClosed (S_disp s)"
  using assms producer_local(10) [OF assms(2)] by (auto simp: counted_def)

lemma holds_nonneg: "0 \<le> holds_w v" "0 \<le> holds_p p"
  by (simp_all add: holds_w_def holds_p_def split: worker.splits parent.splits)

text \<open>With nothing in flight the channel is empty and no process holds a page.\<close>

lemma counted_quiet:
  assumes "counted s" "AD_inflight (S_disp s) = 0"
  shows "AD_nonceChan (S_disp s) = []" "j < S_workers_n s \<Longrightarrow> holds_w (S_workers s j) = 0"
    "i < S_parents_n s \<Longrightarrow> holds_p (S_parents s i) = 0"
proof -
  let ?W = "\<Sum>k<S_workers_n s. holds_w (S_workers s k)" and ?P = "\<Sum>i<S_parents_n s. holds_p (S_parents s i)"
  have "0 \<le> ?W" "0 \<le> ?P" by (simp_all add: sum_nonneg holds_nonneg)
  moreover have "int (length (AD_nonceChan (S_disp s))) + ?P + ?W = 0" using assms by (simp add: counted_def)
  ultimately have z: "int (length (AD_nonceChan (S_disp s))) = 0" "?W = 0" "?P = 0" by linarith+
  from z(1) show "AD_nonceChan (S_disp s) = []" by simp
  from z(2,3) show "j < S_workers_n s \<Longrightarrow> holds_w (S_workers s j) = 0" "i < S_parents_n s \<Longrightarrow> holds_p (S_parents s i) = 0"
    by (simp_all add: sum_nonneg_eq_0_iff holds_nonneg)
qed

lemma worker_counted:
  assumes "counted s" "worker_step fetch j ev s = Some s'"
  shows "counted s'"
proof -
  from assms(2) obtain w d eff where j: "j < S_workers_n s"
    and st: "dispatchWorker fetch (S_cancelled s) ev (S_workers s j) (S_disp s) = Some (w, d, eff)"
    and s': "s' = client_effect eff (s\<lparr>S_workers := (S_workers s)(j := w), S_disp := d\<rparr>)" by (rule worker_step_cases)
  note L = worker_local [OF st]
  have sum: "(\<Sum>k<S_workers_n s. holds_w (((S_workers s)(j := w)) k)) =
      (\<Sum>k<S_workers_n s. holds_w (S_workers s k)) - holds_w (S_workers s j) + holds_w w" by (rule sum_upd [OF j])
  have inf: "AD_inflight d = int (length (AD_nonceChan d)) + (\<Sum>i<S_parents_n s. holds_p (S_parents s i)) +
      (\<Sum>k<S_workers_n s. holds_w (((S_workers s)(j := w)) k))"
    using assms(1) L(4) sum by (simp add: counted_def del: fun_upd_apply)
  have fin: "AD_done d \<longrightarrow> AD_inputClosed d \<and> AD_inflight d = 0"
  proof
    assume D: "AD_done d"
    show "AD_inputClosed d \<and> AD_inflight d = 0"
    proof (cases "AD_done (S_disp s)")
      case True
      with assms(1) have c: "AD_inputClosed (S_disp s)" "AD_inflight (S_disp s) = 0" by (auto simp: counted_def)
      note q = counted_quiet [OF assms(1) c(2)]
      from q(2) [OF j] q(1) st have "AD_inflight d = AD_inflight (S_disp s)"
        by (cases "S_workers s j"; cases ev; auto simp: dispatchWorker_def holds_w_def dispatcher_defs split: if_splits)
      with c L(3) show ?thesis by simp
    next
      case False
      with L(7) D L(3) show ?thesis by auto
    qed
  qed
  show ?thesis
    using assms(1) inf fin L(3,6,8) by (auto simp: counted_def s')
qed

lemma worker_sourced: "sourced s \<Longrightarrow> worker_step fetch j ev s = Some s' \<Longrightarrow> sourced s'"
  by (erule worker_step_cases) (simp add: sourced_def)

lemma worker_conserved:
  assumes "conserved contains K s" "worker_step fetch j ev s = Some s'"
  shows "conserved contains K s'"
proof -
  from assms(2) obtain w d eff where j: "j < S_workers_n s"
    and st: "dispatchWorker fetch (S_cancelled s) ev (S_workers s j) (S_disp s) = Some (w, d, eff)"
    and s': "s' = client_effect eff (s\<lparr>S_workers := (S_workers s)(j := w), S_disp := d\<rparr>)" by (rule worker_step_cases)
  have "total_w \<phi> contains s' = total_w \<phi> contains s" for \<phi>
    using worker_local(5) [OF st, of \<phi>] sum_upd [OF j, of "weight_w \<phi>" "S_workers s" w]
    by (simp add: total_w_def src_w_def s' del: fun_upd_apply)
  with assms(1) show ?thesis by (simp add: conserved_def s')
qed

lemma worker_reported:
  assumes "reported fetch s" "worker_step fetch j ev s = Some s'"
  shows "reported fetch s'"
proof -
  from assms(2) obtain w d eff where j: "j < S_workers_n s"
    and st: "dispatchWorker fetch (S_cancelled s) ev (S_workers s j) (S_disp s) = Some (w, d, eff)"
    and s': "s' = client_effect eff (s\<lparr>S_workers := (S_workers s)(j := w), S_disp := d\<rparr>)" by (rule worker_step_cases)
  from assms(1) j have a: "case S_workers s j of WSend p a \<Rightarrow> a = fetch (Page_Nonces p) | _ \<Rightarrow> True"
    and c: "AD_deliveredPages (S_disp s) = word_of_nat (length (S_acked s))"
      "AD_deliveredAccounts (S_disp s) = word_of_nat (length (concat (map (\<lambda>p. fetch (Page_Nonces p)) (S_acked s))))"
    by (auto simp: reported_def)
  have "AD_deliveredPages d = word_of_nat (length (S_acked s @ (case eff of AckedPage p \<Rightarrow> [p] | _ \<Rightarrow> []))) \<and>
     AD_deliveredAccounts d = word_of_nat (length (concat (map (\<lambda>p. fetch (Page_Nonces p))
       (S_acked s @ (case eff of AckedPage p \<Rightarrow> [p] | _ \<Rightarrow> []))))) \<and>
     (case w of WSend p a \<Rightarrow> a = fetch (Page_Nonces p) | _ \<Rightarrow> True)"
    using st a c by (cases "S_workers s j"; cases ev; auto simp: dispatchWorker_def dispatcher_defs assign_index_def Let_def
        split: if_splits list.splits)
  with assms(1) show ?thesis by (auto simp: reported_def s')
qed

lemma worker_inv: "session_inv fetch contains K s \<Longrightarrow> worker_step fetch j ev s = Some s' \<Longrightarrow> session_inv fetch contains K s'"
  unfolding session_inv_def by (blast intro: worker_counted worker_sourced worker_conserved worker_reported)

lemma parent_inv:
  assumes "session_inv fetch contains K s" "parent_step i ev s = Some s'"
  shows "session_inv fetch contains K s'"
proof -
  from assms(2) obtain p d where i: "i < S_parents_n s"
    and st: "producer_step (S_full s) (S_cancelled s) i ev (S_parents s i) (S_disp s) = Some (p, d)"
    and s': "s' = s\<lparr>S_parents := (S_parents s)(i := p), S_disp := d\<rparr>" by (rule parent_step_cases)
  from assms(1) have c: "counted s" "sourced s" "conserved contains K s" "reported fetch s" by (auto simp: session_inv_def)
  note L = producer_local [OF st]
  have open_in: "\<not> AD_inputClosed (S_disp s)" by (rule closed_no_producer [OF c(1) st i])
  then have nd: "\<not> AD_done (S_disp s)" "\<not> AD_done d" using c(1) L(9) by (auto simp: counted_def)
  have ok: "parent_ok (S_parents s i)" using c(2) i by (simp add: sourced_def)
  have "counted s'"
    using c(1) L(3,7) nd open_in sum_upd [OF i, of holds_p "S_parents s" p] by (simp add: counted_def s' del: fun_upd_apply)
  moreover have "sourced s'"
    using c(2) producer_ok [OF st] producer_at_end [OF st] i by (auto simp: sourced_def s')
  moreover have "conserved contains K s'"
  proof (cases "S_cancelled s \<or> S_iterErr s \<noteq> None")
    case False
    then have "total_w \<phi> contains s' = total_w \<phi> contains s" for \<phi>
      using producer_weight [OF st _ open_in ok, of \<phi>] sum_upd [OF i, of "weight_p \<phi>" "S_parents s" p] L(4)
      by (simp add: total_w_def src_w_def s' del: fun_upd_apply)
    moreover have "clean_p p" using False c(3) i producer_clean [OF st _ open_in] by (simp add: conserved_def)
    ultimately show ?thesis using c(3) by (auto simp: conserved_def s')
  qed (auto simp: conserved_def s')
  moreover have "reported fetch s'" using c(4) L(5,6) by (simp add: reported_def s')
  ultimately show ?thesis by (simp add: session_inv_def)
qed

lemma batches_ok_Cons: "batches_ok (b # bs) \<longleftrightarrow> b \<noteq> [] \<and> length b \<le> ParentMemoryWindow \<and> batches_ok bs"
  by (auto simp: batches_ok_def)

lemma next_batch_ok: "batches_ok it \<Longrightarrow> next_batch it = (case it of [] \<Rightarrow> None | b # bs \<Rightarrow> Some (b, bs))"
  by (auto simp: next_batch_def batches_ok_def split: list.splits)

text \<open>The pull of a batch moves its weight to the producer.\<close>

lemma pull_cases:
  assumes "pull_step contains i order s = Some s'" "sourced s"
  obtains l where "i < S_parents_n s" "S_parents s i = PPull l" "s' = s\<lparr>S_parents := (S_parents s)(i := PPush l Finish)\<rparr>"
    "if S_full s then S_iter s = [] else S_workChan s = [] \<and> S_closed s"
  | l b bs where "i < S_parents_n s" "S_parents s i = PPull l" "S_full s" "S_iter s = b # bs"
      "s' = s\<lparr>S_parents := (S_parents s)(i := PPush (l @ b) Continue), S_iter := bs\<rparr>"
  | l b bs missing where "i < S_parents_n s" "S_parents s i = PPull l" "\<not> S_full s" "S_workChan s = b # bs"
      "processWithChildren contains b order = Some missing"
      "s' = s\<lparr>S_parents := (S_parents s)(i := PPush (l @ missing) Continue), S_workChan := bs\<rparr>"
  using assms by (auto simp: pull_step_def sourced_def next_batch_ok split: if_splits parent.splits list.splits option.splits)

lemma pull_inv:
  assumes "session_inv fetch contains K s" "pull_step contains i order s = Some s'"
  shows "session_inv fetch contains K s'"
proof -
  from assms(1) have c: "counted s" "sourced s" "conserved contains K s" "reported fetch s" by (auto simp: session_inv_def)
  have move: "\<exists>l p. i < S_parents_n s \<and> S_parents s i = PPull l \<and> S_parents s' = (S_parents s)(i := p) \<and> holds_p p = 0 \<and> clean_p p \<and>
      S_disp s' = S_disp s \<and> S_full s' = S_full s \<and> S_parents_n s' = S_parents_n s \<and> S_workers_n s' = S_workers_n s \<and>
      S_workers s' = S_workers s \<and> S_cancelled s' = S_cancelled s \<and> S_iterErr s' = S_iterErr s \<and> S_acked s' = S_acked s \<and>
      (\<forall>\<phi>. src_w \<phi> contains s' + weight_p \<phi> p = src_w \<phi> contains s + weight_p \<phi> (PPull l)) \<and> sourced s'"
    using assms(2) c(2)
  proof (cases rule: pull_cases)
    case (1 l)
    then show ?thesis using c(2)
      by (intro exI [of _ l] exI [of _ "PPush l Finish"]) (auto simp: holds_p_def clean_p_def src_w_def weight_p_def sourced_def parent_ok_def)
  next
    case (2 l b bs)
    then show ?thesis using c(2)
      by (intro exI [of _ l] exI [of _ "PPush (l @ b) Continue"])
        (auto simp: holds_p_def clean_p_def src_w_def weight_p_def sourced_def parent_ok_def at_end_p_def batches_ok_Cons)
  next
    case (3 l b bs missing)
    then have "length b \<le> ParentMemoryWindow" using c(2) by (simp add: sourced_def batches_ok_Cons)
    from nw_mset [OF processWithChildren_mset [OF 3(5) this]]
    have "nw \<phi> missing = nw (\<lambda>n. if \<not> contains n then \<phi> n else 0) b" for \<phi> by (simp add: nw_filter)
    then show ?thesis using 3 c(2)
      by (intro exI [of _ l] exI [of _ "PPush (l @ missing) Continue"])
        (auto simp: holds_p_def clean_p_def src_w_def weight_p_def sourced_def parent_ok_def at_end_p_def batches_ok_Cons if_distrib Let_def)
  qed
  then obtain l p where m: "i < S_parents_n s" "S_parents s i = PPull l" "S_parents s' = (S_parents s)(i := p)" "holds_p p = 0" "clean_p p"
      "S_disp s' = S_disp s" "S_full s' = S_full s" "S_parents_n s' = S_parents_n s" "S_workers_n s' = S_workers_n s"
      "S_workers s' = S_workers s" "S_cancelled s' = S_cancelled s" "S_iterErr s' = S_iterErr s" "S_acked s' = S_acked s"
      "\<And>\<phi>. src_w \<phi> contains s' + weight_p \<phi> p = src_w \<phi> contains s + weight_p \<phi> (PPull l)" "sourced s'" by blast
  have "counted s'"
    using c(1) m sum_upd [OF m(1), of holds_p "S_parents s" p] by (auto simp: counted_def holds_p_def simp del: fun_upd_apply)
  moreover have "total_w \<phi> contains s' = total_w \<phi> contains s" for \<phi>
  proof -
    have "src_w \<phi> contains s' = src_w \<phi> contains s + weight_p \<phi> (PPull l) - weight_p \<phi> p" using m(14) [of \<phi>] by simp
    with m(1-13) sum_upd [OF m(1), of "weight_p \<phi>" "S_parents s" p] show ?thesis by (simp add: total_w_def del: fun_upd_apply)
  qed
  then have "conserved contains K s'" using c(3) m by (auto simp: conserved_def)
  moreover have "reported fetch s'" using c(4) m by (simp add: reported_def)
  ultimately show ?thesis using m(15) by (simp add: session_inv_def)
qed

lemma feed_inv:
  assumes "session_inv fetch contains K s" "feed_step s = Some s'"
  shows "session_inv fetch contains K s'"
proof -
  from assms(1) have c: "counted s" "sourced s" "conserved contains K s" "reported fetch s" by (auto simp: session_inv_def)
  from assms(2) c(2) consider "\<not> S_full s" "S_iter s = []" "s' = s\<lparr>S_closed := True\<rparr>"
    | b bs where "\<not> S_full s" "\<not> S_closed s" "S_iter s = b # bs" "s' = s\<lparr>S_iter := bs, S_workChan := S_workChan s @ [b]\<rparr>"
    by (auto simp: feed_step_def sourced_def next_batch_ok split: if_splits list.splits)
  then show ?thesis
  proof cases
    case 1
    with c show ?thesis by (auto simp: session_inv_def counted_def sourced_def conserved_def reported_def total_w_def src_w_def Let_def)
  next
    case 2
    then have "batches_ok (S_workChan s @ [b])" "batches_ok bs" using c(2) by (auto simp: sourced_def batches_ok_def)
    then have "sourced s'" using 2 c(2) by (auto simp: sourced_def)
    moreover have "total_w \<phi> contains s' = total_w \<phi> contains s" for \<phi> using 2 by (simp add: total_w_def src_w_def Let_def)
    with c(3) 2 have "conserved contains K s'" by (simp add: conserved_def)
    moreover have "counted s'" "reported fetch s'" using 2 c(1,4) by (auto simp: counted_def reported_def)
    ultimately show ?thesis by (simp add: session_inv_def)
  qed
qed

lemma fails_inv:
  assumes "session_inv fetch contains K s" "iter_fails i e s = Some s'"
  shows "session_inv fetch contains K s' \<and> S_iterErr s' \<noteq> None"
proof -
  from assms(1) have c: "counted s" "sourced s" "conserved contains K s" "reported fetch s" by (auto simp: session_inv_def)
  from assms(2) consider "\<not> S_full s" "s' = s\<lparr>S_closed := True, S_iterErr := Some e\<rparr>"
    | l where "S_full s" "i < S_parents_n s" "S_parents s i = PPull l"
        "s' = s\<lparr>S_parents := (S_parents s)(i := PDone (Some (''iterator: '' @ e))), S_iterErr := Some e\<rparr>"
    by (auto simp: iter_fails_def split: if_splits parent.splits)
  then show ?thesis
  proof cases
    case 1
    with c show ?thesis by (auto simp: session_inv_def counted_def sourced_def conserved_def reported_def)
  next
    case 2
    have "counted s'" using c(1) 2 sum_upd [OF 2(2), of holds_p "S_parents s" "PDone (Some (''iterator: '' @ e))"]
      by (auto simp: counted_def holds_p_def simp del: fun_upd_apply)
    moreover have "sourced s'" using c(2) 2 by (auto simp: sourced_def parent_ok_def at_end_p_def)
    ultimately show ?thesis using c 2 by (auto simp: session_inv_def conserved_def reported_def)
  qed
qed

lemma is_PDone: "(case p of PDone _ \<Rightarrow> True | _ \<Rightarrow> False) \<longleftrightarrow> (\<exists>r. p = PDone r)"
  by (cases p) auto

lemma is_WExited: "(case w of WExited \<Rightarrow> True | _ \<Rightarrow> False) \<longleftrightarrow> w = WExited"
  by (cases w) auto

lemma parents_done_iff: "parents_done s \<longleftrightarrow> (\<forall>i<S_parents_n s. \<exists>r. S_parents s i = PDone r)"
  by (auto simp: parents_done_def list_all_iff is_PDone)

lemma join_inv:
  assumes "session_inv fetch contains K s" "parents_done s"
  shows "session_inv fetch contains K (s\<lparr>S_disp := CloseInput (S_disp s)\<rparr>)"
  using assms by (auto simp: parents_done_iff session_inv_def counted_def sourced_def conserved_def reported_def total_w_def src_w_def
      CloseInput_def tryCloseDone_def)

lemma step_inv:
  assumes "session_inv fetch contains K s" "session_step fetch contains ev s = Some s'"
  shows "session_inv fetch contains K s'"
proof (cases ev)
  case (Worker j e)
  with assms show ?thesis by (simp add: session_step_def worker_inv)
next
  case (Parent i e)
  with assms show ?thesis by (simp add: session_step_def parent_inv)
next
  case (Pull i order)
  with assms show ?thesis by (simp add: session_step_def pull_inv)
next
  case Feed
  with assms show ?thesis by (simp add: session_step_def feed_inv)
next
  case FeedStops
  with assms show ?thesis
    by (auto simp: session_step_def session_inv_def counted_def sourced_def conserved_def reported_def split: if_splits)
next
  case (IterFails i e)
  with assms fails_inv show ?thesis by (simp add: session_step_def) blast
next
  case Join
  with assms show ?thesis by (auto simp: session_step_def join_inv split: if_splits)
next
  case Cancel
  with assms(2) have "s' = s\<lparr>S_cancelled := True\<rparr>" by (simp add: session_step_def)
  moreover from assms(1) have "counted (s\<lparr>S_cancelled := True\<rparr>)" by (auto simp: session_inv_def counted_def)
  moreover from assms(1) have "sourced (s\<lparr>S_cancelled := True\<rparr>)" by (simp add: session_inv_def sourced_def)
  moreover from assms(1) have "reported fetch (s\<lparr>S_cancelled := True\<rparr>)" by (simp add: session_inv_def reported_def)
  ultimately show ?thesis by (simp add: session_inv_def conserved_def)
qed

lemma run_inv: "session_inv fetch contains K s \<Longrightarrow> run_session fetch contains evs s = Some s' \<Longrightarrow> session_inv fetch contains K s'"
  by (induction evs arbitrary: s) (auto split: option.splits dest: step_inv)

text \<open>What no step changes, and what no step takes back.\<close>

definition same_session :: "'acc session \<Rightarrow> 'acc session \<Rightarrow> bool" where
  "same_session s s' \<longleftrightarrow> S_full s' = S_full s \<and> S_parents_n s' = S_parents_n s \<and> S_workers_n s' = S_workers_n s \<and>
     AD_cfg (S_disp s') = AD_cfg (S_disp s) \<and> AD_chanCap (S_disp s') = AD_chanCap (S_disp s) \<and>
     (S_cancelled s \<longrightarrow> S_cancelled s') \<and> (S_iterErr s \<noteq> None \<longrightarrow> S_iterErr s' \<noteq> None)"

lemma worker_same: "worker_step fetch j ev s = Some s' \<Longrightarrow> same_session s s'"
  by (erule worker_step_cases) (simp add: same_session_def worker_local(1,2))

lemma parent_same: "parent_step i ev s = Some s' \<Longrightarrow> same_session s s'"
  by (erule parent_step_cases) (simp add: same_session_def producer_local(1,2))

lemma step_same:
  assumes "session_step fetch contains ev s = Some s'"
  shows "same_session s s'"
proof (cases ev)
  case (Worker j e)
  with assms show ?thesis by (simp add: session_step_def worker_same)
next
  case (Parent i e)
  with assms show ?thesis by (simp add: session_step_def parent_same)
next
  case (Pull i order)
  with assms show ?thesis
    by (auto simp: session_step_def pull_step_def same_session_def split: if_splits parent.splits option.splits list.splits)
next
  case Feed
  with assms show ?thesis
    by (auto simp: session_step_def feed_step_def same_session_def split: if_splits option.splits)
next
  case (IterFails i e)
  with assms show ?thesis
    by (auto simp: session_step_def iter_fails_def same_session_def split: if_splits parent.splits)
qed (use assms in \<open>auto simp: session_step_def same_session_def CloseInput_def tryCloseDone_def split: if_splits\<close>)

lemma run_same: "run_session fetch contains evs s = Some s' \<Longrightarrow> same_session s s'"
proof (induction evs arbitrary: s)
  case (Cons ev evs)
  then obtain s1 where s1: "session_step fetch contains ev s = Some s1" "run_session fetch contains evs s1 = Some s'"
    by (auto split: option.splits)
  from step_same [OF s1(1)] Cons.IH [OF s1(2)] show ?case by (simp add: same_session_def)
qed (simp add: same_session_def)

text \<open>An empty source stays empty.\<close>

lemma step_empty: "session_step fetch contains ev s = Some s' \<Longrightarrow> S_iter s = [] \<and> S_workChan s = [] \<Longrightarrow> S_iter s' = [] \<and> S_workChan s' = []"
  by (cases ev) (auto simp: session_step_def pull_step_def feed_step_def iter_fails_def next_batch_def
      split: if_splits parent.splits elim: worker_step_cases parent_step_cases)

lemma run_empty: "run_session fetch contains evs s = Some s' \<Longrightarrow> S_iter s = [] \<and> S_workChan s = [] \<Longrightarrow> S_iter s' = [] \<and> S_workChan s' = []"
  by (induction evs arbitrary: s) (auto split: option.splits dest: step_empty)

section \<open>The start\<close>

lemma session_start_cases:
  assumes "session_start cfg clientKeys serverTotal batches = Inr s"
  shows "validateDispatcherConfig cfg = None" "S_full s = is_full_sync clientKeys serverTotal" "S_iter s = batches" "S_workChan s = []"
    "\<not> S_closed s" "S_iterErr s = None" "\<not> S_cancelled s" "S_acked s = []" "S_parents s = (\<lambda>_. PGate [])"
    "S_workers s = (\<lambda>_. WIdle False)" "S_parents_n s = (if is_full_sync clientKeys serverTotal then 1 else min NumDiffParents (unat serverTotal))"
    "S_workers_n s = nat (Cfg_DispatchWorkers cfg)" "0 < S_workers_n s" "AD_cfg (S_disp s) = cfg" "AD_chanCap (S_disp s) = chan_cap cfg"
    "AD_nonceChan (S_disp s) = []" "\<not> AD_done (S_disp s)" "\<not> AD_inputClosed (S_disp s)" "AD_inflight (S_disp s) = 0"
    "AD_nonceBufferCount (S_disp s) = 0" "AD_deadLetters (S_disp s) = []" "AD_deliveredPages (S_disp s) = 0"
    "AD_deliveredAccounts (S_disp s) = 0" "AD_waiters (S_disp s) = []"
  using assms by (auto simp: session_start_def NewDispatcher_def validateDispatcherConfig_def Let_def split: option.splits if_splits)

text \<open>What the session has to deliver.\<close>

definition to_deliver :: "(u64 \<Rightarrow> bool) \<Rightarrow> bool \<Rightarrow> u64 list list \<Rightarrow> u64 list" where
  "to_deliver contains full batches = filter (\<lambda>n. full \<or> \<not> contains n) (concat batches)"

lemma start_inv:
  assumes "session_start cfg clientKeys serverTotal batches = Inr s" "batches_ok batches"
  shows "session_inv fetch contains (\<lambda>\<phi>. nw \<phi> (to_deliver contains (S_full s) batches)) s"
proof -
  note c = session_start_cases [OF assms(1)]
  have "counted s" by (simp add: counted_def c holds_p_def holds_w_def)
  moreover have "sourced s" using assms(2) by (simp add: sourced_def c batches_ok_def parent_ok_def at_end_p_def)
  moreover have "conserved contains (\<lambda>\<phi>. nw \<phi> (to_deliver contains (S_full s) batches)) s"
    by (simp add: conserved_def total_w_def src_w_def c clean_p_def weight_p_def weight_w_def to_deliver_def nw_filter)
  moreover have "reported fetch s" by (simp add: reported_def c)
  ultimately show ?thesis by (simp add: session_inv_def)
qed

section \<open>The end\<close>

lemma nw_count: "nw (\<lambda>n. if n = x then 1 else 0) l = int (count (mset l) x)"
  by (induction l) simp_all

lemma pages_w_concat: "pages_w \<phi> ps = nw \<phi> (concat (map Page_Nonces ps))"
  by (induction ps) simp_all

lemma dead_w_concat: "dead_w \<phi> ds = nw \<phi> (concat (map Dead_Nonces ds))"
  by (induction ds) simp_all

lemma run_summary_Some: "run_summary s = Some r \<Longrightarrow> j < S_workers_n s \<Longrightarrow> S_workers s j = WExited"
  by (auto simp: run_summary_def list_all_iff is_WExited split: if_splits)

lemma session_end:
  assumes "session_inv fetch contains (\<lambda>\<phi>. nw \<phi> L) s" "run_summary s = Some r" "0 < S_workers_n s"
    and "\<not> S_cancelled s" "S_iterErr s = None" "S_parents_n s = 0 \<longrightarrow> S_iter s = [] \<and> S_workChan s = []"
  shows "mset (concat (map Page_Nonces (S_acked s))) + mset (concat (map Dead_Nonces (AD_deadLetters (S_disp s)))) = mset L"
    "diff_error s = None"
proof -
  from assms(1) have c: "counted s" "sourced s" "conserved contains (\<lambda>\<phi>. nw \<phi> L) s" by (auto simp: session_inv_def)
  from run_summary_Some [OF assms(2,3)] c(1) assms(3,4) have fin: "AD_done (S_disp s)" by (auto simp: counted_def)
  with c(1) have d: "AD_inputClosed (S_disp s)" "AD_inflight (S_disp s) = 0" by (auto simp: counted_def)
  with c(1) have p: "\<exists>r. S_parents s i = PDone r" if "i < S_parents_n s" for i using that by (auto simp: counted_def)
  have clean: "clean_p (S_parents s i)" if "i < S_parents_n s" for i using c(3) assms(4,5) that by (simp add: conserved_def)
  have none: "S_parents s i = PDone None" if "i < S_parents_n s" for i
    using p [OF that] clean [OF that] by (auto simp: clean_p_def split: option.splits)
  have src: "S_iter s = [] \<and> S_workChan s = []"
  proof (cases "S_parents_n s = 0")
    case False
    then have "at_end_p (S_parents s 0)" using none [of 0] by (simp add: at_end_p_def)
    with c(2) False assms(4,5) show ?thesis by (auto simp: sourced_def split: if_splits)
  qed (use assms(6) in simp)
  have "weight_p \<phi> (S_parents s i) = 0" if "i < S_parents_n s" for i \<phi> using none [OF that] by (simp add: weight_p_def)
  moreover have "weight_w \<phi> (S_workers s j) = 0" if "j < S_workers_n s" for j \<phi>
    using run_summary_Some [OF assms(2) that] by (simp add: weight_w_def)
  ultimately have "nw \<phi> (concat (map Page_Nonces (S_acked s))) + nw \<phi> (concat (map Dead_Nonces (AD_deadLetters (S_disp s)))) = nw \<phi> L" for \<phi>
    using c(3) assms(4,5) src counted_quiet(1) [OF c(1) d(2)]
    by (simp add: conserved_def total_w_def src_w_def pages_w_concat dead_w_concat)
  note w = this
  show "mset (concat (map Page_Nonces (S_acked s))) + mset (concat (map Dead_Nonces (AD_deadLetters (S_disp s)))) = mset L"
  proof (rule multiset_eqI)
    fix x
    from w [of "\<lambda>n. if n = x then 1 else 0"]
    have "int (count (mset (concat (map Page_Nonces (S_acked s)))) x) +
        int (count (mset (concat (map Dead_Nonces (AD_deadLetters (S_disp s))))) x) = int (count (mset L) x)"
      by (simp only: nw_count)
    then show "count (mset (concat (map Page_Nonces (S_acked s))) + mset (concat (map Dead_Nonces (AD_deadLetters (S_disp s))))) x =
        count (mset L) x" by (simp only: count_union)
  qed
  show "diff_error s = None"
  proof -
    have "parent_errors s = []" using none by (simp add: parent_errors_def)
    then show ?thesis by (simp add: diff_error_def assms(5))
  qed
qed

end
