(* ===== verification/FS_Dispatch_Props.thy ===== *)
theory FS_Dispatch_Props
  imports FS_Dispatch_Facts
begin

text \<open>
  The account session: what a session that ends has delivered, over every interleaving, why it cannot get stuck while the
  client can be reached and the channel has room, and how it gets stuck when the client cannot be reached.
\<close>

section \<open>An unreachable client\<close>

text \<open>No worker has ever had a stream. Only a page that is processed leaves \<open>nonceBufferCount\<close>, so the count never falls.\<close>

definition no_stream_w :: "'acc worker \<Rightarrow> bool" where
  "no_stream_w w = (case w of WIdle st \<Rightarrow> \<not> st | WProcess _ \<Rightarrow> False | WFetch _ \<Rightarrow> False | WSend _ _ \<Rightarrow> False | WFail _ _ st \<Rightarrow> \<not> st
     | WRequeue _ _ st \<Rightarrow> \<not> st | WRecount n st \<Rightarrow> \<not> st \<and> 0 \<le> n | WDead _ _ st \<Rightarrow> \<not> st | WFinish st \<Rightarrow> \<not> st | WTry st \<Rightarrow> \<not> st
     | _ \<Rightarrow> True)"

definition count_p :: "parent \<Rightarrow> bool" where
  "count_p p = (case p of PCount n _ _ \<Rightarrow> 0 \<le> n | _ \<Rightarrow> True)"

definition no_streams :: "'acc session \<Rightarrow> bool" where
  "no_streams s \<longleftrightarrow> (\<forall>j<S_workers_n s. no_stream_w (S_workers s j)) \<and> (\<forall>i<S_parents_n s. count_p (S_parents s i)) \<and> S_acked s = []"

definition opens :: "event \<Rightarrow> bool" where
  "opens ev \<longleftrightarrow> (\<exists>j. ev = Worker j Opens)"

lemma worker_no_stream:
  assumes "dispatchWorker fetch c ev w d = Some (w', d', eff)" "no_stream_w w" "ev \<noteq> Opens"
  shows "no_stream_w w'" "AD_nonceBufferCount d \<le> AD_nonceBufferCount d'" "eff = NoEffect \<or> (\<exists>p. eff = RecoveredPage p)"
  using assms
  by (cases w; cases ev; auto simp: dispatchWorker_def no_stream_w_def dispatcher_defs split: if_splits list.splits)+

lemma producer_count:
  assumes "producer_step full c i ev p d = Some (p', d')" "count_p p"
  shows "count_p p'" "AD_nonceBufferCount d \<le> AD_nonceBufferCount d'"
  using assms
  by (cases p; cases ev; auto simp: producer_step_def count_p_def dispatcher_defs EnqueueNonces_def after_flush_def gate_cancelled_def
      enqueue_failed_def split: if_splits after.splits)+

definition waiting_p :: "parent \<Rightarrow> bool" where
  "waiting_p p = (case p of PGate _ \<Rightarrow> True | PLoop _ \<Rightarrow> True | PAsleep _ \<Rightarrow> True | _ \<Rightarrow> False)"

lemma producer_waiting:
  assumes "producer_step full c i ev p d = Some (p', d')" "waiting_p p" "\<not> c"
    and "Cfg_NonceBufferPauseThreshold (AD_cfg d) \<le> AD_nonceBufferCount d"
  shows "waiting_p p'"
  using assms by (cases p; cases ev; auto simp: producer_step_def waiting_p_def split: if_splits)

text \<open>While the count stays at the threshold, the producers that wait keep waiting.\<close>

definition blocked :: "nat set \<Rightarrow> 'acc session \<Rightarrow> bool" where
  "blocked I s \<longleftrightarrow> no_streams s \<and> (\<forall>i\<in>I. i < S_parents_n s \<and> waiting_p (S_parents s i)) \<and>
     Cfg_NonceBufferPauseThreshold (AD_cfg (S_disp s)) \<le> AD_nonceBufferCount (S_disp s)"

lemma pull_moves:
  assumes "pull_step contains k order s = Some s'"
  obtains l l' x where "S_parents s k = PPull l" "S_parents s' = (S_parents s)(k := PPush l' x)" "S_disp s' = S_disp s"
    "S_workers s' = S_workers s" "S_workers_n s' = S_workers_n s" "S_parents_n s' = S_parents_n s" "S_acked s' = S_acked s"
  using assms by (auto simp: pull_step_def split: if_splits parent.splits option.splits list.splits)

lemma fails_moves:
  assumes "iter_fails k e s = Some s'"
  obtains "S_parents s' = S_parents s" "S_disp s' = S_disp s" "S_workers s' = S_workers s" "S_workers_n s' = S_workers_n s"
      "S_parents_n s' = S_parents_n s" "S_acked s' = S_acked s"
  | l r where "S_parents s k = PPull l" "S_parents s' = (S_parents s)(k := PDone r)" "S_disp s' = S_disp s"
    "S_workers s' = S_workers s" "S_workers_n s' = S_workers_n s" "S_parents_n s' = S_parents_n s" "S_acked s' = S_acked s"
  using assms by (auto simp: iter_fails_def split: if_splits parent.splits)

lemma step_no_streams:
  assumes "session_step fetch contains ev s = Some s'" "no_streams s" "\<not> opens ev"
  shows "no_streams s' \<and> AD_nonceBufferCount (S_disp s) \<le> AD_nonceBufferCount (S_disp s') \<and>
    (waiting_p (S_parents s i) \<and> i < S_parents_n s \<and> \<not> S_cancelled s \<and>
       Cfg_NonceBufferPauseThreshold (AD_cfg (S_disp s)) \<le> AD_nonceBufferCount (S_disp s) \<longrightarrow> waiting_p (S_parents s' i))"
proof (cases ev)
  case (Worker j e)
  with assms(1,3) have st: "worker_step fetch j e s = Some s'" and ne: "e \<noteq> Opens" by (simp_all add: session_step_def opens_def)
  obtain w d eff where w: "j < S_workers_n s"
    "dispatchWorker fetch (S_cancelled s) e (S_workers s j) (S_disp s) = Some (w, d, eff)"
    "s' = client_effect eff (s\<lparr>S_workers := (S_workers s)(j := w), S_disp := d\<rparr>)"
    by (rule worker_step_cases [OF st])
  have "no_stream_w (S_workers s j)" using w(1) assms(2) by (simp add: no_streams_def)
  note n = worker_no_stream [OF w(2) this ne]
  have "S_acked s' = S_acked s" using n(3) by (auto simp: w(3))
  with n(1,2) assms(2) show ?thesis by (simp add: no_streams_def w(3))
next
  case (Parent k e)
  with assms(1) have st: "parent_step k e s = Some s'" by (simp add: session_step_def)
  obtain p d where p: "k < S_parents_n s"
    "producer_step (S_full s) (S_cancelled s) k e (S_parents s k) (S_disp s) = Some (p, d)"
    "s' = s\<lparr>S_parents := (S_parents s)(k := p), S_disp := d\<rparr>"
    by (rule parent_step_cases [OF st])
  have "count_p (S_parents s k)" using p(1) assms(2) by (simp add: no_streams_def)
  note n = producer_count [OF p(2) this] producer_waiting [OF p(2)]
  show ?thesis using n assms(2) by (simp add: no_streams_def p(3))
next
  case (Pull k order)
  with assms(1) have "pull_step contains k order s = Some s'" by (simp add: session_step_def)
  then obtain l l' x where m: "S_parents s k = PPull l" "S_parents s' = (S_parents s)(k := PPush l' x)" "S_disp s' = S_disp s"
    "S_workers s' = S_workers s" "S_workers_n s' = S_workers_n s" "S_parents_n s' = S_parents_n s" "S_acked s' = S_acked s"
    by (rule pull_moves)
  have "\<not> waiting_p (PPull l)" "count_p (PPush l' x)" by (simp_all add: waiting_p_def count_p_def)
  with m assms(2) show ?thesis by (auto simp: no_streams_def)
next
  case Feed
  with assms(1,2) show ?thesis by (auto simp: session_step_def feed_step_def no_streams_def split: if_splits option.splits)
next
  case (IterFails k e)
  with assms(1) have "iter_fails k e s = Some s'" by (simp add: session_step_def)
  moreover have "\<not> waiting_p (PPull l)" "count_p (PDone r)" for l r by (simp_all add: waiting_p_def count_p_def)
  ultimately show ?thesis using assms(2) by (elim fails_moves) (auto simp: no_streams_def)
next
  case Join
  with assms(1,2) show ?thesis by (auto simp: session_step_def no_streams_def CloseInput_def tryCloseDone_def split: if_splits)
qed (use assms(1,2) in \<open>auto simp: session_step_def no_streams_def split: if_splits\<close>)

lemma run_no_streams:
  "run_session fetch contains evs s = Some s' \<Longrightarrow> no_streams s \<Longrightarrow> list_all (\<lambda>ev. \<not> opens ev) evs \<Longrightarrow> no_streams s'"
  by (induction evs arbitrary: s) (auto split: option.splits dest: step_no_streams)

lemma run_blocked:
  assumes "run_session fetch contains evs s = Some s'" "blocked I s" "list_all (\<lambda>ev. \<not> opens ev) evs" "\<not> S_cancelled s'"
  shows "blocked I s'"
  using assms
proof (induction evs arbitrary: s)
  case (Cons ev evs)
  then obtain s1 where s1: "session_step fetch contains ev s = Some s1" "run_session fetch contains evs s1 = Some s'"
    by (auto split: option.splits)
  from run_same [OF s1(2)] step_same [OF s1(1)] Cons.prems(4) have c: "\<not> S_cancelled s" "same_session s s1"
    by (auto simp: same_session_def)
  have "blocked I s1"
    using step_no_streams [OF s1(1)] Cons.prems(2,3) c by (fastforce simp: blocked_def same_session_def)
  with Cons.IH [OF s1(2)] Cons.prems(3,4) show ?case by simp
qed simp

section \<open>Properties\<close>

lemma session_exact:
  assumes "session_start cfg clientKeys serverTotal batches = Inr s0" "batches_ok batches" "serverTotal = 0 \<longrightarrow> batches = []"
    and "run_session fetch contains evs s0 = Some s" "run_summary s = Some r" "\<not> S_cancelled s" "S_iterErr s = None"
  shows "mset (concat (map Page_Nonces (S_acked s))) + mset (concat (map Dead_Nonces (Summary_DeadLetters r))) =
      mset (to_deliver contains (is_full_sync clientKeys serverTotal) batches) \<and>
    diff_error s = None \<and> Summary_DeliveredPages r = word_of_nat (length (S_acked s)) \<and>
    Summary_DeliveredAccounts r = word_of_nat (length (concat (map (\<lambda>p. fetch (Page_Nonces p)) (S_acked s)))) \<and>
    Summary_PermanentFailedPages r = word_of_nat (length (Summary_DeadLetters r))"
proof -
  note c = session_start_cases [OF assms(1)]
  from run_inv [OF start_inv [OF assms(1,2)] assms(4)]
  have inv: "session_inv fetch contains (\<lambda>\<phi>. nw \<phi> (to_deliver contains (S_full s0) batches)) s" .
  from run_same [OF assms(4)] have same: "S_parents_n s = S_parents_n s0" "S_workers_n s = S_workers_n s0"
    by (auto simp: same_session_def)
  have r: "Summary_DeadLetters r = AD_deadLetters (S_disp s)" "Summary_DeliveredPages r = AD_deliveredPages (S_disp s)"
    "Summary_DeliveredAccounts r = AD_deliveredAccounts (S_disp s)"
    "Summary_PermanentFailedPages r = word_of_nat (length (AD_deadLetters (S_disp s)))"
    using assms(5) by (auto simp: run_summary_def Let_def split: if_splits)
  have "S_parents_n s = 0 \<longrightarrow> S_iter s = [] \<and> S_workChan s = []"
  proof
    assume "S_parents_n s = 0"
    then have "\<not> is_full_sync clientKeys serverTotal" "serverTotal = 0"
      using same c(11) by (auto simp: NumDiffParents_def min_def unat_eq_zero split: if_splits)
    then have "batches = []" using assms(3) by simp
    with c(3,4) run_empty [OF assms(4)] show "S_iter s = [] \<and> S_workChan s = []" by simp
  qed
  from session_end [OF inv assms(5) _ assms(6,7) this] c(13) same
  have "mset (concat (map Page_Nonces (S_acked s))) + mset (concat (map Dead_Nonces (AD_deadLetters (S_disp s)))) =
      mset (to_deliver contains (S_full s0) batches)" "diff_error s = None" by auto
  moreover have "reported fetch s" using inv by (simp add: session_inv_def)
  ultimately show ?thesis using r c(2) by (simp add: reported_def)
qed

text \<open>C34: A session that ends without cancellation and without a failure of the iterator has accounted for every account the
  client lacks: over every interleaving of producers and workers, the nonces of the pages the client acknowledged and
  those of the dead letters are together exactly, with multiplicity, the server's nonces that are not in the client's
  tree (all of them in a full sync), the diff reports no error, and the summary counts them.\<close>

theorem account_session_exact:
  assumes "session_start cfg clientKeys serverTotal batches = Inr s0" "batches_ok batches" "serverTotal = 0 \<longrightarrow> batches = []"
    and "run_session fetch contains evs s0 = Some s" "run_summary s = Some r" "\<not> S_cancelled s" "S_iterErr s = None"
  shows "mset (concat (map Page_Nonces (S_acked s))) + mset (concat (map Dead_Nonces (Summary_DeadLetters r))) =
      mset (to_deliver contains (is_full_sync clientKeys serverTotal) batches) \<and>
    diff_error s = None \<and> Summary_DeliveredPages r = word_of_nat (length (S_acked s)) \<and>
    Summary_DeliveredAccounts r = word_of_nat (length (concat (map (\<lambda>p. fetch (Page_Nonces p)) (S_acked s)))) \<and>
    Summary_PermanentFailedPages r = word_of_nat (length (Summary_DeadLetters r))"
  using assms by (rule session_exact)

text \<open>A small configuration for the demonstrations, and its start: a client that has one of the server's two accounts.\<close>

definition demo_cfg :: "int \<Rightarrow> DispatcherConfig" where
  "demo_cfg retries = \<lparr>Cfg_DispatchWorkers = 1, Cfg_NonceBufferPauseThreshold = 1, Cfg_NonceBufferResumePct = 50, Cfg_NoncePageSize = 1,
     Cfg_DispatchMaxRetries = retries, Cfg_DispatchACKTimeout = 1\<rparr>"

definition demo_session :: "int \<Rightarrow> u64 session" where
  "demo_session retries = (case session_start (demo_cfg retries) 1 2 [[5], [6]] of Inl _ \<Rightarrow> undefined | Inr s \<Rightarrow> s)"

lemma demo_start: "0 \<le> retries \<Longrightarrow> session_start (demo_cfg retries) 1 2 [[5], [6]] = Inr (demo_session retries)"
  by (simp add: demo_session_def session_start_def NewDispatcher_def validateDispatcherConfig_def demo_cfg_def Let_def)

lemma demo_batches: "batches_ok [[5], [6]]"
  by (simp add: batches_ok_def ParentMemoryWindow_def)

text \<open>One producer reads both batches, sends its page and returns; the other has not yet passed the gate; the worker takes the page.\<close>

definition demo_events :: "event list" where
  "demo_events = [Feed, Feed, Feed, Parent 0 Tau, Pull 0 [0], Parent 0 Tau, Parent 0 Tau, Pull 0 [0], Parent 0 Tau, Parent 0 Tau,
     Pull 0 [], Parent 0 Tau, Parent 0 Tau, Parent 0 Tau, Worker 0 Tau]"

text \<open>The client rejects the page once and then acknowledges it; the other producer finds no batch, and the session ends.\<close>

definition demo_delivery :: "event list" where
  "demo_delivery = demo_events @ map (Worker 0) [Opens, Tau, Fetched, NotAcked ''x'', Tau, Tau, Tau, Tau, Opens, Tau, Fetched, Acked, Tau, Tau] @
     [Parent 1 Tau, Pull 1 [], Parent 1 Tau, Join, Worker 0 Leave]"

lemma demo_delivered:
  "case run_session (\<lambda>ns. ns) (\<lambda>n. n = 6) demo_delivery (demo_session 1) of None \<Rightarrow> False
   | Some s \<Rightarrow> run_summary s \<noteq> None \<and> \<not> S_cancelled s \<and> S_iterErr s = None \<and> map Page_Nonces (S_acked s) = [[5]] \<and>
       map Page_Retries (S_acked s) = [1]"
  by code_simp

theorem account_session_exact_witness:
  "\<exists>s r. run_session (\<lambda>ns. ns) (\<lambda>n. n = 6) demo_delivery (demo_session 1) = Some s \<and> run_summary s = Some r \<and>
     concat (map Page_Nonces (S_acked s)) = [5] \<and> concat (map Dead_Nonces (Summary_DeadLetters r)) = [] \<and> Summary_DeliveredPages r = 1"
proof -
  obtain s r where s: "run_session (\<lambda>ns. ns) (\<lambda>n. n = 6) demo_delivery (demo_session 1) = Some s" "run_summary s = Some r"
    "\<not> S_cancelled s" "S_iterErr s = None" "map Page_Nonces (S_acked s) = [[5]]"
    using demo_delivered by (auto split: option.splits)
  have "(0 :: int) \<le> 1" by simp
  from account_session_exact [OF demo_start [OF this] demo_batches _ s(1-4)] s(5)
  have "mset [5] + mset (concat (map Dead_Nonces (Summary_DeadLetters r))) = mset (to_deliver (\<lambda>n. n = 6) (is_full_sync 1 2) [[5], [6]])"
    "Summary_DeliveredPages r = word_of_nat (length (S_acked s))"
    "Summary_PermanentFailedPages r = word_of_nat (length (Summary_DeadLetters r))" by auto
  moreover have "to_deliver (\<lambda>n. n = 6) (is_full_sync 1 2) [[5], [6]] = [5 :: u64]"
    by (simp add: to_deliver_def is_full_sync_def FullSyncThresholdPct_def)
  moreover have "length (S_acked s) = 1" using s(5) by (metis length_map length_Cons list.size(3) One_nat_def)
  moreover have "concat (map Page_Nonces (S_acked s)) = [5]" using s(5) by simp
  ultimately show ?thesis using s(1,2) by simp
qed

text \<open>When the client cannot be dialled, the diff comes to a halt. A page whose stream could not be opened goes back into the
  channel, or into the dead letters, without its nonces being taken off \<open>nonceBufferCount\<close>, so in a session in which no
  stream opens the count only grows. Once it is at the threshold, every producer that waits at the gate waits until the
  session is cancelled, even when no page is left in flight; nothing is delivered and \<open>Run\<close> does not return.\<close>

theorem unreachable_client_blocks_diff:
  assumes "session_start cfg clientKeys serverTotal batches = Inr s0" "batches_ok batches"
    and "run_session fetch contains evs s0 = Some s" "list_all (\<lambda>ev. \<not> opens ev) evs"
    and "Cfg_NonceBufferPauseThreshold cfg \<le> AD_nonceBufferCount (S_disp s)" "i < S_parents_n s" "waiting_p (S_parents s i)"
    and "run_session fetch contains evs' s = Some s'" "list_all (\<lambda>ev. \<not> opens ev) evs'" "\<not> S_cancelled s'"
  shows "waiting_p (S_parents s' i) \<and> S_acked s' = [] \<and> run_summary s' = None"
proof -
  note c = session_start_cases [OF assms(1)]
  have "no_streams s0" by (simp add: no_streams_def c no_stream_w_def count_p_def)
  from run_no_streams [OF assms(3) this assms(4)] have "no_streams s" .
  moreover from run_same [OF assms(3)] have "AD_cfg (S_disp s) = cfg" by (simp add: same_session_def c)
  ultimately have "blocked {i} s" using assms(5-7) by (simp add: blocked_def)
  from run_blocked [OF assms(8) this assms(9,10)] have b: "no_streams s'" "waiting_p (S_parents s' i)" "i < S_parents_n s'"
    by (auto simp: blocked_def)
  from run_inv [OF run_inv [OF start_inv [OF assms(1,2)] assms(3)] assms(8)] have "counted s'" by (simp add: session_inv_def)
  moreover have "S_parents s' i \<noteq> PDone r" for r using b(2) by (auto simp: waiting_p_def)
  ultimately have nd: "\<not> AD_done (S_disp s')" "\<forall>j<S_workers_n s'. S_workers s' j = WExited \<longrightarrow> AD_done (S_disp s')"
    using b(3) assms(10) by (auto simp: counted_def)
  have "0 < S_workers_n s'" using run_same [OF assms(3)] run_same [OF assms(8)] c(13) by (simp add: same_session_def)
  with nd have "run_summary s' = None" using run_summary_Some [of s' _ 0] by (cases "run_summary s'") auto
  with b show ?thesis by (simp add: no_streams_def)
qed

lemma demo_unreachable:
  "case run_session (\<lambda>ns. ns) (\<lambda>_. False) (demo_events @ map (Worker 0) [OpenFails ''x'', Tau, Recovered False, Tau, Tau]) (demo_session 0) of
     None \<Rightarrow> False
   | Some s \<Rightarrow> AD_nonceBufferCount (S_disp s) = 2 \<and> AD_inflight (S_disp s) = 0 \<and> S_parents_n s = 2 \<and> S_parents s 1 = PGate [] \<and>
       (case run_session (\<lambda>ns. ns) (\<lambda>_. False) [Parent 1 Tau, Parent 1 Tau] s of None \<Rightarrow> False
        | Some s' \<Rightarrow> \<not> S_cancelled s' \<and> S_parents s' 1 = PAsleep [] \<and> AD_inflight (S_disp s') = 0)"
  by code_simp

theorem unreachable_client_blocks_diff_witness:
  "\<exists>s s'. run_session (\<lambda>ns. ns) (\<lambda>_. False) (demo_events @ map (Worker 0) [OpenFails ''x'', Tau, Recovered False, Tau, Tau]) (demo_session 0) = Some s \<and>
     run_session (\<lambda>ns. ns) (\<lambda>_. False) [Parent 1 Tau, Parent 1 Tau] s = Some s' \<and> S_parents s' 1 = PAsleep [] \<and>
     AD_inflight (S_disp s') = 0 \<and> run_summary s' = None"
proof -
  obtain s s' where s: "run_session (\<lambda>ns. ns) (\<lambda>_. False) (demo_events @ map (Worker 0) [OpenFails ''x'', Tau, Recovered False, Tau, Tau]) (demo_session 0) = Some s"
    "AD_nonceBufferCount (S_disp s) = 2" "S_parents_n s = 2" "S_parents s 1 = PGate []"
    "run_session (\<lambda>ns. ns) (\<lambda>_. False) [Parent 1 Tau, Parent 1 Tau] s = Some s'" "\<not> S_cancelled s'" "S_parents s' 1 = PAsleep []"
    "AD_inflight (S_disp s') = 0"
    using demo_unreachable by (auto split: option.splits)
  have z: "(0 :: int) \<le> 0" by simp
  have "run_summary s' = None"
    using unreachable_client_blocks_diff [OF demo_start [OF z] demo_batches s(1) _ _ _ _ s(5) _ s(6), of 1] s(2-4)
    by (simp add: demo_events_def opens_def demo_cfg_def waiting_p_def)
  with s show ?thesis by blast
qed

end
