(* ===== verification/FS_Dispatch_Live.thy ===== *)
theory FS_Dispatch_Live
  imports FS_Dispatch_Props
begin

text \<open>
  The account session does not get stuck as long as streams to the client open and the channel has room: the buffer count
  is exact, a producer sleeps only while the count is high, and the last page to be finalised closes \<open>done\<close>.
\<close>

section \<open>The buffer count\<close>

definition pend_w :: "'acc worker \<Rightarrow> int" where
  "pend_w w = (case w of WPage p \<Rightarrow> - int (length (Page_Nonces p)) | WProcess p \<Rightarrow> - int (length (Page_Nonces p))
     | WRecount n _ \<Rightarrow> n | _ \<Rightarrow> 0)"

definition pend_p :: "parent \<Rightarrow> int" where
  "pend_p p = (case p of PCount n _ _ \<Rightarrow> n | _ \<Rightarrow> 0)"

definition recount_w :: "'acc worker \<Rightarrow> bool" where
  "recount_w w = (case w of WRecount n _ \<Rightarrow> 0 \<le> n | _ \<Rightarrow> True)"

definition chan_len :: "AccountDispatcher \<Rightarrow> int" where
  "chan_len d = sum_list (map (\<lambda>p. int (length (Page_Nonces p))) (AD_nonceChan d))"

lemma worker_pend:
  assumes "dispatchWorker fetch c ev w d = Some (w', d', eff)" "\<forall>e. ev \<noteq> OpenFails e" "recount_w w"
  shows "AD_nonceBufferCount d' + pend_w w' - chan_len d' = AD_nonceBufferCount d + pend_w w - chan_len d"
    "recount_w w'" "AD_waiters d' \<noteq> [] \<longrightarrow> AD_waiters d' = AD_waiters d \<and>
       (AD_nonceBufferCount d \<le> AD_nonceBufferCount d' \<or> resumeThreshold (AD_cfg d) \<le> AD_nonceBufferCount d')"
  using assms
  by (cases w; cases ev; auto simp: dispatchWorker_def pend_w_def recount_w_def chan_len_def dispatcher_defs assign_index_def Let_def
      split: if_splits list.splits)+

lemma producer_pend:
  assumes "producer_step full c i ev p d = Some (p', d')" "count_p p"
  shows "AD_nonceBufferCount d' + pend_p p' - chan_len d' = AD_nonceBufferCount d + pend_p p - chan_len d"
    "AD_waiters d' \<noteq> [] \<longrightarrow> AD_waiters d \<noteq> [] \<or> Cfg_NonceBufferPauseThreshold (AD_cfg d) \<le> AD_nonceBufferCount d'"
    "AD_nonceBufferCount d \<le> AD_nonceBufferCount d'" "count_p p'"
  using assms
  by (cases p; cases ev; auto simp: producer_step_def pend_p_def count_p_def chan_len_def dispatcher_defs EnqueueNonces_def
      after_flush_def gate_cancelled_def enqueue_failed_def new_page_def split: if_splits after.splits)+

definition live :: "'acc session \<Rightarrow> bool" where
  "live s \<longleftrightarrow> AD_nonceBufferCount (S_disp s) + (\<Sum>i<S_parents_n s. pend_p (S_parents s i)) +
       (\<Sum>j<S_workers_n s. pend_w (S_workers s j)) = chan_len (S_disp s) \<and>
     (\<forall>i<S_parents_n s. count_p (S_parents s i)) \<and> (\<forall>j<S_workers_n s. recount_w (S_workers s j)) \<and>
     (AD_waiters (S_disp s) \<noteq> [] \<longrightarrow> resumeThreshold (AD_cfg (S_disp s)) \<le> AD_nonceBufferCount (S_disp s)) \<and>
     (AD_inputClosed (S_disp s) \<and> AD_inflight (S_disp s) = 0 \<longrightarrow>
        AD_done (S_disp s) \<or> (\<exists>j<S_workers_n s. \<exists>st. S_workers s j = WTry st))"

text \<open>A step that can close the input or empty the flight tries to close \<open>done\<close>.\<close>

lemma worker_tries:
  assumes "dispatchWorker fetch c ev w d = Some (w', d', eff)" "AD_inputClosed d'" "AD_inflight d' = 0" "\<not> AD_done d'"
  shows "(\<exists>st. w' = WTry st) \<or> (AD_inputClosed d \<and> AD_inflight d = 0 \<and> \<not> AD_done d \<and> (\<forall>st. w \<noteq> WTry st))"
  using assms
  by (cases w; cases ev; auto simp: dispatchWorker_def dispatcher_defs assign_index_def Let_def split: if_splits list.splits)

lemma resume_le_pause: "validateDispatcherConfig cfg = None \<Longrightarrow> resumeThreshold cfg \<le> Cfg_NonceBufferPauseThreshold cfg"
proof -
  assume "validateDispatcherConfig cfg = None"
  then have "0 < Cfg_NonceBufferPauseThreshold cfg" "Cfg_NonceBufferResumePct cfg < 100"
    by (auto simp: validateDispatcherConfig_def split: if_splits)
  then have "Cfg_NonceBufferPauseThreshold cfg * Cfg_NonceBufferResumePct cfg \<le> Cfg_NonceBufferPauseThreshold cfg * 100"
    by (simp add: mult_left_mono)
  then show ?thesis by (simp add: resumeThreshold_def)
qed

lemma step_live:
  assumes "session_step fetch contains ev s = Some s'" "live s" "counted s" "\<forall>j e. ev \<noteq> Worker j (OpenFails e)"
    and "validateDispatcherConfig (AD_cfg (S_disp s)) = None"
  shows "live s'"
proof (cases ev)
  case (Worker j e)
  with assms(1,4) have st: "worker_step fetch j e s = Some s'" and ne: "\<forall>x. e \<noteq> OpenFails x" by (simp_all add: session_step_def)
  obtain w d eff where w: "j < S_workers_n s"
    "dispatchWorker fetch (S_cancelled s) e (S_workers s j) (S_disp s) = Some (w, d, eff)"
    "s' = client_effect eff (s\<lparr>S_workers := (S_workers s)(j := w), S_disp := d\<rparr>)"
    by (rule worker_step_cases [OF st])
  have "recount_w (S_workers s j)" using w(1) assms(2) by (simp add: live_def)
  note p = worker_pend [OF w(2) ne this] and cfg = worker_local(1) [OF w(2)]
  have tries: "AD_inputClosed d \<and> AD_inflight d = 0 \<longrightarrow> AD_done d \<or> (\<exists>k<S_workers_n s. \<exists>st. ((S_workers s)(j := w)) k = WTry st)"
  proof (intro impI, cases "AD_done d")
    case False
    assume "AD_inputClosed d \<and> AD_inflight d = 0"
    with worker_tries [OF w(2)] False consider st where "w = WTry st"
      | "AD_inputClosed (S_disp s) \<and> AD_inflight (S_disp s) = 0" "\<not> AD_done (S_disp s)" "\<forall>st. S_workers s j \<noteq> WTry st" by blast
    then show "AD_done d \<or> (\<exists>k<S_workers_n s. \<exists>st. ((S_workers s)(j := w)) k = WTry st)"
    proof cases
      case 1
      with w(1) show ?thesis by (intro disjI2 exI [of _ j]) simp
    next
      case 2
      with assms(2) obtain ja st where "ja < S_workers_n s" "S_workers s ja = WTry st" by (auto simp: live_def)
      with 2(3) show ?thesis by (intro disjI2 exI [of _ ja]) auto
    qed
  qed simp
  have "AD_waiters d \<noteq> [] \<longrightarrow> resumeThreshold (AD_cfg d) \<le> AD_nonceBufferCount d"
    using p(3) assms(2) cfg by (auto simp: live_def)
  moreover have "AD_nonceBufferCount d + (\<Sum>i<S_parents_n s. pend_p (S_parents s i)) +
       (\<Sum>k<S_workers_n s. pend_w (((S_workers s)(j := w)) k)) = chan_len d"
    using p(1) assms(2) sum_upd [OF w(1), of pend_w "S_workers s" w] by (simp add: live_def del: fun_upd_apply)
  ultimately show ?thesis using tries p(2) assms(2) by (simp add: live_def w(3))
next
  case (Parent k e)
  with assms(1) have st: "parent_step k e s = Some s'" by (simp add: session_step_def)
  obtain q d where q: "k < S_parents_n s"
    "producer_step (S_full s) (S_cancelled s) k e (S_parents s k) (S_disp s) = Some (q, d)"
    "s' = s\<lparr>S_parents := (S_parents s)(k := q), S_disp := d\<rparr>"
    by (rule parent_step_cases [OF st])
  have "count_p (S_parents s k)" using q(1) assms(2) by (simp add: live_def)
  note p = producer_pend [OF q(2) this] and L = producer_local [OF q(2)]
  have "AD_waiters d \<noteq> [] \<longrightarrow> resumeThreshold (AD_cfg d) \<le> AD_nonceBufferCount d"
    using p(2,3) assms(2) L(1) resume_le_pause [OF assms(5)] by (auto simp: live_def)
  moreover have "AD_nonceBufferCount d + (\<Sum>i<S_parents_n s. pend_p (((S_parents s)(k := q)) i)) +
       (\<Sum>j<S_workers_n s. pend_w (S_workers s j)) = chan_len d"
    using p(1) assms(2) sum_upd [OF q(1), of pend_p "S_parents s" q] by (simp add: live_def del: fun_upd_apply)
  moreover have "\<not> AD_inputClosed d" using closed_no_producer [OF assms(3) q(2,1)] L(3) by simp
  ultimately show ?thesis using p(4) assms(2) by (simp add: live_def q(3))
next
  case (Pull k order)
  with assms(1) have "pull_step contains k order s = Some s'" by (simp add: session_step_def)
  then obtain l l' x where m: "S_parents s k = PPull l" "S_parents s' = (S_parents s)(k := PPush l' x)" "S_disp s' = S_disp s"
    "S_workers s' = S_workers s" "S_workers_n s' = S_workers_n s" "S_parents_n s' = S_parents_n s" "S_acked s' = S_acked s"
    by (rule pull_moves)
  have "(\<Sum>i<S_parents_n s. pend_p (S_parents s' i)) = (\<Sum>i<S_parents_n s. pend_p (S_parents s i))"
    by (rule sum.cong) (auto simp: m pend_p_def)
  with m assms(2) show ?thesis by (auto simp: live_def count_p_def)
next
  case Feed
  with assms(1,2) show ?thesis by (auto simp: session_step_def feed_step_def live_def split: if_splits option.splits)
next
  case (IterFails k e)
  with assms(1) have "iter_fails k e s = Some s'" by (simp add: session_step_def)
  then show ?thesis
  proof (cases rule: fails_moves)
    case 1
    with assms(2) show ?thesis by (simp add: live_def)
  next
    case (2 l r)
    have "(\<Sum>i<S_parents_n s. pend_p (S_parents s' i)) = (\<Sum>i<S_parents_n s. pend_p (S_parents s i))"
      by (rule sum.cong) (auto simp: 2 pend_p_def)
    with 2 assms(2) show ?thesis by (auto simp: live_def count_p_def)
  qed
next
  case Join
  with assms(1,2) show ?thesis by (auto simp: session_step_def live_def CloseInput_def tryCloseDone_def chan_len_def split: if_splits)
qed (use assms(1,2) in \<open>auto simp: session_step_def live_def split: if_splits\<close>)

lemma run_live:
  assumes "run_session fetch contains evs s = Some s'" "live s" "session_inv fetch contains K s"
    and "list_all (\<lambda>ev. \<forall>j e. ev \<noteq> Worker j (OpenFails e)) evs" "validateDispatcherConfig (AD_cfg (S_disp s)) = None"
  shows "live s'"
  using assms
proof (induction evs arbitrary: s)
  case (Cons ev evs)
  then obtain s1 where s1: "session_step fetch contains ev s = Some s1" "run_session fetch contains evs s1 = Some s'"
    by (auto split: option.splits)
  have "counted s" using Cons.prems(3) by (simp add: session_inv_def)
  with step_live [OF s1(1) Cons.prems(2)] Cons.prems(4,5) have "live s1" by simp
  moreover have "AD_cfg (S_disp s1) = AD_cfg (S_disp s)" using step_same [OF s1(1)] by (simp add: same_session_def)
  ultimately show ?case using Cons.IH [OF s1(2)] step_inv [OF Cons.prems(3) s1(1)] Cons.prems(4,5) by simp
qed simp

section \<open>Progress\<close>

text \<open>The events that are neither a failure nor the cancellation.\<close>

definition benign :: "event \<Rightarrow> bool" where
  "benign ev = (case ev of Worker _ e \<Rightarrow> (case e of OpenFails _ \<Rightarrow> False | FetchFails _ \<Rightarrow> False | NotAcked _ \<Rightarrow> False | _ \<Rightarrow> True)
     | Parent _ e \<Rightarrow> e = Tau | FeedStops \<Rightarrow> False | IterFails _ _ \<Rightarrow> False | Cancel \<Rightarrow> False | _ \<Rightarrow> True)"

definition can_step :: "(u64 list \<Rightarrow> 'acc list) \<Rightarrow> (u64 \<Rightarrow> bool) \<Rightarrow> 'acc session \<Rightarrow> bool" where
  "can_step fetch contains s \<longleftrightarrow> (\<exists>ev. benign ev \<and> session_step fetch contains ev s \<noteq> None)"

definition resting :: "'acc worker \<Rightarrow> bool" where
  "resting w = (case w of WIdle _ \<Rightarrow> True | WExited \<Rightarrow> True | _ \<Rightarrow> False)"

lemma worker_can:
  assumes "dispatchWorker fetch (S_cancelled s) e (S_workers s j) (S_disp s) \<noteq> None" "j < S_workers_n s" "benign (Worker j e)"
  shows "can_step fetch contains s"
  unfolding can_step_def using assms by (intro exI [of _ "Worker j e"]) (auto simp: session_step_def worker_step_def)

lemma parent_can:
  assumes "producer_step (S_full s) (S_cancelled s) i Tau (S_parents s i) (S_disp s) \<noteq> None" "i < S_parents_n s"
  shows "can_step fetch contains s"
  unfolding can_step_def using assms by (intro exI [of _ "Parent i Tau"]) (auto simp: session_step_def parent_step_def benign_def)

lemma busy_worker:
  assumes "\<not> resting w" "length (AD_nonceChan d) < AD_chanCap d"
  shows "\<exists>e. benign (Worker j e) \<and> dispatchWorker fetch c e w d \<noteq> None"
proof -
  have "benign (Worker j Tau) \<and> benign (Worker j Opens) \<and> benign (Worker j Fetched) \<and> benign (Worker j Acked) \<and>
      benign (Worker j (Recovered True))" by (simp add: benign_def)
  moreover have "\<exists>e\<in>{Tau, Opens, Fetched, Acked, Recovered True}. dispatchWorker fetch c e w d \<noteq> None"
    using assms by (cases w) (simp_all add: resting_def dispatchWorker_def chan_send_def Let_def assign_index_def)
  ultimately show ?thesis by blast
qed

lemma restingE: "resting w \<Longrightarrow> (\<exists>st. w = WIdle st) \<or> w = WExited"
  by (cases w) (simp_all add: resting_def)

lemma resting_weights: "resting w \<Longrightarrow> pend_w w = 0 \<and> holds_w w = 0"
  by (cases w) (simp_all add: resting_def pend_w_def holds_w_def)

lemma sleeper_wakes:
  assumes "live s" "AD_nonceChan (S_disp s) = []" "\<forall>j<S_workers_n s. resting (S_workers s j)"
    and "0 < resumeThreshold (AD_cfg (S_disp s))"
  shows "AD_waiters (S_disp s) = []"
proof (rule ccontr)
  assume "AD_waiters (S_disp s) \<noteq> []"
  with assms(1,4) have pos: "0 < AD_nonceBufferCount (S_disp s)" by (simp add: live_def)
  have "0 \<le> pend_p (S_parents s i)" if "i < S_parents_n s" for i
    using assms(1) that by (auto simp: live_def count_p_def pend_p_def split: parent.splits)
  then have "0 \<le> (\<Sum>i<S_parents_n s. pend_p (S_parents s i))" by (intro sum_nonneg) simp
  moreover have "(\<Sum>j<S_workers_n s. pend_w (S_workers s j)) = 0"
    using assms(3) by (intro sum.neutral) (simp add: resting_weights)
  moreover have "chan_len (S_disp s) = 0" using assms(2) by (simp add: chan_len_def)
  ultimately show False using pos assms(1) by (simp add: live_def)
qed

lemma puller_can:
  assumes "S_parents s i = PPull l" "i < S_parents_n s"
  shows "can_step fetch contains s"
proof -
  define order where "order = (case S_workChan s of [] \<Rightarrow> [] | b # _ \<Rightarrow> [0 ..< min NumDiffChildren (length b)])"
  have "processWithChildren contains b order \<noteq> None" if "S_workChan s = b # bs" for b bs
    using that by (simp add: processWithChildren_def order_def)
  then have "pull_step contains i order s \<noteq> None \<or> (S_workChan s = [] \<and> \<not> S_closed s \<and> \<not> S_full s)"
    using assms by (auto simp: pull_step_def split: list.splits option.splits)
  moreover have "feed_step s \<noteq> None" if "S_workChan s = [] \<and> \<not> S_closed s \<and> \<not> S_full s"
    using that assms(2) by (auto simp: feed_step_def split: option.splits)
  ultimately have "session_step fetch contains (Pull i order) s \<noteq> None \<or> session_step fetch contains Feed s \<noteq> None"
    by (auto simp: session_step_def)
  then show ?thesis by (auto simp: can_step_def benign_def split: event.splits)
qed

lemma producer_can:
  assumes "\<forall>r. S_parents s i \<noteq> PDone r" "i < S_parents_n s" "AD_waiters (S_disp s) = []"
    and "length (AD_nonceChan (S_disp s)) < AD_chanCap (S_disp s)"
  shows "can_step fetch contains s"
proof (cases "\<exists>l. S_parents s i = PPull l")
  case True
  with puller_can assms(2) show ?thesis by blast
next
  case False
  with assms have "producer_step (S_full s) (S_cancelled s) i Tau (S_parents s i) (S_disp s) \<noteq> None"
    by (cases "S_parents s i") (simp_all add: producer_step_def chan_send_def)
  from parent_can [OF this assms(2)] show ?thesis .
qed

lemma quiet_progress:
  assumes "live s" "counted s" "\<forall>j<S_workers_n s. resting (S_workers s j)" "\<not> AD_done (S_disp s)" "\<not> S_cancelled s"
    and "0 < S_workers_n s" "0 < resumeThreshold (AD_cfg (S_disp s))" "length (AD_nonceChan (S_disp s)) < AD_chanCap (S_disp s)"
  shows "can_step fetch contains s"
proof (cases "AD_nonceChan (S_disp s)")
  case (Cons p ps)
  have "S_workers s 0 \<noteq> WExited" using assms(2,4-6) by (auto simp: counted_def)
  with assms(3,6) restingE obtain st where "S_workers s 0 = WIdle st" by metis
  with Cons assms(6) show ?thesis
    by (intro worker_can [where j = 0 and e = Tau]) (simp_all add: dispatchWorker_def chan_recv_def benign_def)
next
  case Nil
  show ?thesis
  proof (cases "parents_done s")
    case False
    then obtain i where "i < S_parents_n s" "\<forall>r. S_parents s i \<noteq> PDone r" by (auto simp: parents_done_iff)
    from producer_can [OF this(2,1) sleeper_wakes [OF assms(1) Nil assms(3,7)] assms(8)] show ?thesis .
  next
    case True
    then have "holds_p (S_parents s i) = 0" if "i < S_parents_n s" for i
      using that by (auto simp: parents_done_iff holds_p_def)
    then have "AD_inflight (S_disp s) = 0" using assms(2,3) Nil by (simp add: counted_def resting_weights)
    moreover have "\<nexists>j. j < S_workers_n s \<and> (\<exists>st. S_workers s j = WTry st)" using assms(3) by (auto simp: resting_def)
    ultimately have "\<not> AD_inputClosed (S_disp s)" using assms(1,4) unfolding live_def by blast
    with True have "session_step fetch contains Join s \<noteq> None" by (simp add: session_step_def)
    then show ?thesis by (auto simp: can_step_def benign_def split: event.splits)
  qed
qed

lemma session_progress:
  assumes "live s" "counted s" "\<not> S_cancelled s" "0 < S_workers_n s"
    and "0 < resumeThreshold (AD_cfg (S_disp s))" "length (AD_nonceChan (S_disp s)) < AD_chanCap (S_disp s)"
  shows "run_summary s \<noteq> None \<or> can_step fetch contains s"
proof (cases "\<forall>j<S_workers_n s. resting (S_workers s j)")
  case False
  then obtain j where j: "j < S_workers_n s" "\<not> resting (S_workers s j)" by auto
  from busy_worker [OF j(2) assms(6)] j(1) worker_can show ?thesis by metis
next
  case rest: True
  show ?thesis
  proof (cases "AD_done (S_disp s)")
    case False
    with quiet_progress [OF assms(1,2) rest _ assms(3-6)] show ?thesis by simp
  next
    case True
    show ?thesis
    proof (cases "\<forall>j<S_workers_n s. S_workers s j = WExited")
      case False
      with rest restingE obtain j st where "j < S_workers_n s" "S_workers s j = WIdle st" by metis
      with True show ?thesis
        by (intro disjI2 worker_can [where j = j and e = Leave]) (simp_all add: dispatchWorker_def benign_def)
    qed (simp add: run_summary_def is_WExited list_all_iff Let_def)
  qed
qed

text \<open>C35: An account session makes progress. From the start of a session with a valid configuration whose resume threshold is
  positive, after any steps in which no opening of a stream failed, as long as the context is not cancelled and the channel
  has room, either every worker has returned and the summary exists, or some goroutine can take a step that is neither a
  failure nor a cancellation: no producer sleeps for ever at the gate, and no worker waits for a \<open>done\<close> that is never
  closed.\<close>

theorem account_session_progress:
  assumes "session_start cfg clientKeys serverTotal batches = Inr s0" "batches_ok batches" "0 < resumeThreshold cfg"
    and "run_session fetch contains evs s0 = Some s" "list_all (\<lambda>ev. \<forall>j e. ev \<noteq> Worker j (OpenFails e)) evs" "\<not> S_cancelled s"
    and "length (AD_nonceChan (S_disp s)) < AD_chanCap (S_disp s)"
  shows "run_summary s \<noteq> None \<or> (\<exists>ev. benign ev \<and> session_step fetch contains ev s \<noteq> None)"
proof -
  note c = session_start_cases [OF assms(1)]
  have valid: "validateDispatcherConfig (AD_cfg (S_disp s0)) = None"
    using assms(1) by (auto simp: session_start_def NewDispatcher_def Let_def split: option.splits)
  have live0: "live s0" using assms(1)
    by (auto simp: session_start_def NewDispatcher_def Let_def live_def pend_p_def pend_w_def count_p_def recount_w_def chan_len_def
        split: option.splits)
  note inv = start_inv [OF assms(1,2), of fetch contains]
  from run_live [OF assms(4) live0 inv assms(5) valid] have "live s" .
  moreover have "counted s" using run_inv [OF inv assms(4)] by (simp add: session_inv_def)
  moreover have "0 < S_workers_n s" "AD_cfg (S_disp s) = cfg" using run_same [OF assms(4)] c by (simp_all add: same_session_def)
  ultimately show ?thesis using session_progress [of s fetch contains] assms(3,6,7) by (simp add: can_step_def)
qed

text \<open>The configuration of the server, a client that has one of two accounts, and a rejected page that is back in the channel.\<close>

definition default_session :: "u64 session" where
  "default_session = (case session_start Default 1 2 [[5], [6]] of Inl _ \<Rightarrow> undefined | Inr s \<Rightarrow> s)"

definition rejected_page :: "event list" where
  "rejected_page = demo_events @ map (Worker 0) [Opens, Tau, Fetched, NotAcked ''x'', Tau, Tau]"

lemma default_start: "session_start Default 1 2 [[5], [6]] = Inr default_session"
  by (simp add: default_session_def session_start_def NewDispatcher_def validateDispatcherConfig_def Default_def DispatchWorkers_def
      NonceBufferPauseThreshold_def NonceBufferResumePct_def NoncePageSize_def DispatchMaxRetries_def Let_def)

lemma default_run:
  "case run_session (\<lambda>ns. ns) (\<lambda>n. n = 6) rejected_page default_session of None \<Rightarrow> False
   | Some s \<Rightarrow> \<not> S_cancelled s \<and> map Page_Nonces (AD_nonceChan (S_disp s)) = [[5]] \<and> AD_chanCap (S_disp s) = 97 \<and>
       run_summary s = None"
  by code_simp

theorem account_session_progress_witness:
  "\<exists>s ev. run_session (\<lambda>ns. ns) (\<lambda>n. n = 6) rejected_page default_session = Some s \<and> run_summary s = None \<and>
     map Page_Nonces (AD_nonceChan (S_disp s)) = [[5]] \<and> benign ev \<and> session_step (\<lambda>ns. ns) (\<lambda>n. n = 6) ev s \<noteq> None"
proof -
  obtain s where s: "run_session (\<lambda>ns. ns) (\<lambda>n. n = 6) rejected_page default_session = Some s" "\<not> S_cancelled s"
    "map Page_Nonces (AD_nonceChan (S_disp s)) = [[5]]" "AD_chanCap (S_disp s) = 97" "run_summary s = None"
    using default_run by (auto split: option.splits)
  have "length (AD_nonceChan (S_disp s)) = 1" using s(3) by (metis length_map length_Cons list.size(3) One_nat_def)
  then have room: "length (AD_nonceChan (S_disp s)) < AD_chanCap (S_disp s)" using s(4) by simp
  have thr: "0 < resumeThreshold Default"
    by (simp add: resumeThreshold_def Default_def NonceBufferPauseThreshold_def NonceBufferResumePct_def)
  have "list_all (\<lambda>ev. \<forall>j e. ev \<noteq> Worker j (OpenFails e)) rejected_page" by (simp add: rejected_page_def demo_events_def)
  from account_session_progress [OF default_start demo_batches thr s(1) this s(2) room] s show ?thesis by auto
qed

end
