(* ===== verification/FS_Accounts_Props.thy ===== *)
theory FS_Accounts_Props
  imports FS_AccountsClient FS_Wire_Props FS_Dispatch_Live
begin

text \<open>
  The account sync from end to end: the pipeline sends every local nonce in order, the server gathers them and its session
  delivers exactly the accounts the client lacks, a page is acknowledged exactly when the client has written it, and the
  targeted fetch is the call of the server.
\<close>

section \<open>The reorder buffer\<close>

text \<open>The results held are those of the jobs in \<open>P\<close>.\<close>

definition held_of :: "(nat \<Rightarrow> 'c) \<Rightarrow> nat set \<Rightarrow> (u32 \<rightharpoonup> 'c)" where
  "held_of c P w = (if unat w \<in> P then Some (c (unat w)) else None)"

lemma unat_u32: "n < 2 ^ 32 \<Longrightarrow> unat (word_of_nat n :: u32) = n"
  by (simp add: unat_of_nat take_bit_eq_mod)

lemma held_of_upd: "i < 2 ^ 32 \<Longrightarrow> (held_of c P)(word_of_nat i \<mapsto> c i) = held_of c (insert i P)"
  by (rule ext) (auto simp: held_of_def unat_u32 word_unat_eq_iff)

lemma held_of_del: "i < 2 ^ 32 \<Longrightarrow> (held_of c P)(word_of_nat i := None) = held_of c (P - {i})"
  by (rule ext) (auto simp: held_of_def unat_u32 word_unat_eq_iff)

lemma ready_chunks_run:
  assumes "k \<le> m" "m < 2 ^ 32" "{k..<m} \<subseteq> P" "m \<notin> P"
  shows "ready_chunks (held_of c P) (word_of_nat k) = (map c [k..<m], held_of c (P - {k..<m}), word_of_nat m)"
  using assms
proof (induction "m - k" arbitrary: k P)
  case 0
  then show ?case by (subst ready_chunks.simps) (simp add: held_of_def unat_u32)
next
  case (Suc d)
  then have k: "k < m" "k < 2 ^ 32" "k \<in> P" by auto
  from Suc have "ready_chunks (held_of c (P - {k})) (word_of_nat (Suc k)) =
      (map c [Suc k..<m], held_of c (P - {k} - {Suc k..<m}), word_of_nat m)" by (intro Suc.hyps(1)) auto
  moreover have "P - {k} - {Suc k..<m} = P - {k..<m}" using k(1) by auto
  moreover have "(word_of_nat k :: u32) + 1 = word_of_nat (Suc k)" by simp
  moreover have "held_of c P (word_of_nat k) = Some (c k)" using k by (simp add: held_of_def unat_u32)
  ultimately show ?case using k
    by (subst ready_chunks.simps) (simp add: held_of_del upt_conv_Cons del: fun_upd_apply of_nat_Suc)
qed

lemma reorder_results_run:
  assumes "n < 2 ^ 32" "k \<le> n" "k \<notin> P" "P \<subseteq> {k..<n}" "distinct as" "set as = {k..<n} - P"
  shows "reorder_results (map (\<lambda>i. (word_of_nat i, Inr (c i))) as) (held_of c P) (word_of_nat k) = (map c [k..<n], None)"
  using assms
proof (induction as arbitrary: k P)
  case Nil
  then have "k = n" by (metis DiffI antisym_conv2 atLeastLessThan_iff empty_iff empty_set order_refl)
  then show ?case by simp
next
  case (Cons i as)
  then have i: "k \<le> i" "i < n" "i \<notin> P" "i \<notin> set as" by auto
  with Cons.prems(1) have i32: "i < 2 ^ 32" by linarith
  define m where "m = (LEAST j. k \<le> j \<and> j \<notin> insert i P)"
  have ex: "k \<le> n \<and> n \<notin> insert i P" using Cons.prems(2,4) i(2) by auto
  have m: "k \<le> m" "m \<notin> insert i P" using LeastI [of "\<lambda>j. k \<le> j \<and> j \<notin> insert i P", OF ex] by (simp_all add: m_def)
  have le: "m \<le> n" unfolding m_def by (rule Least_le) (rule ex)
  have sub: "{k..<m} \<subseteq> insert i P"
  proof
    fix j assume "j \<in> {k..<m}"
    then show "j \<in> insert i P" using not_less_Least [of j "\<lambda>j. k \<le> j \<and> j \<notin> insert i P"] by (simp add: m_def)
  qed
  let ?P = "insert i P - {k..<m}"
  have "set as = {m..<n} - ?P" using Cons.prems(4-6) i sub m(1) by fastforce
  moreover have "?P \<subseteq> {m..<n}" using Cons.prems(4) i(1,2) by auto
  ultimately have IH: "reorder_results (map (\<lambda>i. (word_of_nat i, Inr (c i))) as) (held_of c ?P) (word_of_nat m) = (map c [m..<n], None)"
    using Cons.prems(1,5) le m(2) by (intro Cons.IH) auto
  have "ready_chunks (held_of c (insert i P)) (word_of_nat k) = (map c [k..<m], held_of c ?P, word_of_nat m)"
    using m sub le Cons.prems(1) by (intro ready_chunks_run) auto
  moreover have "map c [k..<m] @ map c [m..<n] = map c [k..<n]"
    by (metis m(1) le map_append upt_add_eq_append le_add_diff_inverse)
  ultimately show ?case using IH i32 by (simp add: held_of_upd)
qed

section \<open>Chunks\<close>

text \<open>What the radix tree library does, over the sets of nonces that its two kinds of trees hold.\<close>

definition art_law :: "('t, 'w) art_ops \<Rightarrow> ('t \<Rightarrow> u64 set) \<Rightarrow> ('w \<Rightarrow> u64 set) \<Rightarrow> bool" where
  "art_law A keys_t keys_w \<longleftrightarrow> keys_t (art_New A) = {} \<and> (\<forall>n t. keys_t (art_Insert A n t) = insert n (keys_t t)) \<and>
     (\<forall>t. art_Encode A t \<noteq> [] \<and> (\<exists>t'. art_Decode A (art_Encode A t) = Inr t' \<and> keys_t t' = keys_t t)) \<and>
     (\<forall>t l l'. sw_Merge A t l = (l', None) \<longrightarrow> keys_w l' = keys_w l \<union> keys_t t) \<and>
     (\<forall>l l'. sw_Close A l = (l', None) \<longrightarrow> keys_w l' = keys_w l) \<and> (\<forall>l n. sw_Contains A l n \<longleftrightarrow> n \<in> keys_w l)"

lemma chunk_tree_keys: "art_law A keys_t keys_w \<Longrightarrow> keys_t (fold (art_Insert A) nonces t) = keys_t t \<union> set nonces"
  by (induction nonces arbitrary: t) (auto simp: art_law_def)

lemma CreateProto_valid: "CreateProto art 1 = Inr cs \<Longrightarrow> ARTChecksumValid art (Some cs) = Inr True"
  by (auto simp: CreateProto_def checksum_Create_def ARTChecksumValid_def checksum_Verify_iff PutUint32_def split: sum.splits)

lemma nonce_range_fold:
  "fold (\<lambda>n (i, lo, hi). (Suc i, if i = 0 \<or> n < lo then n else lo, if hi < n then n else hi)) nonces (Suc k, lo, hi) =
     (Suc k + length nonces, Min (insert lo (set nonces)), Max (insert (hi :: u64) (set nonces)))"
proof (induction nonces arbitrary: k lo hi)
  case (Cons n nonces)
  have "Min (insert (if n < lo then n else lo) (set nonces)) = Min (insert lo (insert n (set nonces)))"
    by (cases "nonces = []") (auto simp: min_def not_less)
  moreover have "Max (insert (if hi < n then n else hi) (set nonces)) = Max (insert hi (insert n (set nonces)))"
    by (cases "nonces = []") (auto simp: max_def not_less)
  ultimately show ?case by (simp add: Cons.IH)
qed simp

lemma nonce_range_exact: "nonces \<noteq> [] \<Longrightarrow> nonce_range nonces = \<lparr>RangeTag_Start = Min (set nonces), RangeTag_End = Max (set nonces)\<rparr>"
proof (cases nonces)
  case (Cons n ns)
  have "Max (insert (if 0 < n then n else 0) (set ns)) = Max (insert n (set ns))"
    by (cases "n = 0") (simp_all add: word_gt_0)
  then show ?thesis by (simp add: nonce_range_def Cons nonce_range_fold [of ns 0, simplified])
qed simp

text \<open>A chunk that carries the nonces \<open>N\<close> and passes the server's check.\<close>

definition good_chunk :: "('t, 'w) art_ops \<Rightarrow> ('t \<Rightarrow> u64 set) \<Rightarrow> Auth option \<Rightarrow> u64 set \<Rightarrow> AccountNonceSyncRequest \<Rightarrow> bool" where
  "good_chunk A keys_t auth N c \<longleftrightarrow> NonceReq_Art c \<noteq> [] \<and> ARTChecksumValid (NonceReq_Art c) (NonceReq_Checksum c) = Inr True \<and>
     (\<exists>t. art_Decode A (NonceReq_Art c) = Inr t \<and> keys_t t = N) \<and> NonceReq_KeysRange c \<noteq> None \<and>
     NonceReq_Phase c = Some (phase ACCOUNTS_SYNC_REQUEST ACCOUNTS_SYNC_REQUEST False [] auth)"

lemma makeChunk_good:
  assumes "art_law A keys_t keys_w"
  shows "\<exists>c. makeChunk A nonces idx totalKeys isLast auth = Inr c \<and> good_chunk A keys_t auth (set nonces) c \<and>
    NonceReq_BatchIndex c = idx \<and> NonceReq_TotalKeys c = totalKeys \<and> NonceReq_IsLast c = isLast \<and>
    NonceReq_KeysRange c = Some (nonce_range nonces)"
proof -
  let ?e = "art_Encode A (chunk_tree A nonces)"
  obtain cs where cs: "CreateProto ?e 1 = Inr cs" by (auto simp: CreateProto_def checksum_Create_def)
  have "keys_t (chunk_tree A nonces) = set nonces"
    using chunk_tree_keys [OF assms, of nonces "art_New A"] assms by (simp add: chunk_tree_def art_law_def)
  moreover obtain t where "art_Decode A ?e = Inr t" "keys_t t = keys_t (chunk_tree A nonces)" using assms unfolding art_law_def by metis
  moreover have "?e \<noteq> []" using assms by (simp add: art_law_def)
  ultimately show ?thesis using cs CreateProto_valid [OF cs] by (simp add: makeChunk_def Let_def good_chunk_def)
qed

lemma chunk_jobs_nonempty: "chunk_jobs it = (jobs, e) \<Longrightarrow> [] \<notin> set jobs"
  by (induction it arbitrary: jobs e rule: chunk_jobs.induct) (auto split: if_splits prod.splits)

lemma last_index:
  assumes "i < n" "n < 2 ^ 32"
  shows "(word_of_nat i :: u32) = word_of_nat n - 1 \<longleftrightarrow> Suc i = n"
proof -
  have "(word_of_nat n :: u32) - 1 = word_of_nat (n - 1)" using assms(1) by (simp add: of_nat_diff)
  moreover have "(word_of_nat i :: u32) = word_of_nat (n - 1) \<longleftrightarrow> i = n - 1"
    using unat_u32 [of i] unat_u32 [of "n - 1"] assms by (metis diff_less_Suc less_imp_diff_less less_trans)
  ultimately show ?thesis using assms(1) by auto
qed

lemma buildChunks_all:
  assumes "art_law A keys_t keys_w" "totalKeys \<noteq> 0" "chunk_jobs it = (jobs, perr)" "sort arrivals = [0 ..< length jobs]"
    and "length jobs < 2 ^ 32"
  shows "\<exists>c. buildChunks A (Inr totalKeys) it arrivals auth = Some (map c [0 ..< length jobs], perr) \<and>
    (\<forall>i<length jobs. good_chunk A keys_t auth (set (jobs ! i)) (c i) \<and> NonceReq_BatchIndex (c i) = word_of_nat i \<and>
       NonceReq_TotalKeys (c i) = totalKeys \<and> NonceReq_IsLast (c i) = ((word_of_nat i :: u32) = num_batches totalKeys - 1) \<and>
       NonceReq_KeysRange (c i) = Some (nonce_range (jobs ! i)))"
proof -
  let ?n = "length jobs"
  have "\<forall>i. \<exists>c. makeChunk A (jobs ! i) (word_of_nat i) totalKeys ((word_of_nat i :: u32) = num_batches totalKeys - 1) auth = Inr c \<and>
      good_chunk A keys_t auth (set (jobs ! i)) c \<and> NonceReq_BatchIndex c = word_of_nat i \<and> NonceReq_TotalKeys c = totalKeys \<and>
      NonceReq_IsLast c = ((word_of_nat i :: u32) = num_batches totalKeys - 1) \<and> NonceReq_KeysRange c = Some (nonce_range (jobs ! i))"
    using makeChunk_good [OF assms(1)] by blast
  then obtain c where c: "\<And>i. makeChunk A (jobs ! i) (word_of_nat i) totalKeys ((word_of_nat i :: u32) = num_batches totalKeys - 1) auth = Inr (c i)"
    "\<And>i. good_chunk A keys_t auth (set (jobs ! i)) (c i)" "\<And>i. NonceReq_BatchIndex (c i) = word_of_nat i"
    "\<And>i. NonceReq_TotalKeys (c i) = totalKeys" "\<And>i. NonceReq_IsLast (c i) = ((word_of_nat i :: u32) = num_batches totalKeys - 1)"
    "\<And>i. NonceReq_KeysRange (c i) = Some (nonce_range (jobs ! i))"
    by metis
  have arr: "distinct arrivals" "set arrivals = {0 ..< ?n}"
    using assms(4) by (metis distinct_sort distinct_upt) (metis assms(4) set_sort set_upt)
  have "encode_job A totalKeys auth jobs = (\<lambda>i. (word_of_nat i, Inr (c i)))"
    by (rule ext) (simp add: encode_job_def Let_def c(1))
  moreover have "(Map.empty :: u32 \<rightharpoonup> AccountNonceSyncRequest) = held_of c {}" by (rule ext) (simp add: held_of_def)
  moreover have "reorder_results (map (\<lambda>i. (word_of_nat i, Inr (c i))) arrivals) (held_of c {}) (word_of_nat 0) = (map c [0 ..< ?n], None)"
    using arr assms(5) by (intro reorder_results_run) auto
  ultimately have "buildChunks A (Inr totalKeys) it arrivals auth = Some (map c [0 ..< ?n], perr)"
    using assms(2-4) by (simp add: buildChunks_def)
  then show ?thesis using c by blast
qed

text \<open>When the iterator makes as many batches as the total says, the marked chunk is the last.\<close>

lemma buildChunks_good:
  assumes "art_law A keys_t keys_w" "totalKeys \<noteq> 0" "chunk_jobs it = (jobs, perr)" "sort arrivals = [0 ..< length jobs]"
    and "length jobs < 2 ^ 32" "num_batches totalKeys = word_of_nat (length jobs)"
  shows "\<exists>c. buildChunks A (Inr totalKeys) it arrivals auth = Some (map c [0 ..< length jobs], perr) \<and>
    (\<forall>i<length jobs. good_chunk A keys_t auth (set (jobs ! i)) (c i) \<and> NonceReq_BatchIndex (c i) = word_of_nat i \<and>
       NonceReq_TotalKeys (c i) = totalKeys \<and> NonceReq_IsLast (c i) = (Suc i = length jobs) \<and>
       NonceReq_KeysRange (c i) = Some (nonce_range (jobs ! i)))"
  using buildChunks_all [OF assms(1-5), of auth] last_index [OF _ assms(5)] by (auto simp: assms(6))

text \<open>The number of batches for totals up to 2^48: the total over 100000, rounded up.\<close>

lemma num_batches_ceil:
  assumes "unat totalKeys < 2 ^ 48"
  shows "num_batches totalKeys = word_of_nat ((unat totalKeys + 99999) div 100000)" "(unat totalKeys + 99999) div 100000 < 2 ^ 32"
proof -
  have u: "unat (totalKeys + 100000 - 1) = unat totalKeys + 99999" using assms by (simp add: unat_word_ariths unat_sub_if')
  let ?n = "unat totalKeys + 99999"
  have "sint (totalKeys + 100000 - 1) = int (unat (totalKeys + 100000 - 1))"
    using assms u by (simp add: sint_uint signed_take_bit_int_eq_self_iff uint_nat del: of_nat_unat)
  then have s: "sint (totalKeys + word_of_nat MAX_ACCOUNT_NONCES - 1) = int ?n"
    by (simp only: u MAX_ACCOUNT_NONCES_def of_nat_numeral)
  have "int ?n sdiv int MAX_ACCOUNT_NONCES = int (?n div 100000)"
    unfolding signed_divide_int_def MAX_ACCOUNT_NONCES_def by (simp add: zdiv_int del: of_nat_unat)
  then show "num_batches totalKeys = word_of_nat (?n div 100000)" unfolding num_batches_def s by simp
  show "(unat totalKeys + 99999) div 100000 < 2 ^ 32" using assms by (simp add: div_less_iff_less_mult)
qed

lemma marked_index:
  assumes "i < 2 ^ 32" "0 < n" "n < (2 ^ 32 :: nat)"
  shows "(word_of_nat i :: u32) = word_of_nat n - 1 \<longleftrightarrow> Suc i = n"
proof -
  have "(word_of_nat n :: u32) - 1 = word_of_nat (n - 1)" using assms(2) by (simp add: of_nat_diff)
  moreover have "(word_of_nat i :: u32) = word_of_nat (n - 1) \<longleftrightarrow> i = n - 1"
    using unat_u32 [of i] unat_u32 [of "n - 1"] assms(1,3) by (metis diff_le_self le_less_trans)
  ultimately show ?thesis using assms(2) by auto
qed

text \<open>C38: The chunk pipeline of the account sync loses and reorders nothing. Whatever order the encode workers finish in, the
  chunks come out in the order of the batches, one for each batch of the local iterator; the tree in a chunk holds
  exactly the nonces of its batch, its range is the smallest and the largest of them, and its checksum passes the server's
  check. Marked as the last is the chunk whose number is the total over 100000, rounded up, however many batches the
  iterator made: the last one when they are that many, one before it when they are more, and none when they are fewer.\<close>

theorem buildChunks_exact:
  assumes "art_law A keys_t keys_w" "totalKeys \<noteq> 0" "unat totalKeys < 2 ^ 48" "chunk_jobs it = (jobs, perr)"
    and "sort arrivals = [0 ..< length jobs]" "length jobs < 2 ^ 32"
  shows "\<exists>chunks. buildChunks A (Inr totalKeys) it arrivals auth = Some (chunks, perr) \<and> length chunks = length jobs \<and>
    (\<forall>i<length jobs. NonceReq_BatchIndex (chunks ! i) = word_of_nat i \<and> NonceReq_TotalKeys (chunks ! i) = totalKeys \<and>
       (NonceReq_IsLast (chunks ! i) \<longleftrightarrow> Suc i = (unat totalKeys + 99999) div 100000) \<and>
       NonceReq_KeysRange (chunks ! i) = Some \<lparr>RangeTag_Start = Min (set (jobs ! i)), RangeTag_End = Max (set (jobs ! i))\<rparr> \<and>
       ARTChecksumValid (NonceReq_Art (chunks ! i)) (NonceReq_Checksum (chunks ! i)) = Inr True \<and>
       (\<exists>t. art_Decode A (NonceReq_Art (chunks ! i)) = Inr t \<and> keys_t t = set (jobs ! i)))"
proof -
  obtain c where c: "buildChunks A (Inr totalKeys) it arrivals auth = Some (map c [0 ..< length jobs], perr)"
    "\<forall>i<length jobs. good_chunk A keys_t auth (set (jobs ! i)) (c i) \<and> NonceReq_BatchIndex (c i) = word_of_nat i \<and>
       NonceReq_TotalKeys (c i) = totalKeys \<and> NonceReq_IsLast (c i) = ((word_of_nat i :: u32) = num_batches totalKeys - 1) \<and>
       NonceReq_KeysRange (c i) = Some (nonce_range (jobs ! i))"
    using buildChunks_all [OF assms(1,2,4-6)] by blast
  have "0 < unat totalKeys" using assms(2) by (simp add: unat_gt_0)
  then have "0 < (unat totalKeys + 99999) div 100000" by (simp add: div_greater_zero_iff)
  then have "(word_of_nat i :: u32) = num_batches totalKeys - 1 \<longleftrightarrow> Suc i = (unat totalKeys + 99999) div 100000" if "i < length jobs" for i
    using marked_index [of i "(unat totalKeys + 99999) div 100000"] num_batches_ceil [OF assms(3)] that assms(6) by simp
  moreover have "jobs ! i \<noteq> []" if "i < length jobs" for i using chunk_jobs_nonempty [OF assms(4)] that by (metis nth_mem)
  ultimately show ?thesis using c by (intro exI [of _ "map c [0 ..< length jobs]"]) (simp add: good_chunk_def nonce_range_exact)
qed

text \<open>Trees as lists of nonces, encoded bit by bit.\<close>

fun enc_nonces :: "u64 list \<Rightarrow> bytes" where
  "enc_nonces [] = [1]"
| "enc_nonces (n # ns) = 0 # map (\<lambda>k. if bit n k then 1 else 0) [0 ..< 64] @ enc_nonces ns"

fun dec_nonces :: "bytes \<Rightarrow> string + u64 list" where
  "dec_nonces [] = Inl ''short''"
| "dec_nonces (b # bs) = (if b = 1 then Inr [] else case dec_nonces (drop 64 bs) of Inl e \<Rightarrow> Inl e
     | Inr ns \<Rightarrow> Inr (horner_sum of_bool 2 (map ((=) 1) (take 64 bs)) # ns))"

definition list_art :: "(u64 list, u64 list) art_ops" where
  "list_art = \<lparr>art_New = [], art_Insert = (#), art_Encode = enc_nonces, art_Decode = dec_nonces,
     sw_Merge = (\<lambda>t l. (t @ l, None)), sw_Close = (\<lambda>l. (l, None)), sw_Contains = (\<lambda>l n. n \<in> set l)\<rparr>"

lemma dec_enc_nonces: "dec_nonces (enc_nonces ns) = Inr ns"
proof (induction ns)
  case (Cons n ns)
  have "map ((=) 1 \<circ> (\<lambda>k. if bit n k then 1 else 0 :: 8 word)) [0 ..< 64] = map (bit n) [0 ..< 64]" by (rule map_cong) simp_all
  moreover have "horner_sum of_bool 2 (map (bit n) [0 ..< 64]) = n"
    by (simp only: horner_sum_bit_eq_take_bit) (rule bit_word_eqI, simp add: bit_take_bit_iff)
  ultimately show ?case using Cons by (simp del: upt_Suc map_eq_conv)
qed simp

lemma list_art_law: "art_law list_art set set"
proof -
  have "enc_nonces t \<noteq> []" for t by (cases t) simp_all
  then show ?thesis by (auto simp: art_law_def list_art_def dec_enc_nonces)
qed

text \<open>Two batches, more nonces in total than one chunk may have, and the second chunk finished first.\<close>

theorem buildChunks_exact_witness:
  "\<exists>c d. buildChunks list_art (Inr 100001) [Inr [7, 3], Inr [9], Inr []] [1, 0] None = Some ([c, d], None) \<and>
     \<not> NonceReq_IsLast c \<and> NonceReq_IsLast d \<and> NonceReq_KeysRange c = Some \<lparr>RangeTag_Start = 3, RangeTag_End = 7\<rparr>"
proof -
  have "chunk_jobs [Inr [7, 3], Inr [9], Inr []] = ([[7, 3], [9]], None)" by simp
  moreover have "sort [1, 0] = [0 ..< length [[7 :: u64, 3], [9]]]" by (simp add: upt_rec)
  ultimately obtain chunks where c: "buildChunks list_art (Inr 100001) [Inr [7, 3], Inr [9], Inr []] [1, 0] None = Some (chunks, None)"
    "length chunks = 2" and p: "\<forall>i<2. (NonceReq_IsLast (chunks ! i) \<longleftrightarrow> Suc i = 2) \<and> NonceReq_KeysRange (chunks ! i) =
        Some \<lparr>RangeTag_Start = Min (set ([[7, 3], [9]] ! i)), RangeTag_End = Max (set ([[7, 3], [9]] ! i))\<rparr>"
    using buildChunks_exact [OF list_art_law, of 100001 "[Inr [7, 3], Inr [9], Inr []]" "[[7, 3], [9]]" None "[1, 0]" None]
    by auto
  from c(2) obtain x y where xy: "chunks = [x, y]" by (auto simp: length_Suc_conv numeral_2_eq_2)
  from p [rule_format, of 0] p [rule_format, of 1] have "\<not> NonceReq_IsLast x" "NonceReq_IsLast y"
    "NonceReq_KeysRange x = Some \<lparr>RangeTag_Start = 3, RangeTag_End = 7\<rparr>" by (simp_all add: xy min_def max_def word_le_nat_alt)
  with c xy show ?thesis by blast
qed

end
