(* ===== verification/FS_AccountsSync_Props.thy ===== *)
theory FS_AccountsSync_Props
  imports FS_Accounts_Props
begin

text \<open>
  The upload of the nonces on the server, over the wire: every chunk is merged and acknowledged, and the session that the
  last one starts works on exactly the client's nonces. Then what the session delivers, and the two exchanges in which the
  client receives accounts.
\<close>

section \<open>A chunk on the server\<close>

text \<open>The node serves, and the token stays accepted while it is looked up and its lifetime is reset.\<close>

definition token_held :: "('a, 'r, 'tt) router_env \<Rightarrow> bytes \<Rightarrow> Auth \<Rightarrow> ('a, 'b, 'r) Datarouter \<Rightarrow> bool" where
  "token_held E peer a s \<longleftrightarrow> AmIAvailable s \<and> block_info s \<noteq> None \<and> Auth_UUID a \<noteq> [] \<and>
     (\<exists>I. DR_auth s \<in> I \<and> (\<forall>st\<in>I. snd (IsAUTH (env_auth E) peer (Auth_UUID a) st) = Inr True \<and>
        fst (IsAUTH (env_auth E) peer (Auth_UUID a) st) \<in> I \<and> fst (ResetTTL_op (env_auth E) peer st) \<in> I))"

lemma with_token_held:
  assumes "token_held E peer a s"
  shows "\<exists>s'. token_held E peer a s' \<and> with_token E (Some a) peer deny (\<lambda>r. map_option (Pair r) X) s = map_option (Pair s') X"
proof -
  obtain st res where i: "IsAUTH (env_auth E) peer (Auth_UUID a) (DR_auth s) = (st, res)" by (meson surj_pair)
  obtain st' err where r: "ResetTTL_op (env_auth E) peer st = (st', err)" by (meson surj_pair)
  obtain I where I: "DR_auth s \<in> I" "\<forall>st\<in>I. snd (IsAUTH (env_auth E) peer (Auth_UUID a) st) = Inr True \<and>
      fst (IsAUTH (env_auth E) peer (Auth_UUID a) st) \<in> I \<and> fst (ResetTTL_op (env_auth E) peer st) \<in> I"
    using assms by (auto simp: token_held_def)
  have res: "res = Inr True" "st \<in> I" using I(1) I(2) [rule_format, OF I(1)] i by simp_all
  have "st' \<in> I" using I(2) [rule_format, OF res(2)] r by simp
  let ?s = "s\<lparr>DR_auth := st'\<rparr>"
  have "token_held E peer a ?s" using assms \<open>st' \<in> I\<close> I(2) by (auto simp: token_held_def AmIAvailable_def block_info_def)
  moreover have "Authenticate E (Some a) peer s = Some (s\<lparr>DR_auth := st\<rparr>, Inr True)"
    using assms i res by (simp add: Authenticate_def token_held_def)
  moreover have "ResetTTL E (Some a) peer (s\<lparr>DR_auth := st\<rparr>) = Some (?s, err)"
    using assms r by (simp add: ResetTTL_def token_held_def block_info_def)
  ultimately show ?thesis by (intro exI [of _ ?s]) (cases X; simp add: with_token_def)
qed

lemma HandleAccountsSync_good:
  fixes St :: "'md acct_store"
  assumes "token_held E peer a s" "good_chunk A keys_t (Some a) N c"
  shows "\<exists>s'. token_held E peer a s' \<and> HandleAccountsSync E A St evs c peer l s =
    map_option (Pair s') (ACCOUNTS_SYNC A St evs c (Some a) l :: (_, 'md, 'st) sync_result option)"
proof -
  have "\<not> no_token (Some a)" using assms(1) by (simp add: token_held_def no_token_def)
  with assms(2) have "HandleAccountsSync E A St evs c peer l s = with_token E (Some a) peer (l, None, ErrEndOfStream AuthenticationFailed)
      (\<lambda>r. map_option (Pair r) (ACCOUNTS_SYNC A St evs c (Some a) l :: (_, 'md, 'st) sync_result option)) s"
    by (auto simp: HandleAccountsSync_def good_chunk_def phase_def)
  with with_token_held [OF assms(1), of "(l, None, ErrEndOfStream AuthenticationFailed)" "ACCOUNTS_SYNC A St evs c (Some a) l :: (_, 'md, 'st) sync_result option"]
  show ?thesis by simp
qed

text \<open>The disk of the session does not fail.\<close>

definition tree_works :: "('t, 'w) art_ops \<Rightarrow> bool" where
  "tree_works A \<longleftrightarrow> (\<forall>t l. snd (sw_Merge A t l) = None) \<and> (\<forall>l. snd (sw_Close A l) = None)"

lemma ACCOUNTS_SYNC_good:
  assumes "art_law A keys_t keys_w" "tree_works A" "good_chunk A keys_t auth N c"
  shows "\<exists>l'. keys_w l' = keys_w l \<union> N \<and> ACCOUNTS_SYNC A St evs c auth l =
    (if NonceReq_IsLast c then run_diff A St evs (NonceReq_TotalKeys c) auth l' else Some (l', None, BatchAck (NonceReq_BatchIndex c)))"
proof -
  from assms(3) obtain t where t: "art_Decode A (NonceReq_Art c) = Inr t" "keys_t t = N" by (auto simp: good_chunk_def)
  obtain l1 where m: "sw_Merge A t l = (l1, None)" using assms(2) by (metis prod.collapse tree_works_def)
  obtain l2 where cl: "sw_Close A l1 = (l2, None)" using assms(2) by (metis prod.collapse tree_works_def)
  have k: "keys_w l1 = keys_w l \<union> N" "keys_w l2 = keys_w l1" using assms(1) m cl t(2) unfolding art_law_def by metis+
  have "ACCOUNTS_SYNC A St evs c auth l = (if NonceReq_IsLast c then run_diff A St evs (NonceReq_TotalKeys c) auth l2
      else Some (l1, None, BatchAck (NonceReq_BatchIndex c)))"
    using assms(3) t m cl by (simp add: ACCOUNTS_SYNC_def good_chunk_def LockedART_Merge_def LockedART_Close_def)
  then show ?thesis using k by (cases "NonceReq_IsLast c") auto
qed

lemma run_diff_End: "run_diff A St evs k auth l = Some (l', x, result) \<Longrightarrow> \<exists>eos. result = EndMsg eos"
  by (auto simp: run_diff_def diff_failed_def diff_done_def ErrEndOfStream_def split: sum.splits option.splits)

section \<open>The upload\<close>

lemma account_beat_net: "\<forall>m. \<not> isl (Marshal (aw_msg Wr) m) \<Longrightarrow> \<exists>w1. account_beat Wr net_write ts r w = (w1, r)"
  by (induction Wr "net_write" ts r w rule: account_beat.induct) (simp_all add: WriteDelimited_net)

lemma upload_loop_good:
  fixes Wr :: "'st acc_wire" and St :: "'md acct_store"
  assumes law: "art_law A keys_t keys_w" "tree_works A" and C: "good_codec (aw_chunk Wr)" and D: "\<forall>m. \<not> isl (Marshal (aw_msg Wr) m)"
    and d: "good_chunk A keys_t (Some a) N d" "NonceReq_IsLast d" "\<not> isl (Marshal (aw_chunk Wr) d)"
  shows "length Ns = length cs \<Longrightarrow> \<forall>i<length cs. good_chunk A keys_t (Some a) (Ns ! i) (cs ! i) \<and> \<not> NonceReq_IsLast (cs ! i) \<and>
      \<not> isl (Marshal (aw_chunk Wr) (cs ! i)) \<Longrightarrow> aligned ps (concat (map (frame_writes (aw_chunk Wr)) (cs @ [d]))) \<Longrightarrow>
    token_held E peer a s \<Longrightarrow>
    \<exists>s' l' w1. keys_w l' = keys_w l \<union> \<Union> (set Ns) \<union> N \<and>
      upload_loop Wr net_write (\<lambda>req l s. HandleAccountsSync E A St evs req peer l s) beats k running \<lparr>rs_chunks = ps, rs_end = e\<rparr> l s w =
        map_option (\<lambda>(l'', x, result). (s', l'', x, w1 @ frame_writes (aw_msg Wr) result)) (run_diff A St evs (NonceReq_TotalKeys d) (Some a) l')"
proof (induction cs arbitrary: Ns ps s l k running w)
  case Nil
  then obtain ps' where r: "ReadDelimited (aw_chunk Wr) \<lparr>rs_chunks = ps, rs_end = e\<rparr> = Some (\<lparr>rs_chunks = ps', rs_end = e\<rparr>, Inr d)"
    using ReadDelimited_aligned [OF C d(3), of ps "[]"] by auto
  obtain l' where l': "keys_w l' = keys_w l \<union> N" "(ACCOUNTS_SYNC A St evs d (Some a) l :: (_, 'md, 'st) sync_result option) =
      run_diff A St evs (NonceReq_TotalKeys d) (Some a) l'"
    using ACCOUNTS_SYNC_good [OF law d(1)] d(2) by metis
  obtain s' where s': "HandleAccountsSync E A St evs d peer l s = map_option (Pair s') (run_diff A St evs (NonceReq_TotalKeys d) (Some a) l' :: (_, 'md, 'st) sync_result option)"
    using HandleAccountsSync_good [OF Nil.prems(4) d(1), of St evs l, where ?'st = 'st] l'(2) by auto
  obtain w1 where w1: "account_beat Wr net_write (beats k) running w = (w1, running)" using account_beat_net [OF D] by blast
  have "upload_loop Wr net_write (\<lambda>req l s. HandleAccountsSync E A St evs req peer l s) beats k running \<lparr>rs_chunks = ps, rs_end = e\<rparr> l s w =
      map_option (\<lambda>(l'', x, result). (s', l'', x, w1 @ frame_writes (aw_msg Wr) result)) (run_diff A St evs (NonceReq_TotalKeys d) (Some a) l')"
  proof (cases "run_diff A St evs (NonceReq_TotalKeys d) (Some a) l' :: (_, 'md, 'st) sync_result option")
    case None
    with r s' show ?thesis by (subst upload_loop.simps) simp
  next
    case (Some y)
    obtain l'' x result where y: "y = (l'', x, result)" by (metis prod_cases3)
    obtain eos where "result = EndMsg eos" using run_diff_End [OF Some [unfolded y]] by blast
    with r s' Some y w1 D show ?thesis by (subst upload_loop.simps) (simp add: WriteDelimited_net)
  qed
  with l'(1) Nil.prems(1) show ?case by (intro exI [of _ s'] exI [of _ l'] exI [of _ w1]) simp
next
  case (Cons c cs)
  then obtain N1 Ns' where Ns: "Ns = N1 # Ns'" "length Ns' = length cs" by (cases Ns) auto
  from Cons.prems(2) Ns have c: "good_chunk A keys_t (Some a) N1 c" "\<not> NonceReq_IsLast c" "\<not> isl (Marshal (aw_chunk Wr) c)"
    by (metis length_Cons nth_Cons_0 zero_less_Suc)+
  from Cons.prems(3) obtain ps' where r: "ReadDelimited (aw_chunk Wr) \<lparr>rs_chunks = ps, rs_end = e\<rparr> = Some (\<lparr>rs_chunks = ps', rs_end = e\<rparr>, Inr c)"
    "aligned ps' (concat (map (frame_writes (aw_chunk Wr)) (cs @ [d])))"
    using ReadDelimited_aligned [OF C c(3), of ps "concat (map (frame_writes (aw_chunk Wr)) (cs @ [d]))"] by auto
  obtain l1 where l1: "keys_w l1 = keys_w l \<union> N1" "(ACCOUNTS_SYNC A St evs c (Some a) l :: (_, 'md, 'st) sync_result option) = Some (l1, None, BatchAck (NonceReq_BatchIndex c))"
    using ACCOUNTS_SYNC_good [OF law c(1)] c(2) by metis
  obtain s1 where s1: "token_held E peer a s1" "HandleAccountsSync E A St evs c peer l s = Some (s1, l1, None, BatchAck (NonceReq_BatchIndex c) :: 'st AccountSyncServerMessage)"
    using HandleAccountsSync_good [OF Cons.prems(4) c(1), of St evs l, where ?'st = 'st] l1(2) by auto
  obtain w1 where w1: "account_beat Wr net_write (beats k) running w = (w1, running)" using account_beat_net [OF D] by blast
  have rest: "\<forall>i<length cs. good_chunk A keys_t (Some a) (Ns' ! i) (cs ! i) \<and> \<not> NonceReq_IsLast (cs ! i) \<and> \<not> isl (Marshal (aw_chunk Wr) (cs ! i))"
    using Cons.prems(2) Ns(1) by (metis Suc_less_eq length_Cons nth_Cons_Suc)
  from Cons.IH [OF Ns(2) rest r(2) s1(1), of l1 "Suc k" running "w1 @ frame_writes (aw_msg Wr) (BatchAck (NonceReq_BatchIndex c))"]
  obtain s' l' w2 where IH: "keys_w l' = keys_w l1 \<union> \<Union> (set Ns') \<union> N"
    "upload_loop Wr net_write (\<lambda>req l s. HandleAccountsSync E A St evs req peer l s) beats (Suc k) running \<lparr>rs_chunks = ps', rs_end = e\<rparr> l1 s1
        (w1 @ frame_writes (aw_msg Wr) (BatchAck (NonceReq_BatchIndex c))) =
      map_option (\<lambda>(l'', x, result). (s', l'', x, w2 @ frame_writes (aw_msg Wr) result)) (run_diff A St evs (NonceReq_TotalKeys d) (Some a) l')"
    by blast
  have "keys_w l' = keys_w l \<union> \<Union> (set Ns) \<union> N" using IH(1) l1(1) Ns(1) by auto
  moreover have "upload_loop Wr net_write (\<lambda>req l s. HandleAccountsSync E A St evs req peer l s) beats k running \<lparr>rs_chunks = ps, rs_end = e\<rparr> l s w =
      map_option (\<lambda>(l'', x, result). (s', l'', x, w2 @ frame_writes (aw_msg Wr) result)) (run_diff A St evs (NonceReq_TotalKeys d) (Some a) l')"
    using r(1) s1(2) w1 IH(2) D by (subst upload_loop.simps) (simp add: BatchAck_def WriteDelimited_net)
  ultimately show ?case by blast
qed

section \<open>From the client's nonces to the pages\<close>

lemma run_to_end_cases:
  assumes "run_to_end fetch contains evs s0 = Some (s, r)"
  shows "run_session fetch contains evs s0 = Some s" "run_summary s = Some r"
  using assms by (auto simp: run_to_end_def split: option.splits if_splits)

text \<open>C36: The account sync end to end. The client cuts its nonces into chunks, as many as the number that it computes from the
  total (with another number the chunk marked as the last is not the last, see \<open>buildChunks_exact\<close>); they arrive at the server in frames
  cut into pieces none of which spans two frames; the token is accepted and the disk of the session works. Then, for every schedule on which the server's
  session ends without cancellation or iterator failure and whatever heartbeats are sent in between, the handler answers
  the last chunk with the end of the stream and the session's counts, and the pages that the client acknowledged and the
  dead letters are together exactly, with multiplicity, the server's nonces that are not among the client's, or all the
  server's nonces in a full sync, when the client has less than six percent.\<close>

theorem account_sync_exact:
  fixes Wr :: "'st acc_wire"
  assumes tree: "art_law A keys_t keys_w" "tree_works A" "keys_w l0 = {}"
    and client: "totalKeys \<noteq> 0" "chunk_jobs it = (jobs, None)" "jobs \<noteq> []" "sort arrivals = [0 ..< length jobs]" "length jobs < 2 ^ 32"
      "num_batches totalKeys = word_of_nat (length jobs)"
      "buildChunks A (Inr totalKeys) it arrivals (Some a) = Some (chunks, None)"
    and server: "TotalAccounts St = Inr serverTotal" "batches_ok (NonceBatches St)" "serverTotal = 0 \<longrightarrow> NonceBatches St = []"
      "session_start Default totalKeys serverTotal (NonceBatches St) = Inr s0"
      "run_to_end (GetAccountsByNonces St) (\<lambda>n. n \<in> set (concat jobs)) evs s0 = Some (ses, r)"
      "\<not> S_cancelled ses" "S_iterErr ses = None"
    and wire: "good_codec (aw_chunk Wr)" "\<forall>c\<in>set chunks. \<not> isl (Marshal (aw_chunk Wr) c)" "\<forall>m. \<not> isl (Marshal (aw_msg Wr) m)"
      "aligned ps (concat (map (frame_writes (aw_chunk Wr)) chunks))"
    and token: "token_held E peer a s"
  shows "\<exists>s' w. HandleAccountsSync_stream E A St evs Wr net_write peer beats (Inr l0) False \<lparr>rs_chunks = ps, rs_end = e\<rparr> s [] =
      Some (s', Some ses, w @ frame_writes (aw_msg Wr) (diff_done r (Some a))) \<and>
    mset (concat (map Page_Nonces (S_acked ses))) + mset (concat (map Dead_Nonces (Summary_DeadLetters r))) =
      mset (filter (\<lambda>n. is_full_sync totalKeys serverTotal \<or> n \<notin> set (concat jobs)) (concat (NonceBatches St)))"
proof -
  obtain m where m: "length jobs = Suc m" using client(3) by (cases jobs) auto
  obtain c where c: "chunks = map c [0 ..< length jobs]"
    "\<forall>i<length jobs. good_chunk A keys_t (Some a) (set (jobs ! i)) (c i) \<and> NonceReq_TotalKeys (c i) = totalKeys \<and>
       NonceReq_IsLast (c i) = (Suc i = length jobs)"
    using buildChunks_good [OF tree(1) client(1,2,4,5,6), of "Some a"] client(7) by auto
  let ?cs = "map c [0 ..< m]" and ?Ns = "map (\<lambda>i. set (jobs ! i)) [0 ..< m]"
  have chunks: "chunks = ?cs @ [c m]" using c(1) m by simp
  have d: "good_chunk A keys_t (Some a) (set (jobs ! m)) (c m)" "NonceReq_IsLast (c m)" "NonceReq_TotalKeys (c m) = totalKeys"
    "\<not> isl (Marshal (aw_chunk Wr) (c m))" using c(2) m wire(2) by (auto simp: chunks)
  have cs: "\<forall>i<length ?cs. good_chunk A keys_t (Some a) (?Ns ! i) (?cs ! i) \<and> \<not> NonceReq_IsLast (?cs ! i) \<and>
      \<not> isl (Marshal (aw_chunk Wr) (?cs ! i))" using c(2) m wire(2) by (simp add: chunks)
  obtain s' l' w1 where u: "keys_w l' = keys_w l0 \<union> \<Union> (set ?Ns) \<union> set (jobs ! m)"
    "upload_loop Wr net_write (\<lambda>req l s. HandleAccountsSync E A St evs req peer l s) beats 0 True \<lparr>rs_chunks = ps, rs_end = e\<rparr> l0 s [] =
      map_option (\<lambda>(l'', x, result). (s', l'', x, w1 @ frame_writes (aw_msg Wr) result)) (run_diff A St evs totalKeys (Some a) l')"
    using upload_loop_good [OF tree(1,2) wire(1,3) d(1,2,4) _ cs _ token, where ps = ps and St = St and evs = evs and l = l0
        and beats = beats and k = 0 and running = True and e = e and w = "[]"] wire(4) d(3)
    by (auto simp: chunks)
  have "set jobs = (\<lambda>i. jobs ! i) ` {..<Suc m}" using m by (auto simp: set_conv_nth)
  then have "set (concat jobs) = (\<Union>i<Suc m. set (jobs ! i))" by simp
  then have "keys_w l' = set (concat jobs)" using u(1) tree(3) by (auto simp: lessThan_Suc)
  then have "sw_Contains A l' = (\<lambda>n. n \<in> set (concat jobs))" using tree(1) by (intro ext) (simp add: art_law_def)
  note ex = run_to_end_cases [OF server(5)]
  from session_exact [OF server(4,2,3) ex server(6,7)]
  have E: "mset (concat (map Page_Nonces (S_acked ses))) + mset (concat (map Dead_Nonces (Summary_DeadLetters r))) =
      mset (to_deliver (\<lambda>n. n \<in> set (concat jobs)) (is_full_sync totalKeys serverTotal) (NonceBatches St))" "diff_error ses = None"
    by blast+
  have "run_diff A St evs totalKeys (Some a) l' = Some (l', Some ses, diff_done r (Some a) :: 'st AccountSyncServerMessage)"
    using server(1,4,5) E(2) \<open>sw_Contains A l' = _\<close> by (simp add: run_diff_def)
  with u(2) E(1) show ?thesis by (simp add: HandleAccountsSync_stream_def to_deliver_def)
qed

text \<open>A client with the account 6, a server with 5 and 6: the page with 5 is rejected once, then acknowledged.\<close>

definition demo_account :: "u64 \<Rightarrow> unit Account" where
  "demo_account n = \<lparr>Account_DIDAddress = [], Account_Address = replicate 20 0, Account_Balance = ''5'', Account_Nonce = n,
     Account_TxNonce = 0, Account_TxCountSent = 0, Account_AccountType = ''did'', Account_CreatedAt = 0, Account_UpdatedAt = 0,
     Account_Metadata = ()\<rparr>"

definition demo_accounts :: "unit acct_store" where
  "demo_accounts = \<lparr>TotalAccounts = Inr 2, NonceBatches = [[5], [6]], GetAccountsByNonces = map (\<lambda>n. Some (demo_account n)),
     GetAccountByAddress = (\<lambda>addr. if addr = ''a'' then Inr (Some (demo_account 5)) else Inr None)\<rparr>"

definition accounts_session :: "unit Account option session" where
  "accounts_session = (case session_start Default 1 2 [[5], [6]] of Inl _ \<Rightarrow> undefined | Inr s \<Rightarrow> s)"

definition demo_schedule :: "event list" where
  "demo_schedule = demo_events @ map (Worker 0) [Opens, Tau, Fetched, NotAcked ''x'', Tau, Tau, Tau, Tau, Opens, Tau, Fetched, Acked, Tau, Tau] @
     [Parent 1 Tau, Pull 1 [], Parent 1 Tau, Join] @ map (\<lambda>j. Worker j Leave) [0 ..< 10]"

definition demo_acc_wire :: "AccountNonceSyncRequest \<Rightarrow> unit acc_wire" where
  "demo_acc_wire c = \<lparr>aw_chunk = table_codec [(c, [1])], aw_msg = \<lparr>Marshal = (\<lambda>_. Inr [1]), Unmarshal = (\<lambda>_. Inl [])\<rparr>,
     aw_fetch = table_codec [], aw_accounts = table_codec []\<rparr>"

lemma accounts_session_start: "session_start Default 1 2 [[5], [6]] = Inr accounts_session"
  by (simp add: accounts_session_def session_start_def NewDispatcher_def validateDispatcherConfig_def Default_def DispatchWorkers_def
      NonceBufferPauseThreshold_def NonceBufferResumePct_def NoncePageSize_def DispatchMaxRetries_def Let_def)

lemma demo_schedule_run:
  "case run_to_end (GetAccountsByNonces demo_accounts) (\<lambda>n. n \<in> set (concat [[6]])) demo_schedule accounts_session of None \<Rightarrow> False
   | Some (s, r) \<Rightarrow> \<not> S_cancelled s \<and> S_iterErr s = None \<and> map Page_Nonces (S_acked s) = [[5]] \<and> Summary_DeliveredAccounts r = 1"
  by code_simp

lemma demo_token_held: "token_held demo_server_env [1] \<lparr>Auth_UUID = ''t''\<rparr> demo_router"
  by (simp add: token_held_def demo_server exI [of _ "{[[1] \<mapsto> ''t'']}"])

theorem account_sync_exact_witness:
  "\<exists>c s' w ses r. HandleAccountsSync_stream demo_server_env list_art demo_accounts demo_schedule (demo_acc_wire c) net_write [1] (\<lambda>_. [7])
      (Inr []) False \<lparr>rs_chunks = [[1, 1]], rs_end = ''EOF''\<rparr> demo_router [] =
      Some (s', Some ses, w @ frame_writes (aw_msg (demo_acc_wire c)) (diff_done r (Some \<lparr>Auth_UUID = ''t''\<rparr>))) \<and>
    concat (map Page_Nonces (S_acked ses)) = [5] \<and> concat (map Dead_Nonces (Summary_DeadLetters r)) = [] \<and>
    Summary_DeliveredAccounts r = 1"
proof -
  let ?a = "\<lparr>Auth_UUID = ''t''\<rparr>" and ?it = "[Inr [6], Inr []] :: (string + u64 list) list"
  have jobs: "chunk_jobs ?it = ([[6]], None)" "sort [0] = [0 ..< length [[6 :: u64]]]" "length [[6 :: u64]] < 2 ^ 32"
    "num_batches 1 = word_of_nat (length [[6 :: u64]])" by (simp_all add: num_batches_def MAX_ACCOUNT_NONCES_def)
  obtain c where c: "buildChunks list_art (Inr 1) ?it [0] (Some ?a) = Some ([c], None)"
    using buildChunks_good [OF list_art_law one_neq_zero jobs(1-4), of "Some ?a"] by auto
  obtain ses r where s: "run_to_end (GetAccountsByNonces demo_accounts) (\<lambda>n. n \<in> set (concat [[6]])) demo_schedule accounts_session = Some (ses, r)"
    "\<not> S_cancelled ses" "S_iterErr ses = None" "map Page_Nonces (S_acked ses) = [[5]]" "Summary_DeliveredAccounts r = 1"
    using demo_schedule_run by (auto split: option.splits)
  have works: "tree_works list_art" by (simp add: tree_works_def list_art_def)
  have store: "TotalAccounts demo_accounts = Inr 2" "batches_ok (NonceBatches demo_accounts)"
    "session_start Default 1 2 (NonceBatches demo_accounts) = Inr accounts_session"
    using accounts_session_start demo_batches by (simp_all add: demo_accounts_def)
  have one: "PutUvarint 1 = [1]" by (simp add: PutUvarint.simps word_le_nat_alt)
  let ?W = "demo_acc_wire c"
  have al: "aligned [[1, 1]] (concat (map (frame_writes (aw_chunk ?W)) [c]))"
    by (simp add: frame_writes_def demo_acc_wire_def table_codec_def one) (rule exI [of _ 1], simp)
  have codec: "good_codec (aw_chunk ?W)" "\<forall>x\<in>set [c]. \<not> isl (Marshal (aw_chunk ?W) x)" "\<forall>m. \<not> isl (Marshal (aw_msg ?W) m)"
    by (auto simp: good_codec_def demo_acc_wire_def table_codec_def split: if_splits)
  from account_sync_exact [OF list_art_law works _ one_neq_zero jobs(1) _ jobs(2-4) c store(1,2) _ store(3) s(1-3) codec al demo_token_held,
      of "[]" "\<lambda>_. [7]" "''EOF''"]
  obtain s' w where w: "HandleAccountsSync_stream demo_server_env list_art demo_accounts demo_schedule ?W net_write [1] (\<lambda>_. [7])
      (Inr []) False \<lparr>rs_chunks = [[1, 1]], rs_end = ''EOF''\<rparr> demo_router [] =
      Some (s', Some ses, w @ frame_writes (aw_msg ?W) (diff_done r (Some ?a)))"
    and m: "mset (concat (map Page_Nonces (S_acked ses))) + mset (concat (map Dead_Nonces (Summary_DeadLetters r))) =
      mset (filter (\<lambda>n. is_full_sync 1 2 \<or> n \<notin> set (concat [[6]])) (concat (NonceBatches demo_accounts)))"
    by auto
  have "concat (map Page_Nonces (S_acked ses)) = [5]" using s(4) by simp
  moreover have "filter (\<lambda>n. is_full_sync 1 2 \<or> n \<notin> set (concat [[6]])) (concat (NonceBatches demo_accounts)) = [5]"
    by (simp add: is_full_sync_def FullSyncThresholdPct_def demo_accounts_def)
  ultimately have "concat (map Dead_Nonces (Summary_DeadLetters r)) = []" using m by simp
  with w s(5) \<open>concat (map Page_Nonces (S_acked ses)) = [5]\<close> show ?thesis by blast
qed

end
