(* ===== verification/FS_AccountsPages_Props.thy ===== *)
theory FS_AccountsPages_Props
  imports FS_AccountsSync_Props
begin

text \<open>
  The two ways in which accounts reach the client, over the wire: a page of a session, acknowledged exactly when it is
  written, and the answer to a targeted fetch.
\<close>

section \<open>What arrives\<close>

text \<open>An account after its transfer: without balance and transaction counters, its metadata as the struct carries it.\<close>

definition received_account :: "('md, 'st) meta_ops \<Rightarrow> 'md Account \<Rightarrow> 'md Account" where
  "received_account M acc = acc\<lparr>Account_Balance := ''0'', Account_TxNonce := 0, Account_TxCountSent := 0,
     Account_Metadata := (if meta_empty M (Account_Metadata acc) then meta_nil M
       else case meta_ToStruct M (Account_Metadata acc) of None \<Rightarrow> meta_nil M | Some st \<Rightarrow> meta_AsMap M st)\<rparr>"

lemma BytesToAddress_20: "length b = 20 \<Longrightarrow> BytesToAddress b = b"
  by (simp add: BytesToAddress_def)

lemma accounts_roundtrip:
  assumes "\<forall>acc. Some acc \<in> set accs \<longrightarrow> length (Account_Address acc) = 20"
  shows "ProtoToAccounts M (map Some (ToProtoAccounts M accs)) = map (\<lambda>acc. received_account M (the acc)) (filter (\<lambda>acc. acc \<noteq> None) accs)"
  using assms
  by (induction M accs rule: ToProtoAccounts.induct)
     (auto simp: bare_account_def received_account_def BytesToAddress_20 split: option.splits)

section \<open>A page\<close>

lemma ReadDelimited_empty: "ReadDelimited C \<lparr>rs_chunks = [], rs_end = e\<rparr> = Some (\<lparr>rs_chunks = [], rs_end = e\<rparr>, Inl (''read len: '' @ e))"
proof -
  have "ReadByte (NewReader \<lparr>rs_chunks = [], rs_end = e\<rparr>) = (NewReader \<lparr>rs_chunks = [], rs_end = e\<rparr>, Inl e)"
    by (simp add: ReadByte_def NewReader_def fill_def stream_Read_def)
  then have "ReadUvarint (NewReader \<lparr>rs_chunks = [], rs_end = e\<rparr>) = (NewReader \<lparr>rs_chunks = [], rs_end = e\<rparr>, Inl e)"
    by (simp add: ReadUvarint_def numeral_eq_Suc at_end_def)
  then show ?thesis by (simp add: ReadDelimited_def NewReader_def)
qed

text \<open>A connection on which writes succeed and reads have no deadline error.\<close>

definition intact :: "host \<Rightarrow> bool" where
  "intact H \<longleftrightarrow> host_SetWriteDeadline H = None \<and> host_SetReadDeadline H = None \<and> (\<forall>ws b. host_Write H ws b = None)"

text \<open>What a peer sends after each of the writes of a frame on an open stream.\<close>

definition frame_answers :: "host \<Rightarrow> conn \<Rightarrow> bytes list \<Rightarrow> bytes list" where
  "frame_answers H c ws = concat (map (\<lambda>n. host_answer H (conn_Protocol c) (conn_written c @ take n ws)) [1 ..< Suc (length ws)])"

lemma WriteAccountPage_exchange:
  assumes "intact H" "good_codec (aw_msg Wr)" "\<not> isl (Marshal (aw_msg Wr) msg)" "\<not> isl (Marshal (aw_msg Wr) reply)"
    and "rs_chunks (conn_in c) = []" "aligned (frame_answers H c (frame_writes (aw_msg Wr) msg)) (frame_writes (aw_msg Wr) reply)"
  shows "\<exists>c'. WriteAccountPageAndReadACK Wr H c msg = Some (c', Inr reply) \<and> rs_chunks (conn_in c') = []"
proof -
  obtain b where b: "Marshal (aw_msg Wr) msg = Inr b" using assms(3) by (cases "Marshal (aw_msg Wr) msg") auto
  let ?ws = "conn_written c @ [PutUvarint (word_of_nat (length b)), b]"
  let ?str = "\<lparr>rs_chunks = frame_answers H c (frame_writes (aw_msg Wr) msg), rs_end = host_end H (conn_Protocol c) ?ws\<rparr>"
  have w: "WriteDelimited (aw_msg Wr) (stream_Write H) msg c = (\<lparr>conn_Protocol = conn_Protocol c, conn_written = ?ws, conn_in = ?str\<rparr>, None)"
    using assms(1,5) b
    by (simp add: WriteDelimited_def stream_Write_def Let_def intact_def frame_answers_def frame_writes_def upt_rec)
  obtain ps' where "aligned ps' []" "ReadDelimited (aw_msg Wr) ?str = Some (\<lparr>rs_chunks = ps', rs_end = rs_end ?str\<rparr>, Inr reply)"
    using ReadDelimited_aligned [OF assms(2,4), of _ "[]" "rs_end ?str"] assms(6) by auto
  with w assms(1) show ?thesis by (simp add: WriteAccountPageAndReadACK_def intact_def)
qed

lemma data_loop_page:
  assumes "good_codec (aw_msg Wr)" "\<not> isl (Marshal (aw_msg Wr) page)" "aligned ps (frame_writes (aw_msg Wr) page)"
    and "handle_page M C page cs = (cs', reply)" "\<not> isl (Marshal (aw_msg Wr) reply)"
  shows "HandleAccountsSyncData M C Wr net_write False \<lparr>rs_chunks = ps, rs_end = e\<rparr> cs [] = Some (cs', frame_writes (aw_msg Wr) reply)"
proof -
  have "ReadDelimited (aw_msg Wr) \<lparr>rs_chunks = ps, rs_end = e\<rparr> = Some (\<lparr>rs_chunks = [], rs_end = e\<rparr>, Inr page)"
    using ReadDelimited_aligned [OF assms(1,2), of ps "[]" e] assms(3) by auto
  then have "data_loop M C Wr net_write \<lparr>rs_chunks = ps, rs_end = e\<rparr> cs [] =
      data_loop M C Wr net_write \<lparr>rs_chunks = [], rs_end = e\<rparr> cs' (frame_writes (aw_msg Wr) reply)"
    using assms(4,5) by (subst data_loop.simps) (simp add: WriteDelimited_net)
  then show ?thesis by (simp add: HandleAccountsSyncData_def) (subst data_loop.simps, simp add: ReadDelimited_empty)
qed

lemma WriteAccountsBatch_written:
  assumes "snd (WriteAccountsBatch M C pbs cs) = None" "pbs \<noteq> []"
  shows "cl_WriteAccounts C (ProtoToAccounts M (map Some pbs)) (CS_DB cs) = (CS_DB (fst (WriteAccountsBatch M C pbs cs)), None)"
    "CS_WAL cs = Some q \<Longrightarrow> \<exists>q'. cl_AddToBufferWAL C (account_event pbs) q = (q', None) \<and>
       CS_WAL (fst (WriteAccountsBatch M C pbs cs)) = Some (cl_AddCheckpoint C q')"
  using assms
  by (auto simp: WriteAccountsBatch_def WriteAccounts_def enqueue_event_def Let_def split: if_splits option.splits prod.splits)

text \<open>C37: An acknowledgement means that the page is in the client's table. Over an intact connection, with the answers of the
  peer being what the client's page handler writes for the page it reads, the server's send reports no error exactly when
  the client's write reported none. Then the client's table has taken exactly the accounts of the page, nil entries
  skipped, each with balance zero and its metadata as a struct carries it, and before that its log buffer had accepted the
  event with them. The stream is left at a frame boundary.\<close>

theorem page_acked_iff_written:
  fixes Wr :: "'st acc_wire"
  assumes "intact H" "good_codec (aw_msg Wr)" "\<not> isl (Marshal (aw_msg Wr) (page_message M auth idx accounts))"
    and "\<not> isl (Marshal (aw_msg Wr) (snd (handle_page M C (page_message M auth idx accounts) cs)))"
    and "rs_chunks (conn_in c) = []" "aligned ps (frame_writes (aw_msg Wr) (page_message M auth idx accounts))"
    and "HandleAccountsSyncData M C Wr net_write False \<lparr>rs_chunks = ps, rs_end = ''EOF''\<rparr> cs [] = Some (cs', out)"
    and "aligned (frame_answers H c (frame_writes (aw_msg Wr) (page_message M auth idx accounts))) out"
    and "\<forall>acc. Some acc \<in> set accounts \<longrightarrow> length (Account_Address acc) = 20"
  shows "\<exists>c' err. buildSendPageOnStream M Wr auth H c idx accounts = Some (c', err) \<and> rs_chunks (conn_in c') = [] \<and>
    cs' = fst (WriteAccountsBatch M C (ToProtoAccounts M accounts) cs) \<and>
    (err = None \<longleftrightarrow> snd (WriteAccountsBatch M C (ToProtoAccounts M accounts) cs) = None) \<and>
    (err = None \<and> filter (\<lambda>acc. acc \<noteq> None) accounts \<noteq> [] \<longrightarrow>
      cl_WriteAccounts C (map (\<lambda>acc. received_account M (the acc)) (filter (\<lambda>acc. acc \<noteq> None) accounts)) (CS_DB cs) = (CS_DB cs', None) \<and>
      (\<forall>q. CS_WAL cs = Some q \<longrightarrow> (\<exists>q'. cl_AddToBufferWAL C (account_event (ToProtoAccounts M accounts)) q = (q', None) \<and>
         CS_WAL cs' = Some (cl_AddCheckpoint C q'))))"
proof -
  let ?page = "page_message M auth idx accounts" and ?W = "WriteAccountsBatch M C (ToProtoAccounts M accounts) cs"
  obtain cs1 reply where h: "handle_page M C ?page cs = (cs1, reply)" by (meson surj_pair)
  have R: "\<not> isl (Marshal (aw_msg Wr) reply)" using assms(4) h by simp
  from data_loop_page [OF assms(2,3,6) h R, of "''EOF''"] assms(7) have out: "cs' = cs1" "out = frame_writes (aw_msg Wr) reply" by simp_all
  obtain c' where c': "WriteAccountPageAndReadACK Wr H c ?page = Some (c', Inr reply)" "rs_chunks (conn_in c') = []"
    using WriteAccountPage_exchange [OF assms(1,2,3) R assms(5)] assms(8) out(2) by blast
  have send: "buildSendPageOnStream M Wr auth H c idx accounts = Some (c', check_page_ack idx reply)"
    using c'(1) by (simp add: buildSendPageOnStream_def SendAccountPageOnStream_def)
  have cs1: "cs1 = fst ?W" and iff: "check_page_ack idx reply = None \<longleftrightarrow> snd ?W = None"
    using h by (auto simp: handle_page_def page_message_def check_page_ack_def BatchAck_def ErrBatchAck_def ack_ok_def ack_def
        split: prod.splits option.splits)
  have ne: "ToProtoAccounts M accounts \<noteq> []" if "filter (\<lambda>acc. acc \<noteq> None) accounts \<noteq> []"
    using that accounts_roundtrip [OF assms(9), of M] by auto
  show ?thesis
    using send c'(2) cs1 iff out(1) WriteAccountsBatch_written [of M C "ToProtoAccounts M accounts" cs] ne
    by (auto simp: accounts_roundtrip [OF assms(9)])
qed

text \<open>A client without a log and a table that is a list; the server sends one account and a nil entry.\<close>

definition unit_meta :: "(unit, unit) meta_ops" where
  "unit_meta = \<lparr>meta_empty = (\<lambda>_. True), meta_nil = (), meta_ToStruct = (\<lambda>_. None), meta_AsMap = (\<lambda>_. ())\<rparr>"

definition list_client :: "(unit, unit, unit, unit Account list) client_ops" where
  "list_client = \<lparr>cl_AddToBufferWAL = (\<lambda>_ q. (q, None)), cl_AddCheckpoint = (\<lambda>q. q), cl_WriteAccounts = (\<lambda>accs db. (db @ accs, None))\<rparr>"

definition page_wire :: "unit AccountSyncServerMessage \<Rightarrow> unit AccountSyncServerMessage \<Rightarrow> unit acc_wire" where
  "page_wire page reply = \<lparr>aw_chunk = table_codec [], aw_msg = table_codec [(page, [1]), (reply, [2])], aw_fetch = table_codec [],
     aw_accounts = table_codec []\<rparr>"

theorem page_acked_iff_written_witness:
  "\<exists>Wr c'. buildSendPageOnStream unit_meta Wr None (demo_host [[1, 2]]) \<lparr>conn_Protocol = AccountsSyncDataProtocol, conn_written = [],
      conn_in = \<lparr>rs_chunks = [], rs_end = []\<rparr>\<rparr> 1 [Some (demo_account 5), None] = Some (c', None) \<and>
    HandleAccountsSyncData unit_meta list_client Wr net_write False \<lparr>rs_chunks = [[1], [1]], rs_end = ''EOF''\<rparr> \<lparr>CS_WAL = None, CS_DB = []\<rparr> [] =
      Some (\<lparr>CS_WAL = None, CS_DB = [(demo_account 5)\<lparr>Account_Balance := ''0''\<rparr>]\<rparr>, [[1], [2]])"
proof -
  let ?accs = "[Some (demo_account 5), None]" and ?cs = "\<lparr>CS_WAL = None, CS_DB = []\<rparr> :: (unit, unit Account list) client_state"
  let ?c = "\<lparr>conn_Protocol = AccountsSyncDataProtocol, conn_written = [], conn_in = \<lparr>rs_chunks = [], rs_end = []\<rparr>\<rparr>"
  let ?page = "page_message unit_meta None 1 ?accs"
  let ?Wr = "page_wire ?page (BatchAck 1)" and ?H = "demo_host [[1, 2]]"
  let ?cs' = "\<lparr>CS_WAL = None, CS_DB = [(demo_account 5)\<lparr>Account_Balance := ''0''\<rparr>]\<rparr> :: (unit, unit Account list) client_state"
  have one: "PutUvarint 1 = [1]" by (simp add: PutUvarint.simps word_le_nat_alt)
  have h: "handle_page unit_meta list_client ?page ?cs = (?cs', BatchAck 1)"
    by (simp add: handle_page_def page_message_def WriteAccountsBatch_def WriteAccounts_def enqueue_event_def list_client_def Let_def
        bare_account_def demo_account_def BytesToAddress_20 unit_meta_def)
  have M: "Marshal (aw_msg ?Wr) ?page = Inr [1]" "Marshal (aw_msg ?Wr) (BatchAck 1) = Inr [2]"
    by (simp_all add: page_wire_def table_codec_def page_message_def BatchAck_def)
  have codec: "good_codec (aw_msg ?Wr)" by (auto simp: good_codec_def page_wire_def table_codec_def split: if_splits)
  have two: "aligned [[1 :: 8 word], [1]] [[1], [1]]" by simp (rule exI [of _ 2], simp)
  have al: "aligned [[1], [1]] (frame_writes (aw_msg ?Wr) ?page)" using two by (simp add: frame_writes_def M one)
  have m: "\<not> isl (Marshal (aw_msg ?Wr) ?page)" "\<not> isl (Marshal (aw_msg ?Wr) (snd (handle_page unit_meta list_client ?page ?cs)))"
    by (simp_all add: h M)
  have srv: "HandleAccountsSyncData unit_meta list_client ?Wr net_write False \<lparr>rs_chunks = [[1], [1]], rs_end = ''EOF''\<rparr> ?cs [] = Some (?cs', [[1], [2]])"
    using data_loop_page [OF codec m(1) al h, of "''EOF''"] m(2) h by (simp add: frame_writes_def M one)
  have "frame_answers ?H ?c (frame_writes (aw_msg ?Wr) ?page) = [[1, 2]]"
    by (simp add: frame_answers_def frame_writes_def M one demo_host_def upt_rec)
  then have ans: "aligned (frame_answers ?H ?c (frame_writes (aw_msg ?Wr) ?page)) [[1], [2]]" by simp (rule exI [of _ 1], simp)
  have i: "intact ?H" by (simp add: intact_def demo_host_def)
  have len: "\<forall>acc. Some acc \<in> set ?accs \<longrightarrow> length (Account_Address acc) = 20" by (simp add: demo_account_def)
  have b: "rs_chunks (conn_in ?c) = []" by simp
  from page_acked_iff_written [OF i codec m b al srv ans len] obtain c' err where
    "buildSendPageOnStream unit_meta ?Wr None ?H ?c 1 ?accs = Some (c', err)"
    "err = None \<longleftrightarrow> snd (WriteAccountsBatch unit_meta list_client (ToProtoAccounts unit_meta ?accs) ?cs) = None" by (elim exE conjE)
  moreover have "snd (WriteAccountsBatch unit_meta list_client (ToProtoAccounts unit_meta ?accs) ?cs) = None"
    by (simp add: WriteAccountsBatch_def WriteAccounts_def enqueue_event_def list_client_def Let_def)
  ultimately show ?thesis using srv by blast
qed

section \<open>The targeted fetch\<close>

lemma plain_exchange:
  assumes "reaches H v info [p] p" "good_codec C" "good_codec D" "Marshal C req = Inr q"
    and "\<forall>s' resp. handle req s = Some (s', resp) \<longrightarrow> \<not> isl (Marshal D resp)"
    and "concat (rs_chunks str) = frame q" "[] \<notin> set (rs_chunks str)"
    and "plain_handler C D net_write handle False str s [] = Some (s', out)"
    and "aligned (all_answers H p (frame_writes C req)) out"
  shows "\<exists>resp. handle req s = Some (s', resp) \<and> SendProtoDelimited (Some H) v info p C D req = Some (Inr resp)"
proof -
  have c: "Unmarshal C q = Inr req" "q \<noteq> []" "length q < 2 ^ 63" using assms(2,4) by (auto simp: good_codec_def)
  have "ReadDelimited C str = Some (str\<lparr>rs_chunks := []\<rparr>, Inr req)"
    using ReadDelimited_frame [OF c assms(6,7), of "str\<lparr>rs_chunks := []\<rparr>"] by simp
  with assms(8) obtain resp where resp: "handle req s = Some (s', resp)" "out = fst (WriteDelimited D net_write resp [])"
    by (auto simp: plain_handler_def split: option.splits)
  note R = assms(5) [rule_format, OF resp(1)]
  have "out = frame_writes D resp" using resp(2) WriteDelimited_net [OF R, of "[]"] by simp
  with assms(9) have "aligned (all_answers H p (frame_writes C req)) (frame_writes D resp @ [])" by simp
  from ReadDelimited_aligned [OF assms(3) R this] obtain ps' where
    "ReadDelimited D \<lparr>rs_chunks = all_answers H p (frame_writes C req), rs_end = host_end H p (frame_writes C req)\<rparr> =
       Some (\<lparr>rs_chunks = ps', rs_end = host_end H p (frame_writes C req)\<rparr>, Inr resp)" by blast
  with open_request_reaches [OF assms(1), of C req] assms(1,4) resp(1) show ?thesis
    by (simp add: SendProtoDelimited_def reaches_def)
qed

text \<open>The accounts the server has for the addresses, without balances, in the order of the request.\<close>

definition found_accounts :: "'md acct_store \<Rightarrow> string list \<Rightarrow> 'md Account list" where
  "found_accounts St addresses = concat (map (\<lambda>addr. case GetAccountByAddress St (lookupKeyForFetch addr) of
     Inr (Some acc) \<Rightarrow> [acc] | _ \<Rightarrow> []) addresses)"

lemma FetchAccountsByAddresses_found: "FetchAccountsByAddresses St addresses = Inr (map bare_account (found_accounts St addresses))"
  by (induction addresses) (auto simp: FetchAccountsByAddresses_def found_accounts_def fetch_address_def split: sum.splits option.splits)

lemma HandleAccountsFetch_served:
  fixes St :: "'md acct_store"
  assumes "token_held E peer a s"
  shows "\<exists>s'. HandleAccountsFetch E St (fetch_request addresses a) peer s = Some (s', accounts_msg
    (map bare_account (found_accounts St addresses)) ACCOUNTS_SYNC_REQUEST_ACCOUNTS_RESPONSE SUCCESS True [] (Some a) :: 'st AccountSyncResponse)"
proof -
  let ?deny = "accounts_msg [] ACCOUNTS_SYNC_REQUEST_ACCOUNTS FAILURE False AuthenticationFailed (Some a) :: 'st AccountSyncResponse"
  let ?msg = "accounts_msg (map bare_account (found_accounts St addresses)) ACCOUNTS_SYNC_REQUEST_ACCOUNTS_RESPONSE SUCCESS True [] (Some a) :: 'st AccountSyncResponse"
  have "\<not> no_token (Some a)" using assms by (simp add: token_held_def no_token_def)
  then have "HandleAccountsFetch E St (fetch_request addresses a) peer s =
      with_token E (Some a) peer ?deny (\<lambda>r. map_option (Pair r) (Some ?msg)) s"
    by (simp add: HandleAccountsFetch_def fetch_request_def phase_def FetchAccountsByAddresses_found)
  with with_token_held [OF assms, of ?deny "Some ?msg"] show ?thesis by auto
qed

text \<open>C39: The targeted fetch is the call of the server. When the server holds the token and can be reached, the client's
  \<open>FetchAccounts\<close> for a non-empty address set returns exactly the accounts the server's table has for these addresses, a
  DID standing for the address after its last colon, each with balance zero; addresses without an account are left out.\<close>

theorem fetch_accounts_over_the_wire:
  fixes Wr :: "'st acc_wire" and St :: "'md acct_store"
  assumes "check_remote ''accountsfetch'' as (Some remote) = Inr (ni, a, comm)" "ToNodeinfo idb nmb (Some ni) = Inr (peer :: unit Nodeinfo)"
    and "comm_host comm = Some H" "reaches H (comm_protocolVersion comm) (addr_info peer) [AccountsSyncFetchProtocol] AccountsSyncFetchProtocol"
    and "good_codec (aw_fetch Wr)" "good_codec (aw_accounts Wr)" "Marshal (aw_fetch Wr) (fetch_request addresses a) = Inr q"
    and "addresses \<noteq> []" "token_held E me a s"
    and "\<not> isl (Marshal (aw_accounts Wr) (accounts_msg (map bare_account (found_accounts St addresses))
           ACCOUNTS_SYNC_REQUEST_ACCOUNTS_RESPONSE SUCCESS True [] (Some a)))"
    and "concat (rs_chunks str) = frame q" "[] \<notin> set (rs_chunks str)"
    and "HandleAccountsFetch_stream E St Wr net_write me False str s [] = Some (s', out)"
    and "aligned (all_answers H AccountsSyncFetchProtocol (frame_writes (aw_fetch Wr) (fetch_request addresses a))) out"
  shows "\<exists>resp. FetchAccounts idb nmb Wr (Some remote) addresses as = Some (Inr resp) \<and>
    AccountsResp_Accounts resp = map bare_account (found_accounts St addresses)"
proof -
  let ?msg = "accounts_msg (map bare_account (found_accounts St addresses)) ACCOUNTS_SYNC_REQUEST_ACCOUNTS_RESPONSE SUCCESS True [] (Some a) :: 'st AccountSyncResponse"
  obtain s1 where s1: "HandleAccountsFetch E St (fetch_request addresses a) me s = Some (s1, ?msg)"
    using HandleAccountsFetch_served [OF assms(9)] by blast
  have "\<forall>s' resp. HandleAccountsFetch E St (fetch_request addresses a) me s = Some (s', resp) \<longrightarrow> \<not> isl (Marshal (aw_accounts Wr) resp)"
    using s1 assms(10) by simp
  from plain_exchange [OF assms(4-7) this assms(11,12) assms(13) [unfolded HandleAccountsFetch_stream_def] assms(14)] s1
  have "SendProtoDelimited (Some H) (comm_protocolVersion comm) (addr_info peer) AccountsSyncFetchProtocol (aw_fetch Wr)
      (aw_accounts Wr) (fetch_request addresses a) = Some (Inr ?msg)" by auto
  then have "FetchAccounts_comm comm Wr peer (fetch_request addresses a) = Some (Inr ?msg)"
    using assms(3) by (simp add: FetchAccounts_comm_def relabel_def)
  with assms(1,2,8) show ?thesis
    by (simp add: FetchAccounts_def) (simp add: accounts_msg_def ack_ok_def ack_def)
qed

definition demo_remote :: "NodeInfo option AvailabilityResponse" where
  "demo_remote = \<lparr>AvailabilityResponse_IsAvailable = True, AvailabilityResponse_Nodeinfo = Some \<lparr>NodeInfo_PeerId = [9],
       NodeInfo_Multiaddrs = [[4]], NodeInfo_Capabilities = [], NodeInfo_PublicKey = [], NodeInfo_Version = 1, NodeInfo_Protocol = []\<rparr>,
     AvailabilityResponse_BlockMerge = 0, AvailabilityResponse_Auth = Some \<lparr>Auth_UUID = ''t''\<rparr>, AvailabilityResponse_Phase = None,
     AvailabilityResponse_BlockHeight = 0\<rparr>"

definition fetch_wire :: "AccountSyncRequestAccounts \<Rightarrow> unit AccountSyncResponse \<Rightarrow> unit acc_wire" where
  "fetch_wire req resp = \<lparr>aw_chunk = table_codec [], aw_msg = table_codec [], aw_fetch = table_codec [(req, [1])],
     aw_accounts = table_codec [(resp, [2])]\<rparr>"

theorem fetch_accounts_over_the_wire_witness:
  "\<exists>Wr resp. FetchAccounts Inr Inr Wr (Some demo_remote) [''did:x:a'', ''b''] (SetSyncVars_as (Some (demo_host [[1, 2]])) 1 NewAccountSync) =
      Some (Inr resp) \<and> AccountsResp_Accounts resp = [bare_account (demo_account 5) :: unit pbAccount]"
proof -
  let ?a = "\<lparr>Auth_UUID = ''t''\<rparr>" and ?addr = "[''did:x:a'', ''b'']" and ?H = "demo_host [[1, 2]]"
  let ?comm = "NewCommunication (Some ?H) 1" and ?as = "SetSyncVars_as (Some ?H) 1 NewAccountSync"
  let ?req = "fetch_request ?addr ?a"
  let ?msg = "accounts_msg (map bare_account (found_accounts demo_accounts ?addr)) ACCOUNTS_SYNC_REQUEST_ACCOUNTS_RESPONSE SUCCESS True []
    (Some ?a) :: unit AccountSyncResponse"
  let ?W = "fetch_wire ?req ?msg" and ?ni = "the (AvailabilityResponse_Nodeinfo demo_remote)"
  let ?peer = "empty_Nodeinfo\<lparr>Nodeinfo_PeerID := [9], Nodeinfo_Multiaddr := [[4]], Nodeinfo_Version := 1\<rparr> :: unit Nodeinfo"
  have one: "PutUvarint 1 = [1]" by (simp add: PutUvarint.simps word_le_nat_alt)
  have found: "found_accounts demo_accounts ?addr = [demo_account 5]"
    by (simp add: found_accounts_def demo_accounts_def lookupKeyForFetch_def HasPrefix_def last_part_def)
  have r: "check_remote ''accountsfetch'' ?as (Some demo_remote) = Inr (?ni, ?a, ?comm)"
    by (simp add: check_remote_def demo_remote_def SetSyncVars_as_def NewAccountSync_def)
  have n: "ToNodeinfo Inr Inr (Some ?ni) = Inr ?peer" by (simp add: ToNodeinfo_def demo_remote_def empty_Nodeinfo_def)
  have "addr_info ?peer = addr_info demo_node" by (simp add: addr_info_def demo_node_def)
  with demo_connect have H: "reaches ?H 1 (addr_info ?peer) [AccountsSyncFetchProtocol] AccountsSyncFetchProtocol"
    by (simp add: reaches_def) (simp add: demo_host_def addr_info_def demo_node_def)
  have codec: "good_codec (aw_fetch ?W)" "good_codec (aw_accounts ?W)"
    by (auto simp: good_codec_def fetch_wire_def table_codec_def split: if_splits)
  have M: "Marshal (aw_fetch ?W) ?req = Inr [1]" "Marshal (aw_accounts ?W) ?msg = Inr [2]"
    by (simp_all add: fetch_wire_def table_codec_def)
  let ?str = "\<lparr>rs_chunks = [[1, 1]], rs_end = ''EOF''\<rparr>"
  have "ReadDelimited (aw_fetch ?W) ?str = Some (\<lparr>rs_chunks = [], rs_end = ''EOF''\<rparr>, Inr ?req)"
    using ReadDelimited_frame [of "aw_fetch ?W" "[1]" ?req "[[1, 1]]" "\<lparr>rs_chunks = [], rs_end = ''EOF''\<rparr>"]
    by (simp add: frame_def one fetch_wire_def table_codec_def)
  moreover obtain s' where "HandleAccountsFetch demo_server_env demo_accounts ?req [1] demo_router = Some (s', ?msg)"
    using HandleAccountsFetch_served [OF demo_token_held, of demo_accounts ?addr] by blast
  ultimately have srv: "HandleAccountsFetch_stream demo_server_env demo_accounts ?W net_write [1] False ?str demo_router [] = Some (s', [[1], [2]])"
    by (simp add: HandleAccountsFetch_stream_def plain_handler_def WriteDelimited_def M(2) net_write_def one)
  have "all_answers ?H AccountsSyncFetchProtocol (frame_writes (aw_fetch ?W) ?req) = [[1, 2]]"
    by (simp add: all_answers_def frame_writes_def M one demo_host_def upt_rec)
  then have al: "aligned (all_answers ?H AccountsSyncFetchProtocol (frame_writes (aw_fetch ?W) ?req)) [[1], [2]]"
    by simp (rule exI [of _ 1], simp)
  have "comm_host ?comm = Some ?H" "reaches ?H (comm_protocolVersion ?comm) (addr_info ?peer) [AccountsSyncFetchProtocol] AccountsSyncFetchProtocol"
    using H by (simp_all add: NewCommunication_def)
  moreover have "\<not> isl (Marshal (aw_accounts ?W) ?msg)" "concat (rs_chunks ?str) = frame [1]" "[] \<notin> set (rs_chunks ?str)" "?addr \<noteq> []"
    by (simp_all add: M frame_def one)
  ultimately have "\<exists>resp. FetchAccounts Inr Inr ?W (Some demo_remote) ?addr ?as = Some (Inr resp) \<and>
      AccountsResp_Accounts resp = map bare_account (found_accounts demo_accounts ?addr)"
    using fetch_accounts_over_the_wire [OF r n _ _ codec M(1) _ demo_token_held _ _ _ srv al] by blast
  then show ?thesis by (auto simp: found)
qed

end
