(* ===== verification/FS_Blocks.thy ===== *)
theory FS_Blocks
  imports FS_PoTS_WAL
begin

text \<open>
  \<open>helper/Blocks/block_converter.go\<close>: the conversion of a block between \<open>types.ZKBlock\<close> and its protobuf message
  \<open>blockpb.ZKBlock\<close>, which live streaming sends. \<open>types.ZKBlock\<close> is the record \<open>ZKBlock\<close> of the other theories with
  all the fields as its content. A nil big integer or address is \<open>None\<close>; the message keeps the bytes. The two
  functions of go-ethereum, which cut or pad a byte string to 32 and to 20 bytes, are the record \<open>eth_ops\<close>.
\<close>

section \<open>Blocks and messages\<close>

record AccessTuple =
  AccessTuple_Address :: bytes
  AccessTuple_StorageKeys :: "bytes list"

record Transaction =
  Tx_Hash :: bytes
  Tx_From :: "bytes option"
  Tx_To :: "bytes option"
  Tx_Value :: "int option"
  Tx_Type :: "8 word"
  Tx_Timestamp :: u64
  Tx_ChainID :: "int option"
  Tx_Nonce :: u64
  Tx_GasLimit :: u64
  Tx_GasPrice :: "int option"
  Tx_MaxFee :: "int option"
  Tx_MaxPriorityFee :: "int option"
  Tx_Data :: bytes
  Tx_AccessList :: "AccessTuple list"
  Tx_V :: "int option"
  Tx_R :: "int option"
  Tx_S :: "int option"

text \<open>The fields of \<open>types.ZKBlock\<close> besides its number and its hash.\<close>

record block_fields =
  Block_StarkProof :: bytes
  Block_Commitment :: "u32 list"
  Block_ProofHash :: string
  Block_Status :: string
  Block_TxnsRoot :: string
  Block_Transactions :: "Transaction list"
  Block_Timestamp :: i64
  Block_ExtraData :: string
  Block_StateRoot :: bytes
  Block_LogsBloom :: bytes
  Block_CoinbaseAddr :: "bytes option"
  Block_ZKVMAddr :: "bytes option"
  Block_PrevHash :: bytes
  Block_GasLimit :: u64
  Block_GasUsed :: u64

record Transaction_pb =
  pbTx_Hash :: bytes
  pbTx_From :: bytes
  pbTx_To :: bytes
  pbTx_Value :: bytes
  pbTx_Type :: u32
  pbTx_Timestamp :: u64
  pbTx_ChainId :: bytes
  pbTx_Nonce :: u64
  pbTx_GasLimit :: u64
  pbTx_GasPrice :: bytes
  pbTx_MaxFee :: bytes
  pbTx_MaxPriorityFee :: bytes
  pbTx_Data :: bytes
  pbTx_AccessList :: "AccessTuple list"
  pbTx_V :: bytes
  pbTx_R :: bytes
  pbTx_S :: bytes

record ZKBlock_pb =
  pbBlock_StarkProof :: bytes
  pbBlock_Commitment :: "u32 list"
  pbBlock_ProofHash :: string
  pbBlock_Status :: string
  pbBlock_TxnsRoot :: string
  pbBlock_Transactions :: "Transaction_pb option list"
  pbBlock_Timestamp :: i64
  pbBlock_ExtraData :: string
  pbBlock_StateRoot :: bytes
  pbBlock_LogsBloom :: bytes
  pbBlock_CoinbaseAddr :: bytes
  pbBlock_ZkvmAddr :: bytes
  pbBlock_PrevHash :: bytes
  pbBlock_BlockHash :: bytes
  pbBlock_GasLimit :: u64
  pbBlock_GasUsed :: u64
  pbBlock_BlockNumber :: u64

text \<open>The messages a getter of a nil pointer reads.\<close>

definition zero_Transaction_pb :: Transaction_pb where
  "zero_Transaction_pb = \<lparr>pbTx_Hash = [], pbTx_From = [], pbTx_To = [], pbTx_Value = [], pbTx_Type = 0, pbTx_Timestamp = 0,
     pbTx_ChainId = [], pbTx_Nonce = 0, pbTx_GasLimit = 0, pbTx_GasPrice = [], pbTx_MaxFee = [], pbTx_MaxPriorityFee = [],
     pbTx_Data = [], pbTx_AccessList = [], pbTx_V = [], pbTx_R = [], pbTx_S = []\<rparr>"

definition zero_ZKBlock_pb :: ZKBlock_pb where
  "zero_ZKBlock_pb = \<lparr>pbBlock_StarkProof = [], pbBlock_Commitment = [], pbBlock_ProofHash = [], pbBlock_Status = [],
     pbBlock_TxnsRoot = [], pbBlock_Transactions = [], pbBlock_Timestamp = 0, pbBlock_ExtraData = [], pbBlock_StateRoot = [],
     pbBlock_LogsBloom = [], pbBlock_CoinbaseAddr = [], pbBlock_ZkvmAddr = [], pbBlock_PrevHash = [], pbBlock_BlockHash = [],
     pbBlock_GasLimit = 0, pbBlock_GasUsed = 0, pbBlock_BlockNumber = 0\<rparr>"

record eth_ops =
  eth_BytesToHash :: "bytes \<Rightarrow> bytes"
  eth_BytesToAddress :: "bytes \<Rightarrow> bytes"

section \<open>Big integers\<close>

text \<open>\<open>math/big\<close>: the big-endian bytes of the absolute value, and the value of big-endian bytes.\<close>

fun nat_bytes :: "nat \<Rightarrow> bytes" where
  "nat_bytes n = (if n = 0 then [] else nat_bytes (n div 256) @ [word_of_nat (n mod 256)])"

declare nat_bytes.simps [simp del]

definition big_Bytes :: "int \<Rightarrow> bytes" where
  "big_Bytes n = nat_bytes (nat \<bar>n\<bar>)"

definition big_SetBytes :: "bytes \<Rightarrow> int" where
  "big_SetBytes bs = foldl (\<lambda>a b. a * 256 + uint b) 0 bs"

definition bytesToBigInt :: "bytes \<Rightarrow> int option" where
  "bytesToBigInt b = (if length b = 0 then None else Some (big_SetBytes b))"

definition bigIntToBytes :: "int option \<Rightarrow> bytes" where
  "bigIntToBytes n = (case n of None \<Rightarrow> [] | Some n \<Rightarrow> big_Bytes n)"

text \<open>The tests that guard the addresses: empty bytes are no address.\<close>

definition addr_of_bytes :: "eth_ops \<Rightarrow> bytes \<Rightarrow> bytes option" where
  "addr_of_bytes E b = (if length b > 0 then Some (eth_BytesToAddress E b) else None)"

definition addr_bytes :: "bytes option \<Rightarrow> bytes" where
  "addr_bytes a = (case a of None \<Rightarrow> [] | Some b \<Rightarrow> b)"

section \<open>From the message\<close>

definition protoToTransaction :: "eth_ops \<Rightarrow> Transaction_pb option \<Rightarrow> Transaction" where
  "protoToTransaction E m =
     (let tx = (case m of None \<Rightarrow> zero_Transaction_pb | Some tx \<Rightarrow> tx)
      in \<lparr>Tx_Hash = eth_BytesToHash E (pbTx_Hash tx),
          Tx_From = addr_of_bytes E (pbTx_From tx),
          Tx_To = addr_of_bytes E (pbTx_To tx),
          Tx_Value = bytesToBigInt (pbTx_Value tx), Tx_Type = ucast (pbTx_Type tx), Tx_Timestamp = pbTx_Timestamp tx,
          Tx_ChainID = bytesToBigInt (pbTx_ChainId tx), Tx_Nonce = pbTx_Nonce tx, Tx_GasLimit = pbTx_GasLimit tx,
          Tx_GasPrice = bytesToBigInt (pbTx_GasPrice tx), Tx_MaxFee = bytesToBigInt (pbTx_MaxFee tx),
          Tx_MaxPriorityFee = bytesToBigInt (pbTx_MaxPriorityFee tx), Tx_Data = pbTx_Data tx, Tx_AccessList = [],
          Tx_V = bytesToBigInt (pbTx_V tx), Tx_R = bytesToBigInt (pbTx_R tx), Tx_S = bytesToBigInt (pbTx_S tx)\<rparr>)"

definition ProtoToZKBlock :: "eth_ops \<Rightarrow> ZKBlock_pb option \<Rightarrow> block_fields ZKBlock" where
  "ProtoToZKBlock E m =
     (let pb = (case m of None \<Rightarrow> zero_ZKBlock_pb | Some pb \<Rightarrow> pb)
      in \<lparr>ZKBlock_BlockNumber = pbBlock_BlockNumber pb, ZKBlock_BlockHash = eth_BytesToHash E (pbBlock_BlockHash pb),
          ZKBlock_Content = \<lparr>Block_StarkProof = pbBlock_StarkProof pb, Block_Commitment = pbBlock_Commitment pb,
            Block_ProofHash = pbBlock_ProofHash pb, Block_Status = pbBlock_Status pb, Block_TxnsRoot = pbBlock_TxnsRoot pb,
            Block_Transactions = map (protoToTransaction E) (pbBlock_Transactions pb),
            Block_Timestamp = pbBlock_Timestamp pb, Block_ExtraData = pbBlock_ExtraData pb,
            Block_StateRoot = eth_BytesToHash E (pbBlock_StateRoot pb), Block_LogsBloom = pbBlock_LogsBloom pb,
            Block_CoinbaseAddr = addr_of_bytes E (pbBlock_CoinbaseAddr pb),
            Block_ZKVMAddr = addr_of_bytes E (pbBlock_ZkvmAddr pb),
            Block_PrevHash = eth_BytesToHash E (pbBlock_PrevHash pb),
            Block_GasLimit = pbBlock_GasLimit pb, Block_GasUsed = pbBlock_GasUsed pb\<rparr>\<rparr>)"

section \<open>To the message\<close>

definition transactionToProto :: "Transaction \<Rightarrow> Transaction_pb" where
  "transactionToProto tx = \<lparr>pbTx_Hash = Tx_Hash tx,
     pbTx_From = addr_bytes (Tx_From tx), pbTx_To = addr_bytes (Tx_To tx),
     pbTx_Value = bigIntToBytes (Tx_Value tx), pbTx_Type = ucast (Tx_Type tx), pbTx_Timestamp = Tx_Timestamp tx,
     pbTx_ChainId = bigIntToBytes (Tx_ChainID tx), pbTx_Nonce = Tx_Nonce tx, pbTx_GasLimit = Tx_GasLimit tx,
     pbTx_GasPrice = bigIntToBytes (Tx_GasPrice tx), pbTx_MaxFee = bigIntToBytes (Tx_MaxFee tx),
     pbTx_MaxPriorityFee = bigIntToBytes (Tx_MaxPriorityFee tx), pbTx_Data = Tx_Data tx, pbTx_AccessList = [],
     pbTx_V = bigIntToBytes (Tx_V tx), pbTx_R = bigIntToBytes (Tx_R tx), pbTx_S = bigIntToBytes (Tx_S tx)\<rparr>"

definition ZKBlockToProto :: "block_fields ZKBlock \<Rightarrow> ZKBlock_pb" where
  "ZKBlockToProto b =
     (let c = ZKBlock_Content b
      in \<lparr>pbBlock_StarkProof = Block_StarkProof c, pbBlock_Commitment = Block_Commitment c,
          pbBlock_ProofHash = Block_ProofHash c, pbBlock_Status = Block_Status c, pbBlock_TxnsRoot = Block_TxnsRoot c,
          pbBlock_Transactions = map (Some \<circ> transactionToProto) (Block_Transactions c),
          pbBlock_Timestamp = Block_Timestamp c, pbBlock_ExtraData = Block_ExtraData c,
          pbBlock_StateRoot = Block_StateRoot c, pbBlock_LogsBloom = Block_LogsBloom c,
          pbBlock_CoinbaseAddr = addr_bytes (Block_CoinbaseAddr c),
          pbBlock_ZkvmAddr = addr_bytes (Block_ZKVMAddr c),
          pbBlock_PrevHash = Block_PrevHash c, pbBlock_BlockHash = ZKBlock_BlockHash b,
          pbBlock_GasLimit = Block_GasLimit c, pbBlock_GasUsed = Block_GasUsed c,
          pbBlock_BlockNumber = ZKBlock_BlockNumber b\<rparr>)"

section \<open>Round trip\<close>

text \<open>What the documentation of go-ethereum promises; the instance cuts and pads on the left.\<close>

definition eth_law :: "eth_ops \<Rightarrow> bool" where
  "eth_law E \<longleftrightarrow> (\<forall>b. length b = 32 \<longrightarrow> eth_BytesToHash E b = b) \<and> (\<forall>b. length b = 20 \<longrightarrow> eth_BytesToAddress E b = b)"

definition left_pad :: "nat \<Rightarrow> bytes \<Rightarrow> bytes" where
  "left_pad n b = replicate (n - length b) 0 @ drop (length b - n) b"

definition geth :: eth_ops where
  "geth = \<lparr>eth_BytesToHash = left_pad 32, eth_BytesToAddress = left_pad 20\<rparr>"

lemma eth_law_geth: "eth_law geth"
  by (simp add: eth_law_def geth_def left_pad_def)

text \<open>Hashes are arrays of 32 bytes and addresses of 20.\<close>

definition addr_ok :: "bytes option \<Rightarrow> bool" where
  "addr_ok a \<longleftrightarrow> (case a of None \<Rightarrow> True | Some b \<Rightarrow> length b = 20)"

definition tx_typed :: "Transaction \<Rightarrow> bool" where
  "tx_typed tx \<longleftrightarrow> length (Tx_Hash tx) = 32 \<and> addr_ok (Tx_From tx) \<and> addr_ok (Tx_To tx)"

definition block_typed :: "block_fields ZKBlock \<Rightarrow> bool" where
  "block_typed b \<longleftrightarrow> (let c = ZKBlock_Content b in length (ZKBlock_BlockHash b) = 32 \<and> length (Block_StateRoot c) = 32 \<and>
     length (Block_PrevHash c) = 32 \<and> addr_ok (Block_CoinbaseAddr c) \<and> addr_ok (Block_ZKVMAddr c) \<and>
     (\<forall>tx\<in>set (Block_Transactions c). tx_typed tx))"

text \<open>What a transaction keeps of a big integer: nothing of zero, and not the sign.\<close>

definition kept :: "int option \<Rightarrow> int option" where
  "kept n = (case n of None \<Rightarrow> None | Some i \<Rightarrow> if i = 0 then None else Some \<bar>i\<bar>)"

definition tx_kept :: "Transaction \<Rightarrow> Transaction" where
  "tx_kept tx = tx\<lparr>Tx_Value := kept (Tx_Value tx), Tx_ChainID := kept (Tx_ChainID tx), Tx_GasPrice := kept (Tx_GasPrice tx),
     Tx_MaxFee := kept (Tx_MaxFee tx), Tx_MaxPriorityFee := kept (Tx_MaxPriorityFee tx), Tx_AccessList := [],
     Tx_V := kept (Tx_V tx), Tx_R := kept (Tx_R tx), Tx_S := kept (Tx_S tx)\<rparr>"

definition block_kept :: "block_fields ZKBlock \<Rightarrow> block_fields ZKBlock" where
  "block_kept b = b\<lparr>ZKBlock_Content := (ZKBlock_Content b)\<lparr>Block_Transactions :=
     map tx_kept (Block_Transactions (ZKBlock_Content b))\<rparr>\<rparr>"

lemma nat_bytes_Nil [simp]: "nat_bytes n = [] \<longleftrightarrow> n = 0"
  by (subst nat_bytes.simps) simp

lemma nat_bytes_0 [simp]: "nat_bytes 0 = []"
  by simp

lemma big_SetBytes_snoc: "big_SetBytes (bs @ [b]) = big_SetBytes bs * 256 + uint b"
  by (simp add: big_SetBytes_def)

lemma big_SetBytes_nat_bytes: "big_SetBytes (nat_bytes n) = int n"
proof (induction n rule: nat_bytes.induct)
  case (1 n)
  show ?case
  proof (cases "n = 0")
    case True
    then show ?thesis by (simp add: big_SetBytes_def)
  next
    case False
    have u: "uint (word_of_nat (n mod 256) :: 8 word) = int (n mod 256)"
      by (simp add: uint_nat unat_of_nat)
    have "nat_bytes n = nat_bytes (n div 256) @ [word_of_nat (n mod 256)]"
      using False by (subst nat_bytes.simps) simp
    then have "big_SetBytes (nat_bytes n) = int (n div 256) * 256 + int (n mod 256)"
      by (simp only: big_SetBytes_snoc 1 [OF False] u)
    also have "\<dots> = int (n div 256 * 256 + n mod 256)" by (simp only: of_nat_add of_nat_mult of_nat_numeral)
    also have "\<dots> = int n" by (simp only: div_mult_mod_eq)
    finally show ?thesis .
  qed
qed

lemma bigint_roundtrip: "bytesToBigInt (bigIntToBytes n) = kept n"
  by (auto simp: bytesToBigInt_def bigIntToBytes_def kept_def big_Bytes_def big_SetBytes_nat_bytes split: option.splits)

lemma kept_id: "kept n = n \<longleftrightarrow> (\<forall>i. n = Some i \<longrightarrow> 0 < i)"
  by (auto simp: kept_def split: option.splits)

lemma ucast_type: "ucast (ucast (t :: 8 word) :: u32) = t"
  by (simp add: unsigned_ucast_eq take_bit_word_eq_self)

lemma hash_id: "eth_law E \<Longrightarrow> length b = 32 \<Longrightarrow> eth_BytesToHash E b = b"
  by (simp add: eth_law_def)

lemma addr_roundtrip: "eth_law E \<Longrightarrow> addr_ok a \<Longrightarrow> addr_of_bytes E (addr_bytes a) = a"
  by (auto simp: eth_law_def addr_ok_def addr_of_bytes_def addr_bytes_def split: option.splits)

lemma transaction_roundtrip:
  "eth_law E \<Longrightarrow> tx_typed tx \<Longrightarrow> protoToTransaction E (Some (transactionToProto tx)) = tx_kept tx"
  by (cases tx) (simp add: protoToTransaction_def transactionToProto_def tx_kept_def bigint_roundtrip ucast_type tx_typed_def
      addr_roundtrip hash_id Let_def)

lemma block_roundtrip:
  assumes "eth_law E" "block_typed b"
  shows "ProtoToZKBlock E (Some (ZKBlockToProto b)) = block_kept b"
proof -
  have "map (protoToTransaction E) (map (Some \<circ> transactionToProto) (Block_Transactions (ZKBlock_Content b))) =
      map tx_kept (Block_Transactions (ZKBlock_Content b))"
    using assms by (auto simp: block_typed_def transaction_roundtrip Let_def)
  then show ?thesis using assms
    by (cases b, cases "ZKBlock_Content b")
      (simp add: ProtoToZKBlock_def ZKBlockToProto_def block_kept_def block_typed_def addr_roundtrip hash_id Let_def)
qed

text \<open>The transactions that survive: no access list, and every big integer is nil or positive.\<close>

definition tx_numbers :: "Transaction \<Rightarrow> int option list" where
  "tx_numbers tx = [Tx_Value tx, Tx_ChainID tx, Tx_GasPrice tx, Tx_MaxFee tx, Tx_MaxPriorityFee tx, Tx_V tx, Tx_R tx, Tx_S tx]"

definition tx_plain :: "Transaction \<Rightarrow> bool" where
  "tx_plain tx \<longleftrightarrow> Tx_AccessList tx = [] \<and> (\<forall>n\<in>set (tx_numbers tx). kept n = n)"

lemma tx_kept_sel: "Tx_AccessList (tx_kept tx) = []" "tx_numbers (tx_kept tx) = map kept (tx_numbers tx)"
  by (simp_all add: tx_kept_def tx_numbers_def)

lemma tx_kept_id: "tx_kept tx = tx \<longleftrightarrow> tx_plain tx"
proof
  assume "tx_kept tx = tx"
  then have "Tx_AccessList tx = []" "map kept (tx_numbers tx) = tx_numbers tx"
    using tx_kept_sel [of tx] by simp_all
  then show "tx_plain tx" unfolding tx_plain_def by (metis list.map_ident map_eq_conv)
next
  assume "tx_plain tx"
  then have "Tx_AccessList tx = []" "\<And>n. n \<in> set (tx_numbers tx) \<Longrightarrow> kept n = n" by (simp_all add: tx_plain_def)
  then show "tx_kept tx = tx" by (intro Transaction.equality) (simp_all add: tx_kept_def tx_numbers_def)
qed

lemma block_kept_id: "block_kept b = b \<longleftrightarrow> (\<forall>tx\<in>set (Block_Transactions (ZKBlock_Content b)). tx_plain tx)"
proof -
  let ?txs = "Block_Transactions (ZKBlock_Content b)"
  have "Block_Transactions (ZKBlock_Content (block_kept b)) = map tx_kept ?txs" by (simp add: block_kept_def)
  moreover have "block_kept b = b" if "map tx_kept ?txs = ?txs" unfolding block_kept_def that by simp
  ultimately have "block_kept b = b \<longleftrightarrow> map tx_kept ?txs = ?txs" by metis
  also have "\<dots> \<longleftrightarrow> (\<forall>tx\<in>set (Block_Transactions (ZKBlock_Content b)). tx_kept tx = tx)"
    using map_eq_conv [of tx_kept ?txs "\<lambda>x. x"] by simp
  finally show ?thesis by (simp add: tx_kept_id)
qed

text \<open>The conversion of a block to its message and back changes nothing but the transactions: a zero becomes a nil big
  integer, a negative one loses its sign, and an access list is dropped. The block survives exactly when its transactions
  have no access list and no big integer that is zero or negative.\<close>

theorem block_conversion_exact:
  assumes "eth_law E" and "block_typed b"
  shows "ProtoToZKBlock E (Some (ZKBlockToProto b)) = block_kept b \<and>
    (ProtoToZKBlock E (Some (ZKBlockToProto b)) = b \<longleftrightarrow>
      (\<forall>tx\<in>set (Block_Transactions (ZKBlock_Content b)). Tx_AccessList tx = [] \<and>
         (\<forall>n\<in>set (tx_numbers tx). \<forall>i. n = Some i \<longrightarrow> 0 < i)))"
  using block_roundtrip [OF assms] by (simp add: block_kept_id tx_plain_def kept_id)

definition demo_value_tx :: "int \<Rightarrow> Transaction" where
  "demo_value_tx v = \<lparr>Tx_Hash = replicate 32 1, Tx_From = Some (replicate 20 2), Tx_To = None, Tx_Value = Some v, Tx_Type = 2,
     Tx_Timestamp = 7, Tx_ChainID = Some 5, Tx_Nonce = 3, Tx_GasLimit = 21000, Tx_GasPrice = None, Tx_MaxFee = Some 9,
     Tx_MaxPriorityFee = Some 1, Tx_Data = [], Tx_AccessList = [], Tx_V = Some 1, Tx_R = Some 4, Tx_S = Some 6\<rparr>"

definition demo_live_block :: "int \<Rightarrow> block_fields ZKBlock" where
  "demo_live_block v = \<lparr>ZKBlock_BlockNumber = 12, ZKBlock_BlockHash = replicate 32 3, ZKBlock_Content = \<lparr>Block_StarkProof = [],
     Block_Commitment = [], Block_ProofHash = ''p'', Block_Status = ''ok'', Block_TxnsRoot = [], Block_Transactions = [demo_value_tx v],
     Block_Timestamp = 7, Block_ExtraData = [], Block_StateRoot = replicate 32 4, Block_LogsBloom = [], Block_CoinbaseAddr = None,
     Block_ZKVMAddr = None, Block_PrevHash = replicate 32 5, Block_GasLimit = 1, Block_GasUsed = 1\<rparr>\<rparr>"

lemma demo_live_block_typed: "block_typed (demo_live_block v)"
  by (simp add: block_typed_def demo_live_block_def demo_value_tx_def tx_typed_def addr_ok_def Let_def)

theorem block_conversion_exact_witness:
  "ProtoToZKBlock geth (Some (ZKBlockToProto (demo_live_block 1000))) = demo_live_block 1000 \<and>
   ProtoToZKBlock geth (Some (ZKBlockToProto (demo_live_block 0))) \<noteq> demo_live_block 0"
proof -
  have tx: "Block_Transactions (ZKBlock_Content (demo_live_block v)) = [demo_value_tx v]" "Tx_AccessList (demo_value_tx v) = []"
    "tx_numbers (demo_value_tx v) = [Some v, Some 5, None, Some 9, Some 1, Some 1, Some 4, Some 6]" for v
    by (simp_all add: demo_live_block_def demo_value_tx_def tx_numbers_def)
  have "ProtoToZKBlock geth (Some (ZKBlockToProto (demo_live_block v))) = demo_live_block v \<longleftrightarrow> 0 < v" for v
    using block_conversion_exact [OF eth_law_geth demo_live_block_typed, THEN conjunct2, of v] by (simp add: tx)
  then show ?thesis by simp
qed

end
