(* ===== verification/FS_Entry.thy ===== *)
theory FS_Entry
  imports FS_Comm FS_PoTS_WAL FS_HeaderSync
begin

text \<open>
  The entry points of the client: \<open>core/availability/availability.go\<close>, the PoTS client \<open>core/pots/pots.go\<close> with
  \<open>core/pots/helper\<close>, and \<open>PriorSync\<close> of \<open>core/priorsync/priorsync.go\<close>. Contexts are left out: a cancelled
  request is a failing one. A nil pointer that is read is \<open>None\<close>.
\<close>

section \<open>types.Syncvars\<close>

record ('l, 'x) Syncvars =
  SV_Version :: u16
  SV_NodeInfo :: "'x Nodeinfo"
  SV_WAL :: "'l WAL option"
  SV_Node :: "host option"

definition empty_Syncvars :: "('l, 'x) Syncvars" where
  "empty_Syncvars = \<lparr>SV_Version = 0, SV_NodeInfo = empty_Nodeinfo, SV_WAL = None, SV_Node = None\<rparr>"

section \<open>availability.go\<close>

record ('l, 'x) Availability =
  Av_SyncVars :: "('l, 'x) Syncvars option"
  Av_Comm :: "communication option"

definition NewAvailability :: "('l, 'x) Availability" where
  "NewAvailability = \<lparr>Av_SyncVars = None, Av_Comm = None\<rparr>"

definition SetSyncVars_av :: "u16 \<Rightarrow> 'x Nodeinfo \<Rightarrow> host option \<Rightarrow> 'l WAL option \<Rightarrow> ('l, 'x) Availability \<Rightarrow> ('l, 'x) Availability" where
  "SetSyncVars_av protocolVersion nodeInfo node wal a = a\<lparr>Av_Comm := Some (NewCommunication node protocolVersion),
     Av_SyncVars := Some \<lparr>SV_Version = protocolVersion, SV_NodeInfo = nodeInfo, SV_WAL = wal, SV_Node = node\<rparr>\<rparr>"

definition SetSyncVarsConfig_av :: "('l, 'x) Syncvars \<Rightarrow> ('l, 'x) Availability \<Rightarrow> ('l, 'x) Availability" where
  "SetSyncVarsConfig_av syncVars a = a\<lparr>Av_SyncVars := Some syncVars\<rparr>"

definition availability_request :: "u64 \<Rightarrow> u64 \<Rightarrow> AvailabilityRequest" where
  "availability_request startBlock endBlock =
     \<lparr>AvailabilityRequest_Range = Some \<lparr>Range_Start = startBlock, Range_End = endBlock\<rparr>\<rparr>"

definition SendAvailabilityRequest :: "'b wire \<Rightarrow> ('l, 'x) Syncvars option \<Rightarrow> 'y Nodeinfo \<Rightarrow> u64 \<Rightarrow> u64 \<Rightarrow> ('l, 'x) Availability \<Rightarrow>
    (('l, 'x) Availability \<times> (string + NodeInfo option AvailabilityResponse)) option" where
  "SendAvailabilityRequest Wr syncVars peerNode startBlock endBlock a =
     (if syncVars = None then Some (a, Inl ''syncVars is nil'')
      else case Av_SyncVars a of None \<Rightarrow> None
        | Some sv \<Rightarrow> let comm = NewCommunication (SV_Node sv) (SV_Version sv) in
           (case SendAvailabilityRequest_comm comm Wr peerNode (availability_request startBlock endBlock) of
              None \<Rightarrow> None | Some res \<Rightarrow> Some (a\<lparr>Av_Comm := Some comm\<rparr>, res)))"

text \<open>The answers the workers put into the channel: \<open>order\<close> lists the peers in the order in which their requests end.\<close>

fun collect_available :: "('p \<Rightarrow> (string + NodeInfo option AvailabilityResponse) option) \<Rightarrow> 'p list \<Rightarrow>
    NodeInfo option AvailabilityResponse list option" where
  "collect_available send [] = Some []"
| "collect_available send (peer # peers) = (case send peer of None \<Rightarrow> None
     | Some res \<Rightarrow> (case collect_available send peers of None \<Rightarrow> None
        | Some rs \<Rightarrow> Some (case res of Inl _ \<Rightarrow> rs | Inr r \<Rightarrow> if AvailabilityResponse_IsAvailable r then r # rs else rs)))"

definition SendMultipleAvailabilityRequest :: "'b wire \<Rightarrow> ('y Nodeinfo list \<Rightarrow> 'y Nodeinfo list) \<Rightarrow> ('l, 'x) Syncvars option \<Rightarrow>
    'y Nodeinfo list \<Rightarrow> u64 \<Rightarrow> u64 \<Rightarrow> ('l, 'x) Availability \<Rightarrow>
    (('l, 'x) Availability \<times> (string + NodeInfo option AvailabilityResponse list)) option" where
  "SendMultipleAvailabilityRequest Wr order syncVars peerNode startBlock endBlock a =
     (if syncVars = None then Some (a, Inl ''syncVars is nil'')
      else case Av_SyncVars a of None \<Rightarrow> None
        | Some sv \<Rightarrow>
           let comm = NewCommunication (SV_Node sv) (SV_Version sv); a1 = a\<lparr>Av_Comm := Some comm\<rparr>
           in (case peerNode of [] \<Rightarrow> Some (a1, Inr [])
              | [peer] \<Rightarrow> (case SendAvailabilityRequest Wr syncVars peer startBlock endBlock a1 of None \<Rightarrow> None
                   | Some (a2, Inl e) \<Rightarrow> Some (a2, Inl e) | Some (a2, Inr data) \<Rightarrow> Some (a2, Inr [data]))
              | _ \<Rightarrow> map_option (\<lambda>rs. (a1, Inr rs))
                   (collect_available (\<lambda>peer. SendAvailabilityRequest_comm comm Wr peer (availability_request startBlock endBlock))
                      (order peerNode))))"

definition Close_av :: "('l, 'x) Availability \<Rightarrow> ('l, 'x) Availability" where
  "Close_av a = \<lparr>Av_SyncVars = None, Av_Comm = None\<rparr>"

section \<open>pots.go\<close>

text \<open>\<open>types.PoTS\<close> without its context and its log, which nothing here sets or reads.\<close>

record PoTSState =
  PoTSState_SyncStartTime :: i64
  PoTSState_ProtocolVersion :: u16

record ('l, 'x) PoTS =
  PoTS_SyncVars :: "('l, 'x) Syncvars option"
  PoTS_Comm :: "communication option"
  PoTS_State :: "PoTSState option"
  PoTS_WAL :: "'l PoTSWAL option"

definition NewPoTS :: "('l, 'x) PoTS" where
  "NewPoTS = \<lparr>PoTS_SyncVars = None, PoTS_Comm = None, PoTS_State = None, PoTS_WAL = None\<rparr>"

text \<open>\<open>now\<close> is the clock; the WAL of existing sync variables stays.\<close>

definition SetSyncVars_pots :: "i64 \<Rightarrow> u16 \<Rightarrow> 'x Nodeinfo \<Rightarrow> host option \<Rightarrow> ('l, 'x) PoTS \<Rightarrow> ('l, 'x) PoTS" where
  "SetSyncVars_pots now protocolVersion nodeInfo node p =
     (let sv = (case PoTS_SyncVars p of None \<Rightarrow> empty_Syncvars | Some sv \<Rightarrow> sv)
      in p\<lparr>PoTS_Comm := Some (NewCommunication node protocolVersion),
           PoTS_SyncVars := Some (sv\<lparr>SV_Version := protocolVersion, SV_NodeInfo := nodeInfo, SV_Node := node\<rparr>),
           PoTS_State := Some \<lparr>PoTSState_SyncStartTime = now, PoTSState_ProtocolVersion = protocolVersion\<rparr>\<rparr>)"

definition StartPoTS :: "PoTSState option \<Rightarrow> ('l, 'x) PoTS \<Rightarrow> ('l, 'x) PoTS" where
  "StartPoTS pots p = (if PoTS_SyncVars p = None then p else p\<lparr>PoTS_State := pots\<rparr>)"

definition SendPoTSRequest_pots :: "'b wire \<Rightarrow> ('l, 'x) PoTS \<Rightarrow> PoTSRequest option \<Rightarrow> 'y Nodeinfo \<Rightarrow> (string + PoTSResponse) option" where
  "SendPoTSRequest_pots Wr p PoTSRequest remote = (case PoTSRequest of None \<Rightarrow> Some (Inl ''PoTS request is nil'')
     | Some req \<Rightarrow> (case PoTS_Comm p of None \<Rightarrow> Some (Inl ''communicator not set'')
        | Some comm \<Rightarrow> (case SendPoTSRequest comm Wr remote req of None \<Rightarrow> None
           | Some (Inl e) \<Rightarrow> Some (Inl (''failed to send PoTS request: '' @ e))
           | Some (Inr resp) \<Rightarrow> (case PoTSResponse_Phase resp of None \<Rightarrow> None
               | Some ph \<Rightarrow> Some (if Phase_Success ph then Inr resp
                   else Inl (''PoTS request failed: '' @ (if Phase_Error ph = [] then ''unknown error'' else Phase_Error ph)))))))"

text \<open>\<open>SetWAL\<close> returns the router; \<open>Some None\<close> is the nil router of a failed index. A nil WAL is read by \<open>NewPoTSWAL\<close>.\<close>

definition SetWAL :: "'l log_ops \<Rightarrow> 'l WAL option \<Rightarrow> ('l, 'x) PoTS \<Rightarrow> ('l, 'x) PoTS option option" where
  "SetWAL L wal p = (if PoTS_SyncVars p = None \<or> PoTS_WAL p \<noteq> None then Some (Some p)
     else case wal of None \<Rightarrow> None
       | Some w \<Rightarrow> (case NewPoTSWAL L w of Inl _ \<Rightarrow> Some None | Inr pw \<Rightarrow> Some (Some (p\<lparr>PoTS_WAL := Some pw\<rparr>))))"

definition GetWAL :: "('l, 'x) PoTS \<Rightarrow> string + 'l PoTSWAL" where
  "GetWAL p = (case PoTS_WAL p of None \<Rightarrow> Inl ''PoTS WAL not initialized'' | Some pw \<Rightarrow> Inr pw)"

text \<open>The third test of \<open>Validate\<close>, for a nil context, is left out with the contexts.\<close>

definition Validate :: "('l, 'x) PoTS \<Rightarrow> string option" where
  "Validate p = (if PoTS_SyncVars p = None then Some ''PoTS: SetSyncVars not called''
     else if PoTS_State p = None then Some ''PoTS: state not initialised'' else None)"

definition PoTSWALDir :: "string \<Rightarrow> string" where
  "PoTSWALDir baseDir = baseDir @ ''/pots''"

section \<open>core/pots/helper\<close>

definition AddBlock :: "u64 \<Rightarrow> bytes \<Rightarrow> hash_map \<Rightarrow> hash_map" where
  "AddBlock blockNumber blockHash MAP = AList.update blockNumber blockHash MAP"

text \<open>A batch with fewer hashes than numbers is indexed out of range.\<close>

fun AddBlockBatch :: "u64 list \<Rightarrow> bytes list \<Rightarrow> hash_map \<Rightarrow> hash_map option" where
  "AddBlockBatch [] hashes MAP = Some MAP"
| "AddBlockBatch (n # ns) [] MAP = None"
| "AddBlockBatch (n # ns) (h # hs) MAP = AddBlockBatch ns hs (AddBlock n h MAP)"

definition RemoveBlock :: "u64 \<Rightarrow> hash_map \<Rightarrow> hash_map" where
  "RemoveBlock blockNumber MAP = AList.delete blockNumber MAP"

text \<open>The request under construction; its map is nil until one is added.\<close>

record potsrequest_builder =
  PB_Blocks :: "hash_map option"
  PB_LatestBlockNumber :: u64
  PB_Auth :: "Auth option"

definition NewPoTSRequestBuilder :: potsrequest_builder where
  "NewPoTSRequestBuilder = \<lparr>PB_Blocks = None, PB_LatestBlockNumber = 0, PB_Auth = None\<rparr>"

definition AddMap :: "hash_map option \<Rightarrow> potsrequest_builder \<Rightarrow> potsrequest_builder" where
  "AddMap MAP p = p\<lparr>PB_Blocks := MAP\<rparr>"

definition AddBlock_builder :: "u64 \<Rightarrow> bytes \<Rightarrow> potsrequest_builder \<Rightarrow> potsrequest_builder option" where
  "AddBlock_builder blockNumber blockHash p = (case PB_Blocks p of None \<Rightarrow> None
     | Some m \<Rightarrow> Some (p\<lparr>PB_Blocks := Some (AList.update blockNumber blockHash m)\<rparr>))"

definition AddLatestBlock :: "u64 \<Rightarrow> potsrequest_builder \<Rightarrow> potsrequest_builder" where
  "AddLatestBlock blocknumber p = p\<lparr>PB_LatestBlockNumber := blocknumber\<rparr>"

definition AddAuth :: "Auth option \<Rightarrow> potsrequest_builder \<Rightarrow> potsrequest_builder" where
  "AddAuth auth p = p\<lparr>PB_Auth := auth\<rparr>"

definition Build :: "potsrequest_builder \<Rightarrow> PoTSRequest" where
  "Build p = \<lparr>PoTSRequest_Blocks = (case PB_Blocks p of None \<Rightarrow> [] | Some m \<Rightarrow> m),
     PoTSRequest_LatestBlockNumber = PB_LatestBlockNumber p,
     PoTSRequest_Phase = Some (phase PoTS_REQUEST PoTS_RESPONSE False [] (PB_Auth p))\<rparr>"

section \<open>PriorSync\<close>

datatype ps_error =
    PSRemoteNil
  | PSHostNotSet
  | PSTreeFailed string
  | PSSnapshotFailed string
  | PSChecksumFailed string
  | PSRequestFailed string
  | PSWALWriteFailed wal_error
  | PSWALFlushFailed wal_error

definition prior_message :: "PriorSync_details \<Rightarrow> u64 \<Rightarrow> u64 \<Rightarrow> Auth option \<Rightarrow> bytes \<Rightarrow> u16 \<Rightarrow> PriorSyncMessage" where
  "prior_message localDetails remote_start remote_end auth_req checksumBytes checksum_version =
     \<lparr>PriorSyncMessage_Priorsync = Some \<lparr>PriorSync_Blocknumber = Details_Blocknumber localDetails,
         PriorSync_Stateroot = Details_Stateroot localDetails, PriorSync_Blockhash = Details_Blockhash localDetails,
         PriorSync_Metadata = Some (empty_Metadata\<lparr>Metadata_Checksum := checksumBytes, Metadata_Version := ucast checksum_version\<rparr>),
         PriorSync_Merklesnapshot = None,
         PriorSync_Range = Some \<lparr>Range_Start = remote_start, Range_End = remote_end\<rparr>\<rparr>,
       PriorSyncMessage_Ack = None,
       PriorSyncMessage_Phase = Some (phase SYNC_REQUEST_PHASE SYNC_REQUEST_RESPONSE True [] auth_req),
       PriorSyncMessage_Headersync = None\<rparr>"

definition prior_event :: "PriorSyncMessage \<Rightarrow> PriorSyncMessage ProtoEvent" where
  "prior_event resp = \<lparr>ProtoEvent_Base = empty_BaseEvent\<lparr>BaseEvent_Operation := OpAppend\<rparr>,
     ProtoEvent_Message = Some resp, ProtoEvent_ProtoData = []\<rparr>"

text \<open>Step 5 of \<open>PriorSync\<close> and the two WAL calls after it.\<close>

definition log_response :: "'l log_ops \<Rightarrow> (nat \<Rightarrow> fs_env) \<Rightarrow> PriorSyncMessage proto_ops \<Rightarrow> PriorSyncMessage \<Rightarrow> 'l WAL \<Rightarrow>
    'l WAL \<times> ps_error option" where
  "log_response L env P resp w =
     (case WriteEvent L (env 0) FS_WAL.PriorSync (snd (PriorSyncEvent_Serialize P (prior_event resp))) w of
        (w1, Inl e) \<Rightarrow> (w1, Some (PSWALWriteFailed e))
      | (w1, Inr _) \<Rightarrow> (case Flush L (env 1) w1 of (w2, Inl e) \<Rightarrow> (w2, Some (PSWALFlushFailed e)) | (w2, Inr _) \<Rightarrow> (w2, None)))"

definition prior_sync_request :: "(PriorSync_pb \<Rightarrow> string + bytes option) \<Rightarrow> 't merkle_ops \<Rightarrow> 'x BlockInfo \<Rightarrow> u16 \<Rightarrow> u64 \<Rightarrow> u64 \<Rightarrow>
    u64 \<Rightarrow> u64 \<Rightarrow> Auth option \<Rightarrow> ps_error + MerkleSnapshot \<times> PriorSyncMessage" where
  "prior_sync_request marshal M B checksum_version local_start local_end remote_start remote_end auth_req =
     (let localDetails = GetBlockDetails B
      in case GenerateMerkleTree M B local_start local_end of Inl err \<Rightarrow> Inl (PSTreeFailed err)
      | Inr builder \<Rightarrow> (case ToSnapshot M builder of Inl err \<Rightarrow> Inl (PSSnapshotFailed err)
         | Inr pbSnapshot \<Rightarrow>
            (case CreatefromPB marshal (the (PriorSyncMessage_Priorsync (prior_message localDetails remote_start remote_end auth_req [] 0)))
                checksum_version of Inl err \<Rightarrow> Inl (PSChecksumFailed err)
             | Inr c \<Rightarrow> Inr (pbSnapshot, prior_message localDetails remote_start remote_end auth_req c checksum_version))))"

definition PriorSync_PriorSync :: "'l log_ops \<Rightarrow> (nat \<Rightarrow> fs_env) \<Rightarrow> PriorSyncMessage proto_ops \<Rightarrow> (PriorSync_pb \<Rightarrow> string + bytes option) \<Rightarrow>
    't merkle_ops \<Rightarrow> 'b wire \<Rightarrow> u16 \<Rightarrow> u64 \<Rightarrow> u64 \<Rightarrow> u64 \<Rightarrow> u64 \<Rightarrow> 'y Nodeinfo option \<Rightarrow> Auth option \<Rightarrow> ('l, 'x) Syncvars \<Rightarrow>
    (('l, 'x) Syncvars \<times> (ps_error + PriorSyncMessage)) option" where
  "PriorSync_PriorSync L env P marshal M Wr checksum_version local_start local_end remote_start remote_end remote auth_req sv =
     (case remote of None \<Rightarrow> Some (sv, Inl PSRemoteNil)
      | Some peer \<Rightarrow>
        if SV_Node sv = None then Some (sv, Inl PSHostNotSet)
        else (case Nodeinfo_BlockInfo (SV_NodeInfo sv) of None \<Rightarrow> None
        | Some B \<Rightarrow>
          (case prior_sync_request marshal M B checksum_version local_start local_end remote_start remote_end auth_req of
             Inl e \<Rightarrow> Some (sv, Inl e)
           | Inr (pbSnapshot, reqMsg) \<Rightarrow>
             (case SendPriorSync (NewCommunication (SV_Node sv) (SV_Version sv)) Wr (Some pbSnapshot) peer reqMsg of
                None \<Rightarrow> None
              | Some (Inl e) \<Rightarrow> Some (sv, Inl (PSRequestFailed e))
              | Some (Inr resp) \<Rightarrow> (case SV_WAL sv of None \<Rightarrow> None
                 | Some w \<Rightarrow> (case log_response L env P resp w of
                      (w', Some e) \<Rightarrow> Some (sv\<lparr>SV_WAL := Some w'\<rparr>, Inl e)
                    | (w', None) \<Rightarrow> Some (sv\<lparr>SV_WAL := Some w'\<rparr>, Inr resp)))))))"

end
