(* ===== verification/FS_Entry_Props.thy ===== *)
theory FS_Entry_Props
  imports FS_Entry FS_Wire_Props FS_Events_Facts FS_WAL_Live FS_HeaderSync_Props
begin

text \<open>What a prior sync that returns an answer has established: about its request, about the answer, and about the log.\<close>

text \<open>The message is sent without the fields that are not hashed, so its checksum is that of the request.\<close>

lemma prior_sync_request_verifies:
  assumes "prior_sync_request marshal M B cv ls le rs re auth = Inr (snapshot, msg)"
  shows "\<exists>ps md. PriorSyncMessage_Priorsync (prior_request snapshot msg) = Some ps \<and> PriorSync_Metadata ps = Some md \<and>
    PriorSync_Merklesnapshot ps = Some snapshot \<and> PriorSync_Range ps = Some \<lparr>Range_Start = rs, Range_End = re\<rparr> \<and>
    VerifyfromPB marshal ps (ucast (Metadata_Version md)) (Metadata_Checksum md) = Inr True"
  using assms
  by (auto simp: prior_sync_request_def prior_message_def prior_request_def VerifyfromPB_iff CreatefromPB_def version_roundtrip Let_def
      split: sum.splits if_splits)

text \<open>When \<open>PriorSync\<close> returns an answer, the request it sent carries the snapshot of the local tree over the local range and
  the remote range, and the check of the server accepts its checksum; the answer is acknowledged; and it is the last entry of
  the log, already on disk.\<close>

theorem prior_sync_logged:
  assumes "tidwall_log L v" "SV_WAL sv = Some w" "wal_ok v w" "WAL_currentLSN w \<noteq> MaxUint64"
    and "wf_proto P FS_WAL.PriorSync (prior_event resp)"
    and "PriorSync_PriorSync L env P marshal M Wr cv ls le rs re (Some peer) auth sv = Some (sv', Inr resp)"
  shows "\<exists>B builder snapshot msg ps md a w' x ev.
    Nodeinfo_BlockInfo (SV_NodeInfo sv) = Some B \<and> GenerateMerkleTree M B ls le = Inr builder \<and> ToSnapshot M builder = Inr snapshot \<and>
    SendPriorSync (NewCommunication (SV_Node sv) (SV_Version sv)) Wr (Some snapshot) peer msg = Some (Inr resp) \<and>
    PriorSyncMessage_Priorsync (prior_request snapshot msg) = Some ps \<and> PriorSync_Metadata ps = Some md \<and>
    PriorSync_Merklesnapshot ps = Some snapshot \<and> PriorSync_Range ps = Some \<lparr>Range_Start = rs, Range_End = re\<rparr> \<and>
    VerifyfromPB marshal ps (ucast (Metadata_Version md)) (Metadata_Checksum md) = Inr True \<and>
    PriorSyncMessage_Ack resp = Some a \<and> Ack_Ok a \<and>
    SV_WAL sv' = Some w' \<and> disk_entries v w' = all_entries v w @ [x] \<and> WAL_Buffer w' = [] \<and>
    PriorSyncEvent_Deserialize P (WALEntry_Data x) empty_ProtoEvent = Some ev \<and> ProtoEvent_Message ev = Some resp"
proof -
  obtain ev d where ser: "PriorSyncEvent_Serialize P (prior_event resp) = (ev, Inr d)" using prior_ev.ser_total [OF assms(5)] by blast
  then have m: "ProtoEvent_Message ev = Some resp"
    by (auto simp: PriorSyncEvent_Serialize_def proto_Serialize_def prior_event_def Let_def split: option.splits)
  from assms(2,6) obtain B snapshot msg w' where B: "Nodeinfo_BlockInfo (SV_NodeInfo sv) = Some B"
    and rq: "prior_sync_request marshal M B cv ls le rs re auth = Inr (snapshot, msg)"
    and sn: "SendPriorSync (NewCommunication (SV_Node sv) (SV_Version sv)) Wr (Some snapshot) peer msg = Some (Inr resp)"
    and lg: "log_response L env P resp w = (w', None)" and sv': "SV_WAL sv' = Some w'"
    by (auto simp: PriorSync_PriorSync_def split: if_splits option.splits sum.splits prod.splits)
  from lg ser obtain w1 lsn where w1: "WriteEvent L (env 0) FS_WAL.PriorSync (Inr d) w = (w1, Inr lsn)" "Flush L (env 1) w1 = (w', Inr ())"
    by (auto simp: log_response_def split: prod.splits sum.splits)
  from prior_ev.written_flushed [OF assms(1,3,4,5) ser w1] obtain x where
    x: "disk_entries v w' = all_entries v w @ [x]" "WAL_Buffer w' = []"
      "PriorSyncEvent_Deserialize P (WALEntry_Data x) empty_ProtoEvent = Some ev" by blast
  from rq obtain builder where t: "GenerateMerkleTree M B ls le = Inr builder" "ToSnapshot M builder = Inr snapshot"
    by (auto simp: prior_sync_request_def Let_def split: sum.splits)
  from sn obtain a where a: "PriorSyncMessage_Ack resp = Some a" "Ack_Ok a"
    by (auto simp: SendPriorSync_def split: if_splits option.splits sum.splits)
  from prior_sync_request_verifies [OF rq] B t sn a sv' x m show ?thesis by blast
qed

definition demo_prior_answer :: PriorSyncMessage where
  "demo_prior_answer = empty_PriorSyncMessage\<lparr>PriorSyncMessage_Ack := Some (ack True [])\<rparr>"

definition demo_prior_wire :: "unit wire" where
  "demo_prior_wire = (demo_wire empty_PriorSyncMessage empty_PriorSyncMessage)\<lparr>
     wire_prior := \<lparr>Marshal = (\<lambda>_. Inr [3]), Unmarshal = (\<lambda>_. Inl [])\<rparr>,
     wire_prior_env := \<lparr>Marshal = (\<lambda>_. Inr [9]), Unmarshal = (\<lambda>_. Inr (EnvResponse (Some demo_prior_answer)))\<rparr>\<rparr>"

definition demo_prior_codec :: "PriorSyncMessage proto_ops" where
  "demo_prior_codec = \<lparr>proto_Marshal = (\<lambda>_. Some [1]), proto_Unmarshal = (\<lambda>_ _. Some demo_prior_answer)\<rparr>"

definition demo_prior_sv :: "(log_view, unit) Syncvars" where
  "demo_prior_sv = \<lparr>SV_Version = 1, SV_NodeInfo = empty_Nodeinfo\<lparr>Nodeinfo_BlockInfo := Some demo_store\<rparr>, SV_WAL = Some demo_wal,
     SV_Node = Some (demo_host [[1], [9]])\<rparr>"

lemma demo_prior_answered:
  "SendPriorSync (NewCommunication (Some (demo_host [[1], [9]])) 1) demo_prior_wire (Some snap) demo_node msg = Some (Inr demo_prior_answer)"
proof -
  let ?H = "demo_host [[1], [9]]" and ?W = "demo_prior_wire"
  have one: "PutUvarint 1 = [1]" by (simp add: PutUvarint.simps word_le_nat_alt)
  have H: "reaches ?H 1 (addr_info demo_node) [PriorSyncProtocol] PriorSyncProtocol"
    using demo_connect by (simp add: reaches_def) (simp add: demo_host_def addr_info_def demo_node_def)
  have fr: "frame_writes (wire_prior ?W) q = [[1], [3]]" for q by (simp add: frame_writes_def demo_prior_wire_def one)
  have an: "all_answers ?H PriorSyncProtocol [[1], [3]] = [[1], [9]]" by (simp add: all_answers_def demo_host_def upt_rec)
  have rd: "ReadDelimited (wire_prior_env ?W) \<lparr>rs_chunks = [[1], [9]], rs_end = e\<rparr> =
      Some (\<lparr>rs_chunks = [], rs_end = e\<rparr>, Inr (EnvResponse (Some demo_prior_answer)))" for e
    using ReadDelimited_frame [of "wire_prior_env ?W" "[9]" "EnvResponse (Some demo_prior_answer)" "[[1], [9]]" "\<lparr>rs_chunks = [], rs_end = e\<rparr>"]
    by (simp add: frame_def one demo_prior_wire_def)
  have m: "\<not> isl (Marshal (wire_prior ?W) q)" for q by (simp add: demo_prior_wire_def)
  have d: "host_SetReadDeadline ?H = None" by (simp add: demo_host_def)
  have loop: "heartbeat_loop (envelope_config (wire_prior_env ?W) m0) ?H \<lparr>rs_chunks = [[1], [9]], rs_end = e\<rparr> =
      Some (Inr demo_prior_answer)" for m0 e
    by (subst heartbeat_loop.simps) (simp add: envelope_config_def rd d)
  show ?thesis
    using open_request_reaches [OF H m]
    by (simp add: SendPriorSync_def NewCommunication_def SendProtoDelimitedWithHeartbeat_def
        sendProtoDelimitedWithHeartbeatGeneric_def fr an loop)
      (simp add: demo_prior_answer_def ack_def)
qed

lemma demo_prior_request: "\<exists>snap msg. prior_sync_request (\<lambda>_. Inr (Some [])) leaf_tree demo_store 1 0 6 0 6 None = Inr (snap, msg)"
proof -
  obtain snap where "buildMerkleSnapshot leaf_tree demo_store 6 = Inr snap" using demo_buildMerkleSnapshot by blast
  then obtain t where t: "GenerateMerkleTree leaf_tree demo_store 0 6 = Inr t" "ToSnapshot leaf_tree t = Inr snap"
    by (auto simp: buildMerkleSnapshot_def split: sum.splits)
  have "\<exists>c. CreatefromPB (\<lambda>_. Inr (Some [])) q 1 = Inr c" for q
    by (simp add: CreatefromPB_def check_version_def checksum_Create_def)
  from this [of "the (PriorSyncMessage_Priorsync (prior_message (GetBlockDetails demo_store) 0 6 None [] 0))"] t
  show ?thesis by (auto simp: prior_sync_request_def Let_def)
qed

lemma demo_prior_logged:
  "\<exists>w'. log_response list_log (\<lambda>_. demo_env) demo_prior_codec demo_prior_answer demo_wal = (w', None)"
proof -
  obtain ev d where ser: "PriorSyncEvent_Serialize demo_prior_codec (prior_event demo_prior_answer) = (ev, Inr d)"
    by (simp add: PriorSyncEvent_Serialize_def proto_Serialize_def prior_event_def demo_prior_codec_def Let_def)
  have s: "env_save_ok demo_env" using env_ok_demo by (simp add: env_ok_def)
  have room: "WAL_currentLSN demo_wal \<noteq> MaxUint64" by (simp add: demo_wal_def)
  obtain w1 where w1: "WriteEvent list_log demo_env FS_WAL.PriorSync (Inr d) demo_wal = (w1, Inr (WAL_currentLSN demo_wal + 1))"
    using WriteEvent_reliable [OF tidwall_list_log reliable_list_log wal_ok_demo s room] by blast
  have "wal_ok norm_log w1" using WriteEvent_ok [OF tidwall_list_log wal_ok_demo room w1] by blast
  from flushBuffer_reliable [OF tidwall_list_log reliable_list_log this s] obtain w2 where
    "flushBuffer list_log demo_env w1 = (w2, Inr ())" by blast
  with w1 ser show ?thesis by (simp add: log_response_def Flush_def)
qed

theorem prior_sync_logged_witness:
  "\<exists>sv' w'. PriorSync_PriorSync list_log (\<lambda>_. demo_env) demo_prior_codec (\<lambda>_. Inr (Some [])) leaf_tree demo_prior_wire 1 0 6 0 6
       (Some demo_node) None demo_prior_sv = Some (sv', Inr demo_prior_answer) \<and>
     SV_WAL sv' = Some w' \<and> length (disk_entries norm_log w') = Suc (length (all_entries norm_log demo_wal))"
proof -
  obtain snap msg where rq: "prior_sync_request (\<lambda>_. Inr (Some [])) leaf_tree demo_store 1 0 6 0 6 None = Inr (snap, msg)"
    using demo_prior_request by blast
  obtain w' where w': "log_response list_log (\<lambda>_. demo_env) demo_prior_codec demo_prior_answer demo_wal = (w', None)"
    using demo_prior_logged by blast
  have run: "PriorSync_PriorSync list_log (\<lambda>_. demo_env) demo_prior_codec (\<lambda>_. Inr (Some [])) leaf_tree demo_prior_wire 1 0 6 0 6
      (Some demo_node) None demo_prior_sv = Some (demo_prior_sv\<lparr>SV_WAL := Some w'\<rparr>, Inr demo_prior_answer)"
    by (simp add: PriorSync_PriorSync_def demo_prior_sv_def rq demo_prior_answered w')
  have wal: "SV_WAL demo_prior_sv = Some demo_wal" "WAL_currentLSN demo_wal \<noteq> MaxUint64"
    by (simp_all add: demo_prior_sv_def demo_wal_def)
  have wf: "wf_proto demo_prior_codec FS_WAL.PriorSync (prior_event demo_prior_answer)"
    by (simp add: wf_proto_def prior_event_def demo_prior_codec_def)
  from prior_sync_logged [OF tidwall_list_log wal(1) wal_ok_demo wal(2) wf run] obtain x where
    "disk_entries norm_log w' = all_entries norm_log demo_wal @ [x]" by auto
  with run show ?thesis by auto
qed

end
