(* ===== verification/FS_Catchup.thy ===== *)
theory FS_Catchup
  imports FS_Entry FS_DataSync FS_Reconcile FS_AccountsClient
begin

text \<open>
  \<open>core/catchup/catchup.go\<close>: the driver that runs the phases one after another, availability, headers, data, accounts,
  reconciliation, and the blocks of the PoTS window. The phases are the definitions of the other theories; the driver
  threads one write-ahead log and one database through them.

  The record \<open>cu_env\<close> collects their parameters. Those that differ between the first pass and the pass over the PoTS
  gap take the number of the pass, 0 or 1. A panic, or a phase that does not return, is \<open>None\<close>.
\<close>

section \<open>Phases in sequence\<close>

text \<open>A phase fails with an error or hands a value to the next one.\<close>

definition seq_phase :: "('s \<times> ('e + 'a)) option \<Rightarrow> ('a \<Rightarrow> 's \<Rightarrow> ('s \<times> ('e + 'r)) option) \<Rightarrow> ('s \<times> ('e + 'r)) option" where
  "seq_phase m f = (case m of None \<Rightarrow> None | Some (s, Inl e) \<Rightarrow> Some (s, Inl e) | Some (s, Inr a) \<Rightarrow> f a s)"

lemma seq_phase_Inr:
  "seq_phase m f = Some (s', Inr r) \<longleftrightarrow> (\<exists>s a. m = Some (s, Inr a) \<and> f a s = Some (s', Inr r))"
  by (auto simp: seq_phase_def split: option.splits sum.splits)

lemma seq_phase_simps [simp]:
  "seq_phase None f = None" "seq_phase (Some (s, Inl e)) f = Some (s, Inl e)" "seq_phase (Some (s, Inr a)) f = f a s"
  by (simp_all add: seq_phase_def)

datatype gap_error =
    GapReadFailed pots_error
  | GapNodeinfo string
  | GapRequest string
  | GapHeaderSync hs_error
  | GapDataSync ds_error
  | GapReconcile recon_error

datatype cu_error =
    CUNotSet
  | CUNoPeers
  | CUProbe string
  | CUNoneAvailable u64
  | CUNothing u64 u64
  | CUHeaderSync hs_error
  | CUDataSync ds_error
  | CUReconcile recon_error
  | CUPots gap_error

type_synonym av_response = "NodeInfo option AvailabilityResponse"

record ('l, 'd, 't, 'b, 'c, 'ta, 'wa, 'st) cu_env =
  cu_log :: "'l log_ops"
  cu_now :: i64
  cu_wire :: "'b wire"
  cu_order :: "nat \<Rightarrow> 'b Nodeinfo list \<Rightarrow> 'b Nodeinfo list"
  cu_hs_disk :: "nat \<Rightarrow> nat \<Rightarrow> nat \<Rightarrow> nat \<Rightarrow> fs_env"
  cu_hs_codec :: "HeaderSyncResponse proto_ops"
  cu_put_headers :: "Header list \<Rightarrow> 'd \<Rightarrow> 'd \<times> bool"
  cu_hs_net :: "nat \<Rightarrow> (NodeInfo option, 't, 'b) hs_net"
  cu_ds_disk :: "nat \<Rightarrow> nat \<Rightarrow> nat \<Rightarrow> fs_env"
  cu_ds_codec :: "'b DataSyncResponse proto_ops"
  cu_put_data :: "'b NonHeaders list \<Rightarrow> 'd \<Rightarrow> 'd \<times> bool"
  cu_ds_net :: "nat \<Rightarrow> ('b, NodeInfo option) ds_net"
  cu_IDFromBytes :: "bytes \<Rightarrow> string + bytes"
  cu_NewMultiaddrBytes :: "bytes \<Rightarrow> string + bytes"
  cu_art :: "('ta, 'wa) art_ops"
  cu_acc_wire :: "'st acc_wire"
  cu_keyCount :: "string + u64"
  cu_nonces :: "(string + u64 list) list"
  cu_chunk_order :: "nat list"
  cu_pages :: "'d \<Rightarrow> 'd"
  cu_accounts :: "'d AccountManager"
  cu_hexlow :: "bytes \<Rightarrow> string"
  cu_headers :: "nat \<Rightarrow> header_source"
  cu_keys :: "nat \<Rightarrow> TaggedAccounts \<Rightarrow> string list"
  cu_rec_disk :: "nat \<Rightarrow> nat \<Rightarrow> fs_env"
  cu_block_codec :: "'c block_codec"
  cu_close_disk :: fs_env

record ('l, 'd) cu_state =
  CU_wal :: "'l WAL option"
  CU_db :: 'd

section \<open>Helpers\<close>

text \<open>\<open>filterAvailable\<close> of a list without nil responses, which the probe never collects.\<close>

definition filterAvailable :: "av_response list \<Rightarrow> u64 \<Rightarrow> av_response list" where
  "filterAvailable remotes fromBlock = filter (\<lambda>r. AvailabilityResponse_IsAvailable r \<and>
     (case AvailabilityResponse_Auth r of None \<Rightarrow> False | Some a \<Rightarrow> Auth_UUID a \<noteq> []) \<and>
     \<not> ucast (AvailabilityResponse_BlockMerge r) < fromBlock) remotes"

definition highestBlock :: "av_response list \<Rightarrow> u64" where
  "highestBlock remotes = foldl (\<lambda>tip r. if ucast (AvailabilityResponse_BlockMerge r) > tip
     then ucast (AvailabilityResponse_BlockMerge r) else tip) 0 remotes"

text \<open>A multiaddress that does not parse is left out.\<close>

definition remoteToNodeinfo :: "(bytes \<Rightarrow> string + bytes) \<Rightarrow> (bytes \<Rightarrow> string + bytes) \<Rightarrow> av_response \<Rightarrow> string + 'b Nodeinfo" where
  "remoteToNodeinfo IDFromBytes NewMultiaddrBytes r = (case AvailabilityResponse_Nodeinfo r of
     None \<Rightarrow> Inl ''nil availability response or nodeinfo''
   | Some ni \<Rightarrow> (case IDFromBytes (NodeInfo_PeerId ni) of Inl err \<Rightarrow> Inl (''parse peer ID: '' @ err)
      | Inr pid \<Rightarrow> Inr (empty_Nodeinfo\<lparr>Nodeinfo_PeerID := pid,
          Nodeinfo_Multiaddr := List.map_filter (\<lambda>b. case NewMultiaddrBytes b of Inl _ \<Rightarrow> None | Inr ma \<Rightarrow> Some ma) (NodeInfo_Multiaddrs ni),
          Nodeinfo_Version := ucast (NodeInfo_Version ni)\<rparr>)))"

definition header_request :: "Tag \<Rightarrow> Auth option \<Rightarrow> HeaderSyncRequest" where
  "header_request tag auth = \<lparr>HeaderSyncRequest_Tag = Some tag, HeaderSyncRequest_Ack = Some (ack True []),
     HeaderSyncRequest_Phase = Some (phase HEADER_SYNC_REQUEST HEADER_SYNC_RESPONSE True [] auth)\<rparr>"

definition data_request :: "Tag \<Rightarrow> u16 \<Rightarrow> Auth option \<Rightarrow> DataSyncRequest" where
  "data_request tag ver auth = \<lparr>DataSyncRequest_Tag = Some tag, DataSyncRequest_Version = ucast ver,
     DataSyncRequest_Ack = Some (ack True []),
     DataSyncRequest_Phase = Some (phase DATA_SYNC_REQUEST DATA_SYNC_RESPONSE True [] auth)\<rparr>"

section \<open>The phases of Run\<close>

text \<open>Phase 1: the probe with a client of its own.\<close>

definition probe :: "('l, 'd, 't, 'b, 'c, 'ta, 'wa, 'st) cu_env \<Rightarrow> ('l, 'b) Syncvars \<Rightarrow> nat \<Rightarrow> 'b Nodeinfo list \<Rightarrow> u64 \<Rightarrow>
    (string + av_response list) option" where
  "probe E sv k peers fromBlock = map_option snd (SendMultipleAvailabilityRequest (cu_wire E) (cu_order E k) (Some sv) peers fromBlock
     MaxUint64 (SetSyncVars_av (SV_Version sv) (SV_NodeInfo sv) (SV_Node sv) (SV_WAL sv) (NewAvailability :: ('l, 'b) Availability)))"

text \<open>Phases 2 and 3; \<open>k\<close> is the pass. The header sync runs without confirmation.\<close>

definition header_phase :: "('l, 'd, 't, 'b, 'c, 'ta, 'wa, 'st) cu_env \<Rightarrow> ('l, 'b) Syncvars \<Rightarrow> nat \<Rightarrow> Tag \<Rightarrow> Auth option \<Rightarrow>
    av_response list \<Rightarrow> ('l, 'd) cu_state \<Rightarrow> ('l, 'd) cu_state \<times> (hs_error + av_response list \<times> DataSyncRequest)" where
  "header_phase E sv k tag auth remotes s =
     (case HeaderSync_HeaderSync (cu_log E) (cu_hs_disk E k) (cu_hs_codec E) (cu_put_headers E) (cu_hs_net E k) (SV_Version sv) True
         (Some (header_request tag auth)) False \<lparr>HS_wal = CU_wal s, HS_db = CU_db s, HS_auth = None, HS_remotes = remotes\<rparr> of
        (h, res) \<Rightarrow> (\<lparr>CU_wal = HS_wal h, CU_db = HS_db h\<rparr>, (case res of Inl e \<Rightarrow> Inl e
           | Inr None \<Rightarrow> Inr (HS_remotes h, data_request tag (SV_Version sv) auth)
           | Inr (Some req) \<Rightarrow> Inr (HS_remotes h, req))))"

definition data_phase :: "('l, 'd, 't, 'b, 'c, 'ta, 'wa, 'st) cu_env \<Rightarrow> ('l, 'b) Syncvars \<Rightarrow> nat \<Rightarrow> DataSyncRequest \<Rightarrow>
    av_response list \<Rightarrow> ('l, 'd) cu_state \<Rightarrow> (('l, 'd) cu_state \<times> (ds_error + TaggedAccounts option)) option" where
  "data_phase E sv k req remotes s = map_option (\<lambda>(d, res). (\<lparr>CU_wal = DS_wal d, CU_db = DS_db d\<rparr>, res))
     (DataSync_DataSync (cu_log E) (cu_ds_disk E k) (cu_ds_codec E) (cu_put_data E) (cu_ds_net E k) (SV_Version sv) True (Some req) remotes
        \<lparr>DS_wal = CU_wal s, DS_db = CU_db s, DS_tags = NewTagging\<rparr>)"

text \<open>Phase 4, whose error is only logged. The pages that arrive meanwhile are written by the handler of the data stream.\<close>

definition account_phase :: "('l, 'd, 't, 'b, 'c, 'ta, 'wa, 'st) cu_env \<Rightarrow> ('l, 'b) Syncvars \<Rightarrow> av_response \<Rightarrow> ('l, 'd) cu_state \<Rightarrow>
    (('l, 'd) cu_state \<times> (cu_error + unit)) option" where
  "account_phase E sv remote s =
     (case AccountSync_AccountSync (cu_IDFromBytes E) (cu_NewMultiaddrBytes E) (cu_art E) (cu_acc_wire E) (cu_keyCount E) (cu_nonces E)
         (cu_chunk_order E) (Some remote) (SetSyncVars_as (SV_Node sv) (SV_Version sv) NewAccountSync) of
        None \<Rightarrow> None | Some _ \<Rightarrow> Some (s\<lparr>CU_db := cu_pages E (CU_db s)\<rparr>, Inr ()))"

text \<open>Phase 5. \<open>SetSyncVars\<close> of the reconciliation does not take a host, so its targeted fetch has none.\<close>

definition LRU_CACHE_CAPACITY :: int where "LRU_CACHE_CAPACITY = 200"

definition recon_remote :: "('l, 'd, 't, 'b, 'c, 'ta, 'wa, 'st) cu_env \<Rightarrow> ('l, 'b) Syncvars \<Rightarrow> av_response \<Rightarrow> remote" where
  "recon_remote E sv r = Some (\<lambda>missing. (case FetchAccounts (cu_IDFromBytes E) (cu_NewMultiaddrBytes E) (cu_acc_wire E) (Some r)
       (sorted_list_of_set missing) (SetSyncVars_as None (SV_Version sv) NewAccountSync) of
     Some (Inr resp) \<Rightarrow> Some (map (\<lambda>a. \<lparr>RemoteAccount_Address = pbAccount_Address a, RemoteAccount_Nonce = pbAccount_Nonce a\<rparr>)
       (AccountsResp_Accounts resp))
   | _ \<Rightarrow> None))"

definition recon_phase :: "('l, 'd, 't, 'b, 'c, 'ta, 'wa, 'st) cu_env \<Rightarrow> ('l, 'b) Syncvars \<Rightarrow> nat \<Rightarrow> TaggedAccounts option \<Rightarrow> av_response \<Rightarrow>
    u64 \<Rightarrow> u64 \<Rightarrow> ('l, 'd) cu_state \<Rightarrow> (('l, 'd) cu_state \<times> (recon_error + nat \<times> string list)) option" where
  "recon_phase E sv k accounts remote fromBlock toBlock s =
     map_option (\<lambda>(r, committed, failed, err). (\<lparr>CU_wal = R_wal r, CU_db = R_db r\<rparr>,
         case err of Some e \<Rightarrow> Inl e | None \<Rightarrow> Inr (committed, failed)))
       (Reconcile (cu_log E) (cu_rec_disk E k) (cu_accounts E) (cu_hexlow E) (cu_headers E k) (recon_remote E sv remote)
          (case accounts of None \<Rightarrow> [] | Some t \<Rightarrow> cu_keys E k t) fromBlock toBlock
          \<lparr>R_cache = Some (NewLRUCache LRU_CACHE_CAPACITY), R_wal = CU_wal s, R_db = CU_db s\<rparr>)"

section \<open>The blocks of the PoTS window\<close>

definition wal_blocks :: "'c ZKBlock list \<Rightarrow> hash_map" where
  "wal_blocks bs = fold (\<lambda>b m. AList.update (ZKBlock_BlockNumber b) (ZKBlock_BlockHash b) m) bs []"

text \<open>The index of the PoTS log over the log as it is now: they share it.\<close>

definition shared_wal :: "('l, 'd) cu_state \<Rightarrow> 'l PoTSWAL \<Rightarrow> 'l PoTSWAL" where
  "shared_wal s pw = (case CU_wal s of None \<Rightarrow> pw | Some w \<Rightarrow> pw\<lparr>PW_wal := w\<rparr>)"

definition gap_sync :: "('l, 'd, 't, 'b, 'c, 'ta, 'wa, 'st) cu_env \<Rightarrow> ('l, 'b) Syncvars \<Rightarrow> Tag \<Rightarrow> av_response list \<Rightarrow> u64 \<Rightarrow>
    ('l, 'd) cu_state \<Rightarrow> (('l, 'd) cu_state \<times> (gap_error + unit)) option" where
  "gap_sync E sv tag remotes syncedTip s =
     (case header_phase E sv 1 tag (AvailabilityResponse_Auth (hd remotes)) remotes s of
        (s1, Inl e) \<Rightarrow> Some (s1, Inl (GapHeaderSync e))
      | (s1, Inr (remotes1, req)) \<Rightarrow>
         (case data_phase E sv 1 req remotes1 s1 of None \<Rightarrow> None
          | Some (s2, Inl e) \<Rightarrow> Some (s2, Inl (GapDataSync e))
          | Some (s2, Inr accounts) \<Rightarrow>
             (case (case accounts of Some t \<Rightarrow>
                  if TaggedAccounts_Accounts t = None \<or> TaggedAccounts_Accounts t = Some Map.empty then Some (s2, Inr (0, []))
                  else recon_phase E sv 1 accounts (hd remotes1) (syncedTip + 1) MaxUint64 s2
                | None \<Rightarrow> Some (s2, Inr (0, []))) of
                None \<Rightarrow> None | Some (s3, Inl e) \<Rightarrow> Some (s3, Inl (GapReconcile e)) | Some (s3, Inr _) \<Rightarrow> Some (s3, Inr ()))))"

definition runPoTS :: "('l, 'd, 't, 'b, 'c, 'ta, 'wa, 'st) cu_env \<Rightarrow> ('l, 'b) Syncvars \<Rightarrow> ('l, 'b) PoTS \<Rightarrow> av_response list \<Rightarrow> u64 \<Rightarrow>
    ('l, 'd) cu_state \<Rightarrow> (('l, 'd) cu_state \<times> (gap_error + unit)) option" where
  "runPoTS E sv potsRouter remotes syncedTip s = (case GetWAL potsRouter of Inl _ \<Rightarrow> Some (s, Inr ())
   | Inr pw0 \<Rightarrow> let pw = shared_wal s pw0 in
     (case Read (cu_log E) (cu_block_codec E) pw 0 0 of None \<Rightarrow> None
      | Some (Inl e) \<Rightarrow> Some (s, Inl (GapReadFailed e))
      | Some (Inr walBlocks) \<Rightarrow>
         if walBlocks = [] then Some (s, Inr ())
         else (case (remoteToNodeinfo (cu_IDFromBytes E) (cu_NewMultiaddrBytes E) (hd remotes) :: string + 'b Nodeinfo) of
            Inl e \<Rightarrow> Some (s, Inl (GapNodeinfo e))
          | Inr remoteNodeInfo \<Rightarrow>
             (case SendPoTSRequest_pots (cu_wire E) potsRouter
                 (Some (Build (AddAuth (AvailabilityResponse_Auth (hd remotes)) (AddLatestBlock (GetLatestBlockNumber pw)
                    (AddMap (Some (wal_blocks walBlocks)) NewPoTSRequestBuilder))))) remoteNodeInfo of
                None \<Rightarrow> None
              | Some (Inl e) \<Rightarrow> Some (s, Inl (GapRequest e))
              | Some (Inr resp) \<Rightarrow> (case PoTSResponse_Tag resp of None \<Rightarrow> Some (s, Inr ())
                 | Some tag \<Rightarrow>
                    if Tag_Range tag = [] \<and> Tag_BlockNumber tag = [] then Some (s, Inr ())
                    else seq_phase (gap_sync E sv tag remotes syncedTip s) (\<lambda>_ s1.
                      let pw' = fst (Close_PoTSWAL (cu_log E) (cu_close_disk E) (shared_wal s1 pw))
                      in Some (s1\<lparr>CU_wal := map_option (\<lambda>_. PW_wal pw') (CU_wal s1)\<rparr>, Inr ())))))))"

section \<open>Run\<close>

text \<open>The check of the probe's answers: the peers that remain and the tip.\<close>

definition choose_remotes :: "u64 \<Rightarrow> string + av_response list \<Rightarrow> cu_error + av_response list \<times> u64" where
  "choose_remotes fromBlock res = (case res of Inl e \<Rightarrow> Inl (CUProbe e)
     | Inr rs \<Rightarrow> let remotes = filterAvailable rs fromBlock; remoteTip = highestBlock remotes
        in if remotes = [] then Inl (CUNoneAvailable fromBlock)
           else if remoteTip < fromBlock then Inl (CUNothing remoteTip fromBlock)
           else Inr (remotes, remoteTip))"

text \<open>\<open>SetWAL\<close> returns nil when the index cannot be rebuilt; the deferred \<open>Close\<close> on it panics.\<close>

definition open_pots :: "('l, 'd, 't, 'b, 'c, 'ta, 'wa, 'st) cu_env \<Rightarrow> ('l, 'b) Syncvars \<Rightarrow> ('l, 'd) cu_state \<Rightarrow> ('l, 'b) PoTS option" where
  "open_pots E sv s = (case SetWAL (cu_log E) (CU_wal s)
       (SetSyncVars_pots (cu_now E) (SV_Version sv) (SV_NodeInfo sv) (SV_Node sv) NewPoTS) of
     None \<Rightarrow> None | Some None \<Rightarrow> None | Some (Some p) \<Rightarrow> Some p)"

text \<open>Phase 6 first asks for fresh tokens; when nobody answers the old ones stay.\<close>

definition refresh_remotes :: "('l, 'd, 't, 'b, 'c, 'ta, 'wa, 'st) cu_env \<Rightarrow> ('l, 'b) Syncvars \<Rightarrow> 'b Nodeinfo list \<Rightarrow> av_response list \<Rightarrow>
    av_response list option" where
  "refresh_remotes E sv peers remotes = map_option (\<lambda>res. case res of Inl _ \<Rightarrow> remotes
     | Inr rs \<Rightarrow> let fresh = filterAvailable rs 0 in if fresh = [] then remotes else fresh) (probe E sv 1 peers 0)"

definition lift_error :: "('e \<Rightarrow> cu_error) \<Rightarrow> 's \<times> ('e + 'a) \<Rightarrow> 's \<times> (cu_error + 'a)" where
  "lift_error f = map_prod id (map_sum f id)"

definition range_tag :: "u64 \<Rightarrow> u64 \<Rightarrow> Tag" where
  "range_tag fromBlock toBlock = \<lparr>Tag_BlockNumber = [], Tag_Range = [\<lparr>RangeTag_Start = fromBlock, RangeTag_End = toBlock\<rparr>]\<rparr>"

definition run_phases :: "('l, 'd, 't, 'b, 'c, 'ta, 'wa, 'st) cu_env \<Rightarrow> ('l, 'b) Syncvars \<Rightarrow> u64 \<Rightarrow> 'b Nodeinfo list \<Rightarrow> ('l, 'b) PoTS \<Rightarrow>
    av_response list \<Rightarrow> u64 \<Rightarrow> ('l, 'd) cu_state \<Rightarrow> (('l, 'd) cu_state \<times> (cu_error + unit)) option" where
  "run_phases E sv fromBlock peers potsRouter remotes remoteTip s =
     seq_phase (Some (lift_error CUHeaderSync (header_phase E sv 0 (range_tag fromBlock remoteTip)
         (AvailabilityResponse_Auth (hd remotes)) remotes s)))
       (\<lambda>(remotes1, req) s1. seq_phase (map_option (lift_error CUDataSync) (data_phase E sv 0 req remotes1 s1))
       (\<lambda>accounts s2. seq_phase (account_phase E sv (hd remotes1) s2)
       (\<lambda>_ s3. seq_phase (map_option (lift_error CUReconcile) (recon_phase E sv 0 accounts (hd remotes1) fromBlock remoteTip s3))
       (\<lambda>_ s4. case refresh_remotes E sv peers remotes1 of None \<Rightarrow> None
        | Some remotes2 \<Rightarrow> map_option (lift_error CUPots) (runPoTS E sv potsRouter remotes2 remoteTip s4)))))"

definition Run :: "('l, 'd, 't, 'b, 'c, 'ta, 'wa, 'st) cu_env \<Rightarrow> ('l, 'b) Syncvars option \<Rightarrow> u64 \<Rightarrow> 'b Nodeinfo list \<Rightarrow>
    ('l, 'd) cu_state \<Rightarrow> (('l, 'd) cu_state \<times> (cu_error + unit)) option" where
  "Run E syncVars fromBlock peers s = (case syncVars of None \<Rightarrow> Some (s, Inl CUNotSet)
   | Some sv \<Rightarrow>
      if peers = [] then Some (s, Inl CUNoPeers)
      else (case probe E sv 0 peers fromBlock of None \<Rightarrow> None
         | Some res \<Rightarrow> (case choose_remotes fromBlock res of Inl e \<Rightarrow> Some (s, Inl e)
            | Inr (remotes, remoteTip) \<Rightarrow> (case open_pots E sv s of None \<Rightarrow> None
               | Some potsRouter \<Rightarrow> run_phases E sv fromBlock peers potsRouter remotes remoteTip s))))"

end
