(* ===== verification/FS_Catchup_Props.thy ===== *)
theory FS_Catchup_Props
  imports FS_Catchup FS_HeaderSync_Props FS_DataSync_Props FS_Reconcile_Props FS_PoTS_WAL_Props FS_Wire_Props
begin

text \<open>
  What a catch-up that reports success has done, how the tip it works with is computed, and what becomes of the blocks
  of the PoTS window.
\<close>

section \<open>Availability\<close>





section \<open>The PoTS window\<close>

lemma Read_nothing: "Read L C pw 0 0 = Some (Inr [])"
  by (simp add: Read_def go_int_def Let_def)

lemma runPoTS_idle: "runPoTS E sv p remotes tip s = Some (s, Inr ())"
  by (simp add: runPoTS_def Read_nothing Let_def split: sum.splits)

section \<open>The phases\<close>













lemma lift_error_Inr [simp]: "lift_error f m = (s, Inr a) \<longleftrightarrow> m = (s, Inr a)"
  by (cases m, cases "snd m") (auto simp: lift_error_def)

lemma lift_error_Some [simp]: "map_option (lift_error f) m = Some (s, Inr a) \<longleftrightarrow> m = Some (s, Inr a)"
  by (cases m) auto

section \<open>Properties\<close>


text \<open>The last phase fills no gap: whatever blocks the PoTS log holds, whatever peers there are and whatever they would answer,
  it returns without an error, without a request, and leaves the log and the database as they are, because it reads the log
  over the range from 0 to 0, which is empty.\<close>

theorem pots_gap_never_filled:
  "runPoTS E sv potsRouter remotes syncedTip s = Some (s, Inr ())"
  by (rule runPoTS_idle)

section \<open>A catch-up by one block\<close>













end
