(* ===== verification/FS_Tip_Props.thy ===== *)
theory FS_Tip_Props
  imports FS_Catchup_Props FS_Router_Props
begin

text \<open>
  The tip a catch-up works with, seen from the server that answers its probe: the arithmetic of the merge size near
  2^64, and what \<open>highestBlock\<close> makes of the answer.
\<close>

lemma bits_two64: "2 ^ 63 \<le> n \<Longrightarrow> n < 2 ^ 64 \<Longrightarrow> bits n = 64"
  using bits_unique [of 63 n] by simp

lemma round_near_top:
  assumes "2 ^ 64 - 1024 \<le> n" "n < (2 :: nat) ^ 64"
  shows "round53 n = 2 ^ 64"
proof -
  have b: "bits n = 64" using assms by (intro bits_two64) simp_all
  define f where "f = 2 ^ 64 - n"
  have f: "1 \<le> f" "f \<le> 1024" "n = 2 ^ 64 - f" using assms by (auto simp: f_def)
  have n: "n = (2 ^ 53 - 1) * 2048 + (2048 - f)" using f by simp
  have r: "n mod 2048 = 2048 - f" using f(1,2) unfolding n by (simp only: mod_mult_self3) simp
  have q: "n div 2048 = 2 ^ 53 - 1" using f(1,2) n by linarith
  have "round53 n = (if n mod 2 ^ 11 > 2 ^ (11 - 1) \<or> n mod 2 ^ 11 = 2 ^ (11 - 1) \<and> odd (n div 2 ^ 11)
    then n div 2 ^ 11 + 1 else n div 2 ^ 11) * 2 ^ 11"
    using assms(1) by (intro round53_div_mod) (simp_all add: b)
  then show ?thesis using f(2) by (auto simp: q r)
qed

lemma merge_near_top:
  assumes "2 ^ 64 - 1024 \<le> n" "n < (2 :: nat) ^ 64"
  shows "half_percent n = 92233720368547760"
proof -
  let ?x = "2 ^ 64 * 5764607523034235 :: nat"
  have b: "bits ?x = 117" using bits_unique [of 116 ?x] by simp
  have "round53 ?x = (if ?x mod 2 ^ 64 > 2 ^ (64 - 1) \<or> ?x mod 2 ^ 64 = 2 ^ (64 - 1) \<and> odd (?x div 2 ^ 64)
    then ?x div 2 ^ 64 + 1 else ?x div 2 ^ 64) * 2 ^ 64"
    by (intro round53_div_mod) (simp_all only: b, simp_all)
  then have "round53 ?x = ?x" by simp
  then show ?thesis by (simp add: half_percent_def ceil_mul_def round_near_top [OF assms])
qed

lemma unat_uminus:
  fixes x :: u64
  assumes "1 \<le> x"
  shows "unat (- x) = 2 ^ 64 - unat x"
proof -
  have x: "1 \<le> unat x" "unat x < 2 ^ 64" using assms unsigned_less [of x, where 'a = nat] by (simp_all add: word_le_nat_alt)
  have i: "1 \<le> int (unat x)" "int (unat x) < 2 ^ 64" using x by (simp_all del: of_nat_unat)
  have "int (unat (- x)) = (- int (unat x)) mod 2 ^ 64" by (simp add: uint_word_ariths)
  also have "\<dots> = (2 ^ 64 - int (unat x)) mod 2 ^ 64" by (simp only: diff_conv_add_uminus mod_add_self1)
  also have "\<dots> = 2 ^ 64 - int (unat x)" using i by (intro mod_pos_pos_trivial) simp_all
  finally show ?thesis using x i by (simp del: of_nat_unat)
qed

text \<open>What the server puts into \<open>BlockMerge\<close> for the range of a probe.\<close>

definition probe_merge :: "u64 \<Rightarrow> u32" where
  "probe_merge fromBlock = ucast (word_of_nat (half_percent (unat (- fromBlock))) :: i64)"

lemma probe_merge_low:
  assumes "1 \<le> fromBlock" "fromBlock \<le> 1024"
  shows "probe_merge fromBlock = 2061584304"
proof -
  have "unat fromBlock \<le> 1024" "1 \<le> unat fromBlock" using assms by (simp_all add: word_le_nat_alt)
  moreover have "unat (- fromBlock) = 2 ^ 64 - unat fromBlock" using assms(1) by (rule unat_uminus)
  ultimately have "half_percent (unat (- fromBlock)) = 92233720368547760" by (intro merge_near_top) simp_all
  then show ?thesis by (simp add: probe_merge_def)
qed

text \<open>The tip of a catch-up is not the tip of the chain. The field \<open>BlockMerge\<close> that \<open>highestBlock\<close> takes for the
  server's current block is the merge size of the probed range, a number that depends on \<open>fromBlock\<close> alone, while the server's height is in another field: for
  the first 1024 values of \<open>fromBlock\<close> every server, whatever its chain, gives the tip 2061584304.\<close>

theorem catch_up_tip_is_merge_size:
  assumes "HandleAvailability R (availability_request fromBlock MaxUint64) peer s = Some (s', r)" and "AvailabilityResponse_IsAvailable r"
  shows "highestBlock [r] = ucast (probe_merge fromBlock) \<and> (\<exists>B. block_info s = Some B \<and> AvailabilityResponse_BlockHeight r = GetBlockNumber B) \<and>
    (1 \<le> fromBlock \<and> fromBlock \<le> 1024 \<longrightarrow> highestBlock [r] = 2061584304)"
proof -
  have "AvailabilityResponse_BlockMerge r = probe_merge fromBlock"
    "\<exists>B. block_info s = Some B \<and> AvailabilityResponse_BlockHeight r = GetBlockNumber B"
    using assms by (auto simp: HandleAvailability_def availability_request_def availability_template_def availability_error_def
      GenerateMerkleConfig_def probe_merge_def block_info_def Let_def split: if_splits option.splits prod.splits)
  moreover from this have "highestBlock [r] = ucast (probe_merge fromBlock)" by (simp add: highestBlock_def word_gt_0)
  ultimately show ?thesis using probe_merge_low by auto
qed

definition demo_probe_router :: "(bytes \<rightharpoonup> string, unit, nat) Datarouter" where
  "demo_probe_router = NewDatarouter (Some (empty_Nodeinfo\<lparr>Nodeinfo_Multiaddr := [[4]], Nodeinfo_BlockInfo := Some demo_bodies\<rparr>))
     Map.empty True"

theorem catch_up_tip_is_merge_size_witness:
  "\<exists>s' r. HandleAvailability demo_server_env (availability_request 7 MaxUint64) [1] demo_probe_router = Some (s', r) \<and>
     highestBlock [r] = 2061584304"
proof -
  obtain s' r where r: "HandleAvailability demo_server_env (availability_request 7 MaxUint64) [1] demo_probe_router = Some (s', r)"
    "AvailabilityResponse_IsAvailable r"
    by (simp add: HandleAvailability_def availability_request_def demo_probe_router_def demo_server getAvailabilityLimiter_def Let_def)
  from catch_up_tip_is_merge_size [OF r] r(1) show ?thesis by auto
qed

end
