(* ===== verification/Spec2Isabelle.thy ===== *)
theory Spec2Isabelle
  imports FS_Tagging FS_Hydration FS_Async FS_WAL_Props FS_WAL_Damage FS_Events_Facts FS_LRU_Props
    FS_Reconcile_Props FS_HeaderSync_Props FS_DataSync_Props FS_PoTS FS_PoTS_WAL_Props FS_Router_Props FS_Wire_Props
    FS_AccountsPages_Props FS_Blocks FS_Entry_Props FS_Tip_Props
begin

text \<open>
  Verification of JMDN-FastSync, a Go library that brings a blockchain node up to date from its peers.

  \<^bold>\<open>The program.\<close> A client works in phases. Prior sync sends a checksummed request with a snapshot of the client's Merkle
  tree; the server rebuilds the tree, compares it with its own over the client's range and answers with a match or with
  the tag of the blocks that differ, found by bisection with sub-tree requests back to the client. Header sync cuts the tag
  into batches, fetches them from several remotes with workers, writes each batch to the write-ahead log and then to the
  database, and asks for confirmation with a new prior sync until the trees match. Data sync does the same for block
  bodies, in order, and gathers the accounts touched. Account sync uploads a radix tree of the client's account nonces in
  chunks; the server walks its own account table, fetches every page the tree misses with a pool of workers and streams it
  to the client, which writes and acknowledges it. Reconciliation replays the transactions of these accounts and commits
  balances and nonces. PoTS (proof of time sync) collects what was produced meanwhile. The catch-up runs the phases one after
  another from a known block to the tip that the peers report. The server is a router that
  authenticates every request by a token. Every phase logs to one write-ahead log, from which a restart hydrates.

  \<^bold>\<open>Theories.\<close> (paths under \<open>src/\<close>; definitions keep the names of the code.)
  \<^item> \<open>FS_Prelude\<close>: lists, maps and words; \<open>FS_Types\<close>: messages of \<open>common/proto\<close> and constants; \<open>FS_Json\<close>: encoding/json
    for the log; \<open>FS_Float\<close>: the float64 arithmetic of the merge sizes.
  \<^item> \<open>FS_WAL\<close>, \<open>FS_WAL_Facts\<close>, \<open>FS_WAL_Props\<close>, \<open>FS_WAL_Live\<close>, \<open>FS_WAL_Damage\<close>: \<open>common/WAL/operations.go\<close>. The state is the record \<open>WAL\<close>;
    the segment log is a parameter with the laws \<open>tidwall_log\<close>, instance \<open>list_log\<close>; failures of the disk are the
    record \<open>fs_env\<close>. \<open>wal_reach\<close> is the relation of the runs of successful writes, flushes and
    checkpoints with crashes between them, \<open>wal_any\<close> that of all runs, with failing calls and crashes inside a flush.
  \<^item> \<open>FS_Events\<close>: \<open>common/WAL/adapter.go\<close>; \<open>FS_Async\<close>: \<open>async_buffer.go\<close> as a step relation over all interleavings of
    writers and buffer goroutines; \<open>FS_Hydration\<close>: \<open>hydration.go\<close>; \<open>FS_PoTS_WAL\<close>: \<open>core/pots/pots_wal.go\<close>.
  \<^item> \<open>FS_Tagging\<close>: \<open>tagging/tag.go\<close> and \<open>DivideTags\<close>; \<open>FS_Merkle\<close>: \<open>protocol/merkle/merkle.go\<close> and the snapshot converters;
    \<open>FS_Bisect\<close>: \<open>router/bisection.go\<close>; \<open>FS_Checksum\<close>: the request checksums with CRC32 and SHA-256 written out.
  \<^item> \<open>FS_Router\<close>: \<open>router/data_router.go\<close> and \<open>auth_helper.go\<close>; \<open>FS_PoTS\<close>: the PoTS helpers of the server.
  \<^item> \<open>FS_HeaderSync\<close>, \<open>FS_DataSync\<close>: the client phases; \<open>FS_LRU\<close> and \<open>FS_Reconcile\<close>: \<open>core/reconsillation\<close>, the LRU cache
    as an explicit heap of list nodes.
  \<^item> \<open>FS_Stream\<close>: \<open>internal/pbstream\<close> with bufio and varints; \<open>FS_Messaging\<close>: \<open>common/messaging\<close>; \<open>FS_Comm\<close>:
    \<open>protocol/communication\<close> and the stream handlers of \<open>core/sync\<close>; \<open>FS_Wire_Props\<close>: client and server together.
  \<^item> \<open>FS_Dispatch\<close>: \<open>helper/accounts/accounts_tag.go\<close> and \<open>helper/accounts/dispatcher\<close>, the diff stage and the dispatcher as one
    executable step function over their shared state; \<open>FS_Dispatch_Facts\<close>, \<open>_Props\<close> and \<open>_Live\<close>: its invariants, safety and progress.
  \<^item> \<open>FS_Accounts\<close>: the other account helpers, the account handlers of \<open>data_router.go\<close> and the client's writer;
    \<open>FS_AccountsWire\<close>: their streams; \<open>FS_AccountsClient\<close>: \<open>core/accountsync\<close>. \<open>FS_AccountsSync_Props\<close> joins diff,
    dispatcher and upload, \<open>FS_AccountsPages_Props\<close> the pages and the targeted fetch.
  \<^item> \<open>FS_Entry\<close>: the client entries \<open>core/availability\<close>, \<open>core/pots/pots.go\<close> with \<open>core/pots/helper\<close>, and \<open>PriorSync\<close> of
    \<open>core/priorsync\<close>; \<open>FS_Catchup\<close>: \<open>core/catchup\<close>, every phase above run over one log and one database, whose parameters
    the record \<open>cu_env\<close> collects; \<open>FS_Entry_Props\<close>, \<open>FS_Catchup_Props\<close>, \<open>FS_Tip_Props\<close>: their lemmas; \<open>FS_Blocks\<close>: \<open>helper/Blocks\<close>.

  \<^bold>\<open>Modelling.\<close> Integers keep their width (\<open>u64\<close>, \<open>u32\<close>, \<open>i64\<close>, ...), big integers are \<open>int\<close>. An error is \<open>Inl\<close> or an error
  option, with the text of the code where a caller or a peer sees it; a panic, a nil dereference or a call that never
  returns is \<open>None\<close>. A message pointer that may be nil is an option. Go maps are HOL maps, and where the code ranges over one
  the order is an argument. Goroutines are step relations or arbitrary orders of arrival.

  \<^bold>\<open>Parameters.\<close> What is not in the repository is an argument of the definitions: the segment log (\<open>log_ops\<close>), the file system
  (\<open>fs_env\<close>), the database (\<open>BlockInfo\<close>, account managers), the Merkle tree library (\<open>merkle_ops\<close>, laws \<open>merkle_law\<close>,
  instance \<open>leaf_tree\<close>), token storage (\<open>auth_ops\<close>), rate limiting, libp2p (\<open>host\<close>), protobuf encoding (\<open>codec\<close>,
  \<open>proto_ops\<close>), the network (\<open>hs_net\<close>, \<open>client_net\<close>), the radix tree of nonces (\<open>art_ops\<close>, laws \<open>art_law\<close>, instance
  \<open>list_art\<close>), the account tables (\<open>acct_store\<close>, \<open>client_ops\<close>) and their metadata (\<open>meta_ops\<close>), the hash and address types of
  go-ethereum (\<open>eth_ops\<close>, laws \<open>eth_law\<close>, instance \<open>geth\<close>). Each hypothesis about them has a witness on a concrete instance.

  \<^bold>\<open>What the lemmas show.\<close>
  \<^item> Durability: what is on disk stays gapless and readable whatever fails, and only checkpoints remove from it; along successful
    calls and crashes between them the log holds the whole history but for what checkpoints truncated, and a flush survives a restart; the
    asynchronous buffers lose and reorder nothing within a buffer, hydration returns the last logged state; after one failed
    serialisation no later event becomes durable, and unsaved metadata blocks the reopened log for good.
  \<^item> Agreement: the built tree commits to every height, the bisection tag covers every block that differs, the checksum of
    the client verifies, and the confirmation is exact; header sync with confirmation hands over only after a match.
  \<^item> Batching: header and data batches denote exactly their tag, batches fail only when every remote did, and the order of
    arrival never shows; which ranges make the loops run forever.
  \<^item> Server: no service without a token, well-formed answers, exact data and PoTS answers.
  \<^item> State: reconciliation conserves value, is independent of the cache; it and the header sync hand nothing to the database
    that is not on disk in the log, also when a call fails; the LRU cache and the PoTS
    log refine lists.
  \<^item> Accounts: an account session sends exactly the accounts the client misses, ends unless the client is unreachable (the code
    then can block, \<open>unreachable_client_blocks_diff\<close>), the chunks of the upload denote exactly the client's nonces in any order of the
    workers, and a page is acknowledged only if it was written.
  \<^item> Wire: frames are read back however they are cut unless they are coalesced, and without coalescing a prior-sync exchange is
    the call of the router; the answer of a prior sync is the last log entry when it returns.
  \<^item> Catch-up: success means headers and bodies of exactly the range and a reconciliation over it; the tip of the range is the
    merge size that the server reports, and the PoTS gap is never filled.

  \<^bold>\<open>Bounds and fuel.\<close> The bisection recurses on the layer, at most \<open>LAYER_THRESHOLD\<close> deep; header sync has as many rounds as the
  code (\<open>maxSyncRounds\<close>); retries recurse on the attempts left; stream loops on the bytes still to come. Loops over block
  numbers that can wrap are \<open>partial_function\<close>s, and when they return is a property.

  \<^bold>\<open>Not modelled.\<close> The pool of account managers, the metrics call-back and the failures of the goroutine manager in the account
  sync, the registration of the stream handlers, block pubsub, logging and the command line. Cancellation of
  contexts appears only as the failure of an operation. Time appears as arbitrary values and orders.
\<close>

end
